(* ===== verification/Prelude.thy ===== *)
theory Prelude
  imports Main "HOL-Library.Word" "HOL-Library.List_Lexorder" "HOL-Library.Char_ord"
begin

text \<open>
  What every component shares: I/O error kinds, the results of fallible pure code, the outcomes of
  effectful code that can fail or be interrupted, the fault oracle of the durable-write primitive
  of \<^verbatim>\<open>crates/foundation/src/durable.rs\<close>, machine integers, and the string splitting of
  Rust's standard library.

  A Rust \<^verbatim>\<open>String\<close> is a \<^typ>\<open>string\<close> read as its UTF-8 bytes, so \<open>length\<close> is
  \<^verbatim>\<open>str::len\<close>.  The text of an error message is not modelled; its
  \<^verbatim>\<open>io::ErrorKind\<close>, which the retry policy inspects, is.
\<close>

named_theorems outcome_simps \<open>unfolding rules of the effect combinators\<close>
named_theorems phase_simps \<open>the phase predicates of the two journal machines\<close>

subsection \<open>Error kinds and results\<close>

text \<open>The kinds the code distinguishes; \<open>RawEio\<close> is the operating-system code EIO, which has no kind.\<close>

datatype error_kind =
    NotFound | AlreadyExists | PermissionDenied | InvalidInput | InvalidData | TimedOut
  | StorageFull | QuotaExceeded | ReadOnlyFilesystem | ResourceBusy | Interrupted | WouldBlock
  | BrokenPipe | ConnectionReset | ConnectionAborted | ConnectionRefused | NotConnected
  | HostUnreachable | NetworkUnreachable | NetworkDown | OtherError | RawEio

type_synonym 'a io_result = "error_kind + 'a"

abbreviation is_ok :: "'a io_result \<Rightarrow> bool" where
  "is_ok r \<equiv> \<not> isl r"

definition bind_r :: "'a io_result \<Rightarrow> ('a \<Rightarrow> 'b io_result) \<Rightarrow> 'b io_result" where
  "bind_r r f = (case r of Inl e \<Rightarrow> Inl e | Inr x \<Rightarrow> f x)"

lemma bind_r_simps [simp]:
  "bind_r (Inl e) f = Inl e"
  "bind_r (Inr x) f = f x"
  by (simp_all add: bind_r_def)

lemma bind_r_Inr_iff:
  "bind_r r f = Inr y \<longleftrightarrow> (\<exists>x. r = Inr x \<and> f x = Inr y)"
  by (cases r) auto

text \<open>\<open>check b k\<close> is \<^verbatim>\<open>if !b { return Err(k) }\<close>.\<close>

definition check :: "bool \<Rightarrow> error_kind \<Rightarrow> unit io_result" where
  "check b k = (if b then Inr () else Inl k)"

lemma check_Inr_iff [simp]: "check b k = Inr u \<longleftrightarrow> b"
  by (simp add: check_def)

lemma check_True [simp]: "check True k = Inr ()"
  by (simp add: check_def)

lemma check_False [simp]: "check False k = Inl k"
  by (simp add: check_def)

lemma bind_check_Inr_iff: "bind_r (check b k) f = Inr y \<longleftrightarrow> b \<and> f () = Inr y"
  by (auto simp: check_def)

lemma isl_check [simp]: "isl (check b k) \<longleftrightarrow> \<not> b"
  by (simp add: check_def)

subsection \<open>Effects\<close>

text \<open>
  Effectful code runs to a value, fails with an error its caller may handle, or dies with the
  process.  \<open>Crashed\<close> is not an error: no handler of the code sees it.
\<close>

datatype 'a outcome = Ok 'a | Err error_kind | Crashed

type_synonym ('s, 'a) action = "'s \<Rightarrow> 'a outcome \<times> 's"

definition return_a :: "'a \<Rightarrow> ('s, 'a) action" where
  "return_a x = (\<lambda>s. (Ok x, s))"

definition fail_a :: "error_kind \<Rightarrow> ('s, 'a) action" where
  "fail_a k = (\<lambda>s. (Err k, s))"

definition crash_a :: "('s, 'a) action" where
  "crash_a = (\<lambda>s. (Crashed, s))"

definition bind_a :: "('s, 'a) action \<Rightarrow> ('a \<Rightarrow> ('s, 'b) action) \<Rightarrow> ('s, 'b) action" where
  "bind_a m f = (\<lambda>s. case m s of
     (Ok x, s') \<Rightarrow> f x s' | (Err k, s') \<Rightarrow> (Err k, s') | (Crashed, s') \<Rightarrow> (Crashed, s'))"

text \<open>A fallible read of the state, and Rust's \<^verbatim>\<open>match result { Ok(x) => f(x), Err(e) => h(e) }\<close>.\<close>

definition read_a :: "('s \<Rightarrow> 'a io_result) \<Rightarrow> ('s, 'a) action" where
  "read_a f = (\<lambda>s. case f s of Inl k \<Rightarrow> (Err k, s) | Inr x \<Rightarrow> (Ok x, s))"

definition handle_a ::
  "('s, 'a) action \<Rightarrow> ('a \<Rightarrow> ('s, 'b) action) \<Rightarrow> (error_kind \<Rightarrow> ('s, 'b) action) \<Rightarrow> ('s, 'b) action"
  where
  "handle_a m f h = (\<lambda>s. case m s of
     (Ok x, s') \<Rightarrow> f x s' | (Err k, s') \<Rightarrow> h k s' | (Crashed, s') \<Rightarrow> (Crashed, s'))"

definition modify_a :: "('s \<Rightarrow> 's) \<Rightarrow> ('s, unit) action" where
  "modify_a g = (\<lambda>s. (Ok (), g s))"

definition check_a :: "bool \<Rightarrow> error_kind \<Rightarrow> ('s, unit) action" where
  "check_a b k = (if b then return_a () else fail_a k)"

text \<open>
  \<open>run_ok m s Q D C\<close> states what an action establishes: \<open>Q\<close> of a value and the state when it
  returns, \<open>D\<close> of the error and the state when it fails, \<open>C\<close> of the state a dying process leaves.
\<close>

definition run_ok ::
  "('s, 'a) action \<Rightarrow> 's \<Rightarrow> ('a \<Rightarrow> 's \<Rightarrow> bool) \<Rightarrow> (error_kind \<Rightarrow> 's \<Rightarrow> bool) \<Rightarrow> ('s \<Rightarrow> bool) \<Rightarrow> bool" where
  "run_ok m s Q D C = (case m s of (Ok x, s') \<Rightarrow> Q x s' | (Err k, s') \<Rightarrow> D k s' | (Crashed, s') \<Rightarrow> C s')"

lemma run_ok_return: "run_ok (return_a x) s Q D C \<longleftrightarrow> Q x s"
  by (simp add: run_ok_def return_a_def)

lemma run_ok_fail: "run_ok (fail_a k) s Q D C \<longleftrightarrow> D k s"
  by (simp add: run_ok_def fail_a_def)

lemma run_ok_crash: "run_ok crash_a s Q D C \<longleftrightarrow> C s"
  by (simp add: run_ok_def crash_a_def)

lemma run_ok_check: "run_ok (check_a b k) s Q D C \<longleftrightarrow> (if b then Q () s else D k s)"
  by (simp add: check_a_def run_ok_return run_ok_fail)

lemma run_ok_modify: "run_ok (modify_a g) s Q D C \<longleftrightarrow> Q () (g s)"
  by (simp add: run_ok_def modify_a_def)

lemma run_ok_read:
  "run_ok (read_a f) s Q D C \<longleftrightarrow> (case f s of Inl k \<Rightarrow> D k s | Inr x \<Rightarrow> Q x s)"
  by (simp add: run_ok_def read_a_def split: sum.splits)

lemma run_ok_bind:
  "run_ok (bind_a m f) s Q D C \<longleftrightarrow> run_ok m s (\<lambda>x s'. run_ok (f x) s' Q D C) D C"
  by (simp add: run_ok_def bind_a_def split: prod.splits outcome.splits)

lemma run_ok_handle:
  "run_ok (handle_a m f h) s Q D C \<longleftrightarrow>
     run_ok m s (\<lambda>x s'. run_ok (f x) s' Q D C) (\<lambda>k s'. run_ok (h k) s' Q D C) C"
  by (simp add: run_ok_def handle_a_def split: prod.splits outcome.splits)

lemma run_ok_conseq:
  assumes "run_ok m s Q D C"
    and "\<And>x t. Q x t \<Longrightarrow> Q' x t" and "\<And>k t. D k t \<Longrightarrow> D' k t" and "\<And>t. C t \<Longrightarrow> C' t"
  shows "run_ok m s Q' D' C'"
  using assms by (auto simp: run_ok_def split: prod.splits outcome.splits)

lemma run_ok_conj:
  "run_ok m s Q D C \<Longrightarrow> run_ok m s Q' D' C' \<Longrightarrow>
   run_ok m s (\<lambda>x t. Q x t \<and> Q' x t) (\<lambda>k t. D k t \<and> D' k t) (\<lambda>t. C t \<and> C' t)"
  by (auto simp: run_ok_def split: prod.splits outcome.splits)

lemma run_ok_state: "run_ok m s (\<lambda>_. P) (\<lambda>_. P) P \<longleftrightarrow> P (snd (m s))"
  by (simp add: run_ok_def split: prod.splits outcome.splits)

lemmas run_ok_simps =
  run_ok_return run_ok_fail run_ok_crash run_ok_check run_ok_modify run_ok_read run_ok_bind run_ok_handle

declare return_a_def [outcome_simps] fail_a_def [outcome_simps] crash_a_def [outcome_simps]
  bind_a_def [outcome_simps] read_a_def [outcome_simps] handle_a_def [outcome_simps]
  check_a_def [outcome_simps] modify_a_def [outcome_simps]

subsection \<open>Faults of a durable write\<close>

text \<open>
  One call of \<^verbatim>\<open>durable_write\<close> (write a temporary file, rename it over the target, sync the
  directory) has exactly these ends: it succeeds; it fails before the rename and nothing is
  visible; it fails after the rename, at the directory sync, and the new file is visible although
  an error is returned; or the process dies on either side of the rename.  A serialised record over
  its byte limit is the second case.
\<close>

datatype fault = NoFault | FailBefore error_kind | FailUnsynced error_kind | CrashBefore | CrashAfter

definition apply_fault :: "fault \<Rightarrow> ('s \<Rightarrow> 's) \<Rightarrow> ('s, unit) action" where
  "apply_fault f upd = (\<lambda>s. case f of
       NoFault \<Rightarrow> (Ok (), upd s)
     | FailBefore k \<Rightarrow> (Err k, s)
     | FailUnsynced k \<Rightarrow> (Err k, upd s)
     | CrashBefore \<Rightarrow> (Crashed, s)
     | CrashAfter \<Rightarrow> (Crashed, upd s))"

lemma run_ok_apply_fault:
  "Q () (upd s) \<Longrightarrow> (\<And>k. D k s \<and> D k (upd s)) \<Longrightarrow> C s \<Longrightarrow> C (upd s) \<Longrightarrow> run_ok (apply_fault f upd) s Q D C"
  by (auto simp: run_ok_def apply_fault_def split: fault.splits)

subsection \<open>Machine integers\<close>

type_synonym u32 = "32 word"
type_synonym u64 = "64 word"

definition checked_succ :: "'a::len word \<Rightarrow> 'a word option" where
  "checked_succ w = (if w = - 1 then None else Some (w + 1))"

definition saturating_add :: "'a::len word \<Rightarrow> 'a word \<Rightarrow> 'a word" where
  "saturating_add a b = (if unat a + unat b < 2 ^ LENGTH('a) then a + b else - 1)"

definition saturating_sub :: "'a::len word \<Rightarrow> 'a word \<Rightarrow> 'a word" where
  "saturating_sub a b = (if b \<le> a then a - b else 0)"

lemma unat_minus_one_max: "unat (- 1 :: 'a::len word) = 2 ^ LENGTH('a) - 1"
  by (simp add: unsigned_minus_1_eq_mask mask_eq_exp_minus_1)

lemma checked_succ_unat:
  assumes "checked_succ w = Some v"
  shows "unat v = Suc (unat w)"
proof -
  from assms have v: "v = w + 1" and "w \<noteq> - 1"
    by (auto simp: checked_succ_def split: if_splits)
  then have nz: "w + 1 \<noteq> 0"
    using max_word_wrap by blast
  then have "unat w = unat (w + 1) - 1"
    using unat_minus_one [OF nz] by simp
  moreover have "0 < unat (w + 1)"
    using nz by (simp add: unat_gt_0)
  ultimately show ?thesis
    using v by simp
qed

lemma unat_saturating_add:
  "unat (saturating_add a b :: 'a::len word) = min (unat a + unat b) (2 ^ LENGTH('a) - 1)"
  by (auto simp: saturating_add_def unat_minus_one_max unat_word_ariths)

lemma unat_saturating_sub: "unat (saturating_sub a b) = unat a - unat b"
  by (auto simp: saturating_sub_def unat_sub word_le_nat_alt)

subsection \<open>Splitting strings\<close>

text \<open>\<^verbatim>\<open>str::split(c)\<close>: the pieces between separators, always at least one.\<close>

fun split_on :: "char \<Rightarrow> string \<Rightarrow> string list" where
  "split_on c [] = [[]]"
| "split_on c (x # xs) =
     (if x = c then [] # split_on c xs
      else (case split_on c xs of [] \<Rightarrow> [[x]] | p # ps \<Rightarrow> (x # p) # ps))"

text \<open>\<^verbatim>\<open>str::split_once(c)\<close>: around the first separator.\<close>

fun split_once :: "char \<Rightarrow> string \<Rightarrow> (string \<times> string) option" where
  "split_once c [] = None"
| "split_once c (x # xs) =
     (if x = c then Some ([], xs)
      else map_option (\<lambda>(l, r). (x # l, r)) (split_once c xs))"

lemma split_on_not_Nil [simp]: "split_on c xs \<noteq> []"
  by (cases xs) (auto split: list.splits)

lemma split_on_no_sep: "c \<notin> set xs \<Longrightarrow> split_on c xs = [xs]"
  by (induction xs) auto

lemma split_on_append_sep: "c \<notin> set xs \<Longrightarrow> split_on c (xs @ c # ys) = xs # split_on c ys"
  by (induction xs) auto

lemma split_once_append: "c \<notin> set l \<Longrightarrow> split_once c (l @ c # r) = Some (l, r)"
  by (induction l) auto

lemma split_once_Some: "split_once c xs = Some (l, r) \<Longrightarrow> xs = l @ c # r \<and> c \<notin> set l"
  by (induction xs arbitrary: l r) (auto split: if_splits)

subsection \<open>Folds\<close>

lemma fold_invariant_set:
  assumes "I s" and "\<And>x s. x \<in> set xs \<Longrightarrow> I s \<Longrightarrow> I (f x s)"
  shows "I (fold f xs s)"
  using assms by (induction xs arbitrary: s) auto

subsection \<open>Chains\<close>

text \<open>Consecutive elements of a list are related.\<close>

definition chain :: "('a \<Rightarrow> 'a \<Rightarrow> bool) \<Rightarrow> 'a list \<Rightarrow> bool" where
  "chain R p \<longleftrightarrow> (\<forall>i. Suc i < length p \<longrightarrow> R (p ! i) (p ! Suc i))"

lemma chain_simps [simp]:
  "chain R []" "chain R [x]" "chain R (x # y # p) \<longleftrightarrow> R x y \<and> chain R (y # p)"
  by (auto simp: chain_def nth_Cons split: nat.splits)

lemma chain_snoc: "p \<noteq> [] \<Longrightarrow> chain R (p @ [x]) \<longleftrightarrow> chain R p \<and> R (last p) x"
proof (induction p)
  case (Cons a p)
  then show ?case
    by (cases p) auto
qed simp

lemma chain_append:
  "chain R (p @ q) \<longleftrightarrow> chain R p \<and> chain R q \<and> (p \<noteq> [] \<longrightarrow> q \<noteq> [] \<longrightarrow> R (last p) (hd q))"
proof (induction p)
  case (Cons a p)
  then show ?case
    by (cases p; cases q) auto
qed simp

lemma chain_rtranclp: "p \<noteq> [] \<Longrightarrow> chain R p \<Longrightarrow> R\<^sup>*\<^sup>* (hd p) (last p)"
proof (induction p)
  case (Cons a p)
  then show ?case
    by (cases p) (auto intro: converse_rtranclp_into_rtranclp)
qed simp

lemma rtranclp_chain: "R\<^sup>*\<^sup>* a b \<Longrightarrow> \<exists>p. chain R (a # p) \<and> last (a # p) = b"
proof (induction rule: converse_rtranclp_induct)
  case base
  then show ?case
    by (intro exI [of _ "[]"]) simp
next
  case (step y z)
  then obtain p where "chain R (z # p)" "last (z # p) = b"
    by blast
  then show ?case
    using step.hyps(1) by (intro exI [of _ "z # p"]) simp
qed

lemma chain_cycle:
  assumes "chain R (x # p @ [x])" and "m \<in> set (x # p @ [x])"
  shows "R\<^sup>+\<^sup>+ m m"
proof -
  obtain a b where ab: "x # p @ [x] = a @ m # b"
    using assms(2) by (meson split_list)
  have tran: "R\<^sup>+\<^sup>+ (hd q) (last q)" if "chain R q" "2 \<le> length q" for q
  proof -
    obtain u v w where q: "q = u # v # w"
      using \<open>2 \<le> length q\<close> by (cases q; cases "tl q") auto
    then show ?thesis
      using that(1) chain_rtranclp [of "v # w" R] by (auto intro: rtranclp_into_tranclp2)
  qed
  have whole: "R\<^sup>+\<^sup>+ x x"
    using tran [OF assms(1)] by simp
  have split: "chain R (a @ [m])" "chain R (m # b)"
    using assms(1) chain_append [of R "a @ [m]" b] chain_append [of R a "m # b"] by (simp_all add: ab)
  have "hd (a @ [m]) = x" "last (m # b) = x"
    using arg_cong [OF ab, of hd] arg_cong [OF ab, of last] by (cases a; simp)+
  then have "R\<^sup>*\<^sup>* x m" "R\<^sup>*\<^sup>* m x"
    using chain_rtranclp [OF _ split(1)] chain_rtranclp [OF _ split(2)] by simp_all
  then show ?thesis
    using whole by (meson rtranclp_tranclp_tranclp tranclp_rtranclp_tranclp)
qed

end
