(* ===== verification/Identity.thy ===== *)
theory Identity
  imports Prelude
begin

text \<open>
  The lexical identities everything durable or signed is named by:
  \<^verbatim>\<open>crates/foundation/src/digest.rs\<close>, \<^verbatim>\<open>crates/updated-contracts/src/\<close>
  \<^verbatim>\<open>{digest,identity,path}.rs\<close> and \<^verbatim>\<open>crates/updated/src/rand.rs\<close>.

  Two functions the sources call come from other packages and are parameters, the fields of
  \<open>ext\<close>: SHA-256 with its hexadecimal encoding, and whether the \<^verbatim>\<open>semver\<close> package
  parses a version.  What the code relies on of the first is \<open>sha_hex_canonical\<close>: its output is
  64 lowercase hexadecimal characters.
\<close>

record ext =
  sha256_hex :: "string \<Rightarrow> string"
  semver_parses :: "string \<Rightarrow> bool"

definition byte_in :: "char \<Rightarrow> char \<Rightarrow> char \<Rightarrow> bool" where
  "byte_in lo hi c \<longleftrightarrow> (of_char lo :: nat) \<le> of_char c \<and> (of_char c :: nat) \<le> of_char hi"

definition is_ascii_digit :: "char \<Rightarrow> bool" where
  "is_ascii_digit = byte_in (CHR ''0'') (CHR ''9'')"

definition is_ascii_lowercase :: "char \<Rightarrow> bool" where
  "is_ascii_lowercase = byte_in (CHR ''a'') (CHR ''z'')"

definition is_ascii_uppercase :: "char \<Rightarrow> bool" where
  "is_ascii_uppercase = byte_in (CHR ''A'') (CHR ''Z'')"

definition is_ascii_alphanumeric :: "char \<Rightarrow> bool" where
  "is_ascii_alphanumeric c \<longleftrightarrow> is_ascii_digit c \<or> is_ascii_lowercase c \<or> is_ascii_uppercase c"

subsection \<open>Digests\<close>

definition is_canonical_sha256 :: "string \<Rightarrow> bool" where
  "is_canonical_sha256 value \<longleftrightarrow>
     length value = 64
     \<and> list_all (\<lambda>byte. is_ascii_digit byte \<or> byte_in (CHR ''a'') (CHR ''f'') byte) value"

definition parse_canonical_sha256 :: "string \<Rightarrow> string + string" where
  "parse_canonical_sha256 value =
     (if is_canonical_sha256 value then Inr value
      else Inl ''expected a canonical SHA-256 digest'')"

definition sha256_bytes :: "ext \<Rightarrow> string \<Rightarrow> string" where
  "sha256_bytes E bytes = sha256_hex E bytes"

definition digests_match :: "string \<Rightarrow> string \<Rightarrow> bool" where
  "digests_match got expected \<longleftrightarrow>
     is_canonical_sha256 got \<and> is_canonical_sha256 expected \<and> got = expected"

definition deployment_rejection_sha256 :: "ext \<Rightarrow> string \<Rightarrow> string option" where
  "deployment_rejection_sha256 E application_sha256 =
     (if is_canonical_sha256 application_sha256
      then Some (sha256_bytes E (''updated-package-rejection:'' @ application_sha256))
      else None)"

definition is_token :: "string \<Rightarrow> bool" where
  "is_token value = is_canonical_sha256 value"

definition sha_hex_canonical :: "ext \<Rightarrow> bool" where
  "sha_hex_canonical E \<longleftrightarrow> (\<forall>bytes. is_canonical_sha256 (sha256_hex E bytes))"

subsection \<open>Names\<close>

definition MAX_SEGMENT_BYTES :: nat where
  "MAX_SEGMENT_BYTES = 128"

definition MAX_DNS_SUBDOMAIN_BYTES :: nat where
  "MAX_DNS_SUBDOMAIN_BYTES = 253"

definition MAX_RELEASE_VERSION_BYTES :: nat where
  "MAX_RELEASE_VERSION_BYTES = 128"

text \<open>\<^verbatim>\<open>str::strip_prefix\<close>.\<close>

fun strip_prefix :: "string \<Rightarrow> string \<Rightarrow> string option" where
  "strip_prefix [] s = Some s"
| "strip_prefix (p # ps) (x # xs) = (if p = x then strip_prefix ps xs else None)"
| "strip_prefix (p # ps) [] = None"

definition is_windows_device_stem :: "string \<Rightarrow> bool" where
  "is_windows_device_stem stem \<longleftrightarrow>
     stem \<in> {''con'', ''prn'', ''aux'', ''nul''}
     \<or> (case (case strip_prefix ''com'' stem of Some s \<Rightarrow> Some s | None \<Rightarrow> strip_prefix ''lpt'' stem) of
          Some suffix \<Rightarrow> suffix \<in> {''1'', ''2'', ''3'', ''4'', ''5'', ''6'', ''7'', ''8'', ''9''}
        | None \<Rightarrow> False)"

definition segment_byte :: "nat \<Rightarrow> char \<Rightarrow> bool" where
  "segment_byte index byte \<longleftrightarrow>
     is_ascii_lowercase byte \<or> is_ascii_digit byte
     \<or> (0 < index \<and> byte \<in> {CHR ''.'', CHR ''_'', CHR ''-''})"

definition is_segment :: "string \<Rightarrow> bool" where
  "is_segment value \<longleftrightarrow>
     value \<noteq> []
     \<and> length value \<le> MAX_SEGMENT_BYTES
     \<and> list_all (\<lambda>(index, byte). segment_byte index byte) (enumerate 0 value)
     \<and> is_ascii_alphanumeric (last value)
     \<and> \<not> is_windows_device_stem (hd (split_on (CHR ''.'') value))"

definition is_dns_label :: "string \<Rightarrow> bool" where
  "is_dns_label label \<longleftrightarrow>
     label \<noteq> []
     \<and> length label \<le> 63
     \<and> list_all (\<lambda>byte. is_ascii_lowercase byte \<or> is_ascii_digit byte \<or> byte = CHR ''-'') label
     \<and> is_ascii_alphanumeric (hd label)
     \<and> is_ascii_alphanumeric (last label)"

definition is_dns_subdomain :: "string \<Rightarrow> bool" where
  "is_dns_subdomain value \<longleftrightarrow>
     value \<noteq> []
     \<and> length value \<le> MAX_DNS_SUBDOMAIN_BYTES
     \<and> list_all is_dns_label (split_on (CHR ''.'') value)"

definition is_release_version :: "ext \<Rightarrow> string \<Rightarrow> bool" where
  "is_release_version E value \<longleftrightarrow>
     \<not> (length value > MAX_RELEASE_VERSION_BYTES \<or> list_ex is_ascii_uppercase value)
     \<and> semver_parses E value"

text \<open>The state-changing operations of a reconciler, named by the agent and by node reports alike.\<close>

datatype MutationOperation = Converge | Rollback

subsection \<open>Path confinement\<close>

text \<open>
  \<^verbatim>\<open>char::is_control\<close> over UTF-8 bytes: U+0000..U+001F and U+007F are one byte,
  U+0080..U+009F are the byte C2 followed by 80..9F.
\<close>

fun has_control :: "string \<Rightarrow> bool" where
  "has_control [] = False"
| "has_control (c # cs) =
     ((of_char c :: nat) < 32 \<or> (of_char c :: nat) = 127
      \<or> ((of_char c :: nat) = 194
         \<and> (case cs of [] \<Rightarrow> False | d # _ \<Rightarrow> 128 \<le> (of_char d :: nat) \<and> (of_char d :: nat) \<le> 159))
      \<or> has_control cs)"

definition is_safe_component :: "string \<Rightarrow> bool" where
  "is_safe_component segment \<longleftrightarrow>
     segment \<noteq> []
     \<and> segment \<noteq> ''.''
     \<and> segment \<noteq> ''..''
     \<and> \<not> (CHR ''/'' \<in> set segment \<or> CHR 0x5C \<in> set segment \<or> CHR '':'' \<in> set segment)
     \<and> \<not> has_control segment"

text \<open>
  \<^verbatim>\<open>Path::new(path).components()\<close> on Unix: a leading separator is the root, a leading
  \<open>.\<close> is kept, empty pieces and later \<open>.\<close> pieces disappear.
\<close>

datatype component = RootDir | CurDir | ParentDir | Normal string

definition piece_component :: "string \<Rightarrow> component" where
  "piece_component p = (if p = ''..'' then ParentDir else Normal p)"

definition path_components :: "string \<Rightarrow> component list" where
  "path_components path =
     (let pieces = split_on (CHR ''/'') path;
          kept = (\<lambda>ps. map piece_component (filter (\<lambda>p. p \<noteq> [] \<and> p \<noteq> ''.'') ps))
      in if hd pieces = [] then (if path = [] then [] else [RootDir]) @ kept (tl pieces)
         else if hd pieces = ''.'' then CurDir # kept (tl pieces)
         else kept pieces)"

fun is_normal :: "component \<Rightarrow> bool" where
  "is_normal (Normal _) = True"
| "is_normal _ = False"

definition is_confined_relative :: "string \<Rightarrow> bool" where
  "is_confined_relative path =
     (if path = [] \<or> hd path = CHR ''/'' \<or> CHR 0x5C \<in> set path then False
      else list_all is_normal (path_components path)
           \<and> list_all is_safe_component (split_on (CHR ''/'') path))"

text \<open>Where the operating system resolves a relative path from a directory (a stack of names).\<close>

fun resolve :: "string list \<Rightarrow> component list \<Rightarrow> string list" where
  "resolve dir [] = dir"
| "resolve dir (RootDir # cs) = resolve [] cs"
| "resolve dir (CurDir # cs) = resolve dir cs"
| "resolve dir (ParentDir # cs) = resolve (butlast dir) cs"
| "resolve dir (Normal n # cs) = resolve (dir @ [n]) cs"

subsection \<open>Lemmas\<close>

lemma canonical_length: "is_canonical_sha256 d \<Longrightarrow> length d = 64"
  by (simp add: is_canonical_sha256_def)

lemma canonical_no_char:
  "is_canonical_sha256 d \<Longrightarrow> \<not> (is_ascii_digit c \<or> byte_in (CHR ''a'') (CHR ''f'') c) \<Longrightarrow> c \<notin> set d"
  by (auto simp: is_canonical_sha256_def list_all_iff)

lemma canonical_no_colon: "is_canonical_sha256 d \<Longrightarrow> CHR '':'' \<notin> set d"
  by (erule canonical_no_char) (simp add: is_ascii_digit_def byte_in_def)

lemma canonical_no_newline: "is_canonical_sha256 d \<Longrightarrow> CHR 0x0A \<notin> set d"
  by (erule canonical_no_char) (simp add: is_ascii_digit_def byte_in_def)

lemma digests_match_iff: "digests_match a b \<longleftrightarrow> is_canonical_sha256 a \<and> a = b"
  by (auto simp: digests_match_def)

lemma deployment_rejection_canonical:
  "sha_hex_canonical E \<Longrightarrow> deployment_rejection_sha256 E a = Some d \<Longrightarrow> is_canonical_sha256 d"
  by (auto simp: deployment_rejection_sha256_def sha256_bytes_def sha_hex_canonical_def split: if_splits)

lemma safe_component_no_slash: "is_safe_component s \<Longrightarrow> CHR ''/'' \<notin> set s"
  by (simp add: is_safe_component_def)

lemma safe_component_piece: "is_safe_component s \<Longrightarrow> piece_component s = Normal s"
  by (simp add: is_safe_component_def piece_component_def)

lemma safe_pieces_kept:
  "list_all is_safe_component ps \<Longrightarrow>
   map piece_component (filter (\<lambda>p. p \<noteq> [] \<and> p \<noteq> ''.'') ps) = map Normal ps"
  by (induction ps) (auto simp: is_safe_component_def piece_component_def)

lemma hd_split_on_Nil: "hd (split_on c path) = [] \<longleftrightarrow> path = [] \<or> hd path = c"
  by (cases path) (auto split: list.splits)

lemma path_components_safe:
  assumes "list_all is_safe_component (split_on (CHR ''/'') path)"
  shows "path_components path = map Normal (split_on (CHR ''/'') path)"
proof -
  let ?ps = "split_on (CHR ''/'') path"
  have "is_safe_component (hd ?ps)"
    using assms by (cases ?ps) auto
  then have "hd ?ps \<noteq> []" and "hd ?ps \<noteq> ''.''"
    by (simp_all add: is_safe_component_def)
  then show ?thesis
    by (simp only: path_components_def Let_def if_False safe_pieces_kept [OF assms])
qed

lemma resolve_normals: "resolve dir (map Normal ns) = dir @ ns"
  by (induction ns arbitrary: dir) auto

lemma set_split_on: "x \<in> set path \<Longrightarrow> x \<noteq> c \<Longrightarrow> \<exists>p \<in> set (split_on c path). x \<in> set p"
  by (induction path) (auto split: list.splits)

lemma safe_split_no_backslash:
  "list_all is_safe_component (split_on (CHR ''/'') path) \<Longrightarrow> CHR 0x5C \<notin> set path"
  using set_split_on [of "CHR 0x5C" path "CHR ''/''"]
  by (auto simp: list_all_iff is_safe_component_def)

lemma is_confined_relative_iff:
  "is_confined_relative path \<longleftrightarrow> list_all is_safe_component (split_on (CHR ''/'') path)"
proof
  assume safe: "list_all is_safe_component (split_on (CHR ''/'') path)"
  then have "is_safe_component (hd (split_on (CHR ''/'') path))"
    by (cases "split_on (CHR ''/'') path") auto
  then have "path \<noteq> [] \<and> hd path \<noteq> CHR ''/''"
    using hd_split_on_Nil [of "CHR ''/''" path] by (auto simp: is_safe_component_def)
  with safe show "is_confined_relative path"
    by (simp add: is_confined_relative_def safe_split_no_backslash path_components_safe list_all_iff)
qed (simp add: is_confined_relative_def split: if_splits)

text \<open>
  C17.  A confined relative path, joined onto any directory, resolves below that directory to
  exactly the components it spells: it cannot climb out, reset to the root, or lose a piece.
\<close>

theorem confined_path_stays_below:
  assumes "is_confined_relative path"
  shows "resolve dir (path_components path) = dir @ split_on (CHR ''/'') path"
  using assms by (simp add: is_confined_relative_iff path_components_safe resolve_normals)

theorem confined_path_stays_below_witness:
  "is_confined_relative ''bin/app.exe''
   \<and> resolve [''opt''] (path_components ''bin/app.exe'') = [''opt'', ''bin'', ''app.exe'']"
proof -
  have h: "is_confined_relative ''bin/app.exe''"
    by (simp add: is_confined_relative_iff is_safe_component_def)
  show ?thesis
    using h confined_path_stays_below [OF h, of "[''opt'']"] by simp
qed

end
