(* ===== verification/State.thy ===== *)
theory State
  imports Identity
begin

text \<open>
  The committed installed record: \<^verbatim>\<open>crates/updated/src/state.rs\<close>, with
  \<^verbatim>\<open>ReleaseId\<close> of \<^verbatim>\<open>bundle.rs\<close> and the execution limits of
  \<^verbatim>\<open>command_adapter.rs\<close> that its validation reads.  A file is a \<open>slot\<close>: absent,
  unreadable, undecodable, or holding a record; JSON encoding itself is the \<^verbatim>\<open>serde\<close>
  package's and is not modelled.
\<close>

subsection \<open>Files holding one record\<close>

datatype 'a slot = Absent | Unreadable error_kind | Garbage | Record 'a

subsection \<open>Releases and execution definitions\<close>

record ReleaseId =
  rel_version :: string
  rel_manifest_sha256 :: string

definition validate_version :: "ext \<Rightarrow> string \<Rightarrow> unit io_result" where
  "validate_version E version = check (is_release_version E version) InvalidData"

definition validate_digest :: "string \<Rightarrow> unit io_result" where
  "validate_digest value = check (is_canonical_sha256 value) InvalidData"

definition release_validate :: "ext \<Rightarrow> ReleaseId \<Rightarrow> unit io_result" where
  "release_validate E r =
     bind_r (validate_version E (rel_version r)) (\<lambda>_. validate_digest (rel_manifest_sha256 r))"

definition directory_name :: "ReleaseId \<Rightarrow> string" where
  "directory_name r = rel_version r @ ''-'' @ rel_manifest_sha256 r"

record ReconcilerRelease =
  rec_definition_sha256 :: string
  rec_product :: string
  rec_api :: u32
  rec_timeout_millis :: u64

definition API :: u32 where
  "API = 1"

definition MAX_COMMAND_SECONDS :: u64 where
  "MAX_COMMAND_SECONDS = 3600"

definition MAX_HEALTH_SECONDS :: u64 where
  "MAX_HEALTH_SECONDS = 20"

definition MAX_INVOCATION_MILLIS :: u64 where
  "MAX_INVOCATION_MILLIS = (2 * MAX_COMMAND_SECONDS + MAX_HEALTH_SECONDS + 5) * 1000"

definition check_api :: "u32 \<Rightarrow> unit io_result" where
  "check_api api = check (api = API) OtherError"

definition check_supported :: "ReconcilerRelease \<Rightarrow> unit io_result" where
  "check_supported r = check_api (rec_api r)"

definition reconciler_is_valid :: "ReconcilerRelease \<Rightarrow> bool" where
  "reconciler_is_valid r \<longleftrightarrow>
     is_canonical_sha256 (rec_definition_sha256 r)
     \<and> is_segment (rec_product r)
     \<and> rec_api r > 0
     \<and> (1 \<le> rec_timeout_millis r \<and> rec_timeout_millis r \<le> MAX_INVOCATION_MILLIS)"

subsection \<open>Repository lineage and rejection identities\<close>

type_synonym RepositoryLineage = string

definition lineage_validate :: "RepositoryLineage \<Rightarrow> bool" where
  "lineage_validate l = is_canonical_sha256 l"

definition lineage_rejection_key :: "RepositoryLineage \<Rightarrow> string \<Rightarrow> string" where
  "lineage_rejection_key l digest = l @ '':'' @ digest"

definition candidate_rejection_sha256 ::
  "ext \<Rightarrow> ReleaseId \<Rightarrow> string \<Rightarrow> ReleaseId \<Rightarrow> string \<Rightarrow> string option" where
  "candidate_rejection_sha256 E previous_release previous_archive candidate_release candidate_archive =
     (if previous_release = candidate_release \<and> previous_archive = candidate_archive then None
      else deployment_rejection_sha256 E candidate_archive)"

subsection \<open>The installed record\<close>

datatype Maturity = Provisional | Proven

record RollbackGuard =
  grd_attempt_id :: string
  grd_candidate_rejection_sha256 :: string
  grd_previous_release :: ReleaseId
  grd_previous_archive_sha256 :: string
  grd_previous_repository_lineage :: RepositoryLineage
  grd_reconciler :: ReconcilerRelease
  grd_committed_at :: u64

record InstalledState =
  ins_repository_lineage :: RepositoryLineage
  ins_release :: ReleaseId
  ins_archive_sha256 :: string
  ins_reconciler :: ReconcilerRelease
  ins_rollback_guard :: "RollbackGuard option"
  ins_maturity :: Maturity

definition is_proven :: "InstalledState \<Rightarrow> bool" where
  "is_proven s \<longleftrightarrow> ins_maturity s = Proven"

definition guard_validate :: "ext \<Rightarrow> InstalledState \<Rightarrow> RollbackGuard \<Rightarrow> unit io_result" where
  "guard_validate E s g =
     bind_r (check (grd_committed_at g \<noteq> 0) InvalidData) (\<lambda>_.
     bind_r (check (lineage_validate (grd_previous_repository_lineage g)) InvalidData) (\<lambda>_.
     bind_r (check (is_token (grd_attempt_id g)) InvalidData) (\<lambda>_.
     let expected_rejection = candidate_rejection_sha256 E
           (grd_previous_release g) (grd_previous_archive_sha256 g) (ins_release s) (ins_archive_sha256 s)
     in
     bind_r (check (is_canonical_sha256 (grd_candidate_rejection_sha256 g)
                    \<and> expected_rejection = Some (grd_candidate_rejection_sha256 g)) InvalidData) (\<lambda>_.
     bind_r (check (reconciler_is_valid (grd_reconciler g)) InvalidData) (\<lambda>_.
     bind_r (release_validate E (grd_previous_release g)) (\<lambda>_.
     check (is_canonical_sha256 (grd_previous_archive_sha256 g)) InvalidData))))))"

definition installed_validate :: "ext \<Rightarrow> InstalledState \<Rightarrow> unit io_result" where
  "installed_validate E s =
     bind_r (check (lineage_validate (ins_repository_lineage s)) InvalidData) (\<lambda>_.
     bind_r (check (reconciler_is_valid (ins_reconciler s)) InvalidData) (\<lambda>_.
     bind_r (release_validate E (ins_release s)) (\<lambda>_.
     bind_r (check (is_canonical_sha256 (ins_archive_sha256 s)) InvalidData) (\<lambda>_.
     bind_r (check (\<not> (ins_maturity s = Provisional \<and> ins_rollback_guard s \<noteq> None)) InvalidData) (\<lambda>_.
     case ins_rollback_guard s of None \<Rightarrow> Inr () | Some g \<Rightarrow> guard_validate E s g)))))"

definition proven ::
  "RepositoryLineage \<Rightarrow> ReleaseId \<Rightarrow> string \<Rightarrow> ReconcilerRelease \<Rightarrow> InstalledState" where
  "proven lineage release archive reconciler =
     \<lparr> ins_repository_lineage = lineage, ins_release = release, ins_archive_sha256 = archive,
       ins_reconciler = reconciler, ins_rollback_guard = None, ins_maturity = Proven \<rparr>"

definition provisional ::
  "RepositoryLineage \<Rightarrow> ReleaseId \<Rightarrow> string \<Rightarrow> ReconcilerRelease \<Rightarrow> InstalledState" where
  "provisional lineage release archive reconciler =
     (proven lineage release archive reconciler)\<lparr> ins_maturity := Provisional \<rparr>"

text \<open>The two in-place transitions return whether the record changed, with the new record.\<close>

definition prove_provisional :: "InstalledState \<Rightarrow> bool \<times> InstalledState" where
  "prove_provisional s = (ins_maturity s = Provisional, s\<lparr> ins_maturity := Proven \<rparr>)"

definition disarm_rollback :: "InstalledState \<Rightarrow> bool \<times> InstalledState" where
  "disarm_rollback s = (ins_rollback_guard s \<noteq> None, s\<lparr> ins_rollback_guard := None \<rparr>)"

definition version_floor_for :: "InstalledState \<Rightarrow> RepositoryLineage \<Rightarrow> string option" where
  "version_floor_for s lineage =
     (if ins_repository_lineage s = lineage then Some (rel_version (ins_release s)) else None)"

definition rebind_if_same_artifact ::
  "InstalledState \<Rightarrow> RepositoryLineage \<Rightarrow> ReleaseId \<Rightarrow> string \<Rightarrow> ReconcilerRelease
   \<Rightarrow> InstalledState option" where
  "rebind_if_same_artifact s lineage release archive reconciler =
     (if ins_repository_lineage s \<noteq> lineage \<and> ins_release s = release
         \<and> ins_archive_sha256 s = archive \<and> ins_reconciler s = reconciler
      then Some (s\<lparr> ins_repository_lineage := lineage \<rparr>) else None)"

datatype Installed = Present InstalledState | Missing | Invalid

definition try_read_installed :: "ext \<Rightarrow> InstalledState slot \<Rightarrow> Installed io_result" where
  "try_read_installed E file = (case file of
       Record s \<Rightarrow> Inr (if is_ok (installed_validate E s) then Present s else Invalid)
     | Garbage \<Rightarrow> Inr Invalid
     | Absent \<Rightarrow> Inr Missing
     | Unreadable k \<Rightarrow> (if k = NotFound then Inr Missing else Inl k))"

definition read_installed :: "ext \<Rightarrow> InstalledState slot \<Rightarrow> Installed" where
  "read_installed E file = (case try_read_installed E file of Inr i \<Rightarrow> i | Inl _ \<Rightarrow> Invalid)"

definition INSTALL_HISTORY_MARKER :: string where
  "INSTALL_HISTORY_MARKER = ''installed'' @ [CHR 0x0A]"

datatype InstallHistory = HistoryPresent | HistoryMissing | HistoryInvalid

definition read_install_history :: "string slot \<Rightarrow> InstallHistory" where
  "read_install_history file = (case file of
       Record raw \<Rightarrow> (if raw = INSTALL_HISTORY_MARKER then HistoryPresent else HistoryInvalid)
     | Garbage \<Rightarrow> HistoryInvalid
     | Absent \<Rightarrow> HistoryMissing
     | Unreadable k \<Rightarrow> (if k = NotFound then HistoryMissing else HistoryInvalid))"

subsection \<open>Lemmas\<close>

lemma release_validate_Inr:
  "release_validate E r = Inr u \<longleftrightarrow>
   is_release_version E (rel_version r) \<and> is_canonical_sha256 (rel_manifest_sha256 r)"
  by (auto simp: release_validate_def validate_version_def validate_digest_def bind_check_Inr_iff)

lemma not_isl_unit: "\<not> isl (r :: unit io_result) \<longleftrightarrow> r = Inr ()"
  by (cases r) auto

lemma bind_unit_Inr_iff: "bind_r (r :: unit io_result) f = Inr y \<longleftrightarrow> r = Inr () \<and> f () = Inr y"
  by (cases r) auto

lemma guard_validate_Inr:
  "guard_validate E s g = Inr () \<longleftrightarrow>
     grd_committed_at g \<noteq> 0
     \<and> lineage_validate (grd_previous_repository_lineage g)
     \<and> is_token (grd_attempt_id g)
     \<and> is_canonical_sha256 (grd_candidate_rejection_sha256 g)
     \<and> candidate_rejection_sha256 E (grd_previous_release g) (grd_previous_archive_sha256 g)
          (ins_release s) (ins_archive_sha256 s) = Some (grd_candidate_rejection_sha256 g)
     \<and> reconciler_is_valid (grd_reconciler g)
     \<and> release_validate E (grd_previous_release g) = Inr ()
     \<and> is_canonical_sha256 (grd_previous_archive_sha256 g)"
  by (simp add: guard_validate_def Let_def bind_unit_Inr_iff conj_assoc)

lemma installed_validate_Inr:
  "installed_validate E s = Inr () \<longleftrightarrow>
     lineage_validate (ins_repository_lineage s)
     \<and> reconciler_is_valid (ins_reconciler s)
     \<and> release_validate E (ins_release s) = Inr ()
     \<and> is_canonical_sha256 (ins_archive_sha256 s)
     \<and> (ins_rollback_guard s \<noteq> None \<longrightarrow> is_proven s)
     \<and> (\<forall>g. ins_rollback_guard s = Some g \<longrightarrow> guard_validate E s g = Inr ())"
  by (cases "ins_maturity s")
     (auto simp: installed_validate_def bind_unit_Inr_iff is_proven_def split: option.splits)

lemma proven_sel [simp]:
  "ins_repository_lineage (proven l r a c) = l" "ins_release (proven l r a c) = r"
  "ins_archive_sha256 (proven l r a c) = a" "ins_reconciler (proven l r a c) = c"
  "ins_rollback_guard (proven l r a c) = None" "ins_maturity (proven l r a c) = Proven"
  "is_proven (proven l r a c)"
  by (simp_all add: proven_def is_proven_def)

lemma provisional_sel [simp]:
  "ins_repository_lineage (provisional l r a c) = l" "ins_release (provisional l r a c) = r"
  "ins_archive_sha256 (provisional l r a c) = a" "ins_reconciler (provisional l r a c) = c"
  "ins_rollback_guard (provisional l r a c) = None" "\<not> is_proven (provisional l r a c)"
  by (simp_all add: provisional_def is_proven_def)

lemma is_proven_update [simp]:
  "is_proven (s\<lparr> ins_rollback_guard := g \<rparr>) = is_proven s"
  "is_proven (s\<lparr> ins_repository_lineage := l \<rparr>) = is_proven s"
  "is_proven (s\<lparr> ins_maturity := m \<rparr>) \<longleftrightarrow> m = Proven"
  by (simp_all add: is_proven_def)

lemma guard_validate_update [simp]:
  "guard_validate E (s\<lparr> ins_repository_lineage := l \<rparr>) = guard_validate E s"
  "guard_validate E (s\<lparr> ins_maturity := m \<rparr>) = guard_validate E s"
  by (simp_all add: guard_validate_def fun_eq_iff)

lemma valid_prove: "installed_validate E s = Inr () \<Longrightarrow> installed_validate E (snd (prove_provisional s)) = Inr ()"
  by (simp add: installed_validate_Inr prove_provisional_def)

lemma valid_disarm: "installed_validate E s = Inr () \<Longrightarrow> installed_validate E (snd (disarm_rollback s)) = Inr ()"
  by (simp add: installed_validate_Inr disarm_rollback_def)

lemma valid_rebind:
  "installed_validate E s = Inr () \<Longrightarrow> lineage_validate l
   \<Longrightarrow> rebind_if_same_artifact s l r a c = Some s' \<Longrightarrow> installed_validate E s' = Inr ()"
  by (auto simp: installed_validate_Inr rebind_if_same_artifact_def split: if_splits)

lemma try_read_Present:
  "try_read_installed E fl = Inr (Present s) \<longleftrightarrow> fl = Record s \<and> installed_validate E s = Inr ()"
  by (cases fl) (auto simp: try_read_installed_def not_isl_unit)

lemma try_read_Record_valid:
  "installed_validate E s = Inr () \<Longrightarrow> try_read_installed E (Record s) = Inr (Present s)"
  by (simp add: try_read_Present)

subsection \<open>Sample records\<close>

text \<open>Concrete values the witnesses evaluate the model on.\<close>

definition sample_digest :: "char \<Rightarrow> string" where
  "sample_digest c = replicate 64 c"

definition sample_ext :: ext where
  "sample_ext = \<lparr> sha256_hex = (\<lambda>_. sample_digest (CHR ''e'')), semver_parses = (\<lambda>v. v \<noteq> []) \<rparr>"

definition sample_release :: "string \<Rightarrow> ReleaseId" where
  "sample_release v = \<lparr> rel_version = v, rel_manifest_sha256 = sample_digest (CHR ''a'') \<rparr>"

definition sample_reconciler :: ReconcilerRelease where
  "sample_reconciler =
     \<lparr> rec_definition_sha256 = sample_digest (CHR ''b''), rec_product = ''app'', rec_api = 1,
       rec_timeout_millis = 1000 \<rparr>"

definition sample_installed :: InstalledState where
  "sample_installed = proven (sample_digest (CHR ''1'')) (sample_release ''1.0.0'')
     (sample_digest (CHR ''c'')) sample_reconciler"

lemma sample_digest_canonical [simp]:
  "is_ascii_digit c \<or> byte_in (CHR ''a'') (CHR ''f'') c \<Longrightarrow> is_canonical_sha256 (sample_digest c)"
  by (auto simp: is_canonical_sha256_def sample_digest_def list_all_iff)

lemma sample_digest_eq [simp]: "sample_digest c = sample_digest d \<longleftrightarrow> c = d"
  by (simp add: sample_digest_def replicate_eq_replicate)

lemma sample_ext_canonical [simp]: "sha_hex_canonical sample_ext"
  by (simp add: sha_hex_canonical_def sample_ext_def byte_in_def)

lemma sample_reconciler_valid [simp]: "reconciler_is_valid sample_reconciler"
  by (simp add: reconciler_is_valid_def sample_reconciler_def byte_in_def is_segment_def
      segment_byte_def is_ascii_lowercase_def is_ascii_alphanumeric_def is_windows_device_stem_def
      MAX_SEGMENT_BYTES_def MAX_INVOCATION_MILLIS_def MAX_COMMAND_SECONDS_def MAX_HEALTH_SECONDS_def)

lemma sample_release_valid [simp]:
  "v \<noteq> [] \<Longrightarrow> length v \<le> 128 \<Longrightarrow> \<not> list_ex is_ascii_uppercase v
   \<Longrightarrow> release_validate sample_ext (sample_release v) = Inr ()"
  by (simp add: release_validate_Inr is_release_version_def MAX_RELEASE_VERSION_BYTES_def sample_ext_def sample_release_def
      byte_in_def)

lemma sample_installed_valid: "installed_validate sample_ext sample_installed = Inr ()"
  by (simp add: installed_validate_Inr sample_installed_def lineage_validate_def is_ascii_digit_def
      byte_in_def is_ascii_uppercase_def)

end
