(* ===== verification/Journal.thy ===== *)
theory Journal
  imports State
begin

text \<open>
  The durable-intent journal of \<^verbatim>\<open>crates/updated/src/journal.rs\<close>, which the update and
  the first-install transactions share, and the contract its two record types keep.
\<close>

text \<open>\<^verbatim>\<open>journal::read\<close>: only a missing file is no journal; a record is validated on the way out.\<close>

definition journal_read :: "('r \<Rightarrow> unit io_result) \<Rightarrow> 'r slot \<Rightarrow> 'r option io_result" where
  "journal_read validate fl = (case fl of
       Record r \<Rightarrow> bind_r (validate r) (\<lambda>_. Inr (Some r))
     | Garbage \<Rightarrow> Inl InvalidData
     | Absent \<Rightarrow> Inr None
     | Unreadable k \<Rightarrow> (if k = NotFound then Inr None else Inl k))"

lemma journal_read_Some:
  "journal_read v fl = Inr (Some r) \<longleftrightarrow> fl = Record r \<and> v r = Inr ()"
  by (cases fl) (auto simp: journal_read_def bind_r_Inr_iff)

lemma journal_read_None:
  "journal_read v fl = Inr None \<longleftrightarrow> fl = Absent \<or> fl = Unreadable NotFound"
  by (cases fl) (auto simp: journal_read_def bind_r_Inr_iff)

lemma journal_read_Absent [simp]: "journal_read v Absent = Inr None"
  by (simp add: journal_read_def)

text \<open>A list of successive rewrites, each related to the one before.\<close>

fun journal_history :: "('r \<Rightarrow> 'r \<Rightarrow> bool) \<Rightarrow> 'r \<Rightarrow> 'r list \<Rightarrow> bool" where
  "journal_history R r [] = True"
| "journal_history R r (s # ss) = (R r s \<and> journal_history R s ss)"

text \<open>
  What a journal record type promises: a permitted rewrite keeps the transaction's identity and its
  validity, replaying a record is permitted, and every other rewrite makes progress.
\<close>

locale journal_machine =
  fixes validate :: "'r \<Rightarrow> unit io_result"
    and permits :: "'r \<Rightarrow> 'r \<Rightarrow> bool"
    and ident :: "'r \<Rightarrow> 'i"
    and remaining :: "'r \<Rightarrow> nat"
  assumes permits_replay: "permits r r"
    and permits_ident: "permits r s \<Longrightarrow> ident s = ident r"
    and permits_valid: "permits r s \<Longrightarrow> validate r = Inr () \<Longrightarrow> validate s = Inr ()"
    and permits_progress: "permits r s \<Longrightarrow> r \<noteq> s \<Longrightarrow> remaining s < remaining r"
begin

lemma history_ident: "journal_history permits r ss \<Longrightarrow> s \<in> set ss \<Longrightarrow> ident s = ident r"
  by (induction ss arbitrary: r) (auto dest: permits_ident)

lemma history_valid:
  "journal_history permits r ss \<Longrightarrow> validate r = Inr () \<Longrightarrow> s \<in> set ss \<Longrightarrow> validate s = Inr ()"
  by (induction ss arbitrary: r) (auto dest: permits_valid)

lemma history_bounded:
  "journal_history (\<lambda>r s. permits r s \<and> r \<noteq> s) r ss \<Longrightarrow> length ss \<le> remaining r"
proof (induction ss arbitrary: r)
  case (Cons s ss)
  then have "remaining s < remaining r" and "length ss \<le> remaining s"
    by (auto dest: permits_progress)
  then show ?case by simp
qed simp

end

end
