(* ===== verification/Transaction.thy ===== *)
theory Transaction
  imports Journal
begin

text \<open>
  The update transaction and its phase machine: \<^verbatim>\<open>crates/updated/src/transaction.rs\<close>.
  A method taking \<^verbatim>\<open>&mut self\<close> returns its result with the record it leaves behind.
\<close>

datatype Phase =
    Prepared | Activated | Converged | Verified | Committed
  | RollbackPlanned | CandidateCompensated | Restored | RollbackVerified | RolledBack

record Transaction =
  tx_id :: string
  tx_previous_release :: ReleaseId
  tx_previous_archive_sha256 :: string
  tx_previous_repository_lineage :: RepositoryLineage
  tx_candidate_release :: ReleaseId
  tx_candidate_archive_sha256 :: string
  tx_candidate_rejection_sha256 :: string
  tx_candidate_repository_lineage :: RepositoryLineage
  tx_candidate_rejection_required :: bool
  tx_previous_reconciler :: ReconcilerRelease
  tx_candidate_reconciler :: ReconcilerRelease
  tx_rollback_health_failures :: u32
  tx_phase :: Phase

definition phase_evidence_is_valid :: "Transaction \<Rightarrow> bool" where
  "phase_evidence_is_valid t \<longleftrightarrow>
     (\<not> tx_candidate_rejection_required t
      \<or> tx_phase t \<in> {Activated, Converged, RollbackPlanned, CandidateCompensated, Restored,
                      RollbackVerified, RolledBack})
     \<and> (tx_rollback_health_failures t = 0
        \<or> tx_phase t \<in> {Restored, RollbackVerified, RolledBack})"

definition transaction_validate :: "ext \<Rightarrow> Transaction \<Rightarrow> unit io_result" where
  "transaction_validate E t =
     bind_r (check (is_token (tx_id t)) InvalidData) (\<lambda>_.
     bind_r (release_validate E (tx_previous_release t)) (\<lambda>_.
     bind_r (release_validate E (tx_candidate_release t)) (\<lambda>_.
     bind_r (check (is_canonical_sha256 (tx_previous_archive_sha256 t)
                    \<and> is_canonical_sha256 (tx_candidate_archive_sha256 t)) InvalidData) (\<lambda>_.
     bind_r (check (lineage_validate (tx_previous_repository_lineage t)
                    \<and> lineage_validate (tx_candidate_repository_lineage t)) InvalidData) (\<lambda>_.
     case candidate_rejection_sha256 E (tx_previous_release t) (tx_previous_archive_sha256 t)
            (tx_candidate_release t) (tx_candidate_archive_sha256 t) of
       None \<Rightarrow> Inl InvalidData
     | Some expected_rejection \<Rightarrow>
         bind_r (check (is_canonical_sha256 (tx_candidate_rejection_sha256 t)
                        \<and> tx_candidate_rejection_sha256 t = expected_rejection) InvalidData) (\<lambda>_.
         bind_r (check (reconciler_is_valid (tx_previous_reconciler t)
                        \<and> reconciler_is_valid (tx_candidate_reconciler t)) InvalidData) (\<lambda>_.
         check (phase_evidence_is_valid t) InvalidData)))))))"

definition matches_previous :: "Transaction \<Rightarrow> InstalledState \<Rightarrow> bool" where
  "matches_previous t s \<longleftrightarrow>
     tx_previous_repository_lineage t = ins_repository_lineage s
     \<and> tx_previous_release t = ins_release s
     \<and> tx_previous_archive_sha256 t = ins_archive_sha256 s
     \<and> tx_previous_reconciler t = ins_reconciler s"

definition matches_candidate :: "Transaction \<Rightarrow> InstalledState \<Rightarrow> bool" where
  "matches_candidate t s \<longleftrightarrow>
     tx_candidate_repository_lineage t = ins_repository_lineage s
     \<and> tx_candidate_release t = ins_release s
     \<and> tx_candidate_archive_sha256 t = ins_archive_sha256 s
     \<and> tx_candidate_reconciler t = ins_reconciler s"

definition matches_rollback_guard :: "Transaction \<Rightarrow> RollbackGuard \<Rightarrow> bool" where
  "matches_rollback_guard t g \<longleftrightarrow>
     tx_id t = grd_attempt_id g
     \<and> tx_candidate_rejection_sha256 t = grd_candidate_rejection_sha256 g
     \<and> tx_previous_repository_lineage t = grd_previous_repository_lineage g
     \<and> tx_previous_release t = grd_previous_release g
     \<and> tx_previous_archive_sha256 t = grd_previous_archive_sha256 g
     \<and> tx_previous_reconciler t = grd_reconciler g"

definition rollback_attempt_id :: "Transaction \<Rightarrow> string" where
  "rollback_attempt_id t = tx_id t @ ''r''"

definition is_rollback :: "Transaction \<Rightarrow> bool" where
  "is_rollback t \<longleftrightarrow>
     tx_phase t \<in> {RollbackPlanned, CandidateCompensated, Restored, RollbackVerified, RolledBack}"

fun rollback_rank_of :: "Phase \<Rightarrow> nat option" where
  "rollback_rank_of RollbackPlanned = Some 0"
| "rollback_rank_of CandidateCompensated = Some 1"
| "rollback_rank_of Restored = Some 2"
| "rollback_rank_of RollbackVerified = Some 3"
| "rollback_rank_of RolledBack = Some 4"
| "rollback_rank_of Prepared = None"
| "rollback_rank_of Activated = None"
| "rollback_rank_of Converged = None"
| "rollback_rank_of Verified = None"
| "rollback_rank_of Committed = None"

definition recovery_pending :: "Transaction \<Rightarrow> Phase \<Rightarrow> bool" where
  "recovery_pending t target =
     (case (rollback_rank_of (tx_phase t), rollback_rank_of target) of
        (Some current, Some boundary) \<Rightarrow> current < boundary
      | _ \<Rightarrow> False)"

definition forward_edge :: "Phase \<Rightarrow> Phase \<Rightarrow> bool" where
  "forward_edge p q \<longleftrightarrow> (p, q) \<in> {(Prepared, Activated), (Activated, Converged),
     (Converged, Verified), (Verified, Committed), (Converged, Committed)}"

definition begin_rollback_edge :: "Phase \<Rightarrow> Phase \<Rightarrow> bool" where
  "begin_rollback_edge p q \<longleftrightarrow> p \<in> {Prepared, Activated, Converged, Verified} \<and> q = RollbackPlanned"

definition rollback_edge :: "Phase \<Rightarrow> Phase \<Rightarrow> bool" where
  "rollback_edge p q \<longleftrightarrow> (p, q) \<in> {(RollbackPlanned, CandidateCompensated),
     (CandidateCompensated, Restored), (Restored, RollbackVerified),
     (RollbackVerified, RolledBack), (Restored, RolledBack)}"

definition advance :: "Transaction \<Rightarrow> Phase \<Rightarrow> unit io_result \<times> Transaction" where
  "advance t next =
     (if \<not> (forward_edge (tx_phase t) next \<or> begin_rollback_edge (tx_phase t) next
            \<or> rollback_edge (tx_phase t) next)
      then (Inl InvalidInput, t)
      else let previous = tx_phase t; t' = t\<lparr> tx_phase := next \<rparr> in
           if \<not> phase_evidence_is_valid t' then (Inl InvalidInput, t'\<lparr> tx_phase := previous \<rparr>)
           else (Inr (), t'))"

definition record_rollback_health_failure :: "Transaction \<Rightarrow> u32 io_result \<times> Transaction" where
  "record_rollback_health_failure t =
     (if \<not> (\<not> recovery_pending t Restored \<and> recovery_pending t RolledBack) then (Inl InvalidInput, t)
      else case checked_succ (tx_rollback_health_failures t) of
             None \<Rightarrow> (Inl InvalidData, t)
           | Some n \<Rightarrow> (Inr n, t\<lparr> tx_rollback_health_failures := n \<rparr>))"

definition permits_replacement :: "Transaction \<Rightarrow> Transaction \<Rightarrow> bool" where
  "permits_replacement t next =
     (let identity = next\<lparr> tx_phase := tx_phase t,
                           tx_candidate_rejection_required := tx_candidate_rejection_required t,
                           tx_rollback_health_failures := tx_rollback_health_failures t \<rparr> in
      if identity \<noteq> t then False
      else if t = next then True
      else if tx_phase t \<noteq> tx_phase next then
        (if tx_phase t = Committed \<and> tx_phase next = RollbackPlanned
            \<and> tx_candidate_rejection_required t = tx_candidate_rejection_required next
            \<and> tx_rollback_health_failures t = tx_rollback_health_failures next
         then True
         else is_ok (fst (advance t (tx_phase next))) \<and> snd (advance t (tx_phase next)) = next)
      else
        (tx_phase t \<in> {Activated, Converged}
         \<and> \<not> tx_candidate_rejection_required t
         \<and> tx_candidate_rejection_required next
         \<and> tx_rollback_health_failures t = tx_rollback_health_failures next)
        \<or> (tx_candidate_rejection_required t = tx_candidate_rejection_required next
           \<and> is_ok (fst (record_rollback_health_failure t))
           \<and> snd (record_rollback_health_failure t) = next))"

datatype Recovery = RecoveryCommitted | NeverSwapped | RestorePredecessor

definition classify_recovery ::
  "Transaction \<Rightarrow> ReleaseId option \<Rightarrow> InstalledState option \<Rightarrow> Recovery" where
  "classify_recovery t active committed =
     (if tx_phase t \<in> {Converged, Verified, Committed}
         \<and> active = Some (tx_candidate_release t)
         \<and> (case committed of None \<Rightarrow> False | Some s \<Rightarrow> matches_candidate t s)
      then RecoveryCommitted
      else if tx_phase t = Prepared \<and> active = Some (tx_previous_release t) then NeverSwapped
      else if tx_phase t = RolledBack \<and> active = Some (tx_previous_release t) then NeverSwapped
      else RestorePredecessor)"

subsection \<open>Lemmas about the phase machine\<close>

lemmas edge_defs = forward_edge_def begin_rollback_edge_def rollback_edge_def

declare phase_evidence_is_valid_def [phase_simps] is_rollback_def [phase_simps]
  recovery_pending_def [phase_simps]

definition phase_edge :: "Phase \<Rightarrow> Phase \<Rightarrow> bool" where
  "phase_edge p q \<longleftrightarrow> forward_edge p q \<or> begin_rollback_edge p q \<or> rollback_edge p q"

lemma advance_cases:
  "advance t q =
     (if phase_edge (tx_phase t) q \<and> phase_evidence_is_valid (t\<lparr> tx_phase := q \<rparr>)
      then (Inr (), t\<lparr> tx_phase := q \<rparr>) else (Inl InvalidInput, t))"
  by (simp add: advance_def phase_edge_def Let_def)

lemma advance_ok_iff:
  "is_ok (fst (advance t q)) \<longleftrightarrow>
     phase_edge (tx_phase t) q \<and> phase_evidence_is_valid (t\<lparr> tx_phase := q \<rparr>)"
  by (simp add: advance_cases)

lemma advance_err_unchanged: "isl (fst (advance t q)) \<Longrightarrow> snd (advance t q) = t"
  unfolding advance_cases
  by (cases "phase_edge (tx_phase t) q \<and> phase_evidence_is_valid (t\<lparr> tx_phase := q \<rparr>)")
    (simp_all only: if_True if_False simp_thms fst_conv snd_conv sum.disc)

lemma advance_ok_snd: "is_ok (fst (advance t q)) \<Longrightarrow> snd (advance t q) = t\<lparr> tx_phase := q \<rparr>"
  unfolding advance_cases
  by (cases "phase_edge (tx_phase t) q \<and> phase_evidence_is_valid (t\<lparr> tx_phase := q \<rparr>)")
    (simp_all only: if_True if_False simp_thms fst_conv snd_conv sum.disc)

text \<open>The position of a phase in the only order the edges ever follow.\<close>

fun phase_index :: "Phase \<Rightarrow> nat" where
  "phase_index Prepared = 0"
| "phase_index Activated = 1"
| "phase_index Converged = 2"
| "phase_index Verified = 3"
| "phase_index Committed = 4"
| "phase_index RollbackPlanned = 5"
| "phase_index CandidateCompensated = 6"
| "phase_index Restored = 7"
| "phase_index RollbackVerified = 8"
| "phase_index RolledBack = 9"

lemma phase_edge_increases: "phase_edge p q \<Longrightarrow> phase_index p < phase_index q"
  by (cases p; cases q) (simp_all add: phase_edge_def edge_defs)

lemma phase_index_le: "phase_index p \<le> 9"
  by (cases p) auto

lemma transaction_validate_Inr:
  "transaction_validate E t = Inr () \<longleftrightarrow>
     is_token (tx_id t)
     \<and> release_validate E (tx_previous_release t) = Inr ()
     \<and> release_validate E (tx_candidate_release t) = Inr ()
     \<and> is_canonical_sha256 (tx_previous_archive_sha256 t)
     \<and> is_canonical_sha256 (tx_candidate_archive_sha256 t)
     \<and> lineage_validate (tx_previous_repository_lineage t)
     \<and> lineage_validate (tx_candidate_repository_lineage t)
     \<and> candidate_rejection_sha256 E (tx_previous_release t) (tx_previous_archive_sha256 t)
          (tx_candidate_release t) (tx_candidate_archive_sha256 t)
        = Some (tx_candidate_rejection_sha256 t)
     \<and> is_canonical_sha256 (tx_candidate_rejection_sha256 t)
     \<and> reconciler_is_valid (tx_previous_reconciler t)
     \<and> reconciler_is_valid (tx_candidate_reconciler t)
     \<and> phase_evidence_is_valid t"
  by (auto simp: transaction_validate_def bind_unit_Inr_iff split: option.splits)

text \<open>The immutable part of a transaction: all fields but the three the machine may change.\<close>

definition tx_identity :: "Transaction \<Rightarrow> Transaction" where
  "tx_identity t = t\<lparr> tx_phase := Prepared, tx_candidate_rejection_required := False,
                      tx_rollback_health_failures := 0 \<rparr>"

lemma tx_identity_eq_iff:
  "tx_identity s = tx_identity t \<longleftrightarrow>
     s\<lparr> tx_phase := tx_phase t, tx_candidate_rejection_required := tx_candidate_rejection_required t,
        tx_rollback_health_failures := tx_rollback_health_failures t \<rparr> = t"
  by (cases s; cases t) (simp add: tx_identity_def)

lemma tx_identity_update [simp]:
  "tx_identity (t\<lparr> tx_phase := p \<rparr>) = tx_identity t"
  "tx_identity (t\<lparr> tx_candidate_rejection_required := b \<rparr>) = tx_identity t"
  "tx_identity (t\<lparr> tx_rollback_health_failures := n \<rparr>) = tx_identity t"
  by (simp_all add: tx_identity_def)

text \<open>A transaction is its identity and its three mutable fields.\<close>

lemma tx_eq_iff:
  "s = t \<longleftrightarrow> tx_identity s = tx_identity t \<and> tx_phase s = tx_phase t
     \<and> tx_candidate_rejection_required s = tx_candidate_rejection_required t
     \<and> tx_rollback_health_failures s = tx_rollback_health_failures t"
  by (cases s; cases t) (auto simp: tx_identity_def)

text \<open>The rewrites a journal accepts, as one relation on the mutable fields.\<close>

definition health_gate_phase :: "Phase \<Rightarrow> bool" where
  "health_gate_phase p \<longleftrightarrow> p \<in> {Restored, RollbackVerified}"

definition mutable_step :: "Transaction \<Rightarrow> Transaction \<Rightarrow> bool" where
  "mutable_step t t' \<longleftrightarrow>
     t' = t
   \<or> (phase_edge (tx_phase t) (tx_phase t') \<and> phase_evidence_is_valid t'
      \<and> t' = t\<lparr> tx_phase := tx_phase t' \<rparr>)
   \<or> (tx_phase t = Committed \<and> t' = t\<lparr> tx_phase := RollbackPlanned \<rparr>)
   \<or> (tx_phase t \<in> {Activated, Converged} \<and> \<not> tx_candidate_rejection_required t
      \<and> t' = t\<lparr> tx_candidate_rejection_required := True \<rparr>)
   \<or> (health_gate_phase (tx_phase t) \<and> tx_rollback_health_failures t \<noteq> - 1
      \<and> t' = t\<lparr> tx_rollback_health_failures := tx_rollback_health_failures t + 1 \<rparr>)"

lemma gate_open_iff:
  "\<not> recovery_pending t Restored \<and> recovery_pending t RolledBack \<longleftrightarrow> health_gate_phase (tx_phase t)"
  by (cases "tx_phase t") (auto simp: recovery_pending_def health_gate_phase_def)

lemma record_failure_cases:
  "record_rollback_health_failure t =
     (if \<not> health_gate_phase (tx_phase t) then (Inl InvalidInput, t)
      else if tx_rollback_health_failures t = - 1 then (Inl InvalidData, t)
      else (Inr (tx_rollback_health_failures t + 1),
            t\<lparr> tx_rollback_health_failures := tx_rollback_health_failures t + 1 \<rparr>))"
  unfolding record_rollback_health_failure_def gate_open_iff by (simp add: checked_succ_def)


lemma permits_identity: "tx_identity t' \<noteq> tx_identity t \<Longrightarrow> \<not> permits_replacement t t'"
  by (simp only: permits_replacement_def Let_def tx_identity_eq_iff [symmetric] if_True simp_thms)

lemma mutable_step_identity: "mutable_step t t' \<Longrightarrow> tx_identity t' = tx_identity t"
  unfolding mutable_step_def by (elim disjE conjE) (metis tx_identity_update)+

lemma tx_update_eq_iff:
  assumes "tx_identity t' = tx_identity t"
  shows "t' = t\<lparr> tx_phase := p \<rparr> \<longleftrightarrow> tx_phase t' = p
        \<and> tx_candidate_rejection_required t' = tx_candidate_rejection_required t
        \<and> tx_rollback_health_failures t' = tx_rollback_health_failures t"
    "t' = t\<lparr> tx_candidate_rejection_required := b \<rparr> \<longleftrightarrow> tx_phase t' = tx_phase t
        \<and> tx_candidate_rejection_required t' = b
        \<and> tx_rollback_health_failures t' = tx_rollback_health_failures t"
    "t' = t\<lparr> tx_rollback_health_failures := n \<rparr> \<longleftrightarrow> tx_phase t' = tx_phase t
        \<and> tx_candidate_rejection_required t' = tx_candidate_rejection_required t
        \<and> tx_rollback_health_failures t' = n"
    "t' = t \<longleftrightarrow> tx_phase t' = tx_phase t
        \<and> tx_candidate_rejection_required t' = tx_candidate_rejection_required t
        \<and> tx_rollback_health_failures t' = tx_rollback_health_failures t"
  using assms by (subst tx_eq_iff, simp)+

lemma permits_advance_iff:
  "is_ok (fst (advance t p)) \<and> snd (advance t p) = t' \<longleftrightarrow>
   phase_edge (tx_phase t) p \<and> phase_evidence_is_valid t' \<and> t' = t\<lparr> tx_phase := p \<rparr>"
  using advance_ok_iff [of t p] advance_ok_snd [of t p] by metis

lemma permits_health_iff:
  "is_ok (fst (record_rollback_health_failure t)) \<and> snd (record_rollback_health_failure t) = t' \<longleftrightarrow>
   health_gate_phase (tx_phase t) \<and> tx_rollback_health_failures t \<noteq> - 1
   \<and> t' = t\<lparr> tx_rollback_health_failures := tx_rollback_health_failures t + 1 \<rparr>"
  unfolding record_failure_cases
  by (cases "health_gate_phase (tx_phase t)"; cases "tx_rollback_health_failures t = - 1")
    (auto simp only: if_True if_False simp_thms fst_conv snd_conv sum.disc)

lemma permits_replacement_iff: "permits_replacement t t' \<longleftrightarrow> mutable_step t t'"
proof (cases "tx_identity t' = tx_identity t")
  case False
  then show ?thesis
    using permits_identity mutable_step_identity by blast
next
  case True
  note eqs = tx_update_eq_iff [OF True]
  have same: "t'\<lparr> tx_phase := tx_phase t,
        tx_candidate_rejection_required := tx_candidate_rejection_required t,
        tx_rollback_health_failures := tx_rollback_health_failures t \<rparr> = t"
    using True by (simp only: tx_identity_eq_iff)
  have sym: "t = t' \<longleftrightarrow> t' = t" by blast
  show ?thesis
  proof (cases "tx_phase t' = tx_phase t")
    case same_phase: True
    have "\<not> phase_edge (tx_phase t) (tx_phase t')" and "tx_phase t = Committed \<Longrightarrow> tx_phase t' \<noteq> RollbackPlanned"
      using phase_edge_increases [of "tx_phase t" "tx_phase t'"] same_phase by auto
    then show ?thesis
      unfolding permits_replacement_def Let_def same mutable_step_def permits_health_iff eqs sym
      using same_phase by auto
  next
    case False
    then have "tx_phase t \<noteq> tx_phase t'" by simp
    with False show ?thesis
      unfolding permits_replacement_def Let_def same mutable_step_def permits_advance_iff eqs sym
      by auto
  qed
qed

text \<open>How many rewrites other than replays a transaction has left.\<close>

definition tx_remaining :: "Transaction \<Rightarrow> nat" where
  "tx_remaining t = (9 - phase_index (tx_phase t))
     + (if tx_candidate_rejection_required t then 0 else 1)
     + (2 ^ 32 - unat (tx_rollback_health_failures t))"

lemma tx_identity_sel:
  "tx_identity s = tx_identity t \<Longrightarrow> tx_id s = tx_id t \<and> tx_previous_release s = tx_previous_release t
     \<and> tx_previous_archive_sha256 s = tx_previous_archive_sha256 t
     \<and> tx_previous_repository_lineage s = tx_previous_repository_lineage t
     \<and> tx_candidate_release s = tx_candidate_release t
     \<and> tx_candidate_archive_sha256 s = tx_candidate_archive_sha256 t
     \<and> tx_candidate_rejection_sha256 s = tx_candidate_rejection_sha256 t
     \<and> tx_candidate_repository_lineage s = tx_candidate_repository_lineage t
     \<and> tx_previous_reconciler s = tx_previous_reconciler t
     \<and> tx_candidate_reconciler s = tx_candidate_reconciler t"
  by (cases s; cases t) (simp add: tx_identity_def)

lemma mutable_step_valid:
  assumes "mutable_step t t'" and "transaction_validate E t = Inr ()"
  shows "transaction_validate E t' = Inr ()"
proof -
  have "phase_evidence_is_valid t'"
    using assms unfolding mutable_step_def transaction_validate_Inr
    by (elim disjE conjE) (auto simp: phase_evidence_is_valid_def health_gate_phase_def)
  moreover have "tx_identity t' = tx_identity t"
    using assms(1) by (rule mutable_step_identity)
  ultimately show ?thesis
    using assms(2) unfolding transaction_validate_Inr
    by (simp add: tx_identity_sel [of t' t])
qed

lemma mutable_step_cases:
  assumes "mutable_step t t'"
  obtains (replay) "t' = t"
    | (phase) "phase_edge (tx_phase t) (tx_phase t')" "phase_evidence_is_valid t'"
        "tx_candidate_rejection_required t' = tx_candidate_rejection_required t"
        "tx_rollback_health_failures t' = tx_rollback_health_failures t"
    | (resume) "tx_phase t = Committed" "tx_phase t' = RollbackPlanned"
        "tx_candidate_rejection_required t' = tx_candidate_rejection_required t"
        "tx_rollback_health_failures t' = tx_rollback_health_failures t"
    | (reject) "tx_phase t \<in> {Activated, Converged}" "tx_phase t' = tx_phase t"
        "\<not> tx_candidate_rejection_required t" "tx_candidate_rejection_required t'"
        "tx_rollback_health_failures t' = tx_rollback_health_failures t"
    | (health) "health_gate_phase (tx_phase t)" "tx_phase t' = tx_phase t"
        "tx_candidate_rejection_required t' = tx_candidate_rejection_required t"
        "tx_rollback_health_failures t \<noteq> - 1"
        "tx_rollback_health_failures t' = tx_rollback_health_failures t + 1"
proof -
  note eqs = tx_update_eq_iff [OF mutable_step_identity [OF assms]]
  show ?thesis
    using assms unfolding mutable_step_def eqs using that eqs(4) by blast
qed

lemma mutable_step_progress:
  assumes "mutable_step t t'" and "t \<noteq> t'"
  shows "tx_remaining t' < tx_remaining t"
  using assms(1)
proof (cases rule: mutable_step_cases)
  case replay
  with assms(2) show ?thesis by simp
next
  case phase
  then have "phase_index (tx_phase t) < phase_index (tx_phase t')"
    by (intro phase_edge_increases)
  with phase phase_index_le [of "tx_phase t'"] show ?thesis
    by (simp add: tx_remaining_def)
next
  case health
  then have "unat (tx_rollback_health_failures t') = Suc (unat (tx_rollback_health_failures t))"
    using checked_succ_unat [of "tx_rollback_health_failures t"] by (simp add: checked_succ_def)
  moreover have "unat (tx_rollback_health_failures t') < 2 ^ 32"
    using unsigned_less [of "tx_rollback_health_failures t'"] by simp
  ultimately show ?thesis
    using health by (simp add: tx_remaining_def)
qed (auto simp: tx_remaining_def)

interpretation tx_journal: journal_machine
  "transaction_validate E" permits_replacement tx_identity tx_remaining for E :: ext
  by unfold_locales
    (auto simp: permits_replacement_iff mutable_step_identity mutable_step_progress
      intro: mutable_step_valid, simp add: mutable_step_def)

lemma mutable_step_rollback: "mutable_step t t' \<Longrightarrow> is_rollback t \<Longrightarrow> is_rollback t'"
  by (erule mutable_step_cases; cases "tx_phase t"; cases "tx_phase t'")
    (simp_all add: is_rollback_def phase_edge_def edge_defs)

lemma mutable_step_rejection:
  "mutable_step t t' \<Longrightarrow> tx_candidate_rejection_required t \<Longrightarrow> tx_candidate_rejection_required t'"
  by (erule mutable_step_cases) auto

lemma rejection_excludes_verified:
  "phase_evidence_is_valid t \<Longrightarrow> tx_candidate_rejection_required t
   \<Longrightarrow> tx_phase t \<notin> {Verified, Committed}"
  by (auto simp: phase_evidence_is_valid_def)

lemma history_keeps_rejection:
  "journal_history permits_replacement t ts \<Longrightarrow> tx_candidate_rejection_required t
   \<Longrightarrow> t' \<in> set ts \<Longrightarrow> tx_candidate_rejection_required t'"
proof (induction ts arbitrary: t)
  case (Cons s ts)
  then have "permits_replacement t s" and rest: "journal_history permits_replacement s ts"
    by simp_all
  then have "tx_candidate_rejection_required s"
    using Cons.prems(2) mutable_step_rejection permits_replacement_iff by blast
  with Cons.IH [OF rest] Cons.prems(3) show ?case
    by (metis set_ConsD)
qed simp

definition sample_tx :: "Phase \<Rightarrow> Transaction" where
  "sample_tx p =
     \<lparr> tx_id = sample_digest (CHR ''9''),
       tx_previous_release = sample_release ''1.0.0'',
       tx_previous_archive_sha256 = sample_digest (CHR ''c''),
       tx_previous_repository_lineage = sample_digest (CHR ''1''),
       tx_candidate_release = sample_release ''2.0.0'',
       tx_candidate_archive_sha256 = sample_digest (CHR ''d''),
       tx_candidate_rejection_sha256 = sample_digest (CHR ''e''),
       tx_candidate_repository_lineage = sample_digest (CHR ''1''),
       tx_candidate_rejection_required = False,
       tx_previous_reconciler = sample_reconciler,
       tx_candidate_reconciler = sample_reconciler,
       tx_rollback_health_failures = 0,
       tx_phase = p \<rparr>"

lemma sample_tx_sel [simp]:
  "tx_phase (sample_tx p) = p" "tx_candidate_rejection_required (sample_tx p) = False"
  "tx_rollback_health_failures (sample_tx p) = 0"
  by (simp_all add: sample_tx_def)

lemma sample_tx_update [simp]: "(sample_tx p)\<lparr> tx_phase := q \<rparr> = sample_tx q"
  by (simp add: sample_tx_def)

lemma sample_rejection:
  "candidate_rejection_sha256 sample_ext (sample_release ''1.0.0'') (sample_digest (CHR ''c''))
     (sample_release ''2.0.0'') (sample_digest (CHR ''d'')) = Some (sample_digest (CHR ''e''))"
  by (simp add: candidate_rejection_sha256_def deployment_rejection_sha256_def sha256_bytes_def
      byte_in_def sample_ext_def)

lemma sample_tx_valid [simp]: "transaction_validate sample_ext (sample_tx p) = Inr ()"
  by (simp add: transaction_validate_Inr sample_tx_def lineage_validate_def is_ascii_digit_def
      byte_in_def is_ascii_uppercase_def is_token_def phase_evidence_is_valid_def sample_rejection)

lemma sample_history:
  "journal_history permits_replacement (sample_tx Prepared) [sample_tx Activated, sample_tx RollbackPlanned]"
  by (simp add: permits_replacement_iff mutable_step_def phase_edge_def edge_defs phase_evidence_is_valid_def)

subsection \<open>Properties\<close>

text \<open>
  C13. Whatever sequence of rewrites the journal accepts for one transaction, every record of it
  names the same attempt, predecessor and candidate, and is a record recovery accepts.
\<close>

theorem transaction_history_safe:
  assumes "journal_history permits_replacement t ts"
    and "transaction_validate E t = Inr ()"
    and "t' \<in> set ts"
  shows "transaction_validate E t' = Inr () \<and> tx_identity t' = tx_identity t"
  using assms tx_journal.history_valid [where E = E] tx_journal.history_ident by blast

theorem transaction_history_safe_witness:
  "transaction_validate sample_ext (sample_tx RollbackPlanned) = Inr ()
   \<and> tx_identity (sample_tx RollbackPlanned) = tx_identity (sample_tx Prepared)"
  using transaction_history_safe [OF sample_history sample_tx_valid, of "sample_tx RollbackPlanned"]
  by simp

text \<open>
  C14. A transaction's journal makes only finitely many steps: replays aside, the number of
  rewrites is bounded by the phases, verdict and failure count it has left.
\<close>

theorem transaction_history_bounded:
  assumes "journal_history (\<lambda>r s. permits_replacement r s \<and> r \<noteq> s) t ts"
  shows "length ts \<le> tx_remaining t"
  using assms by (rule tx_journal.history_bounded)

theorem transaction_history_bounded_witness:
  "length [sample_tx Activated] \<le> tx_remaining (sample_tx Prepared)"
proof (rule transaction_history_bounded)
  have "sample_tx Prepared \<noteq> sample_tx Activated"
    by (metis sample_tx_sel(1) Phase.distinct(1))
  then show "journal_history (\<lambda>r s. permits_replacement r s \<and> r \<noteq> s) (sample_tx Prepared) [sample_tx Activated]"
    by (simp add: permits_replacement_iff mutable_step_def phase_edge_def edge_defs
        phase_evidence_is_valid_def)
qed

text \<open>
  C12. A recorded candidate rejection is one way and decides the outcome: no sequence of accepted
  rewrites drops it, verifies the candidate, or commits it.
\<close>

theorem rejected_candidate_never_commits:
  assumes "journal_history permits_replacement t ts"
    and "transaction_validate E t = Inr ()"
    and "tx_candidate_rejection_required t"
    and "t' \<in> set ts"
  shows "tx_candidate_rejection_required t' \<and> tx_phase t' \<notin> {Verified, Committed}"
proof -
  have "tx_candidate_rejection_required t'"
    using assms(1,3,4) by (rule history_keeps_rejection)
  moreover have "phase_evidence_is_valid t'"
    using tx_journal.history_valid [OF assms(1,2,4)] by (simp add: transaction_validate_Inr)
  ultimately show ?thesis
    using rejection_excludes_verified by blast
qed

theorem rejected_candidate_never_commits_witness:
  "tx_candidate_rejection_required ((sample_tx RollbackPlanned)\<lparr> tx_candidate_rejection_required := True \<rparr>)
   \<and> tx_phase ((sample_tx RollbackPlanned)\<lparr> tx_candidate_rejection_required := True \<rparr>) \<notin> {Verified, Committed}"
proof (rule rejected_candidate_never_commits)
  let ?r = "\<lambda>p. (sample_tx p)\<lparr> tx_candidate_rejection_required := True \<rparr>"
  have step: "(?r Converged)\<lparr> tx_phase := RollbackPlanned \<rparr> = ?r RollbackPlanned"
    by (simp add: sample_tx_def)
  show "journal_history permits_replacement (?r Converged) [?r RollbackPlanned]"
    by (simp add: permits_replacement_iff mutable_step_def phase_edge_def edge_defs step
        phase_evidence_is_valid_def)
  show "transaction_validate sample_ext (?r Converged) = Inr ()"
    using transaction_validate_Inr [THEN iffD1, OF sample_tx_valid [of Converged]]
    unfolding transaction_validate_Inr by (simp add: phase_evidence_is_valid_def)
qed simp_all

text \<open>
  C15. The phase machine is stuck in exactly its two terminal phases: any other record whose
  evidence is consistent can advance, and a terminal one cannot.
\<close>

theorem advance_stuck_iff_terminal:
  assumes "phase_evidence_is_valid t"
  shows "(\<exists>q. is_ok (fst (advance t q))) \<longleftrightarrow> tx_phase t \<notin> {Committed, RolledBack}"
proof
  assume "\<exists>q. is_ok (fst (advance t q))"
  then show "tx_phase t \<notin> {Committed, RolledBack}"
    by (auto simp: advance_ok_iff phase_edge_def edge_defs)
next
  assume live: "tx_phase t \<notin> {Committed, RolledBack}"
  show "\<exists>q. is_ok (fst (advance t q))"
  proof (cases "is_rollback t")
    case False
    then have "is_ok (fst (advance t RollbackPlanned))"
      using live assms by (cases "tx_phase t")
        (simp_all add: advance_ok_iff is_rollback_def phase_edge_def edge_defs phase_evidence_is_valid_def)
    then show ?thesis by blast
  next
    case True
    then have "\<exists>q. rollback_edge (tx_phase t) q \<and> phase_evidence_is_valid (t\<lparr> tx_phase := q \<rparr>)"
      using live assms by (cases "tx_phase t")
        (auto simp: is_rollback_def edge_defs phase_evidence_is_valid_def)
    then show ?thesis
      by (auto simp: advance_ok_iff phase_edge_def)
  qed
qed

theorem advance_stuck_iff_terminal_witness:
  "(\<exists>q. is_ok (fst (advance (sample_tx Restored) q)))
   \<longleftrightarrow> tx_phase (sample_tx Restored) \<notin> {Committed, RolledBack}"
  by (rule advance_stuck_iff_terminal) (simp add: phase_evidence_is_valid_def)

end
