(* ===== verification/Install.thy ===== *)
theory Install
  imports Journal
begin

text \<open>
  The first-install transaction and its recovery classifier:
  \<^verbatim>\<open>crates/updated/src/install.rs\<close>.
\<close>

datatype InstallPhase = Started | InstallPrepared | Placed | InstallCommitted

record InstallTransaction =
  itx_id :: string
  itx_release :: ReleaseId
  itx_archive_sha256 :: string
  itx_repository_lineage :: RepositoryLineage
  itx_reconciler :: ReconcilerRelease
  itx_phase :: InstallPhase

definition install_validate :: "ext \<Rightarrow> InstallTransaction \<Rightarrow> unit io_result" where
  "install_validate E t =
     bind_r (check (is_token (itx_id t)) InvalidData) (\<lambda>_.
     bind_r (release_validate E (itx_release t)) (\<lambda>_.
     bind_r (check (is_canonical_sha256 (itx_archive_sha256 t)) InvalidData) (\<lambda>_.
     bind_r (check (lineage_validate (itx_repository_lineage t)) InvalidData) (\<lambda>_.
     check (reconciler_is_valid (itx_reconciler t)) InvalidData))))"

definition install_advance :: "InstallTransaction \<Rightarrow> InstallPhase \<Rightarrow> unit io_result \<times> InstallTransaction" where
  "install_advance t next =
     (if (itx_phase t, next) \<in> {(Started, InstallPrepared), (InstallPrepared, Placed), (Placed, InstallCommitted)}
      then (Inr (), t\<lparr> itx_phase := next \<rparr>)
      else (Inl InvalidInput, t))"

definition install_permits_replacement :: "InstallTransaction \<Rightarrow> InstallTransaction \<Rightarrow> bool" where
  "install_permits_replacement t next =
     (if t = next then True
      else is_ok (fst (install_advance t (itx_phase next))) \<and> snd (install_advance t (itx_phase next)) = next)"

definition matches_installed :: "InstallTransaction \<Rightarrow> InstalledState \<Rightarrow> bool" where
  "matches_installed t s \<longleftrightarrow>
     itx_release t = ins_release s
     \<and> itx_archive_sha256 t = ins_archive_sha256 s
     \<and> itx_repository_lineage t = ins_repository_lineage s
     \<and> itx_reconciler t = ins_reconciler s"

datatype InstallRecovery = InstallRecoveryCommitted | InstallRecoveryResume

definition classify_install_recovery :: "InstallTransaction \<Rightarrow> InstalledState option \<Rightarrow> InstallRecovery" where
  "classify_install_recovery t installed =
     (if (case installed of None \<Rightarrow> False | Some s \<Rightarrow> matches_installed t s)
      then InstallRecoveryCommitted else InstallRecoveryResume)"

subsection \<open>Lemmas\<close>

fun install_index :: "InstallPhase \<Rightarrow> nat" where
  "install_index Started = 0"
| "install_index InstallPrepared = 1"
| "install_index Placed = 2"
| "install_index InstallCommitted = 3"

definition install_edge :: "InstallPhase \<Rightarrow> InstallPhase \<Rightarrow> bool" where
  "install_edge p q \<longleftrightarrow> install_index q = Suc (install_index p)"

definition itx_identity :: "InstallTransaction \<Rightarrow> InstallTransaction" where
  "itx_identity t = t\<lparr> itx_phase := Started \<rparr>"

definition itx_remaining :: "InstallTransaction \<Rightarrow> nat" where
  "itx_remaining t = 3 - install_index (itx_phase t)"

lemma install_advance_cases:
  "install_advance t q =
     (if install_edge (itx_phase t) q then (Inr (), t\<lparr> itx_phase := q \<rparr>) else (Inl InvalidInput, t))"
  by (cases "itx_phase t"; cases q) (simp_all add: install_advance_def install_edge_def)

lemma install_permits_iff:
  "install_permits_replacement t t' \<longleftrightarrow>
     t' = t \<or> (install_edge (itx_phase t) (itx_phase t') \<and> t' = t\<lparr> itx_phase := itx_phase t' \<rparr>)"
  by (auto simp: install_permits_replacement_def install_advance_cases)

lemma install_validate_Inr:
  "install_validate E t = Inr () \<longleftrightarrow>
     is_token (itx_id t) \<and> release_validate E (itx_release t) = Inr ()
     \<and> is_canonical_sha256 (itx_archive_sha256 t) \<and> lineage_validate (itx_repository_lineage t)
     \<and> reconciler_is_valid (itx_reconciler t)"
  by (simp add: install_validate_def bind_unit_Inr_iff conj_assoc)

lemma install_validate_phase [simp]:
  "install_validate E (t\<lparr> itx_phase := p \<rparr>) = install_validate E t"
  by (simp add: install_validate_def)

lemma install_permits_progress:
  "install_permits_replacement t t' \<Longrightarrow> t \<noteq> t' \<Longrightarrow> itx_remaining t' < itx_remaining t"
  by (cases "itx_phase t'") (auto simp: install_permits_iff install_edge_def itx_remaining_def)

lemma install_permits_valid:
  "install_permits_replacement t t' \<Longrightarrow> install_validate E t = Inr () \<Longrightarrow> install_validate E t' = Inr ()"
  by (metis install_permits_iff install_validate_phase)

lemma install_permits_ident: "install_permits_replacement t t' \<Longrightarrow> itx_identity t' = itx_identity t"
  unfolding install_permits_iff itx_identity_def
  by (metis InstallTransaction.surjective InstallTransaction.update_convs(6))

interpretation itx_journal: journal_machine
  "install_validate E" install_permits_replacement itx_identity itx_remaining for E :: ext
  by unfold_locales
    (auto intro: install_permits_ident install_permits_valid install_permits_progress,
     simp add: install_permits_iff)

definition sample_itx :: "InstallPhase \<Rightarrow> InstallTransaction" where
  "sample_itx p =
     \<lparr> itx_id = sample_digest (CHR ''9''), itx_release = sample_release ''1.0.0'',
       itx_archive_sha256 = sample_digest (CHR ''c''), itx_repository_lineage = sample_digest (CHR ''1''),
       itx_reconciler = sample_reconciler, itx_phase = p \<rparr>"

lemma sample_itx_valid: "install_validate sample_ext (sample_itx p) = Inr ()"
  by (simp add: install_validate_Inr sample_itx_def lineage_validate_def is_ascii_digit_def
      byte_in_def is_ascii_uppercase_def is_token_def)

text \<open>
  The journal of one first install is rewritten at most three times, whatever the crashes and
  replays in between, and every record of it stays a valid record of the same install.
\<close>

lemma install_history_bounded:
  assumes "journal_history (\<lambda>r s. install_permits_replacement r s \<and> r \<noteq> s) t ts"
    and "install_validate E t = Inr ()"
  shows "length ts \<le> 3 \<and> (\<forall>s\<in>set ts. install_validate E s = Inr () \<and> itx_identity s = itx_identity t)"
proof -
  have weak: "journal_history install_permits_replacement t ts"
    using assms(1) by (induction ts arbitrary: t) auto
  have "length ts \<le> itx_remaining t"
    using assms(1) by (rule itx_journal.history_bounded)
  then show ?thesis
    using itx_journal.history_valid [OF weak assms(2)] itx_journal.history_ident [OF weak]
    by (auto simp: itx_remaining_def)
qed

end
