(* ===== verification/Rejections.thy ===== *)
theory Rejections
  imports State
begin

text \<open>
  The never-retry ledger: \<^verbatim>\<open>crates/updated/src/reject.rs\<close>.  Its state is the live
  process's set with its dirty flag, and the text of the record file.  A \<^verbatim>\<open>BTreeSet\<close>
  is its sorted list of elements.
\<close>

definition MAX_REJECTION_KEYS :: nat where
  "MAX_REJECTION_KEYS = 4096"

definition MAX_REJECTION_RECORD_BYTES :: nat where
  "MAX_REJECTION_RECORD_BYTES = 2 ^ 20"

definition newline :: char where
  "newline = CHR 0x0A"

record Rejections =
  rej_hashes :: "string list"
  rej_dirty :: bool

record ledger =
  led_live :: Rejections
  led_file :: "string slot"

definition is_rejection_key :: "string \<Rightarrow> bool" where
  "is_rejection_key hash = (case split_once (CHR '':'') hash of
       None \<Rightarrow> False
     | Some (lineage, digest) \<Rightarrow> is_canonical_sha256 lineage \<and> is_canonical_sha256 digest)"

definition digest_key :: "string \<Rightarrow> unit + string" where
  "digest_key hash = (if \<not> is_rejection_key hash then Inl () else Inr hash)"

definition is_rejected :: "Rejections \<Rightarrow> string \<Rightarrow> bool" where
  "is_rejected R hash = (case digest_key hash of Inl _ \<Rightarrow> False | Inr h \<Rightarrow> h \<in> set (rej_hashes R))"

definition is_durably_rejected :: "Rejections \<Rightarrow> string \<Rightarrow> bool" where
  "is_durably_rejected R hash \<longleftrightarrow> \<not> rej_dirty R \<and> is_rejected R hash"

definition save_text :: "string list \<Rightarrow> string" where
  "save_text hashes = concat (map (\<lambda>hash. hash @ [newline]) hashes)"

definition save :: "fault \<Rightarrow> (ledger, unit) action" where
  "save f = (\<lambda>s.
     let out = save_text (rej_hashes (led_live s)) in
     if length out > MAX_REJECTION_RECORD_BYTES then (Err InvalidInput, s)
     else apply_fault f (\<lambda>s. s\<lparr> led_file := Record out \<rparr>) s)"

definition set_dirty :: "bool \<Rightarrow> ledger \<Rightarrow> ledger" where
  "set_dirty d s = s\<lparr> led_live := (led_live s)\<lparr> rej_dirty := d \<rparr> \<rparr>"

definition persist :: "fault \<Rightarrow> (ledger, unit) action" where
  "persist f = handle_a (save f)
     (\<lambda>_. modify_a (set_dirty False))
     (\<lambda>error. bind_a (modify_a (set_dirty True)) (\<lambda>_. fail_a error))"

definition insert_hash :: "string \<Rightarrow> ledger \<Rightarrow> ledger" where
  "insert_hash h s = s\<lparr> led_live := (led_live s)\<lparr> rej_hashes := insort_insert h (rej_hashes (led_live s)) \<rparr> \<rparr>"

definition reject :: "fault \<Rightarrow> string \<Rightarrow> (ledger, unit) action" where
  "reject f hash = (\<lambda>s. case digest_key hash of
       Inl _ \<Rightarrow> (Err InvalidInput, s)
     | Inr h \<Rightarrow>
         if h \<in> set (rej_hashes (led_live s)) then
           (if rej_dirty (led_live s) then persist f s else (Ok (), s))
         else if length (rej_hashes (led_live s)) \<ge> MAX_REJECTION_KEYS then (Err InvalidInput, s)
         else persist f (insert_hash h s))"

text \<open>\<^verbatim>\<open>load_record\<close>: the lines must be valid keys in strictly increasing order.\<close>

fun load_lines :: "string list \<Rightarrow> string list \<Rightarrow> string list io_result" where
  "load_lines hashes [] = Inr hashes"
| "load_lines hashes (line # lines) = (case digest_key line of
       Inl _ \<Rightarrow> Inl InvalidData
     | Inr hash \<Rightarrow>
         if hashes \<noteq> [] \<and> last hashes \<ge> hash then Inl InvalidData
         else let hashes' = insort_insert hash hashes in
              if length hashes' > MAX_REJECTION_KEYS then Inl InvalidData
              else load_lines hashes' lines)"

definition load_text :: "string \<Rightarrow> string list io_result" where
  "load_text text =
     (if text = [] \<or> last text \<noteq> newline then Inl InvalidData
      else let body = butlast text in
           if body = [] then Inl InvalidData else load_lines [] (split_on newline body))"

definition load_record :: "string slot \<Rightarrow> string list io_result" where
  "load_record fl = (case fl of
       Record text \<Rightarrow> (if length text > MAX_REJECTION_RECORD_BYTES then Inl InvalidData else load_text text)
     | Garbage \<Rightarrow> Inl InvalidData
     | Absent \<Rightarrow> Inr []
     | Unreadable k \<Rightarrow> (if k = NotFound then Inr [] else Inl k))"

definition load :: "string slot \<Rightarrow> Rejections io_result" where
  "load fl = bind_r (load_record fl) (\<lambda>hashes. Inr \<lparr> rej_hashes = hashes, rej_dirty = False \<rparr>)"

subsection \<open>The record format\<close>

lemma rejection_key_no_newline:
  assumes "is_rejection_key h"
  shows "newline \<notin> set h"
proof -
  obtain l d where "split_once (CHR '':'') h = Some (l, d)"
    and "is_canonical_sha256 l" and "is_canonical_sha256 d"
    using assms by (auto simp: is_rejection_key_def split: option.splits)
  then show ?thesis
    using canonical_no_newline split_once_Some by (fastforce simp: newline_def)
qed

lemma rejection_key_length: "is_rejection_key h \<Longrightarrow> length h = 129"
  by (auto simp: is_rejection_key_def dest!: split_once_Some canonical_length split: option.splits)

lemma rejection_key_lineage:
  "is_canonical_sha256 l \<Longrightarrow> is_canonical_sha256 d \<Longrightarrow> is_rejection_key (lineage_rejection_key l d)"
  by (simp add: is_rejection_key_def lineage_rejection_key_def split_once_append canonical_no_colon)

lemma lineage_rejection_key_inj:
  assumes "is_canonical_sha256 l" and "is_canonical_sha256 l'"
    and "lineage_rejection_key l d = lineage_rejection_key l' d'"
  shows "l = l' \<and> d = d'"
  using assms canonical_length [of l] canonical_length [of l'] by (simp add: lineage_rejection_key_def)

text \<open>The sets a ledger holds: strictly sorted valid keys within the key limit.\<close>

definition keys_ok :: "string list \<Rightarrow> bool" where
  "keys_ok hs \<longleftrightarrow> sorted hs \<and> distinct hs \<and> list_all is_rejection_key hs \<and> length hs \<le> MAX_REJECTION_KEYS"

lemma save_text_length: "list_all is_rejection_key hs \<Longrightarrow> length (save_text hs) = 130 * length hs"
  by (induction hs) (auto simp: save_text_def rejection_key_length)

lemma save_text_bounded: "keys_ok hs \<Longrightarrow> length (save_text hs) \<le> MAX_REJECTION_RECORD_BYTES"
  by (simp add: keys_ok_def save_text_length MAX_REJECTION_KEYS_def MAX_REJECTION_RECORD_BYTES_def)

lemma save_text_last: "hs \<noteq> [] \<Longrightarrow> save_text hs \<noteq> [] \<and> last (save_text hs) = newline"
  by (induction hs) (auto simp: save_text_def)

lemma split_save_text:
  "list_all is_rejection_key hs \<Longrightarrow> hs \<noteq> [] \<Longrightarrow> split_on newline (butlast (save_text hs)) = hs"
proof (induction hs)
  case (Cons h hs)
  then have h: "newline \<notin> set h" by (simp add: rejection_key_no_newline)
  show ?case
  proof (cases "hs = []")
    case True
    then show ?thesis using h by (simp add: save_text_def split_on_no_sep)
  next
    case False
    then have "butlast (save_text (h # hs)) = h @ newline # butlast (save_text hs)"
      using save_text_last [OF False] by (simp add: save_text_def butlast_append)
    then show ?thesis using Cons False h by (simp add: split_on_append_sep)
  qed
qed simp

lemma insort_insert_snoc:
  assumes "sorted hs" and "hs = [] \<or> last hs < h"
  shows "insort_insert h hs = hs @ [h]"
proof -
  have less: "\<forall>x \<in> set hs. x < h"
    using assms by (cases hs rule: rev_cases) (auto simp: sorted_append)
  then have "h \<notin> set hs" by auto
  moreover have "insort h hs = hs @ [h]"
    using less by (induction hs) auto
  ultimately show ?thesis
    by (simp add: insort_insert_key_def)
qed

lemma load_lines_ok:
  "keys_ok (hs @ ls) \<Longrightarrow> load_lines hs ls = Inr (hs @ ls)"
proof (induction ls arbitrary: hs)
  case (Cons l ls)
  then have key: "is_rejection_key l" and sorted: "sorted hs"
    and gt: "\<forall>x \<in> set hs. x < l" and len: "length hs < MAX_REJECTION_KEYS"
    by (auto simp: keys_ok_def sorted_append order.order_iff_strict)
  then have "hs = [] \<or> last hs < l" by (cases hs rule: rev_cases) auto
  then show ?case
    using Cons key len insort_insert_snoc [OF sorted] by (auto simp: digest_key_def not_le)
qed simp

lemma load_lines_Inr:
  "load_lines hs ls = Inr hs' \<Longrightarrow> keys_ok hs \<Longrightarrow> hs' = hs @ ls \<and> keys_ok hs'"
proof (induction ls arbitrary: hs)
  case (Cons l ls)
  then have key: "is_rejection_key l" and last: "hs = [] \<or> last hs < l"
    by (auto simp: digest_key_def Let_def not_le split: if_splits sum.splits)
  then have snoc: "insort_insert l hs = hs @ [l]"
    using Cons.prems(2) insort_insert_snoc by (auto simp: keys_ok_def)
  then have len: "length (hs @ [l]) \<le> MAX_REJECTION_KEYS" and rest: "load_lines (hs @ [l]) ls = Inr hs'"
    using Cons.prems(1) key by (auto simp: digest_key_def Let_def split: if_splits)
  have "\<forall>x \<in> set hs. x < l"
    using last Cons.prems(2)
    by (cases hs rule: rev_cases) (auto simp: keys_ok_def sorted_append)
  then have "keys_ok (hs @ [l])"
    using Cons.prems(2) key len by (auto simp: keys_ok_def sorted_append)
  then show ?case
    using Cons.IH [OF rest] by auto
qed simp

lemma butlast_save_text:
  "list_all is_rejection_key hs \<Longrightarrow> hs \<noteq> [] \<Longrightarrow> butlast (save_text hs) \<noteq> []"
  by (cases hs) (auto simp: save_text_def butlast_append dest: rejection_key_length)

lemma keys_ok_Nil [simp]: "keys_ok []"
  by (simp add: keys_ok_def)

lemma load_save_text: "keys_ok hs \<Longrightarrow> hs \<noteq> [] \<Longrightarrow> load_text (save_text hs) = Inr hs"
  using save_text_last [of hs] split_save_text [of hs] load_lines_ok [of "[]" hs] butlast_save_text
  by (simp add: load_text_def Let_def keys_ok_def)

lemma join_split_on: "concat (map (\<lambda>p. p @ [c]) (split_on c xs)) = xs @ [c]"
proof (induction xs)
  case (Cons x xs)
  then show ?case by (cases "split_on c xs") auto
qed simp

lemma load_text_Inr:
  assumes "load_text text = Inr hs"
  shows "keys_ok hs \<and> hs \<noteq> [] \<and> text = save_text hs"
proof -
  from assms have ends: "text \<noteq> []" "last text = newline"
    and lines: "load_lines [] (split_on newline (butlast text)) = Inr hs"
    by (auto simp: load_text_def Let_def split: if_splits)
  from load_lines_Inr [OF lines] have hs: "hs = split_on newline (butlast text)" and ok: "keys_ok hs"
    by auto
  have "save_text hs = butlast text @ [newline]"
    by (simp add: hs save_text_def join_split_on)
  then have "text = save_text hs"
    using ends append_butlast_last_id [of "text"] by simp
  then show ?thesis
    using ok hs by simp
qed

lemma load_record_keys: "load_record fl = Inr hs \<Longrightarrow> keys_ok hs"
  by (auto simp: load_record_def dest: load_text_Inr split: slot.splits if_splits)

lemma load_record_saved: "keys_ok hs \<Longrightarrow> hs \<noteq> [] \<Longrightarrow> load_record (Record (save_text hs)) = Inr hs"
  using save_text_bounded by (simp add: load_record_def load_save_text not_less)

subsection \<open>The ledger invariant\<close>

text \<open>
  What the live process may hold beside the file: everything the file records is suppressed in
  memory, and a clean process agrees with the file exactly.
\<close>

definition ledger_inv :: "ledger \<Rightarrow> bool" where
  "ledger_inv s \<longleftrightarrow> keys_ok (rej_hashes (led_live s)) \<and>
     (case load_record (led_file s) of
        Inl _ \<Rightarrow> False
      | Inr hs \<Rightarrow> set hs \<subseteq> set (rej_hashes (led_live s)) \<and>
                  (\<not> rej_dirty (led_live s) \<longrightarrow> hs = rej_hashes (led_live s)))"

definition disk_keys :: "string slot \<Rightarrow> string set" where
  "disk_keys fl = (case load_record fl of Inl _ \<Rightarrow> {} | Inr hs \<Rightarrow> set hs)"

text \<open>What is left when the process dies: a record a restart accepts.\<close>

definition ledger_disk_ok :: "ledger \<Rightarrow> bool" where
  "ledger_disk_ok s \<longleftrightarrow> (\<exists>hs. load_record (led_file s) = Inr hs)"

lemma ledger_inv_disk: "ledger_inv s \<Longrightarrow> ledger_disk_ok s"
  by (auto simp: ledger_inv_def ledger_disk_ok_def split: sum.splits)

lemma keys_ok_insert:
  assumes "keys_ok hs" and "is_rejection_key h" and "h \<notin> set hs" and "length hs < MAX_REJECTION_KEYS"
  shows "keys_ok (insort_insert h hs)" and "set (insort_insert h hs) = insert h (set hs)"
    and "insort_insert h hs \<noteq> []"
proof -
  have "insort_insert h hs = insort h hs"
    using assms(3) by (simp add: insort_insert_key_def)
  then show "keys_ok (insort_insert h hs)" "set (insort_insert h hs) = insert h (set hs)"
      "insort_insert h hs \<noteq> []"
    using assms by (auto simp: keys_ok_def sorted_insort distinct_insort set_insort_key list_all_iff)
qed

lemma persist_cases:
  assumes "keys_ok (rej_hashes (led_live s))"
  defines "s' \<equiv> s\<lparr> led_file := Record (save_text (rej_hashes (led_live s))) \<rparr>"
  shows "persist f s \<in> {(Ok (), set_dirty False s'), (Crashed, s), (Crashed, s')} \<or>
         (\<exists>k. persist f s = (Err k, set_dirty True s) \<or> persist f s = (Err k, set_dirty True s'))"
  using save_text_bounded [OF assms(1)]
  by (cases f) (auto simp: persist_def save_def Let_def not_less s'_def apply_fault_def outcome_simps)

lemma ledger_inv_set_dirty: "ledger_inv s \<Longrightarrow> ledger_inv (set_dirty True s)"
  by (auto simp: ledger_inv_def set_dirty_def split: sum.splits)

lemma set_dirty_sel [simp]:
  "rej_hashes (led_live (set_dirty d s)) = rej_hashes (led_live s)"
  "rej_dirty (led_live (set_dirty d s)) = d"
  "led_file (set_dirty d s) = led_file s"
  by (simp_all add: set_dirty_def)

lemma insert_hash_sel [simp]:
  "rej_hashes (led_live (insert_hash h s)) = insort_insert h (rej_hashes (led_live s))"
  "rej_dirty (led_live (insert_hash h s)) = rej_dirty (led_live s)"
  "led_file (insert_hash h s) = led_file s"
  by (simp_all add: insert_hash_def)

lemma ledger_inv_iff:
  "ledger_inv s \<longleftrightarrow> keys_ok (rej_hashes (led_live s)) \<and> (\<exists>hs. load_record (led_file s) = Inr hs \<and>
     set hs \<subseteq> set (rej_hashes (led_live s)) \<and> (\<not> rej_dirty (led_live s) \<longrightarrow> hs = rej_hashes (led_live s)))"
  by (auto simp: ledger_inv_def split: sum.splits)

text \<open>
  Persisting a nonempty set that contains what the file records: every outcome leaves a record
  that loads, and nothing recorded is lost.
\<close>

lemma persist_inv:
  assumes keys: "keys_ok (rej_hashes (led_live s))" "rej_hashes (led_live s) \<noteq> []"
    and disk: "load_record (led_file s) = Inr hs" "set hs \<subseteq> set (rej_hashes (led_live s))"
  shows "case persist f s of
      (Ok _, s') \<Rightarrow> ledger_inv s' \<and> \<not> rej_dirty (led_live s') \<and> led_file s' = Record (save_text (rej_hashes (led_live s)))
        \<and> rej_hashes (led_live s') = rej_hashes (led_live s)
    | (Err _, s') \<Rightarrow> ledger_inv s' \<and> rej_dirty (led_live s') \<and> set hs \<subseteq> disk_keys (led_file s')
        \<and> rej_hashes (led_live s') = rej_hashes (led_live s)
    | (Crashed, s') \<Rightarrow> ledger_disk_ok s' \<and> set hs \<subseteq> disk_keys (led_file s')"
  using persist_cases [OF keys(1), of f] load_record_saved [OF keys] keys disk
  by (auto simp: ledger_inv_iff ledger_disk_ok_def disk_keys_def)

lemma reject_inv:
  assumes inv: "ledger_inv s"
  shows "case reject f h s of
      (Ok _, s') \<Rightarrow> ledger_inv s' \<and> is_durably_rejected (led_live s') h \<and> h \<in> disk_keys (led_file s')
        \<and> disk_keys (led_file s) \<subseteq> disk_keys (led_file s')
        \<and> set (rej_hashes (led_live s)) \<subseteq> set (rej_hashes (led_live s'))
    | (Err _, s') \<Rightarrow> ledger_inv s' \<and> disk_keys (led_file s) \<subseteq> disk_keys (led_file s')
        \<and> set (rej_hashes (led_live s)) \<subseteq> set (rej_hashes (led_live s'))
    | (Crashed, s') \<Rightarrow> ledger_disk_ok s' \<and> disk_keys (led_file s) \<subseteq> disk_keys (led_file s')"
proof -
  obtain hs where keys: "keys_ok (rej_hashes (led_live s))"
    and disk: "load_record (led_file s) = Inr hs" "set hs \<subseteq> set (rej_hashes (led_live s))"
      "\<not> rej_dirty (led_live s) \<longrightarrow> hs = rej_hashes (led_live s)"
    using inv by (auto simp: ledger_inv_iff)
  have dk: "disk_keys (led_file s) = set hs" by (simp add: disk_keys_def disk)
  consider "\<not> is_rejection_key h"
    | "is_rejection_key h" "h \<in> set (rej_hashes (led_live s))" "\<not> rej_dirty (led_live s)"
    | "is_rejection_key h" "h \<in> set (rej_hashes (led_live s))" "rej_dirty (led_live s)"
    | "is_rejection_key h" "h \<notin> set (rej_hashes (led_live s))"
        "MAX_REJECTION_KEYS \<le> length (rej_hashes (led_live s))"
    | "is_rejection_key h" "h \<notin> set (rej_hashes (led_live s))"
        "length (rej_hashes (led_live s)) < MAX_REJECTION_KEYS"
    by linarith
  then show ?thesis
  proof cases
    case 3
    then have "rej_hashes (led_live s) \<noteq> []" by auto
    from persist_inv [OF keys this disk(1,2), of f] load_record_saved [OF keys this] 3 disk show ?thesis
      by (auto simp: reject_def digest_key_def dk is_durably_rejected_def is_rejected_def disk_keys_def
          split: prod.splits outcome.splits)
  next
    case 5
    note ins = keys_ok_insert [OF keys 5]
    have "set hs \<subseteq> set (rej_hashes (led_live (insert_hash h s)))" using disk ins by auto
    from persist_inv [of "insert_hash h s" hs f] load_record_saved [OF ins(1,3)] this ins 5 disk show ?thesis
      by (auto simp: reject_def digest_key_def dk is_durably_rejected_def is_rejected_def disk_keys_def
          split: prod.splits outcome.splits)
  qed (use inv dk disk in \<open>auto simp: reject_def digest_key_def is_durably_rejected_def is_rejected_def\<close>)
qed

subsection \<open>Ledgers over many runs\<close>

text \<open>
  An append-only evidence ledger: steps keep an invariant and never lose evidence.  The rejection
  record is one.
\<close>

locale evidence_ledger =
  fixes step :: "'e \<Rightarrow> 's \<Rightarrow> 's" and inv :: "'s \<Rightarrow> bool" and evidence :: "'s \<Rightarrow> 'k set"
  assumes step_inv: "inv s \<Longrightarrow> inv (step e s)"
    and step_evidence: "inv s \<Longrightarrow> evidence s \<subseteq> evidence (step e s)"
begin

lemma history_inv: "inv s \<Longrightarrow> inv (fold step es s)"
  by (induction es arbitrary: s) (auto simp: step_inv)

lemma history_evidence: "inv s \<Longrightarrow> evidence s \<subseteq> evidence (fold step es s)"
proof (induction es arbitrary: s)
  case (Cons e es)
  then show ?case
    using step_inv [of s e] step_evidence [of s e] Cons.IH [of "step e s"] by auto
qed simp

end

datatype ledger_event = Reject string fault | Restart

text \<open>A new process loads the record; a process that dies while rejecting is followed by a new one.\<close>

definition restart :: "ledger \<Rightarrow> ledger" where
  "restart s = (case load (led_file s) of Inl _ \<Rightarrow> s | Inr r \<Rightarrow> s\<lparr> led_live := r \<rparr>)"

fun ledger_step :: "ledger_event \<Rightarrow> ledger \<Rightarrow> ledger" where
  "ledger_step Restart s = restart s"
| "ledger_step (Reject h f) s = (case reject f h s of (Crashed, s') \<Rightarrow> restart s' | (_, s') \<Rightarrow> s')"

lemma restart_inv: "ledger_disk_ok s \<Longrightarrow> ledger_inv (restart s) \<and> led_file (restart s) = led_file s"
  by (auto simp: ledger_disk_ok_def ledger_inv_iff restart_def load_def dest: load_record_keys)

lemma ledger_step_inv:
  assumes "ledger_inv s"
  shows "ledger_inv (ledger_step e s)" and "disk_keys (led_file s) \<subseteq> disk_keys (led_file (ledger_step e s))"
proof -
  have "ledger_inv (ledger_step e s) \<and> disk_keys (led_file s) \<subseteq> disk_keys (led_file (ledger_step e s))"
  proof (cases e)
    case (Reject h f)
    obtain o' s' where "reject f h s = (o', s')" by (cases "reject f h s")
    then show ?thesis
      using reject_inv [OF assms, of h f] restart_inv [of s'] Reject by (cases o') auto
  next
    case Restart
    then show ?thesis using restart_inv [of s] ledger_inv_disk [OF assms] by simp
  qed
  then show "ledger_inv (ledger_step e s)" "disk_keys (led_file s) \<subseteq> disk_keys (led_file (ledger_step e s))"
    by auto
qed

interpretation rej_ledger: evidence_ledger ledger_step ledger_inv "\<lambda>s. disk_keys (led_file s)"
  by unfold_locales (simp_all add: ledger_step_inv)

lemma disk_keys_live: "ledger_inv s \<Longrightarrow> h \<in> disk_keys (led_file s) \<Longrightarrow> is_rejected (led_live s) h"
  by (auto simp: ledger_inv_iff disk_keys_def is_rejected_def digest_key_def keys_ok_def list_all_iff)

lemma durable_disk_keys: "ledger_inv s \<Longrightarrow> is_durably_rejected (led_live s) h \<Longrightarrow> h \<in> disk_keys (led_file s)"
  by (auto simp: ledger_inv_iff disk_keys_def is_rejected_def is_durably_rejected_def digest_key_def
      split: if_splits)

definition empty_ledger :: ledger where
  "empty_ledger = \<lparr> led_live = \<lparr> rej_hashes = [], rej_dirty = False \<rparr>, led_file = Absent \<rparr>"

definition sample_key :: string where
  "sample_key = lineage_rejection_key (sample_digest (CHR ''1'')) (sample_digest (CHR ''c''))"

lemma sample_key_ok [simp]: "is_rejection_key sample_key"
  by (simp add: sample_key_def rejection_key_lineage byte_in_def is_ascii_digit_def)

lemma empty_ledger_inv [simp]: "ledger_inv empty_ledger"
  by (simp add: ledger_inv_def empty_ledger_def load_record_def)

lemma reject_empty_ledger:
  assumes "is_rejection_key key"
  shows "fst (reject NoFault key empty_ledger) = Ok ()"
proof -
  have "length (save_text [key]) \<le> MAX_REJECTION_RECORD_BYTES"
    by (rule save_text_bounded) (simp add: assms keys_ok_def MAX_REJECTION_KEYS_def)
  then show ?thesis
    by (simp add: assms reject_def digest_key_def empty_ledger_def persist_def save_def insert_hash_def
        apply_fault_def outcome_simps MAX_REJECTION_KEYS_def insort_insert_key_def not_less)
qed

subsection \<open>Properties\<close>

text \<open>
  C11. A rejection that \<^const>\<open>reject\<close> reported as recorded is permanent: whatever keys are rejected
  afterwards, whichever of those writes fail or are cut short by a crash, and however often the
  process restarts, the record still loads and the key is still rejected.
\<close>

theorem rejection_permanent:
  assumes "ledger_inv s" and "reject f h s = (Ok (), s')"
  shows "let t = fold ledger_step es s' in
           ledger_inv t \<and> is_rejected (led_live t) h \<and>
           (\<exists>r. load (led_file t) = Inr r \<and> is_durably_rejected r h)"
proof -
  have s': "ledger_inv s'" "h \<in> disk_keys (led_file s')"
    using reject_inv [OF assms(1), of h f] assms(2) by auto
  define t where "t = fold ledger_step es s'"
  have t: "ledger_inv t" "h \<in> disk_keys (led_file t)"
    using rej_ledger.history_inv [OF s'(1)] rej_ledger.history_evidence [OF s'(1)] s'(2)
    by (auto simp: t_def)
  then have "is_rejected (led_live t) h" by (rule disk_keys_live)
  moreover have "\<exists>r. load (led_file t) = Inr r \<and> is_durably_rejected r h"
    using t load_record_keys
    by (auto simp: disk_keys_def load_def is_durably_rejected_def is_rejected_def digest_key_def
        ledger_inv_iff keys_ok_def list_all_iff)
  ultimately show ?thesis
    using t by (simp add: t_def Let_def)
qed

theorem rejection_permanent_witness:
  "let t = fold ledger_step [Reject sample_key CrashBefore, Restart]
             (snd (reject NoFault sample_key empty_ledger)) in
   ledger_inv t \<and> is_rejected (led_live t) sample_key \<and>
   (\<exists>r. load (led_file t) = Inr r \<and> is_durably_rejected r sample_key)"
  by (rule rejection_permanent [OF empty_ledger_inv, of NoFault])
    (use reject_empty_ledger [OF sample_key_ok] in \<open>simp add: prod_eq_iff\<close>)

text \<open>
  C16. The record format is canonical: the texts \<^const>\<open>load_record\<close> accepts are exactly the ones
  \<^const>\<open>save\<close> writes for a nonempty set of valid keys within the key limit, and loading gives that
  set back.  So no two different texts stand for one set and every saved set survives a restart.
\<close>

theorem rejection_record_canonical:
  "load_record (Record content) = Inr hs \<longleftrightarrow> keys_ok hs \<and> hs \<noteq> [] \<and> content = save_text hs"
  using load_record_saved [of hs] load_text_Inr [of content hs]
  by (auto simp: load_record_def)

text \<open>
  Rejections do not cross repository lineages: rejecting any digest under one lineage leaves every
  answer for another lineage as it was, whatever the outcome of the write.
\<close>

lemma rejection_lineage_isolated:
  assumes "ledger_inv s" and "is_canonical_sha256 l" and "is_canonical_sha256 l'" and "l \<noteq> l'"
  shows "is_rejected (led_live (snd (reject f (lineage_rejection_key l d) s))) (lineage_rejection_key l' d')
     \<longleftrightarrow> is_rejected (led_live s) (lineage_rejection_key l' d')"
proof -
  have "lineage_rejection_key l d \<noteq> lineage_rejection_key l' d'"
    using assms lineage_rejection_key_inj by blast
  moreover have "rej_hashes (led_live (snd (persist f t))) = rej_hashes (led_live t)" for t
    by (cases f) (auto simp: persist_def save_def Let_def apply_fault_def outcome_simps)
  ultimately show ?thesis
    using set_insort_insert [of "lineage_rejection_key l d" "rej_hashes (led_live s)"]
    by (auto simp: reject_def is_rejected_def digest_key_def)
qed

end
