(* ===== verification/Store.thy ===== *)
theory Store
  imports Transaction Install Rejections
begin

text \<open>
  The agent's one durable-state boundary: \<^verbatim>\<open>crates/agent/src/store.rs\<close>, over the file
  backend.  The state is the five record files, the live rejection set, the answers
  \<^verbatim>\<open>bundle::verify_release\<close> gives for the materialised trees, and the faults that the
  coming durable writes meet.  Reads and the authorisation rules are pure functions of the state;
  each operation that writes is an action.
\<close>

record store =
  st_installed :: "InstalledState slot"
  st_journal :: "Transaction slot"
  st_install_journal :: "InstallTransaction slot"
  st_active :: "ReleaseId slot"
  st_ledger :: ledger
  st_history :: "string slot"
  st_versions :: "ReleaseId \<Rightarrow> unit io_result"
  st_faults :: "fault list"

subsection \<open>Durable writes\<close>

definition next_fault :: "store \<Rightarrow> fault" where
  "next_fault s = (case st_faults s of [] \<Rightarrow> NoFault | f # _ \<Rightarrow> f)"

definition pop_fault :: "store \<Rightarrow> store" where
  "pop_fault s = s\<lparr> st_faults := tl (st_faults s) \<rparr>"

text \<open>\<^verbatim>\<open>durable::atomic_write_managed\<close> of one file, and \<^verbatim>\<open>durable::remove_file\<close>, which
  syncs the directory only when there was a file to remove.\<close>

definition durable :: "(store \<Rightarrow> store) \<Rightarrow> (store, unit) action" where
  "durable upd s = apply_fault (next_fault s) upd (pop_fault s)"

definition durable_remove :: "bool \<Rightarrow> (store \<Rightarrow> store) \<Rightarrow> (store, unit) action" where
  "durable_remove absent upd s =
     apply_fault (case next_fault s of FailUnsynced k \<Rightarrow> (if absent then NoFault else FailUnsynced k) | f \<Rightarrow> f)
       upd (pop_fault s)"

subsection \<open>Reads\<close>

datatype JournalKind = JournalUpdate | JournalInstall

definition store_installed :: "ext \<Rightarrow> store \<Rightarrow> Installed io_result" where
  "store_installed E s = try_read_installed E (st_installed s)"

definition store_journal :: "ext \<Rightarrow> store \<Rightarrow> Transaction option io_result" where
  "store_journal E s = journal_read (transaction_validate E) (st_journal s)"

definition store_install_journal :: "ext \<Rightarrow> store \<Rightarrow> InstallTransaction option io_result" where
  "store_install_journal E s = journal_read (install_validate E) (st_install_journal s)"

text \<open>\<^verbatim>\<open>bundle::read_active\<close> reads the pointer file under the same rule as a journal.\<close>

definition read_active :: "ext \<Rightarrow> ReleaseId slot \<Rightarrow> ReleaseId option io_result" where
  "read_active E fl = (case fl of
       Record r \<Rightarrow> bind_r (release_validate E r) (\<lambda>_. Inr (Some r))
     | Garbage \<Rightarrow> Inl InvalidData
     | Absent \<Rightarrow> Inr None
     | Unreadable k \<Rightarrow> (if k = NotFound then Inr None else Inl k))"

definition store_active_release :: "ext \<Rightarrow> store \<Rightarrow> ReleaseId option io_result" where
  "store_active_release E s = read_active E (st_active s)"

definition rejection_key :: "RepositoryLineage \<Rightarrow> string \<Rightarrow> string io_result" where
  "rejection_key lineage digest =
     (if \<not> lineage_validate lineage \<or> \<not> is_canonical_sha256 digest then Inl InvalidInput
      else Inr (lineage_rejection_key lineage digest))"

definition store_is_rejected :: "store \<Rightarrow> RepositoryLineage \<Rightarrow> string \<Rightarrow> bool" where
  "store_is_rejected s lineage digest = (case rejection_key lineage digest of
       Inl _ \<Rightarrow> True
     | Inr key \<Rightarrow> is_rejected (led_live (st_ledger s)) key)"

definition rejection_is_durable :: "store \<Rightarrow> RepositoryLineage \<Rightarrow> string \<Rightarrow> bool" where
  "rejection_is_durable s lineage digest = (case rejection_key lineage digest of
       Inl _ \<Rightarrow> False
     | Inr key \<Rightarrow> is_durably_rejected (led_live (st_ledger s)) key)"

definition rejects_deployment :: "ext \<Rightarrow> store \<Rightarrow> RepositoryLineage \<Rightarrow> string \<Rightarrow> bool" where
  "rejects_deployment E s lineage application \<longleftrightarrow>
     store_is_rejected s lineage application
     \<or> (case deployment_rejection_sha256 E application of
          None \<Rightarrow> True
        | Some digest \<Rightarrow> store_is_rejected s lineage digest)"

subsection \<open>Rejections\<close>

definition store_open :: "store \<Rightarrow> unit io_result \<times> store" where
  "store_open s = (case load (led_file (st_ledger s)) of
       Inl k \<Rightarrow> (Inl k, s)
     | Inr r \<Rightarrow> (Inr (), s\<lparr> st_ledger := (st_ledger s)\<lparr> led_live := r \<rparr> \<rparr>))"

definition record_rejection :: "RepositoryLineage \<Rightarrow> string \<Rightarrow> (store, unit) action" where
  "record_rejection lineage digest s = (case rejection_key lineage digest of
       Inl k \<Rightarrow> (Err k, s)
     | Inr key \<Rightarrow>
         (case reject (next_fault s) key (st_ledger s) of
            (r, led) \<Rightarrow> (r, (pop_fault s)\<lparr> st_ledger := led \<rparr>)))"

definition reject_artifact :: "RepositoryLineage \<Rightarrow> string \<Rightarrow> (store, unit) action" where
  "reject_artifact lineage digest = record_rejection lineage digest"

definition reject_deployment :: "ext \<Rightarrow> RepositoryLineage \<Rightarrow> string \<Rightarrow> (store, unit) action" where
  "reject_deployment E lineage application = (case deployment_rejection_sha256 E application of
       None \<Rightarrow> fail_a InvalidInput
     | Some digest \<Rightarrow> record_rejection lineage digest)"

subsection \<open>The installed record\<close>

definition install_commit_is_authorized :: "ext \<Rightarrow> InstalledState \<Rightarrow> store \<Rightarrow> bool io_result" where
  "install_commit_is_authorized E next s =
     bind_r (store_install_journal E s) (\<lambda>j. case j of
       None \<Rightarrow> Inr False
     | Some tx \<Rightarrow> Inr (itx_phase tx \<in> {Placed, InstallCommitted} \<and> matches_installed tx next
                       \<and> ins_rollback_guard next = None \<and> \<not> is_proven next))"

definition metadata_transition_is_authorized :: "InstalledState \<Rightarrow> InstalledState \<Rightarrow> bool" where
  "metadata_transition_is_authorized current next =
     (if current = next then True
      else if ins_release current \<noteq> ins_release next
              \<or> ins_archive_sha256 current \<noteq> ins_archive_sha256 next
              \<or> ins_reconciler current \<noteq> ins_reconciler next then False
      else case (ins_repository_lineage current \<noteq> ins_repository_lineage next,
                 ins_rollback_guard current \<noteq> ins_rollback_guard next,
                 is_proven current \<noteq> is_proven next) of
             (True, False, False) \<Rightarrow> True
           | (False, False, True) \<Rightarrow>
               \<not> is_proven current \<and> is_proven next \<and> ins_rollback_guard current = None
           | (False, True, False) \<Rightarrow>
               ins_rollback_guard current \<noteq> None \<and> ins_rollback_guard next = None
           | _ \<Rightarrow> False)"

definition pending_rollback_is_authorized :: "store \<Rightarrow> InstalledState \<Rightarrow> InstalledState \<Rightarrow> bool" where
  "pending_rollback_is_authorized s current next = (case ins_rollback_guard current of
       None \<Rightarrow> False
     | Some pending \<Rightarrow>
         rejection_is_durable s (ins_repository_lineage current) (grd_candidate_rejection_sha256 pending)
         \<and> ins_repository_lineage next = grd_previous_repository_lineage pending
         \<and> ins_release next = grd_previous_release pending
         \<and> ins_archive_sha256 next = grd_previous_archive_sha256 pending
         \<and> ins_reconciler next = grd_reconciler pending
         \<and> ins_rollback_guard next = None
         \<and> is_proven next)"

definition journal_transition_is_authorized ::
  "ext \<Rightarrow> InstalledState \<Rightarrow> InstalledState \<Rightarrow> store \<Rightarrow> bool io_result" where
  "journal_transition_is_authorized E current next s =
     bind_r (store_journal E s) (\<lambda>j. case j of
       None \<Rightarrow> Inr False
     | Some tx \<Rightarrow>
         let pending_binds_transaction =
               (case ins_rollback_guard next of None \<Rightarrow> False | Some g \<Rightarrow> matches_rollback_guard tx g) in
         if tx_phase tx \<in> {Converged, Verified} \<and> \<not> tx_candidate_rejection_required tx
            \<and> matches_previous tx current \<and> matches_candidate tx next
            \<and> pending_binds_transaction \<and> is_proven next
         then Inr True
         else Inr (tx_phase tx = RolledBack \<and> matches_candidate tx current
                   \<and> (matches_previous tx next \<and> ins_rollback_guard next = None)
                   \<and> (is_proven next
                      \<or> rejects_deployment E s (tx_previous_repository_lineage tx)
                          (tx_previous_archive_sha256 tx))))"

definition validate_installed_transition :: "ext \<Rightarrow> InstalledState \<Rightarrow> store \<Rightarrow> unit io_result" where
  "validate_installed_transition E next s =
     bind_r (store_installed E s) (\<lambda>i. case i of
       Missing \<Rightarrow> bind_r (install_commit_is_authorized E next s) (\<lambda>ok. check ok InvalidInput)
     | Invalid \<Rightarrow> Inl InvalidData
     | Present current \<Rightarrow>
         if metadata_transition_is_authorized current next then Inr ()
         else if pending_rollback_is_authorized s current next then Inr ()
         else bind_r (journal_transition_is_authorized E current next s) (\<lambda>ok. check ok InvalidInput))"

definition write_installed :: "ext \<Rightarrow> InstalledState \<Rightarrow> (store, unit) action" where
  "write_installed E state =
     bind_a (read_a (\<lambda>_. installed_validate E state))
       (\<lambda>_. durable (\<lambda>s. s\<lparr> st_installed := Record state \<rparr>))"

definition commit_check :: "ext \<Rightarrow> InstalledState \<Rightarrow> store \<Rightarrow> unit io_result" where
  "commit_check E state s =
     bind_r (installed_validate E state) (\<lambda>_.
     bind_r (store_active_release E s) (\<lambda>active.
     bind_r (case active of
               Some a \<Rightarrow> check (a = ins_release state) InvalidInput
             | None \<Rightarrow> Inl InvalidInput) (\<lambda>_.
     validate_installed_transition E state s)))"

definition commit_installed :: "ext \<Rightarrow> InstalledState \<Rightarrow> (store, unit) action" where
  "commit_installed E state = bind_a (read_a (commit_check E state)) (\<lambda>_. write_installed E state)"

definition store_prove_provisional :: "ext \<Rightarrow> (store, bool) action" where
  "store_prove_provisional E =
     bind_a (read_a (store_installed E)) (\<lambda>i. case i of
       Missing \<Rightarrow> fail_a NotFound
     | Invalid \<Rightarrow> fail_a InvalidData
     | Present state \<Rightarrow>
         (case prove_provisional state of (changed, state') \<Rightarrow>
            if \<not> changed then return_a False
            else bind_a (commit_installed E state') (\<lambda>_. return_a True)))"

subsection \<open>Activation\<close>

definition store_verify_release :: "ext \<Rightarrow> ReleaseId \<Rightarrow> store \<Rightarrow> unit io_result" where
  "store_verify_release E release s =
     bind_r (release_validate E release) (\<lambda>_. st_versions s release)"

definition write_active :: "ext \<Rightarrow> ReleaseId \<Rightarrow> (store, unit) action" where
  "write_active E release =
     bind_a (read_a (\<lambda>_. release_validate E release))
       (\<lambda>_. durable (\<lambda>s. s\<lparr> st_active := Record release \<rparr>))"

definition point_active :: "ext \<Rightarrow> ReleaseId \<Rightarrow> (store, unit) action" where
  "point_active E release = write_active E release"

definition activate :: "ext \<Rightarrow> ReleaseId \<Rightarrow> (store, unit) action" where
  "activate E release =
     bind_a (read_a (store_verify_release E release)) (\<lambda>_. point_active E release)"

subsection \<open>The update journal\<close>

definition record_journal :: "ext \<Rightarrow> Transaction \<Rightarrow> (store, unit) action" where
  "record_journal E tx =
     bind_a (read_a (\<lambda>_. transaction_validate E tx))
       (\<lambda>_. durable (\<lambda>s. s\<lparr> st_journal := Record tx \<rparr>))"

definition remove_journal :: "(store, unit) action" where
  "remove_journal s = durable_remove (st_journal s = Absent) (\<lambda>s. s\<lparr> st_journal := Absent \<rparr>) s"

definition forward_commit_is_durable :: "Transaction \<Rightarrow> InstalledState \<Rightarrow> bool" where
  "forward_commit_is_durable tx installed \<longleftrightarrow>
     \<not> tx_candidate_rejection_required tx
     \<and> matches_candidate tx installed
     \<and> (case ins_rollback_guard installed of None \<Rightarrow> False | Some g \<Rightarrow> matches_rollback_guard tx g)"

definition journal_may_discard :: "ext \<Rightarrow> Transaction \<Rightarrow> store \<Rightarrow> bool io_result" where
  "journal_may_discard E tx s =
     (if tx_candidate_rejection_required tx
         \<and> \<not> rejection_is_durable s (tx_candidate_repository_lineage tx) (tx_candidate_rejection_sha256 tx)
      then Inr False
      else if tx_phase tx = Prepared then Inr True
      else
        bind_r (store_active_release E s) (\<lambda>active.
        bind_r (store_installed E s) (\<lambda>i. case i of
          Present installed \<Rightarrow>
            Inr (case tx_phase tx of
                   Converged \<Rightarrow> forward_commit_is_durable tx installed
                 | Verified \<Rightarrow> forward_commit_is_durable tx installed
                 | Committed \<Rightarrow> forward_commit_is_durable tx installed
                 | RolledBack \<Rightarrow>
                     active = Some (tx_previous_release tx) \<and> matches_previous tx installed
                 | _ \<Rightarrow> False)
        | _ \<Rightarrow> Inr False)))"

definition clear_check :: "ext \<Rightarrow> store \<Rightarrow> unit io_result" where
  "clear_check E s =
     bind_r (store_journal E s) (\<lambda>j. case j of
       None \<Rightarrow> Inr ()
     | Some tx \<Rightarrow> bind_r (journal_may_discard E tx s) (\<lambda>ok. check ok InvalidInput))"

definition clear_journal :: "ext \<Rightarrow> (store, unit) action" where
  "clear_journal E = bind_a (read_a (clear_check E)) (\<lambda>_. remove_journal)"

definition forward_commit_is_authorized :: "ext \<Rightarrow> Transaction \<Rightarrow> store \<Rightarrow> bool io_result" where
  "forward_commit_is_authorized E tx s =
     bind_r (store_installed E s) (\<lambda>i. case i of
       Present installed \<Rightarrow>
         bind_r (store_active_release E s) (\<lambda>active.
           Inr (active = Some (tx_candidate_release tx) \<and> forward_commit_is_durable tx installed))
     | _ \<Rightarrow> Inr False)"

definition pending_authorizes_rollback_journal :: "ext \<Rightarrow> Transaction \<Rightarrow> store \<Rightarrow> bool io_result" where
  "pending_authorizes_rollback_journal E tx s =
     bind_r (store_installed E s) (\<lambda>i. case i of
       Present installed \<Rightarrow>
         (case ins_rollback_guard installed of
            None \<Rightarrow> Inr False
          | Some pending \<Rightarrow>
              Inr (tx_phase tx = RollbackPlanned \<and> tx_rollback_health_failures tx = 0
                   \<and> matches_rollback_guard tx pending \<and> matches_candidate tx installed))
     | _ \<Rightarrow> Inr False)"

definition journal_start_is_authorized :: "ext \<Rightarrow> Transaction \<Rightarrow> store \<Rightarrow> bool io_result" where
  "journal_start_is_authorized E tx s =
     bind_r (pending_authorizes_rollback_journal E tx s) (\<lambda>authorized.
       if authorized then Inr True
       else bind_r (store_installed E s) (\<lambda>i. case i of
         Present installed \<Rightarrow>
           if tx_phase tx = Prepared \<and> \<not> tx_candidate_rejection_required tx
              \<and> tx_rollback_health_failures tx = 0 \<and> is_proven installed
              \<and> ins_rollback_guard installed = None \<and> matches_previous tx installed
           then bind_r (store_active_release E s) (\<lambda>active. Inr (active = Some (ins_release installed)))
           else Inr False
       | _ \<Rightarrow> Inr False))"

definition ensure_exclusive_journal :: "ext \<Rightarrow> JournalKind \<Rightarrow> store \<Rightarrow> unit io_result" where
  "ensure_exclusive_journal E writing s =
     bind_r (case writing of
               JournalUpdate \<Rightarrow> bind_r (store_install_journal E s) (\<lambda>j. Inr (map_option itx_id j))
             | JournalInstall \<Rightarrow> bind_r (store_journal E s) (\<lambda>j. Inr (map_option tx_id j)))
       (\<lambda>conflict. check (conflict = None) InvalidInput)"

definition write_journal_check :: "ext \<Rightarrow> Transaction \<Rightarrow> store \<Rightarrow> unit io_result" where
  "write_journal_check E tx s =
     bind_r (transaction_validate E tx) (\<lambda>_.
     bind_r (ensure_exclusive_journal E JournalUpdate s) (\<lambda>_.
     bind_r (if tx_phase tx = Committed
             then bind_r (forward_commit_is_authorized E tx s) (\<lambda>ok. check ok InvalidInput)
             else Inr ()) (\<lambda>_.
     bind_r (store_journal E s) (\<lambda>j. case j of
       Some existing \<Rightarrow>
         if tx_id existing \<noteq> tx_id tx then
           bind_r (journal_may_discard E existing s) (\<lambda>may.
           bind_r (check may InvalidInput) (\<lambda>_.
           bind_r (journal_start_is_authorized E tx s) (\<lambda>ok. check ok InvalidInput)))
         else
           bind_r (check (permits_replacement existing tx) InvalidInput) (\<lambda>_.
           if tx_phase existing = Committed \<and> tx_phase tx = RollbackPlanned
           then bind_r (pending_authorizes_rollback_journal E tx s) (\<lambda>ok. check ok InvalidInput)
           else Inr ())
     | None \<Rightarrow> bind_r (journal_start_is_authorized E tx s) (\<lambda>ok. check ok InvalidInput)))))"

definition write_journal :: "ext \<Rightarrow> Transaction \<Rightarrow> (store, unit) action" where
  "write_journal E tx = bind_a (read_a (write_journal_check E tx)) (\<lambda>_. record_journal E tx)"

subsection \<open>The first-install journal\<close>

definition record_install_journal :: "ext \<Rightarrow> InstallTransaction \<Rightarrow> (store, unit) action" where
  "record_install_journal E tx =
     bind_a (read_a (\<lambda>_. install_validate E tx))
       (\<lambda>_. durable (\<lambda>s. s\<lparr> st_install_journal := Record tx \<rparr>))"

definition remove_install_journal :: "(store, unit) action" where
  "remove_install_journal s =
     durable_remove (st_install_journal s = Absent) (\<lambda>s. s\<lparr> st_install_journal := Absent \<rparr>) s"

definition install_start_is_authorized :: "ext \<Rightarrow> InstallTransaction \<Rightarrow> store \<Rightarrow> bool io_result" where
  "install_start_is_authorized E tx s =
     (if itx_phase tx \<noteq> Started
         \<or> rejects_deployment E s (itx_repository_lineage tx) (itx_archive_sha256 tx)
      then Inr False
      else
        bind_r (store_active_release E s) (\<lambda>active.
        bind_r (store_installed E s) (\<lambda>i. case i of
          Missing \<Rightarrow> Inr (active = None)
        | _ \<Rightarrow> Inr False)))"

definition install_phase_is_authorized :: "ext \<Rightarrow> InstallTransaction \<Rightarrow> store \<Rightarrow> bool io_result" where
  "install_phase_is_authorized E tx s = (case itx_phase tx of
       Started \<Rightarrow> Inr True
     | InstallPrepared \<Rightarrow> Inr True
     | Placed \<Rightarrow> bind_r (store_active_release E s) (\<lambda>active. Inr (active = Some (itx_release tx)))
     | InstallCommitted \<Rightarrow>
         bind_r (store_installed E s) (\<lambda>i. case i of
           Present installed \<Rightarrow>
             bind_r (store_active_release E s) (\<lambda>active.
               Inr (active = Some (itx_release tx) \<and> matches_installed tx installed))
         | _ \<Rightarrow> Inr False))"

definition write_install_check :: "ext \<Rightarrow> InstallTransaction \<Rightarrow> store \<Rightarrow> unit io_result" where
  "write_install_check E tx s =
     bind_r (install_validate E tx) (\<lambda>_.
     bind_r (ensure_exclusive_journal E JournalInstall s) (\<lambda>_.
     bind_r (bind_r (install_phase_is_authorized E tx s) (\<lambda>ok. check ok InvalidInput)) (\<lambda>_.
     bind_r (store_install_journal E s) (\<lambda>j. case j of
       Some existing \<Rightarrow>
         bind_r (check (itx_id existing = itx_id tx) InvalidInput) (\<lambda>_.
         check (install_permits_replacement existing tx) InvalidInput)
     | None \<Rightarrow> bind_r (install_start_is_authorized E tx s) (\<lambda>ok. check ok InvalidInput)))))"

definition write_install_journal :: "ext \<Rightarrow> InstallTransaction \<Rightarrow> (store, unit) action" where
  "write_install_journal E tx =
     bind_a (read_a (write_install_check E tx)) (\<lambda>_. record_install_journal E tx)"

definition clear_install_check :: "ext \<Rightarrow> store \<Rightarrow> unit io_result" where
  "clear_install_check E s =
     bind_r (store_install_journal E s) (\<lambda>j. case j of
       None \<Rightarrow> Inr ()
     | Some tx \<Rightarrow>
         bind_r (store_installed E s) (\<lambda>i.
           check (classify_install_recovery tx (case i of Present state \<Rightarrow> Some state | _ \<Rightarrow> None)
                  = InstallRecoveryCommitted) InvalidInput))"

definition clear_install_journal :: "ext \<Rightarrow> (store, unit) action" where
  "clear_install_journal E = bind_a (read_a (clear_install_check E)) (\<lambda>_. remove_install_journal)"

end
