(* ===== verification/Store_Safety.thy ===== *)
theory Store_Safety
  imports Store
begin

text \<open>
  What the store of \<^verbatim>\<open>crates/agent/src/store.rs\<close> guarantees over any sequence of its
  operations, whichever writes fail and wherever the process dies.
\<close>

subsection \<open>Guarded durable writes\<close>

text \<open>
  The contract every writing operation of the store keeps: a check of the current state, then one
  durable write.  A refusal changes nothing; a fault leaves either the old or the new file.
\<close>

locale guarded_write =
  fixes guard :: "store \<Rightarrow> unit io_result" and upd :: "store \<Rightarrow> store" and run :: "(store, unit) action"
  assumes refuse: "guard s = Inl k \<Longrightarrow> run s = (Err k, s)"
    and fault_free: "guard s = Inr () \<Longrightarrow> next_fault s = NoFault \<Longrightarrow> run s = (Ok (), upd (pop_fault s))"
    and faulty: "guard s = Inr () \<Longrightarrow>
      snd (run s) = upd (pop_fault s) \<or> (snd (run s) = pop_fault s \<and> fst (run s) \<noteq> Ok ())"
begin

lemma run_Ok: "run s = (Ok (), s') \<Longrightarrow> guard s = Inr () \<and> s' = upd (pop_fault s)"
  using refuse [of s] faulty [of s] by (cases "guard s") auto

lemma run_cases:
  obtains "guard s \<noteq> Inr ()" "snd (run s) = s" | "guard s = Inr ()" "snd (run s) = pop_fault s"
    | "guard s = Inr ()" "snd (run s) = upd (pop_fault s)"
  using refuse [of s] faulty [of s] by (cases "guard s") auto

lemma invariant:
  assumes "P s" and "P (pop_fault s)" and "guard s = Inr () \<Longrightarrow> P (upd (pop_fault s))"
  shows "P (snd (run s))"
  by (rule run_cases [of s]) (use assms in auto)

lemma run_okI:
  assumes "guard s = Inr () \<Longrightarrow> Q () (upd (pop_fault s))"
    and "\<And>k t. t \<in> {s, pop_fault s} \<Longrightarrow> D k t" and "\<And>k. guard s = Inr () \<Longrightarrow> D k (upd (pop_fault s))"
    and "\<And>t. t \<in> {s, pop_fault s} \<Longrightarrow> C t" and "guard s = Inr () \<Longrightarrow> C (upd (pop_fault s))"
  shows "run_ok run s Q D C"
proof (cases "guard s")
  case (Inl k)
  then show ?thesis using refuse [OF Inl] assms by (simp add: run_ok_def)
next
  case (Inr u)
  then show ?thesis
    using faulty [of s] assms
    by (cases "run s"; cases "fst (run s)") (auto simp: run_ok_def)
qed

end

lemma bind_read: "bind_a (read_a g) f s = (case g s of Inl k \<Rightarrow> (Err k, s) | Inr x \<Rightarrow> f x s)"
  by (simp add: bind_a_def read_a_def split: sum.splits)

lemma durable_write:
  assumes "\<And>s. guard s = Inr () \<Longrightarrow> inner s = Inr ()"
    and "\<And>s. run s = bind_a (read_a guard) (\<lambda>_. bind_a (read_a inner) (\<lambda>_. durable upd)) s"
  shows "guarded_write guard upd run"
  by (unfold_locales; unfold assms(2) bind_read)
    (auto simp: assms(1) durable_def apply_fault_def split: sum.splits fault.splits)

lemma durable_unlink:
  assumes "\<And>s. run s = bind_a (read_a guard) (\<lambda>_ s. durable_remove (absent s) upd s) s"
  shows "guarded_write guard upd run"
  by (unfold_locales; unfold assms bind_read)
    (auto simp: durable_remove_def apply_fault_def split: sum.splits fault.splits)

interpretation commit_w: guarded_write "commit_check E state"
  "\<lambda>s. s\<lparr> st_installed := Record state \<rparr>" "commit_installed E state" for E state
  by (rule durable_write [where inner = "\<lambda>_. installed_validate E state"])
    (auto simp: commit_installed_def write_installed_def commit_check_def bind_unit_Inr_iff)

interpretation active_w: guarded_write "store_verify_release E release"
  "\<lambda>s. s\<lparr> st_active := Record release \<rparr>" "activate E release" for E release
  by (rule durable_write [where inner = "\<lambda>_. release_validate E release"])
    (auto simp: activate_def point_active_def write_active_def store_verify_release_def bind_unit_Inr_iff)

interpretation journal_w: guarded_write "write_journal_check E tx"
  "\<lambda>s. s\<lparr> st_journal := Record tx \<rparr>" "write_journal E tx" for E tx
  by (rule durable_write [where inner = "\<lambda>_. transaction_validate E tx"])
    (auto simp: write_journal_def record_journal_def write_journal_check_def bind_unit_Inr_iff)

interpretation clear_w: guarded_write "clear_check E"
  "\<lambda>s. s\<lparr> st_journal := Absent \<rparr>" "clear_journal E" for E
  by (rule durable_unlink [where absent = "\<lambda>s. st_journal s = Absent"])
    (auto simp: clear_journal_def remove_journal_def bind_read split: sum.splits)

interpretation install_w: guarded_write "write_install_check E tx"
  "\<lambda>s. s\<lparr> st_install_journal := Record tx \<rparr>" "write_install_journal E tx" for E tx
  by (rule durable_write [where inner = "\<lambda>_. install_validate E tx"])
    (auto simp: write_install_journal_def record_install_journal_def write_install_check_def bind_unit_Inr_iff)

interpretation clear_install_w: guarded_write "clear_install_check E"
  "\<lambda>s. s\<lparr> st_install_journal := Absent \<rparr>" "clear_install_journal E" for E
  by (rule durable_unlink [where absent = "\<lambda>s. st_install_journal s = Absent"])
    (auto simp: clear_install_journal_def remove_install_journal_def bind_read split: sum.splits)

subsection \<open>The store invariant\<close>

definition slot_ok :: "('a \<Rightarrow> bool) \<Rightarrow> 'a slot \<Rightarrow> bool" where
  "slot_ok P sl = (case sl of Absent \<Rightarrow> True | Record r \<Rightarrow> P r | _ \<Rightarrow> False)"

lemma slot_ok_simps [simp]: "slot_ok P Absent" "slot_ok P (Record r) \<longleftrightarrow> P r"
  by (simp_all add: slot_ok_def)

lemma slot_okE: "slot_ok P sl \<Longrightarrow> sl = Absent \<or> (\<exists>r. sl = Record r \<and> P r)"
  by (cases sl) (auto simp: slot_ok_def)

text \<open>The files: each is absent or holds a valid record, and one journal at most is present.\<close>

definition files_ok :: "ext \<Rightarrow> store \<Rightarrow> bool" where
  "files_ok E s \<longleftrightarrow>
     slot_ok (\<lambda>i. installed_validate E i = Inr ()) (st_installed s)
     \<and> slot_ok (\<lambda>t. transaction_validate E t = Inr ()) (st_journal s)
     \<and> slot_ok (\<lambda>t. install_validate E t = Inr ()) (st_install_journal s)
     \<and> slot_ok (\<lambda>r. release_validate E r = Inr ()) (st_active s)
     \<and> (st_journal s = Absent \<or> st_install_journal s = Absent)"

definition store_inv :: "ext \<Rightarrow> store \<Rightarrow> bool" where
  "store_inv E s \<longleftrightarrow> files_ok E s \<and> ledger_inv (st_ledger s)"

lemma read_active_simps [simp]:
  "read_active E Absent = Inr None"
  "release_validate E r = Inr () \<Longrightarrow> read_active E (Record r) = Inr (Some r)"
  by (simp_all add: read_active_def)

lemma journal_read_Record [simp]: "v r = Inr () \<Longrightarrow> journal_read v (Record r) = Inr (Some r)"
  by (simp add: journal_read_Some)

lemma try_read_simps [simp]:
  "try_read_installed E Absent = Inr Missing"
  "installed_validate E i = Inr () \<Longrightarrow> try_read_installed E (Record i) = Inr (Present i)"
  by (simp_all add: try_read_installed_def)

text \<open>Under the invariant no read of the store fails.\<close>

lemma files_ok_reads:
  assumes "files_ok E s"
  obtains i j t a where "store_installed E s = Inr i" "store_journal E s = Inr j"
    "store_install_journal E s = Inr t" "store_active_release E s = Inr a"
  using assms unfolding files_ok_def store_installed_def store_journal_def store_install_journal_def
    store_active_release_def by (auto dest!: slot_okE)

lemma pop_fault_sel [simp]:
  "st_installed (pop_fault s) = st_installed s" "st_journal (pop_fault s) = st_journal s"
  "st_install_journal (pop_fault s) = st_install_journal s" "st_active (pop_fault s) = st_active s"
  "st_ledger (pop_fault s) = st_ledger s" "st_history (pop_fault s) = st_history s"
  "st_versions (pop_fault s) = st_versions s"
  by (simp_all add: pop_fault_def)

lemma files_ok_pop [simp]: "files_ok E (pop_fault s) = files_ok E s"
  by (simp add: files_ok_def)

lemma store_inv_pop [simp]: "store_inv E (pop_fault s) = store_inv E s"
  by (simp add: store_inv_def)

lemma exclusive_update:
  "ensure_exclusive_journal E JournalUpdate s = Inr () \<Longrightarrow>
     st_install_journal s = Absent \<or> st_install_journal s = Unreadable NotFound"
  by (cases "store_install_journal E s")
    (auto simp: ensure_exclusive_journal_def store_install_journal_def journal_read_None)

lemma exclusive_install:
  "ensure_exclusive_journal E JournalInstall s = Inr () \<Longrightarrow>
     st_journal s = Absent \<or> st_journal s = Unreadable NotFound"
  by (cases "store_journal E s")
    (auto simp: ensure_exclusive_journal_def store_journal_def journal_read_None)

lemma write_journal_checkD:
  assumes "write_journal_check E tx s = Inr ()"
  shows "transaction_validate E tx = Inr ()" and "ensure_exclusive_journal E JournalUpdate s = Inr ()"
  using assms by (auto simp: write_journal_check_def bind_unit_Inr_iff)

lemma write_install_checkD:
  assumes "write_install_check E tx s = Inr ()"
  shows "install_validate E tx = Inr ()" and "ensure_exclusive_journal E JournalInstall s = Inr ()"
  using assms by (auto simp: write_install_check_def bind_unit_Inr_iff)

lemma files_ok_writes:
  assumes "files_ok E s"
  shows "commit_check E i s = Inr () \<Longrightarrow> files_ok E (s\<lparr> st_installed := Record i \<rparr>)"
    and "store_verify_release E r s = Inr () \<Longrightarrow> files_ok E (s\<lparr> st_active := Record r \<rparr>)"
    and "write_journal_check E tx s = Inr () \<Longrightarrow> files_ok E (s\<lparr> st_journal := Record tx \<rparr>)"
    and "files_ok E (s\<lparr> st_journal := Absent \<rparr>)"
    and "write_install_check E it s = Inr () \<Longrightarrow> files_ok E (s\<lparr> st_install_journal := Record it \<rparr>)"
    and "files_ok E (s\<lparr> st_install_journal := Absent \<rparr>)"
proof -
  show "commit_check E i s = Inr () \<Longrightarrow> files_ok E (s\<lparr> st_installed := Record i \<rparr>)"
    using assms by (simp add: files_ok_def commit_check_def bind_unit_Inr_iff)
  show "store_verify_release E r s = Inr () \<Longrightarrow> files_ok E (s\<lparr> st_active := Record r \<rparr>)"
    using assms by (simp add: files_ok_def store_verify_release_def bind_unit_Inr_iff)
  show "write_journal_check E tx s = Inr () \<Longrightarrow> files_ok E (s\<lparr> st_journal := Record tx \<rparr>)"
    using assms write_journal_checkD [of E tx s] exclusive_update [of E s] by (auto simp: files_ok_def slot_ok_def)
  show "write_install_check E it s = Inr () \<Longrightarrow> files_ok E (s\<lparr> st_install_journal := Record it \<rparr>)"
    using assms write_install_checkD [of E it s] exclusive_install [of E s] by (auto simp: files_ok_def slot_ok_def)
qed (use assms in \<open>simp_all add: files_ok_def\<close>)

lemmas store_reads = commit_check_def validate_installed_transition_def install_commit_is_authorized_def
  pending_rollback_is_authorized_def journal_transition_is_authorized_def rejects_deployment_def
  rejection_is_durable_def store_is_rejected_def store_verify_release_def write_journal_check_def
  ensure_exclusive_journal_def forward_commit_is_authorized_def pending_authorizes_rollback_journal_def
  journal_start_is_authorized_def journal_may_discard_def write_install_check_def
  install_phase_is_authorized_def install_start_is_authorized_def clear_check_def clear_install_check_def
  store_installed_def store_journal_def store_install_journal_def store_active_release_def

lemma guard_pop [simp]:
  "commit_check E i (pop_fault s) = commit_check E i s"
  "store_verify_release E r (pop_fault s) = store_verify_release E r s"
  "write_journal_check E tx (pop_fault s) = write_journal_check E tx s"
  "write_install_check E it (pop_fault s) = write_install_check E it s"
  unfolding store_reads pop_fault_sel by (rule refl)+

subsection \<open>Histories of operations\<close>

datatype store_op =
    CommitInstalled InstalledState
  | ProveProvisional
  | Activate ReleaseId
  | WriteJournal Transaction
  | ClearJournal
  | WriteInstallJournal InstallTransaction
  | ClearInstallJournal
  | RejectDeployment RepositoryLineage string
  | RejectArtifact RepositoryLineage string
  | Reopen

fun run_op :: "ext \<Rightarrow> store_op \<Rightarrow> (store, unit) action" where
  "run_op E (CommitInstalled i) = commit_installed E i"
| "run_op E ProveProvisional = bind_a (store_prove_provisional E) (\<lambda>_. return_a ())"
| "run_op E (Activate r) = activate E r"
| "run_op E (WriteJournal tx) = write_journal E tx"
| "run_op E ClearJournal = clear_journal E"
| "run_op E (WriteInstallJournal tx) = write_install_journal E tx"
| "run_op E ClearInstallJournal = clear_install_journal E"
| "run_op E (RejectDeployment l a) = reject_deployment E l a"
| "run_op E (RejectArtifact l d) = reject_artifact l d"
| "run_op E Reopen = crash_a"

text \<open>A process that dies is followed by one that opens the store again.\<close>

definition store_step :: "ext \<Rightarrow> store_op \<Rightarrow> store \<Rightarrow> store" where
  "store_step E op s = (case run_op E op s of
       (Crashed, s') \<Rightarrow> snd (store_open s')
     | (_, s') \<Rightarrow> s')"

text \<open>The files of a store, apart from the rejection record and the coming faults.\<close>

definition files :: "store \<Rightarrow> store" where
  "files s = s\<lparr> st_ledger := empty_ledger, st_faults := [] \<rparr>"

lemma files_sel [simp]:
  "st_installed (files s) = st_installed s" "st_journal (files s) = st_journal s"
  "st_install_journal (files s) = st_install_journal s" "st_active (files s) = st_active s"
  "st_versions (files s) = st_versions s" "st_history (files s) = st_history s"
  by (simp_all add: files_def)

lemma files_eqD:
  "files s = files t \<Longrightarrow> st_installed s = st_installed t \<and> st_journal s = st_journal t
     \<and> st_install_journal s = st_install_journal t \<and> st_active s = st_active t
     \<and> st_versions s = st_versions t \<and> st_history s = st_history t"
  by (metis files_sel)

lemma files_ok_files: "files_ok E (files s) = files_ok E s"
  by (simp add: files_ok_def)

lemma files_upd:
  "files (pop_fault s) = files s"
  "files (s\<lparr> st_installed := a \<rparr>) = (files s)\<lparr> st_installed := a \<rparr>"
  "files (s\<lparr> st_active := b \<rparr>) = (files s)\<lparr> st_active := b \<rparr>"
  "files (s\<lparr> st_journal := c \<rparr>) = (files s)\<lparr> st_journal := c \<rparr>"
  "files (s\<lparr> st_install_journal := d \<rparr>) = (files s)\<lparr> st_install_journal := d \<rparr>"
  "files (s\<lparr> st_ledger := l \<rparr>) = files s"
  by (simp_all add: files_def pop_fault_def)

lemma store_open_files [simp]: "files (snd (store_open s)) = files s"
  by (simp add: store_open_def files_upd split: sum.splits)

lemma store_open_ledger: "st_ledger (snd (store_open s)) = restart (st_ledger s)"
  by (simp add: store_open_def restart_def split: sum.splits)

lemma record_rejection_files [simp]: "files (snd (record_rejection l d s)) = files s"
  by (simp add: record_rejection_def files_upd split: sum.splits prod.splits)

text \<open>\<open>prove_provisional\<close> is a read followed by a commit.\<close>

lemma snd_bind_return: "snd (bind_a m (\<lambda>_. return_a x) s) = snd (m s)"
  by (simp add: bind_a_def return_a_def split: prod.splits outcome.splits)

lemma prove_provisional_effect:
  "snd (store_prove_provisional E s) = s \<or>
   (\<exists>i. snd (store_prove_provisional E s) = snd (commit_installed E i s))"
proof (cases "store_installed E s")
  case (Inr i)
  show ?thesis
  proof (cases i)
    case (Present st)
    have "store_prove_provisional E s =
        (if ins_maturity st = Provisional
         then bind_a (commit_installed E (st\<lparr> ins_maturity := Proven \<rparr>)) (\<lambda>_. return_a True) s
         else (Ok False, s))"
      by (simp add: store_prove_provisional_def bind_read Inr Present prove_provisional_def return_a_def)
    then show ?thesis
      by (auto simp: snd_bind_return split: if_splits)
  qed (simp_all add: store_prove_provisional_def bind_read Inr fail_a_def)
qed (simp add: store_prove_provisional_def bind_read)

lemma files_of_guarded:
  assumes "guarded_write g upd run"
  shows "files (snd (run s)) = files s \<or> (g s = Inr () \<and> files (snd (run s)) = files (upd (pop_fault s)))"
  by (rule guarded_write.run_cases [OF assms, of s]) (auto simp: files_upd)

lemma run_op_files_cases:
  obtains (same) "files (snd (run_op E op s)) = files s"
    | (installed) i where "commit_check E i s = Inr ()"
        "files (snd (run_op E op s)) = (files s)\<lparr> st_installed := Record i \<rparr>"
    | (active) r where "store_verify_release E r s = Inr ()"
        "files (snd (run_op E op s)) = (files s)\<lparr> st_active := Record r \<rparr>"
    | (journal) tx where "write_journal_check E tx s = Inr ()"
        "files (snd (run_op E op s)) = (files s)\<lparr> st_journal := Record tx \<rparr>"
    | (cleared) "clear_check E s = Inr ()"
        "files (snd (run_op E op s)) = (files s)\<lparr> st_journal := Absent \<rparr>"
    | (install) tx where "write_install_check E tx s = Inr ()"
        "files (snd (run_op E op s)) = (files s)\<lparr> st_install_journal := Record tx \<rparr>"
    | (install_cleared) "clear_install_check E s = Inr ()"
        "files (snd (run_op E op s)) = (files s)\<lparr> st_install_journal := Absent \<rparr>"
proof (cases op)
  case (CommitInstalled i)
  then show ?thesis
    using files_of_guarded [OF commit_w.guarded_write_axioms, of E i s] that(1,2) by (auto simp: files_upd)
next
  case ProveProvisional
  have "snd (run_op E op s) = snd (store_prove_provisional E s)"
    by (simp add: ProveProvisional snd_bind_return)
  with prove_provisional_effect [of E s]
  consider "snd (run_op E op s) = s" | i where "snd (run_op E op s) = snd (commit_installed E i s)"
    by auto
  then show ?thesis
  proof cases
    case (2 i)
    then show ?thesis
      using files_of_guarded [OF commit_w.guarded_write_axioms, of E i s] that(1,2)
      by (auto simp: files_upd)
  qed (use that(1) in simp)
next
  case (Activate r)
  then show ?thesis
    using files_of_guarded [OF active_w.guarded_write_axioms, of E r s] that(1,3) by (auto simp: files_upd)
next
  case (WriteJournal tx)
  then show ?thesis
    using files_of_guarded [OF journal_w.guarded_write_axioms, of E tx s] that(1,4) by (auto simp: files_upd)
next
  case ClearJournal
  then show ?thesis
    using files_of_guarded [OF clear_w.guarded_write_axioms, of E s] that(1,5) by (auto simp: files_upd)
next
  case (WriteInstallJournal tx)
  then show ?thesis
    using files_of_guarded [OF install_w.guarded_write_axioms, of E tx s] that(1,6) by (auto simp: files_upd)
next
  case ClearInstallJournal
  then show ?thesis
    using files_of_guarded [OF clear_install_w.guarded_write_axioms, of E s] that(1,7) by (auto simp: files_upd)
qed (use that(1) in \<open>auto simp: reject_deployment_def reject_artifact_def fail_a_def crash_a_def
      split: option.splits\<close>)

lemma store_step_files: "files (store_step E op s) = files (snd (run_op E op s))"
  by (simp add: store_step_def split: prod.splits outcome.splits)

lemmas store_step_files_cases [case_names same installed active journal cleared install install_cleared] =
  run_op_files_cases [of E op s, folded store_step_files] for E op s

lemma files_ok_eqI: "files t = files s \<Longrightarrow> files_ok E s \<Longrightarrow> files_ok E t"
  by (metis files_ok_files)

lemma store_step_files_ok:
  assumes "files_ok E s"
  shows "files_ok E (store_step E op s)"
proof (cases rule: store_step_files_cases [of E op s])
  case same
  then show ?thesis using assms by (rule files_ok_eqI)
next
  case (installed i)
  from files_ok_writes(1) [OF assms this(1)] show ?thesis
    by (rule files_ok_eqI [rotated]) (simp add: files_upd installed(2))
next
  case (active r)
  from files_ok_writes(2) [OF assms this(1)] show ?thesis
    by (rule files_ok_eqI [rotated]) (simp add: files_upd active(2))
next
  case (journal tx)
  from files_ok_writes(3) [OF assms this(1)] show ?thesis
    by (rule files_ok_eqI [rotated]) (simp add: files_upd journal(2))
next
  case cleared
  from files_ok_writes(4) [OF assms] show ?thesis
    by (rule files_ok_eqI [rotated]) (simp add: files_upd cleared(2))
next
  case (install tx)
  from files_ok_writes(5) [OF assms this(1)] show ?thesis
    by (rule files_ok_eqI [rotated]) (simp add: files_upd install(2))
next
  case install_cleared
  from files_ok_writes(6) [OF assms] show ?thesis
    by (rule files_ok_eqI [rotated]) (simp add: files_upd install_cleared(2))
qed

text \<open>On the rejection record a store operation is a history of the ledger's own events.\<close>

lemma ledger_of_guarded:
  assumes "guarded_write g upd run" and "\<And>s. st_ledger (upd s) = st_ledger s"
  shows "st_ledger (snd (run s)) = st_ledger s"
  by (rule guarded_write.run_cases [OF assms(1), of s]) (simp_all add: assms(2))

lemma guarded_ledgers [simp]:
  "st_ledger (snd (commit_installed E i s)) = st_ledger s"
  "st_ledger (snd (activate E r s)) = st_ledger s"
  "st_ledger (snd (write_journal E tx s)) = st_ledger s"
  "st_ledger (snd (clear_journal E s)) = st_ledger s"
  "st_ledger (snd (write_install_journal E it s)) = st_ledger s"
  "st_ledger (snd (clear_install_journal E s)) = st_ledger s"
  by (rule ledger_of_guarded [OF commit_w.guarded_write_axioms]
      ledger_of_guarded [OF active_w.guarded_write_axioms]
      ledger_of_guarded [OF journal_w.guarded_write_axioms]
      ledger_of_guarded [OF clear_w.guarded_write_axioms]
      ledger_of_guarded [OF install_w.guarded_write_axioms]
      ledger_of_guarded [OF clear_install_w.guarded_write_axioms]; simp)+

lemma quiet_step_ledger:
  assumes "st_ledger (snd (run_op E op s)) = st_ledger s"
  shows "\<exists>es. st_ledger (store_step E op s) = fold ledger_step es (st_ledger s)"
proof (cases "fst (run_op E op s) = Crashed")
  case True
  then have "st_ledger (store_step E op s) = fold ledger_step [Restart] (st_ledger s)"
    using assms by (auto simp: store_step_def store_open_ledger split: prod.splits outcome.splits)
  then show ?thesis by blast
next
  case False
  then have "st_ledger (store_step E op s) = fold ledger_step [] (st_ledger s)"
    using assms by (auto simp: store_step_def split: prod.splits outcome.splits)
  then show ?thesis by blast
qed

lemma reject_step_ledger:
  assumes "run_op E op s = record_rejection l d s" and "rejection_key l d = Inr key"
  shows "st_ledger (store_step E op s) = fold ledger_step [Reject key (next_fault s)] (st_ledger s)"
  using assms by (auto simp: store_step_def record_rejection_def store_open_ledger split: prod.splits outcome.splits)

lemma store_step_ledger: "\<exists>es. st_ledger (store_step E op s) = fold ledger_step es (st_ledger s)"
proof -
  have rej: "\<exists>es. st_ledger (store_step E op s) = fold ledger_step es (st_ledger s)"
    if "run_op E op s = record_rejection l d s" for l d
  proof (cases "rejection_key l d")
    case (Inl k)
    then show ?thesis using that by (intro quiet_step_ledger) (simp add: record_rejection_def)
  next
    case (Inr key)
    from reject_step_ledger [OF that this] show ?thesis by blast
  qed
  show ?thesis
  proof (cases op)
    case ProveProvisional
    then show ?thesis
      using prove_provisional_effect [of E s] by (intro quiet_step_ledger) (auto simp: snd_bind_return)
  next
    case (RejectDeployment l a)
    show ?thesis
    proof (cases "deployment_rejection_sha256 E a")
      case None
      then show ?thesis
        by (intro quiet_step_ledger) (simp add: RejectDeployment reject_deployment_def fail_a_def)
    next
      case (Some d)
      then show ?thesis by (intro rej) (simp add: RejectDeployment reject_deployment_def)
    qed
  next
    case (RejectArtifact l d)
    then show ?thesis by (intro rej) (simp add: reject_artifact_def)
  qed (intro quiet_step_ledger, simp add: crash_a_def)+
qed

interpretation store_ledger: evidence_ledger "store_step E" "store_inv E" "\<lambda>s. disk_keys (led_file (st_ledger s))"
  for E :: ext
proof
  fix s e
  assume inv: "store_inv E s"
  obtain es where es: "st_ledger (store_step E e s) = fold ledger_step es (st_ledger s)"
    using store_step_ledger by blast
  show "store_inv E (store_step E e s)"
    using inv store_step_files_ok rej_ledger.history_inv by (simp add: store_inv_def es)
  show "disk_keys (led_file (st_ledger s)) \<subseteq> disk_keys (led_file (st_ledger (store_step E e s)))"
    using inv rej_ledger.history_evidence by (simp add: store_inv_def es)
qed

subsection \<open>What each check establishes\<close>

lemma bind_bool_check_Inr: "bind_r r (\<lambda>ok. check ok k) = Inr () \<longleftrightarrow> r = Inr True"
  by (cases r) auto

lemma commit_checkD:
  assumes "commit_check E next s = Inr ()"
  shows "installed_validate E next = Inr ()" and "store_active_release E s = Inr (Some (ins_release next))"
    and "validate_installed_transition E next s = Inr ()"
  using assms unfolding commit_check_def bind_unit_Inr_iff bind_r_Inr_iff
  by (auto split: option.splits)

lemma metadata_transitionD:
  assumes "metadata_transition_is_authorized current next"
  shows "ins_release next = ins_release current" "ins_archive_sha256 next = ins_archive_sha256 current"
    "ins_reconciler next = ins_reconciler current"
    "ins_rollback_guard next = ins_rollback_guard current \<or> ins_rollback_guard next = None"
  using assms unfolding metadata_transition_is_authorized_def
  by (auto split: if_splits bool.splits)

lemma journal_transitionD:
  assumes "journal_transition_is_authorized E current next s = Inr True"
  obtains (forward) tx g where "store_journal E s = Inr (Some tx)" "tx_phase tx \<in> {Converged, Verified}"
      "\<not> tx_candidate_rejection_required tx" "matches_previous tx current" "matches_candidate tx next"
      "ins_rollback_guard next = Some g" "matches_rollback_guard tx g" "is_proven next"
    | (backward) tx where "store_journal E s = Inr (Some tx)" "tx_phase tx = RolledBack"
      "matches_candidate tx current" "matches_previous tx next" "ins_rollback_guard next = None"
proof -
  obtain tx where tx: "store_journal E s = Inr (Some tx)"
    using assms unfolding journal_transition_is_authorized_def bind_r_Inr_iff by (auto split: option.splits)
  show ?thesis
    using assms that [OF tx] unfolding journal_transition_is_authorized_def tx
    by (cases "ins_rollback_guard next") (auto split: if_splits)
qed

lemma installed_transitionD:
  assumes "validate_installed_transition E next s = Inr ()"
    and "store_installed E s = Inr (Present current)"
  shows "metadata_transition_is_authorized current next \<or> pending_rollback_is_authorized s current next
     \<or> journal_transition_is_authorized E current next s = Inr True"
  using assms by (auto simp: validate_installed_transition_def bind_bool_check_Inr split: if_splits)

lemma may_discardD:
  assumes "journal_may_discard E tx s = Inr True"
  shows "(tx_candidate_rejection_required tx \<longrightarrow> rejection_is_durable s
             (tx_candidate_repository_lineage tx) (tx_candidate_rejection_sha256 tx))
     \<and> (tx_phase tx = Prepared
        \<or> (tx_phase tx \<in> {Converged, Verified, Committed} \<and>
           (\<exists>i. store_installed E s = Inr (Present i) \<and> forward_commit_is_durable tx i))
        \<or> (tx_phase tx = RolledBack \<and> store_active_release E s = Inr (Some (tx_previous_release tx)) \<and>
           (\<exists>i. store_installed E s = Inr (Present i) \<and> matches_previous tx i)))"
proof (cases "tx_phase tx = Prepared")
  case False
  then obtain a i where "store_active_release E s = Inr a" "store_installed E s = Inr (Present i)"
    using assms unfolding journal_may_discard_def
    by (cases "store_active_release E s"; cases "store_installed E s")
      (auto split: if_splits Installed.split_asm)
  with assms False show ?thesis
    by (cases "tx_phase tx") (auto simp: journal_may_discard_def split: if_splits)
qed (use assms in \<open>auto simp: journal_may_discard_def split: if_splits\<close>)

lemma write_journal_replace:
  assumes "write_journal_check E tx' s = Inr ()" and "store_journal E s = Inr (Some tx)"
  shows "(tx_id tx \<noteq> tx_id tx' \<and> journal_may_discard E tx s = Inr True
            \<and> journal_start_is_authorized E tx' s = Inr True)
       \<or> (tx_id tx = tx_id tx' \<and> permits_replacement tx tx' \<and>
          (tx_phase tx = Committed \<and> tx_phase tx' = RollbackPlanned \<longrightarrow>
             pending_authorizes_rollback_journal E tx' s = Inr True))"
  using assms
  by (auto simp: write_journal_check_def bind_unit_Inr_iff bind_bool_check_Inr bind_r_Inr_iff
      split: if_splits)

lemma write_journal_committed:
  "write_journal_check E tx s = Inr () \<Longrightarrow> tx_phase tx = Committed
   \<Longrightarrow> forward_commit_is_authorized E tx s = Inr True"
  by (simp add: write_journal_check_def bind_unit_Inr_iff bind_bool_check_Inr)

lemma files_okD:
  assumes "files_ok E s"
  shows "st_installed s = Record i \<Longrightarrow> store_installed E s = Inr (Present i)"
    and "st_journal s = Record tx \<Longrightarrow> store_journal E s = Inr (Some tx)"
    and "st_install_journal s = Record it \<Longrightarrow> store_install_journal E s = Inr (Some it)"
    and "st_active s = Record r \<Longrightarrow> store_active_release E s = Inr (Some r)"
  using assms
  by (simp_all add: files_ok_def store_installed_def store_journal_def store_install_journal_def
      store_active_release_def)

lemma store_installed_files: "store_installed E (files s) = store_installed E s"
  by (simp add: store_installed_def)

text \<open>A spent journal at \<open>Committed\<close> whose rollback guard has been dropped.\<close>

definition wedged :: "ext \<Rightarrow> Transaction \<Rightarrow> store \<Rightarrow> bool" where
  "wedged E tx s \<longleftrightarrow> files_ok E s \<and> st_journal s = Record tx \<and> tx_phase tx = Committed
     \<and> (\<exists>i. st_installed s = Record i \<and> ins_rollback_guard i = None)"

lemma wedged_no_discard: "wedged E tx s \<Longrightarrow> journal_may_discard E tx s \<noteq> Inr True"
  by (auto simp: wedged_def forward_commit_is_durable_def files_okD dest!: may_discardD)

lemma wedged_no_pending: "wedged E tx s \<Longrightarrow> pending_authorizes_rollback_journal E tx' s = Inr False"
  by (auto simp: wedged_def pending_authorizes_rollback_journal_def files_okD)

lemma wedged_no_commit: "wedged E tx s \<Longrightarrow> forward_commit_is_authorized E tx' s \<noteq> Inr True"
  by (auto simp: wedged_def forward_commit_is_authorized_def forward_commit_is_durable_def files_okD
      bind_r_Inr_iff)

lemma wedged_no_write:
  assumes w: "wedged E tx s"
  shows "write_journal_check E tx' s \<noteq> Inr ()"
proof
  assume ok: "write_journal_check E tx' s = Inr ()"
  have j: "store_journal E s = Inr (Some tx)" and c: "tx_phase tx = Committed"
    using w by (auto simp: wedged_def files_okD)
  have step: "mutable_step tx tx'" and resume: "tx_phase tx' \<noteq> RollbackPlanned"
    using write_journal_replace [OF ok j] wedged_no_discard [OF w] wedged_no_pending [OF w, of tx'] c
    by (auto simp: permits_replacement_iff)
  have "tx_phase tx' \<noteq> Committed"
    using write_journal_committed [OF ok] wedged_no_commit [OF w] by blast
  with step resume c show False
    by (auto elim!: mutable_step_cases simp: phase_edge_def edge_defs health_gate_phase_def)
qed

lemma wedged_step:
  assumes w: "wedged E tx s"
  shows "wedged E tx (store_step E op s)"
proof -
  obtain i where i: "st_installed s = Record i" "ins_rollback_guard i = None"
    and ok: "files_ok E s" and j: "st_journal s = Record tx" and c: "tx_phase tx = Committed"
    using w by (auto simp: wedged_def)
  have ok': "files_ok E (store_step E op s)" using ok by (rule store_step_files_ok)
  show ?thesis
  proof (cases rule: store_step_files_cases [of E op s])
    case (installed i')
    have "ins_rollback_guard i' = None"
      using installed_transitionD [OF commit_checkD(3) [OF installed(1)] files_okD(1) [OF ok i(1)]]
    proof (elim disjE)
      assume "metadata_transition_is_authorized i i'"
      then show ?thesis using metadata_transitionD(4) i(2) by fastforce
    next
      assume "pending_rollback_is_authorized s i i'"
      then show ?thesis by (simp add: pending_rollback_is_authorized_def i(2))
    next
      assume "journal_transition_is_authorized E i i' s = Inr True"
      then show ?thesis
        by (rule journal_transitionD) (use files_okD(2) [OF ok j] c in auto)
    qed
    moreover have "st_installed (store_step E op s) = Record i'" "st_journal (store_step E op s) = Record tx"
      using arg_cong [OF installed(2), of st_installed] arg_cong [OF installed(2), of st_journal] j
      by simp_all
    ultimately show ?thesis
      using ok' c by (simp add: wedged_def)
  next
    case (journal tx')
    then show ?thesis using wedged_no_write [OF w] by blast
  next
    case cleared
    then show ?thesis
      using wedged_no_discard [OF w] files_okD(2) [OF ok j]
      by (simp add: clear_check_def bind_bool_check_Inr)
  qed (use ok' j c i in \<open>auto simp: wedged_def dest: arg_cong [of _ _ st_installed] arg_cong [of _ _ st_journal]\<close>)
qed

lemma may_discard_total:
  assumes "files_ok E s"
  shows "is_ok (journal_may_discard E tx s)"
proof -
  obtain i j t a where "store_installed E s = Inr i" "store_active_release E s = Inr a"
    using assms by (rule files_ok_reads)
  then show ?thesis by (cases i) (simp_all add: journal_may_discard_def)
qed

lemma wedged_refuses:
  assumes w: "wedged E tx s"
  shows "clear_journal E s = (Err InvalidInput, s)" and "\<exists>k. write_journal E tx' s = (Err k, s)"
proof -
  have j: "store_journal E s = Inr (Some tx)" using w by (auto simp: wedged_def files_okD)
  obtain b where "journal_may_discard E tx s = Inr b"
    using may_discard_total [of E s tx] w by (cases "journal_may_discard E tx s") (auto simp: wedged_def)
  then have "clear_check E s = Inl InvalidInput"
    using wedged_no_discard [OF w] by (cases b) (auto simp: clear_check_def j)
  then show "clear_journal E s = (Err InvalidInput, s)" by (rule clear_w.refuse)
  show "\<exists>k. write_journal E tx' s = (Err k, s)"
    using wedged_no_write [OF w, of tx'] journal_w.refuse [of E tx' s]
    by (cases "write_journal_check E tx' s") auto
qed

subsection \<open>Sample stores\<close>

definition sample_store :: "InstalledState slot \<Rightarrow> Transaction slot \<Rightarrow> string \<Rightarrow> fault list \<Rightarrow> store" where
  "sample_store i j v fs =
     \<lparr> st_installed = i, st_journal = j, st_install_journal = Absent,
       st_active = Record (sample_release v), st_ledger = empty_ledger,
       st_history = Record INSTALL_HISTORY_MARKER, st_versions = (\<lambda>_. Inr ()), st_faults = fs \<rparr>"

definition sample_guard :: RollbackGuard where
  "sample_guard =
     \<lparr> grd_attempt_id = sample_digest (CHR ''9''),
       grd_candidate_rejection_sha256 = sample_digest (CHR ''e''),
       grd_previous_release = sample_release ''1.0.0'',
       grd_previous_archive_sha256 = sample_digest (CHR ''c''),
       grd_previous_repository_lineage = sample_digest (CHR ''1''),
       grd_reconciler = sample_reconciler,
       grd_committed_at = 7 \<rparr>"

definition sample_guarded :: InstalledState where
  "sample_guarded = (proven (sample_digest (CHR ''1'')) (sample_release ''2.0.0'')
     (sample_digest (CHR ''d'')) sample_reconciler)\<lparr> ins_rollback_guard := Some sample_guard \<rparr>"

lemma sample_guarded_valid: "installed_validate sample_ext sample_guarded = Inr ()"
  by (simp add: installed_validate_Inr sample_guarded_def lineage_validate_def is_ascii_digit_def
      byte_in_def is_ascii_uppercase_def guard_validate_Inr sample_guard_def is_token_def sample_rejection)

lemma sample_store_sel [simp]:
  "st_installed (sample_store i j v fs) = i" "st_journal (sample_store i j v fs) = j"
  "st_install_journal (sample_store i j v fs) = Absent"
  "st_active (sample_store i j v fs) = Record (sample_release v)"
  "st_ledger (sample_store i j v fs) = empty_ledger" "st_faults (sample_store i j v fs) = fs"
  "st_versions (sample_store i j v fs) = (\<lambda>_. Inr ())"
  by (simp_all add: sample_store_def)

lemma sample_store_inv:
  assumes "slot_ok (\<lambda>i. installed_validate sample_ext i = Inr ()) i"
    and "slot_ok (\<lambda>t. transaction_validate sample_ext t = Inr ()) j"
    and "v \<in> {''1.0.0'', ''2.0.0''}"
  shows "files_ok sample_ext (sample_store i j v fs)" and "store_inv sample_ext (sample_store i j v fs)"
proof -
  have "release_validate sample_ext (sample_release v) = Inr ()"
    using assms(3) by (auto simp: is_ascii_uppercase_def byte_in_def)
  then show "files_ok sample_ext (sample_store i j v fs)" "store_inv sample_ext (sample_store i j v fs)"
    using assms by (simp_all add: files_ok_def store_inv_def)
qed

subsection \<open>Properties\<close>

text \<open>
  C6. Whatever sequence of operations the agent asks of the store, whichever of their writes fail,
  land unsynced or are cut short by a crash and restart, every record file stays readable and
  valid, the rejection record loads, and an update journal and a first-install journal never
  exist together.
\<close>

theorem store_history_safe:
  assumes "store_inv E s"
  shows "let t = fold (store_step E) ops s in
    (\<exists>i j k a. store_installed E t = Inr i \<and> i \<noteq> Invalid \<and> store_journal E t = Inr j
       \<and> store_install_journal E t = Inr k \<and> store_active_release E t = Inr a
       \<and> (j = None \<or> k = None))
    \<and> fst (store_open t) = Inr ()"
proof -
  define t where "t = fold (store_step E) ops s"
  have inv: "store_inv E t"
    using store_ledger.history_inv [OF assms] by (simp add: t_def)
  then have "fst (store_open t) = Inr ()"
    using ledger_inv_disk [of "st_ledger t"]
    by (auto simp: store_inv_def store_open_def ledger_disk_ok_def load_def)
  moreover have "\<exists>i j k a. store_installed E t = Inr i \<and> i \<noteq> Invalid \<and> store_journal E t = Inr j
       \<and> store_install_journal E t = Inr k \<and> store_active_release E t = Inr a \<and> (j = None \<or> k = None)"
    using inv unfolding store_inv_def files_ok_def store_installed_def store_journal_def
      store_install_journal_def store_active_release_def
    by (auto dest!: slot_okE)
  ultimately show ?thesis by (simp add: t_def Let_def)
qed

theorem store_history_safe_witness:
  "let t = fold (store_step sample_ext) [WriteJournal (sample_tx Prepared), Reopen, ClearJournal]
             (sample_store (Record sample_installed) Absent ''1.0.0'' [CrashAfter]) in
    (\<exists>i j k a. store_installed sample_ext t = Inr i \<and> i \<noteq> Invalid \<and> store_journal sample_ext t = Inr j
       \<and> store_install_journal sample_ext t = Inr k \<and> store_active_release sample_ext t = Inr a
       \<and> (j = None \<or> k = None))
    \<and> fst (store_open t) = Inr ()"
  by (rule store_history_safe) (rule sample_store_inv, simp_all add: sample_installed_valid)

text \<open>
  C7. A runtime verdict against a deployment is permanent: once \<^const>\<open>reject_deployment\<close> has
  reported success, no operation, fault, crash or restart makes that package selectable again
  under its lineage, and the evidence that settles a journal stays available.
\<close>

theorem store_rejection_permanent:
  assumes "store_inv E s" and "reject_deployment E l a s = (Ok (), s')"
  shows "rejects_deployment E (fold (store_step E) ops s') l a
    \<and> (\<exists>d. deployment_rejection_sha256 E a = Some d
         \<and> rejection_is_durable (snd (store_open (fold (store_step E) ops s'))) l d)"
proof -
  from assms(2) obtain d where d: "deployment_rejection_sha256 E a = Some d"
    and "record_rejection l d s = (Ok (), s')"
    by (auto simp: reject_deployment_def fail_a_def split: option.splits)
  then obtain key where key: "rejection_key l d = Inr key"
    and rej: "reject (next_fault s) key (st_ledger s) = (Ok (), st_ledger s')"
    and s': "files s' = files s"
    by (auto simp: record_rejection_def files_upd split: sum.splits prod.splits)
  have inv': "store_inv E s'"
    using assms(1) reject_inv [of "st_ledger s" key "next_fault s"] rej files_ok_eqI [OF s']
    by (simp add: store_inv_def)
  define t where "t = fold (store_step E) ops s'"
  have inv: "store_inv E t" and on_disk: "key \<in> disk_keys (led_file (st_ledger t))"
    using store_ledger.history_inv [OF inv'] store_ledger.history_evidence [OF inv']
      reject_inv [of "st_ledger s" key "next_fault s"] rej assms(1)
    by (auto simp: t_def store_inv_def)
  then have "is_rejected (led_live (st_ledger t)) key"
    by (intro disk_keys_live) (simp_all add: store_inv_def)
  moreover have "is_durably_rejected (led_live (restart (st_ledger t))) key"
    using inv on_disk restart_inv [of "st_ledger t"] ledger_inv_disk [of "st_ledger t"]
      disk_keys_live [of "restart (st_ledger t)" key]
    by (auto simp: store_inv_def is_durably_rejected_def restart_def load_def ledger_disk_ok_def
        split: sum.splits)
  ultimately show ?thesis
    unfolding t_def [symmetric]
    by (simp add: rejects_deployment_def store_is_rejected_def rejection_is_durable_def d key
        store_open_ledger)
qed

theorem store_rejection_permanent_witness:
  "let s = sample_store (Record sample_installed) Absent ''1.0.0'' [];
       s' = snd (reject_deployment sample_ext (sample_digest (CHR ''1'')) (sample_digest (CHR ''c'')) s);
       t = fold (store_step sample_ext) [Reopen] s' in
   rejects_deployment sample_ext t (sample_digest (CHR ''1'')) (sample_digest (CHR ''c''))
   \<and> (\<exists>d. deployment_rejection_sha256 sample_ext (sample_digest (CHR ''c'')) = Some d
         \<and> rejection_is_durable (snd (store_open t)) (sample_digest (CHR ''1'')) d)"
proof -
  let ?s = "sample_store (Record sample_installed) Absent ''1.0.0'' []"
  let ?d = "sample_digest (CHR ''e'')"
  have inv: "store_inv sample_ext ?s"
    by (rule sample_store_inv) (simp_all add: sample_installed_valid)
  have d: "deployment_rejection_sha256 sample_ext (sample_digest (CHR ''c'')) = Some ?d"
    by (simp add: deployment_rejection_sha256_def sha256_bytes_def byte_in_def sample_ext_def)
  have key: "rejection_key (sample_digest (CHR ''1'')) ?d = Inr (lineage_rejection_key (sample_digest (CHR ''1'')) ?d)"
    and kk: "is_rejection_key (lineage_rejection_key (sample_digest (CHR ''1'')) ?d)"
    by (simp_all add: rejection_key_def lineage_validate_def is_ascii_digit_def byte_in_def rejection_key_lineage)
  have "fst (reject_deployment sample_ext (sample_digest (CHR ''1'')) (sample_digest (CHR ''c'')) ?s) = Ok ()"
    using reject_empty_ledger [OF kk]
    by (simp add: reject_deployment_def d record_rejection_def key next_fault_def case_prod_beta)
  then show ?thesis
    using store_rejection_permanent [OF inv, of "sample_digest (CHR ''1'')" "sample_digest (CHR ''c'')" _ "[Reopen]"]
    by (simp add: Let_def prod_eq_iff)
qed

text \<open>
  C4. The deployed unit named by the installed record changes only under matching durable intent,
  and never without a way back.  A forward change is made by an unrejected transaction past its
  converge step and leaves a guard that names the displaced unit exactly; a backward change
  restores the unit that a durably rejected candidate's guard, or a finished rollback's journal,
  names.  In each case the active pointer already names the new release.
\<close>

theorem installed_unit_change_authorized:
  assumes "files_ok E s" and "st_installed s = Record cur"
    and "st_installed (store_step E op s) \<noteq> st_installed s"
  shows "\<exists>new. st_installed (store_step E op s) = Record new
    \<and> store_active_release E s = Inr (Some (ins_release new))
    \<and> ((ins_release new = ins_release cur \<and> ins_archive_sha256 new = ins_archive_sha256 cur
          \<and> ins_reconciler new = ins_reconciler cur)
       \<or> (\<exists>tx g. st_journal s = Record tx \<and> tx_phase tx \<in> {Converged, Verified}
            \<and> \<not> tx_candidate_rejection_required tx \<and> matches_candidate tx new
            \<and> ins_rollback_guard new = Some g \<and> grd_attempt_id g = tx_id tx
            \<and> grd_previous_release g = ins_release cur
            \<and> grd_previous_archive_sha256 g = ins_archive_sha256 cur
            \<and> grd_previous_repository_lineage g = ins_repository_lineage cur
            \<and> grd_reconciler g = ins_reconciler cur)
       \<or> (\<exists>g. ins_rollback_guard cur = Some g
            \<and> rejection_is_durable s (ins_repository_lineage cur) (grd_candidate_rejection_sha256 g)
            \<and> new = proven (grd_previous_repository_lineage g) (grd_previous_release g)
                      (grd_previous_archive_sha256 g) (grd_reconciler g))
       \<or> (\<exists>tx. st_journal s = Record tx \<and> tx_phase tx = RolledBack
            \<and> matches_candidate tx cur \<and> matches_previous tx new \<and> ins_rollback_guard new = None))"
proof (cases rule: store_step_files_cases [of E op s])
  case (installed new)
  have new: "st_installed (store_step E op s) = Record new"
    using arg_cong [OF installed(2), of st_installed] by simp
  note chk = commit_checkD [OF installed(1)]
  show ?thesis
    using installed_transitionD [OF chk(3) files_okD(1) [OF assms(1,2)]]
  proof (elim disjE)
    assume "metadata_transition_is_authorized cur new"
    then show ?thesis using metadata_transitionD(1-3) new chk(2) by blast
  next
    assume "pending_rollback_is_authorized s cur new"
    then obtain g where "ins_rollback_guard cur = Some g"
        "rejection_is_durable s (ins_repository_lineage cur) (grd_candidate_rejection_sha256 g)"
        "new = proven (grd_previous_repository_lineage g) (grd_previous_release g)
                      (grd_previous_archive_sha256 g) (grd_reconciler g)"
      by (cases new) (auto simp: pending_rollback_is_authorized_def proven_def is_proven_def
          split: option.splits)
    then show ?thesis using new chk(2) by blast
  next
    assume "journal_transition_is_authorized E cur new s = Inr True"
    then show ?thesis
    proof (cases rule: journal_transitionD)
      case (forward tx g)
      then have "st_journal s = Record tx" by (simp add: store_journal_def journal_read_Some)
      with forward show ?thesis
        using new chk(2) unfolding matches_previous_def matches_rollback_guard_def by auto
    next
      case (backward tx)
      then have "st_journal s = Record tx" by (simp add: store_journal_def journal_read_Some)
      with backward show ?thesis using new chk(2) by blast
    qed
  qed
qed (use assms(3) in \<open>auto dest: arg_cong [of _ _ st_installed]\<close>)

lemma sample_commit_check:
  "commit_check sample_ext sample_guarded
     (sample_store (Record sample_installed) (Record (sample_tx Converged)) ''2.0.0'' fs) = Inr ()"
proof -
  let ?s = "sample_store (Record sample_installed) (Record (sample_tx Converged)) ''2.0.0'' fs"
  have ok: "files_ok sample_ext ?s"
    by (rule sample_store_inv) (simp_all add: sample_installed_valid)
  have "ins_release sample_guarded = sample_release ''2.0.0''" by (simp add: sample_guarded_def)
  moreover have "matches_previous (sample_tx Converged) sample_installed"
    "matches_candidate (sample_tx Converged) sample_guarded"
    "matches_rollback_guard (sample_tx Converged) sample_guard"
    "is_proven sample_guarded" "ins_rollback_guard sample_guarded = Some sample_guard"
    by (simp_all add: matches_previous_def matches_candidate_def matches_rollback_guard_def sample_tx_def
        sample_installed_def sample_guarded_def sample_guard_def)
  ultimately show ?thesis
    using files_okD(1,2,4) [OF ok] sample_guarded_valid
    by (simp add: commit_check_def validate_installed_transition_def journal_transition_is_authorized_def)
qed

theorem installed_unit_change_authorized_witness:
  "\<exists>new. st_installed (store_step sample_ext (CommitInstalled sample_guarded)
       (sample_store (Record sample_installed) (Record (sample_tx Converged)) ''2.0.0'' [])) = Record new"
proof -
  let ?s = "sample_store (Record sample_installed) (Record (sample_tx Converged)) ''2.0.0'' []"
  have ok: "files_ok sample_ext ?s"
    by (rule sample_store_inv) (simp_all add: sample_installed_valid)
  have "sample_installed \<noteq> sample_guarded"
    by (simp add: sample_installed_def sample_guarded_def proven_def)
  then have "st_installed (store_step sample_ext (CommitInstalled sample_guarded) ?s) \<noteq> st_installed ?s"
    using commit_w.fault_free [OF sample_commit_check] by (simp add: next_fault_def store_step_def)
  from installed_unit_change_authorized [OF ok _ this] show ?thesis
    unfolding sample_store_sel slot.inject by blast
qed

text \<open>
  C5. No operation buries an unsettled transaction.  Whatever the agent asks for and whatever
  fault strikes, a recorded update journal survives as itself or as a permitted successor, unless
  the transaction owes nothing: any verdict it requires is durable, and either nothing had been
  displaced, or the installed record carries its candidate with its rollback guard, or its
  rollback has restored both the pointer and the record of its predecessor.
\<close>

theorem journal_never_buried:
  assumes "files_ok E s" and "st_journal s = Record tx"
  shows "(\<exists>tx'. st_journal (store_step E op s) = Record tx' \<and> permits_replacement tx tx')
    \<or> ((tx_candidate_rejection_required tx \<longrightarrow> rejection_is_durable s
          (tx_candidate_repository_lineage tx) (tx_candidate_rejection_sha256 tx))
       \<and> (tx_phase tx = Prepared
          \<or> (\<exists>i. st_installed s = Record i \<and> forward_commit_is_durable tx i)
          \<or> (\<exists>i. st_installed s = Record i \<and> matches_previous tx i
                \<and> st_active s = Record (tx_previous_release tx) \<and> tx_phase tx = RolledBack)))"
    (is "?kept \<or> ?settled")
proof -
  note j = files_okD(2) [OF assms]
  have settled: "?settled" if "journal_may_discard E tx s = Inr True"
    using may_discardD [OF that]
    by (auto simp: store_installed_def try_read_Present store_active_release_def read_active_def
        bind_r_Inr_iff split: slot.splits if_splits)
  have same: "?kept" if "st_journal (store_step E op s) = st_journal s"
    using that assms(2) by (auto simp: permits_replacement_iff mutable_step_def)
  show ?thesis
  proof (cases rule: store_step_files_cases [of E op s])
    case (journal tx')
    have "st_journal (store_step E op s) = Record tx'"
      using arg_cong [OF journal(2), of st_journal] by simp
    then show ?thesis
      using write_journal_replace [OF journal(1) j] settled by blast
  next
    case cleared
    then show ?thesis using settled j by (simp add: clear_check_def bind_bool_check_Inr)
  qed (rule disjI1, rule same, drule arg_cong [of _ _ st_journal], simp)+
qed

theorem journal_never_buried_witness:
  "st_journal (store_step sample_ext ClearJournal
      (sample_store (Record sample_installed) (Record (sample_tx Activated)) ''2.0.0'' [])) \<noteq> Absent"
proof -
  have "files_ok sample_ext (sample_store (Record sample_installed) (Record (sample_tx Activated)) ''2.0.0'' [])"
    by (rule sample_store_inv) (simp_all add: sample_installed_valid)
  moreover have "\<not> forward_commit_is_durable (sample_tx Activated) sample_installed"
    by (simp add: forward_commit_is_durable_def sample_installed_def)
  ultimately show ?thesis
    using journal_never_buried [of sample_ext "sample_store (Record sample_installed) (Record (sample_tx Activated)) ''2.0.0'' []"
        "sample_tx Activated" ClearJournal] by auto
qed

text \<open>
  C10. A defect of the spent-journal handling.  When deleting the journal of a committed update
  fails, which the code tolerates, and the update is then confirmed, the journal can never be
  removed or replaced again: from that point on, whatever the agent does, deleting it is refused
  and so is every new transaction.
\<close>

theorem confirmed_update_wedges_spent_journal:
  assumes "files_ok E s" and "st_journal s = Record tx" and "tx_phase tx = Committed"
    and "commit_installed E (snd (disarm_rollback i)) s = (Ok (), s')"
  shows "let t = fold (store_step E) ops s' in
    clear_journal E t = (Err InvalidInput, t) \<and> (\<forall>tx'. \<exists>k. write_journal E tx' t = (Err k, t))"
proof -
  have chk: "commit_check E (snd (disarm_rollback i)) s = Inr ()"
    and s': "s' = (pop_fault s)\<lparr> st_installed := Record (snd (disarm_rollback i)) \<rparr>"
    using commit_w.run_Ok [OF assms(4)] by auto
  then have "files_ok E s'"
    using files_ok_writes(1) [of E "pop_fault s"] assms(1) by simp
  then have "wedged E tx s'"
    using assms(2,3) by (simp add: wedged_def s' disarm_rollback_def)
  moreover have "wedged E tx t \<Longrightarrow> wedged E tx (fold (store_step E) ops t)" for t
    by (induction ops arbitrary: t) (simp_all add: wedged_step)
  ultimately show ?thesis
    unfolding Let_def using wedged_refuses by blast
qed

theorem confirmed_update_wedges_spent_journal_witness:
  "let s = snd (commit_installed sample_ext (snd (disarm_rollback sample_guarded))
                 (sample_store (Record sample_guarded) (Record (sample_tx Committed)) ''2.0.0'' [])) in
   clear_journal sample_ext s = (Err InvalidInput, s)"
proof -
  let ?s = "sample_store (Record sample_guarded) (Record (sample_tx Committed)) ''2.0.0'' []"
  have ok: "files_ok sample_ext ?s"
    by (rule sample_store_inv) (simp_all add: sample_guarded_valid)
  have "metadata_transition_is_authorized sample_guarded (snd (disarm_rollback sample_guarded))"
    "ins_release (snd (disarm_rollback sample_guarded)) = sample_release ''2.0.0''"
    by (simp_all add: metadata_transition_is_authorized_def disarm_rollback_def sample_guarded_def)
  then have "commit_check sample_ext (snd (disarm_rollback sample_guarded)) ?s = Inr ()"
    using files_okD(1,4) [OF ok] valid_disarm [OF sample_guarded_valid]
    by (simp add: commit_check_def validate_installed_transition_def)
  then have "fst (commit_installed sample_ext (snd (disarm_rollback sample_guarded)) ?s) = Ok ()"
    using commit_w.fault_free by (simp add: next_fault_def)
  then show ?thesis
    using confirmed_update_wedges_spent_journal [OF ok, of "sample_tx Committed" sample_guarded _ "[]"]
    by (simp add: prod_eq_iff Let_def)
qed

end
