(* ===== verification/Boot_Plan.thy ===== *)
theory Boot_Plan
  imports Transaction
begin

text \<open>
  The pure core of the agent's boot: the confirmation window and the boot gate's identity of
  \<^verbatim>\<open>crates/agent/src/domain.rs\<close>, the planner of \<^verbatim>\<open>crates/agent/src/boot.rs\<close>, and the
  pure part of \<^verbatim>\<open>crates/agent/src/recovery.rs\<close>.  The notes a plan carries for the log are
  not modelled.
\<close>

subsection \<open>The confirmation window\<close>

text \<open>A \<^verbatim>\<open>Duration\<close> is a number of nanoseconds.\<close>

type_synonym duration = nat

definition as_secs :: "duration \<Rightarrow> u64" where
  "as_secs d = of_nat (d div 10 ^ 9)"

definition from_secs :: "u64 \<Rightarrow> duration" where
  "from_secs n = unat n * 10 ^ 9"

definition window_passed :: "RollbackGuard \<Rightarrow> duration \<Rightarrow> u64 \<Rightarrow> bool" where
  "window_passed guard window now \<longleftrightarrow> now \<ge> saturating_add (grd_committed_at guard) (as_secs window)"

definition window_remaining :: "RollbackGuard \<Rightarrow> duration \<Rightarrow> u64 \<Rightarrow> duration" where
  "window_remaining guard window now =
     (let ends_at = saturating_add (grd_committed_at guard) (as_secs window) in
      min (from_secs (saturating_sub ends_at now)) window)"

subsection \<open>The boot gate's identity\<close>

datatype Reason = ReasonInstall | ReasonRestart | ReasonUpdate

definition BOOT :: string where
  "BOOT = ''boot''"

record GateTarget =
  gt_attempt :: string
  gt_reason :: Reason
  gt_candidate :: ReleaseId
  gt_candidate_archive_sha256 :: string
  gt_predecessor :: ReleaseId
  gt_predecessor_archive_sha256 :: string
  gt_reconciler :: ReconcilerRelease

definition boot_gate_target :: "Transaction option \<Rightarrow> InstalledState \<Rightarrow> Reason \<Rightarrow> GateTarget" where
  "boot_gate_target recovery installed boot_reason =
     (let steady = \<lparr> gt_attempt = BOOT, gt_reason = boot_reason,
                     gt_candidate = ins_release installed,
                     gt_candidate_archive_sha256 = ins_archive_sha256 installed,
                     gt_predecessor = ins_release installed,
                     gt_predecessor_archive_sha256 = ins_archive_sha256 installed,
                     gt_reconciler = ins_reconciler installed \<rparr> in
      case recovery of
        None \<Rightarrow> steady
      | Some tx \<Rightarrow>
          if is_rollback tx
          then \<lparr> gt_attempt = rollback_attempt_id tx, gt_reason = ReasonUpdate,
                 gt_candidate = tx_previous_release tx,
                 gt_candidate_archive_sha256 = tx_previous_archive_sha256 tx,
                 gt_predecessor = tx_candidate_release tx,
                 gt_predecessor_archive_sha256 = tx_candidate_archive_sha256 tx,
                 gt_reconciler = tx_previous_reconciler tx \<rparr>
          else steady)"

subsection \<open>The planner\<close>

record Situation =
  sit_installed :: Installed
  sit_active :: "ReleaseId option"
  sit_journal :: "Transaction option"

definition predecessor_is_active :: "Situation \<Rightarrow> bool" where
  "predecessor_is_active s = (case sit_installed s of
       Present installed \<Rightarrow>
         (case ins_rollback_guard installed of
            None \<Rightarrow> False
          | Some guard \<Rightarrow> grd_previous_release guard \<noteq> ins_release installed
                          \<and> sit_active s = Some (grd_previous_release guard))
     | _ \<Rightarrow> False)"

datatype ReleaseFix = NoFix | ActivateRelease ReleaseId

record Plan =
  pl_fail_closed :: bool
  pl_current :: "string option"
  pl_release :: ReleaseFix
  pl_clear_journal :: bool
  pl_reject_candidate :: "(RepositoryLineage \<times> string) list"
  pl_commit :: "InstalledState option"

definition plan_default :: Plan where
  "plan_default = \<lparr> pl_fail_closed = False, pl_current = None, pl_release = NoFix,
     pl_clear_journal = False, pl_reject_candidate = [], pl_commit = None \<rparr>"

definition drives_rollback :: "Transaction \<Rightarrow> bool" where
  "drives_rollback tx =
     (if \<not> is_rollback tx
      then (case advance tx RollbackPlanned of
              (Inl _, _) \<Rightarrow> False
            | (Inr _, probe) \<Rightarrow> recovery_pending probe RolledBack)
      else recovery_pending tx RolledBack)"

definition journal_recovery ::
  "Transaction \<Rightarrow> ReleaseId option \<Rightarrow> InstalledState option \<Rightarrow> Recovery" where
  "journal_recovery tx active committed = (case classify_recovery tx active committed of
       RestorePredecessor \<Rightarrow> (if \<not> drives_rollback tx then RecoveryCommitted else RestorePredecessor)
     | recovery \<Rightarrow> recovery)"

text \<open>The record a finished rollback commits.\<close>

definition predecessor_state :: "Transaction \<Rightarrow> InstalledState" where
  "predecessor_state tx = proven (tx_previous_repository_lineage tx) (tx_previous_release tx)
     (tx_previous_archive_sha256 tx) (tx_previous_reconciler tx)"

definition reconcile_transaction ::
  "Plan \<Rightarrow> Situation \<Rightarrow> Transaction \<Rightarrow> InstalledState \<Rightarrow> Recovery \<times> Plan" where
  "reconcile_transaction plan situation tx installed =
     (let plan = plan\<lparr> pl_clear_journal := True \<rparr>;
          recovery = journal_recovery tx (sit_active situation) (Some installed);
          plan = (if tx_candidate_rejection_required tx
                  then plan\<lparr> pl_reject_candidate := pl_reject_candidate plan
                         @ [(tx_candidate_repository_lineage tx, tx_candidate_rejection_sha256 tx)] \<rparr>
                  else plan) in
      if recovery = RecoveryCommitted then (recovery, plan)
      else
        let plan = (if recovery = RestorePredecessor
                    then plan\<lparr> pl_release := ActivateRelease (tx_previous_release tx) \<rparr> else plan);
            plan = (if is_rollback tx
                    then plan\<lparr> pl_commit := Some (predecessor_state tx),
                               pl_current := Some (rel_version (tx_previous_release tx)) \<rparr>
                    else plan)
        in (recovery, plan))"

text \<open>\<^verbatim>\<open>complete_pending_rollback\<close> is only called with a guard; without one the code panics.\<close>

definition complete_pending_rollback :: "Plan \<Rightarrow> InstalledState \<Rightarrow> Plan option" where
  "complete_pending_rollback plan state = map_option (\<lambda>pending.
     plan\<lparr> pl_release := ActivateRelease (grd_previous_release pending),
           pl_commit := Some (proven (grd_previous_repository_lineage pending) (grd_previous_release pending)
             (grd_previous_archive_sha256 pending) (grd_reconciler pending)),
           pl_current := Some (rel_version (grd_previous_release pending)) \<rparr>)
     (ins_rollback_guard state)"

definition enforce_installed :: "Plan \<Rightarrow> Situation \<Rightarrow> InstalledState \<Rightarrow> Plan" where
  "enforce_installed plan situation installed =
     (if sit_active situation = Some (ins_release installed) then plan
      else plan\<lparr> pl_release := ActivateRelease (ins_release installed) \<rparr>)"

definition plan_boot :: "Situation \<Rightarrow> Plan option" where
  "plan_boot s = (case sit_installed s of
       Missing \<Rightarrow> Some (plan_default\<lparr> pl_fail_closed := True \<rparr>)
     | Invalid \<Rightarrow> Some (plan_default\<lparr> pl_fail_closed := True \<rparr>)
     | Present state \<Rightarrow>
         let plan = plan_default\<lparr> pl_current := Some (rel_version (ins_release state)) \<rparr>;
             (carries_recovery, plan) =
               (case sit_journal s of
                  None \<Rightarrow> (False, plan)
                | Some tx \<Rightarrow> (case reconcile_transaction plan s tx state of
                                (recovery, plan) \<Rightarrow> (recovery \<noteq> RecoveryCommitted, plan)))
         in if carries_recovery then Some plan
            else if predecessor_is_active s then complete_pending_rollback plan state
            else Some (enforce_installed plan s state))"

datatype GateFailure = GateRevert | RejectProvisional | GateReport

definition plan_gate_failure :: "InstalledState \<Rightarrow> GateFailure" where
  "plan_gate_failure installed =
     (if ins_rollback_guard installed \<noteq> None then GateRevert
      else if \<not> is_proven installed then RejectProvisional
      else GateReport)"

subsection \<open>The rollback a situation owes\<close>

definition rollback_of_guarded :: "InstalledState \<Rightarrow> RollbackGuard \<Rightarrow> bool \<Rightarrow> Transaction" where
  "rollback_of_guarded installed guard reject_candidate =
     \<lparr> tx_id = grd_attempt_id guard,
       tx_previous_release = grd_previous_release guard,
       tx_previous_archive_sha256 = grd_previous_archive_sha256 guard,
       tx_previous_repository_lineage = grd_previous_repository_lineage guard,
       tx_candidate_release = ins_release installed,
       tx_candidate_archive_sha256 = ins_archive_sha256 installed,
       tx_candidate_rejection_sha256 = grd_candidate_rejection_sha256 guard,
       tx_candidate_repository_lineage = ins_repository_lineage installed,
       tx_candidate_rejection_required = reject_candidate,
       tx_previous_reconciler = grd_reconciler guard,
       tx_candidate_reconciler = ins_reconciler installed,
       tx_rollback_health_failures = 0,
       tx_phase = RollbackPlanned \<rparr>"

definition confirmation_window_rollback :: "Situation \<Rightarrow> Transaction option" where
  "confirmation_window_rollback situation =
     (if \<not> predecessor_is_active situation then None
      else case sit_installed situation of
             Present installed \<Rightarrow>
               map_option (\<lambda>pending. rollback_of_guarded installed pending False) (ins_rollback_guard installed)
           | _ \<Rightarrow> None)"

definition recovery_transaction :: "Situation \<Rightarrow> Transaction option" where
  "recovery_transaction situation = (case sit_journal situation of
       Some tx \<Rightarrow>
         let committed = (case sit_installed situation of Present state \<Rightarrow> Some state | _ \<Rightarrow> None) in
         (case journal_recovery tx (sit_active situation) committed of
            RestorePredecessor \<Rightarrow> Some tx
          | RecoveryCommitted \<Rightarrow> confirmation_window_rollback situation
          | NeverSwapped \<Rightarrow> None)
     | None \<Rightarrow> confirmation_window_rollback situation)"

end
