(* ===== verification/Update.thy ===== *)
theory Update
  imports Store_Safety Boot_Plan
begin

text \<open>
  The forward half of the update transaction: \<^verbatim>\<open>crates/agent/src/update.rs\<close>, from the
  readiness gate to the commit, with the transient-fault retry of
  \<^verbatim>\<open>crates/agent/src/transient.rs\<close>.

  The signed reconciler is a subprocess.  Its answers are read from the world, one list for
  mutations and one list of probe runs for readiness gates, and every invocation is recorded in a
  trace with the arguments the agent passed.
\<close>

subsection \<open>The reconciler port\<close>

datatype HostAction = NoAction | Reboot

record ReleaseTarget =
  tgt_release :: ReleaseId
  tgt_archive_sha256 :: string

text \<open>A successful invocation, or \<^verbatim>\<open>InvocationFailure\<close>.\<close>

datatype 'a invocation = Succeeded 'a | ReleaseFault error_kind | Inconclusive error_kind

text \<open>The port an invocation goes through: the reconciler release and the reason it was built with.\<close>

record port =
  prt_reconciler :: ReconcilerRelease
  prt_reason :: Reason

datatype call =
    Mutate MutationOperation port string ReleaseTarget ReleaseTarget
  | Healthcheck port string ReleaseTarget ReleaseTarget

record world =
  wd_store :: store
  wd_tx :: "Transaction option"
  wd_mutations :: "HostAction invocation list"
  wd_probes :: "unit invocation list list"
  wd_trace :: "call list"

text \<open>What else a run of the agent reads from its surroundings.\<close>

record env =
  env_successes :: u32
  env_retries :: nat
  env_now :: u64
  env_token :: "string io_result"
  env_prepare :: "unit io_result"

definition store_a :: "(store, 'a) action \<Rightarrow> (world, 'a) action" where
  "store_a m w = (case m (wd_store w) of (r, s) \<Rightarrow> (r, w\<lparr> wd_store := s \<rparr>))"

definition mutate ::
  "port \<Rightarrow> MutationOperation \<Rightarrow> string \<Rightarrow> ReleaseTarget \<Rightarrow> ReleaseTarget \<Rightarrow> (world, HostAction invocation) action"
  where
  "mutate port operation attempt_id candidate predecessor w =
     (Ok (case wd_mutations w of [] \<Rightarrow> Succeeded NoAction | a # _ \<Rightarrow> a),
      w\<lparr> wd_mutations := tl (wd_mutations w),
         wd_trace := wd_trace w @ [Mutate operation port attempt_id candidate predecessor] \<rparr>)"

subsection \<open>The readiness gate\<close>

record Readiness =
  rdy_need :: u32
  rdy_consecutive :: u32

definition readiness_new :: "u32 \<Rightarrow> Readiness" where
  "readiness_new successes = \<lparr> rdy_need = max successes 1, rdy_consecutive = 0 \<rparr>"

definition observe :: "Readiness \<Rightarrow> bool \<Rightarrow> bool \<times> Readiness" where
  "observe r healthy =
     (if healthy
      then let n = rdy_consecutive r + 1 in (n \<ge> rdy_need r, r\<lparr> rdy_consecutive := n \<rparr>)
      else (False, r\<lparr> rdy_consecutive := 0 \<rparr>))"

datatype Health = Ready | Unhealthy error_kind | HealthInconclusive error_kind

fun probe_ok :: "unit invocation \<Rightarrow> bool" where
  "probe_ok (Succeeded _) = True"
| "probe_ok _ = False"

text \<open>
  The loop of the gate: \<open>probes\<close> are the answers of the healthchecks that complete before the
  deadline, in order, and \<open>last_probe\<close> is the verdict's evidence when it arrives.
\<close>

fun gate_loop :: "Readiness \<Rightarrow> unit invocation option \<Rightarrow> unit invocation list \<Rightarrow> Health" where
  "gate_loop r last_probe [] = (case last_probe of
       Some (ReleaseFault error) \<Rightarrow> Unhealthy error
     | Some (Inconclusive error) \<Rightarrow> HealthInconclusive error
     | Some (Succeeded _) \<Rightarrow> Unhealthy TimedOut
     | None \<Rightarrow> HealthInconclusive TimedOut)"
| "gate_loop r last_probe (probe # probes) =
     (case observe r (probe_ok probe) of (ready, r') \<Rightarrow>
        if ready then Ready else gate_loop r' (Some probe) probes)"

definition gate_verdict :: "u32 \<Rightarrow> unit invocation list \<Rightarrow> Health" where
  "gate_verdict successes probes = gate_loop (readiness_new successes) None probes"

definition became_healthy ::
  "env \<Rightarrow> port \<Rightarrow> string \<Rightarrow> ReleaseTarget \<Rightarrow> ReleaseTarget \<Rightarrow> (world, Health) action" where
  "became_healthy V port attempt_id candidate predecessor w =
     (Ok (gate_verdict (env_successes V)
           (case wd_probes w of
              [] \<Rightarrow> replicate (unat (max (env_successes V) 1)) (Succeeded ())
            | ps # _ \<Rightarrow> ps)),
      w\<lparr> wd_probes := tl (wd_probes w),
         wd_trace := wd_trace w @ [Healthcheck port attempt_id candidate predecessor] \<rparr>)"

subsection \<open>Transient faults\<close>

definition is_node_local_transient :: "error_kind \<Rightarrow> bool" where
  "is_node_local_transient k \<longleftrightarrow>
     k \<in> {StorageFull, QuotaExceeded, ReadOnlyFilesystem, ResourceBusy, Interrupted, TimedOut,
          WouldBlock, BrokenPipe, ConnectionReset, ConnectionAborted, ConnectionRefused, NotConnected,
          HostUnreachable, NetworkUnreachable, NetworkDown, RawEio}"

text \<open>
  The retry loop: the first argument is how many further attempts the budget and the shutdown flag
  leave.  The error that ends it makes the agent exit.
\<close>

fun recover_through_transients :: "nat \<Rightarrow> ('s, 'a) action \<Rightarrow> ('s, 'a) action" where
  "recover_through_transients 0 step = step"
| "recover_through_transients (Suc n) step =
     handle_a step return_a
       (\<lambda>error. if is_node_local_transient error then recover_through_transients n step else fail_a error)"

subsection \<open>Persisting the transaction\<close>

definition persist_transaction :: "ext \<Rightarrow> Transaction \<Rightarrow> (world, unit) action" where
  "persist_transaction E tx = store_a (write_journal E tx)"

text \<open>The transaction in memory advances first and stays advanced when persisting it fails.\<close>

definition advance_transaction :: "ext \<Rightarrow> Transaction \<Rightarrow> Phase \<Rightarrow> (world, Transaction) action" where
  "advance_transaction E tx phase w = (case advance tx phase of
       (Inl k, tx') \<Rightarrow> (Err k, w\<lparr> wd_tx := Some tx' \<rparr>)
     | (Inr _, tx') \<Rightarrow>
         bind_a (persist_transaction E tx') (\<lambda>_. return_a tx') (w\<lparr> wd_tx := Some tx' \<rparr>))"

definition require_candidate_rejection :: "ext \<Rightarrow> Transaction \<Rightarrow> (world, unit) action" where
  "require_candidate_rejection E tx =
     bind_a (if \<not> tx_candidate_rejection_required tx
             then let tx' = tx\<lparr> tx_candidate_rejection_required := True \<rparr> in
                  bind_a (modify_a (\<lambda>w. w\<lparr> wd_tx := Some tx' \<rparr>)) (\<lambda>_. store_a (write_journal E tx'))
             else return_a ())
       (\<lambda>_. store_a (reject_deployment E (tx_candidate_repository_lineage tx) (tx_candidate_archive_sha256 tx)))"

datatype Outcome = OutcomeCommitted HostAction | RollbackPending

definition reject_then_recover :: "ext \<Rightarrow> Transaction \<Rightarrow> (world, Outcome) action" where
  "reject_then_recover E tx =
     handle_a (require_candidate_rejection E tx) (\<lambda>_. return_a RollbackPending) (\<lambda>_. return_a RollbackPending)"

text \<open>\<^verbatim>\<open>recover_on_error!\<close>: any failure after the switchover began ends in boot recovery.\<close>

definition recover_on_error :: "(world, 'a) action \<Rightarrow> ('a \<Rightarrow> (world, Outcome) action) \<Rightarrow> (world, Outcome) action" where
  "recover_on_error m f = handle_a m f (\<lambda>_. return_a RollbackPending)"

definition candidate_target :: "Transaction \<Rightarrow> ReleaseTarget" where
  "candidate_target tx = \<lparr> tgt_release = tx_candidate_release tx, tgt_archive_sha256 = tx_candidate_archive_sha256 tx \<rparr>"

definition previous_target :: "Transaction \<Rightarrow> ReleaseTarget" where
  "previous_target tx = \<lparr> tgt_release = tx_previous_release tx, tgt_archive_sha256 = tx_previous_archive_sha256 tx \<rparr>"

definition committed_head :: "u64 \<Rightarrow> Transaction \<Rightarrow> InstalledState" where
  "committed_head now tx =
     \<lparr> ins_repository_lineage = tx_candidate_repository_lineage tx,
       ins_release = tx_candidate_release tx,
       ins_archive_sha256 = tx_candidate_archive_sha256 tx,
       ins_reconciler = tx_candidate_reconciler tx,
       ins_rollback_guard = Some
         \<lparr> grd_attempt_id = tx_id tx,
           grd_candidate_rejection_sha256 = tx_candidate_rejection_sha256 tx,
           grd_previous_release = tx_previous_release tx,
           grd_previous_archive_sha256 = tx_previous_archive_sha256 tx,
           grd_previous_repository_lineage = tx_previous_repository_lineage tx,
           grd_reconciler = tx_previous_reconciler tx,
           grd_committed_at = now \<rparr>,
       ins_maturity = Proven \<rparr>"

text \<open>The end of the switchover: commit the head with its rollback guard, then retire the journal.\<close>

definition commit_switch :: "ext \<Rightarrow> env \<Rightarrow> HostAction \<Rightarrow> Transaction \<Rightarrow> (world, Outcome) action" where
  "commit_switch E V host_action tx =
     recover_on_error (store_a (commit_installed E (committed_head (env_now V) tx))) (\<lambda>_.
     recover_on_error (advance_transaction E tx Committed) (\<lambda>_.
     handle_a (store_a (clear_journal E))
       (\<lambda>_. return_a (OutcomeCommitted host_action))
       (\<lambda>_. return_a (OutcomeCommitted host_action))))"

definition gate_candidate :: "ext \<Rightarrow> env \<Rightarrow> port \<Rightarrow> HostAction \<Rightarrow> Transaction \<Rightarrow> (world, Outcome) action" where
  "gate_candidate E V port host_action tx =
     (if host_action = Reboot then commit_switch E V host_action tx
      else bind_a (became_healthy V port (tx_id tx) (candidate_target tx) (previous_target tx)) (\<lambda>health.
        case health of
          Ready \<Rightarrow> recover_on_error (advance_transaction E tx Verified) (\<lambda>tx. commit_switch E V host_action tx)
        | Unhealthy _ \<Rightarrow> reject_then_recover E tx
        | HealthInconclusive _ \<Rightarrow> return_a RollbackPending))"

definition switch_over :: "ext \<Rightarrow> env \<Rightarrow> port \<Rightarrow> Transaction \<Rightarrow> (world, Outcome) action" where
  "switch_over E V port tx =
     recover_on_error (store_a (activate E (tx_candidate_release tx))) (\<lambda>_.
     recover_on_error (advance_transaction E tx Activated) (\<lambda>tx.
     bind_a (mutate port Converge (tx_id tx) (candidate_target tx) (previous_target tx)) (\<lambda>result.
     case result of
       Succeeded host_action \<Rightarrow>
         recover_on_error (advance_transaction E tx Converged) (\<lambda>tx. gate_candidate E V port host_action tx)
     | ReleaseFault _ \<Rightarrow> reject_then_recover E tx
     | Inconclusive _ \<Rightarrow> return_a RollbackPending)))"

definition new_transaction ::
  "string \<Rightarrow> InstalledState \<Rightarrow> ReleaseId \<Rightarrow> string \<Rightarrow> string \<Rightarrow> RepositoryLineage \<Rightarrow> ReconcilerRelease
   \<Rightarrow> Transaction" where
  "new_transaction token installed candidate candidate_archive candidate_rejection candidate_lineage
     candidate_reconciler =
     \<lparr> tx_id = token,
       tx_previous_release = ins_release installed,
       tx_previous_archive_sha256 = ins_archive_sha256 installed,
       tx_previous_repository_lineage = ins_repository_lineage installed,
       tx_candidate_release = candidate,
       tx_candidate_archive_sha256 = candidate_archive,
       tx_candidate_rejection_sha256 = candidate_rejection,
       tx_candidate_repository_lineage = candidate_lineage,
       tx_candidate_rejection_required = False,
       tx_previous_reconciler = ins_reconciler installed,
       tx_candidate_reconciler = candidate_reconciler,
       tx_rollback_health_failures = 0,
       tx_phase = Prepared \<rparr>"

text \<open>The preparation, once the predecessor is read: every step of it leaves the node as it was.\<close>

definition begin_update ::
  "ext \<Rightarrow> env \<Rightarrow> port \<Rightarrow> ReleaseId \<Rightarrow> string \<Rightarrow> RepositoryLineage \<Rightarrow> ReconcilerRelease \<Rightarrow> InstalledState
   \<Rightarrow> (world, Outcome) action" where
  "begin_update E V port candidate candidate_archive candidate_lineage candidate_reconciler installed =
     bind_a (read_a (\<lambda>_. check_supported candidate_reconciler)) (\<lambda>_.
     bind_a (read_a (\<lambda>_. check_supported (ins_reconciler installed))) (\<lambda>_.
     case candidate_rejection_sha256 E (ins_release installed) (ins_archive_sha256 installed)
            candidate candidate_archive of
       None \<Rightarrow> fail_a InvalidInput
     | Some candidate_rejection \<Rightarrow>
         bind_a (read_a (\<lambda>_. env_token V)) (\<lambda>token.
         let tx = new_transaction token installed candidate candidate_archive candidate_rejection
                    candidate_lineage candidate_reconciler in
         bind_a (read_a (\<lambda>_. env_prepare V)) (\<lambda>_.
         bind_a (persist_transaction E tx) (\<lambda>_.
         switch_over E V port tx)))))"

definition execute_update ::
  "ext \<Rightarrow> env \<Rightarrow> port \<Rightarrow> ReleaseId \<Rightarrow> string \<Rightarrow> RepositoryLineage \<Rightarrow> ReconcilerRelease
   \<Rightarrow> (world, Outcome) action" where
  "execute_update E V port candidate candidate_archive candidate_lineage candidate_reconciler =
     bind_a (store_a (read_a (store_journal E))) (\<lambda>j.
     bind_a (case j of
               None \<Rightarrow> return_a ()
             | Some journal \<Rightarrow>
                 if \<not> drives_rollback journal then store_a (clear_journal E) else fail_a OtherError) (\<lambda>_.
     bind_a (store_a (read_a (store_installed E))) (\<lambda>i.
     case i of
       Present installed \<Rightarrow>
         begin_update E V port candidate candidate_archive candidate_lineage candidate_reconciler installed
     | _ \<Rightarrow> fail_a OtherError)))"

end
