(* ===== verification/Boot.thy ===== *)
theory Boot
  imports Update
begin

text \<open>
  The boot state machine: the effectful part of \<^verbatim>\<open>crates/agent/src/recovery.rs\<close> and the boot
  sequence of \<^verbatim>\<open>run\<close> in \<^verbatim>\<open>crates/agent/src/main.rs\<close>, from reading the durable
  state to the hand-over to the steady-state loop.  Ahead of it \<^verbatim>\<open>run\<close> takes the
  installation lock, places a first install and re-downloads a damaged tree.
\<close>

subsection \<open>Recovery steps\<close>

definition run_reconciler_mutation ::
  "port \<Rightarrow> MutationOperation \<Rightarrow> string \<Rightarrow> ReleaseTarget \<Rightarrow> ReleaseTarget \<Rightarrow> (world, HostAction) action" where
  "run_reconciler_mutation port operation attempt_id candidate predecessor =
     bind_a (mutate port operation attempt_id candidate predecessor) (\<lambda>result. case result of
       Succeeded host_action \<Rightarrow> return_a host_action
     | ReleaseFault error \<Rightarrow> fail_a error
     | Inconclusive error \<Rightarrow> fail_a error)"

definition with_tx :: "(Transaction option \<Rightarrow> (world, 'a) action) \<Rightarrow> (world, 'a) action" where
  "with_tx f = (\<lambda>w. f (wd_tx w) w)"

definition complete_candidate_compensation :: "ext \<Rightarrow> (world, HostAction) action" where
  "complete_candidate_compensation E = with_tx (\<lambda>recovery. case recovery of
       None \<Rightarrow> return_a NoAction
     | Some tx \<Rightarrow>
         if \<not> recovery_pending tx CandidateCompensated then return_a NoAction
         else
           bind_a (run_reconciler_mutation
                     \<lparr> prt_reconciler = tx_candidate_reconciler tx, prt_reason = ReasonUpdate \<rparr>
                     Rollback (rollback_attempt_id tx) (candidate_target tx) (previous_target tx)) (\<lambda>host_action.
           bind_a (advance_transaction E tx CandidateCompensated) (\<lambda>_. return_a host_action)))"

definition complete_recovery_activation :: "ext \<Rightarrow> (world, HostAction) action" where
  "complete_recovery_activation E = with_tx (\<lambda>recovery. case recovery of
       None \<Rightarrow> return_a NoAction
     | Some tx \<Rightarrow>
         if \<not> recovery_pending tx RolledBack then return_a NoAction
         else
           bind_a (run_reconciler_mutation
                     \<lparr> prt_reconciler = tx_previous_reconciler tx, prt_reason = ReasonUpdate \<rparr>
                     Converge (rollback_attempt_id tx) (previous_target tx) (candidate_target tx)) (\<lambda>host_action.
           if recovery_pending tx Restored
           then bind_a (advance_transaction E tx Restored) (\<lambda>_. return_a host_action)
           else return_a host_action))"

definition installed_rollback_guard :: "ext \<Rightarrow> store \<Rightarrow> RollbackGuard option io_result" where
  "installed_rollback_guard E s = bind_r (store_installed E s) (\<lambda>i. Inr (case i of
       Present st \<Rightarrow> ins_rollback_guard st
     | _ \<Rightarrow> None))"

fun reject_all :: "(RepositoryLineage \<times> string) list \<Rightarrow> (store, unit) action" where
  "reject_all [] = return_a ()"
| "reject_all ((lineage, hash) # rest) = bind_a (reject_artifact lineage hash) (\<lambda>_. reject_all rest)"

definition execute_store_plan :: "ext \<Rightarrow> Plan \<Rightarrow> bool \<Rightarrow> bool \<Rightarrow> (store, unit) action" where
  "execute_store_plan E plan defer_commit activate_release =
     bind_a (if activate_release
             then (case pl_release plan of NoFix \<Rightarrow> return_a () | ActivateRelease r \<Rightarrow> activate E r)
             else return_a ()) (\<lambda>_.
     bind_a (if \<not> defer_commit
             then (case pl_commit plan of None \<Rightarrow> return_a () | Some state \<Rightarrow> commit_installed E state)
             else return_a ()) (\<lambda>_.
     reject_all (pl_reject_candidate plan)))"

definition execute_boot_plan :: "ext \<Rightarrow> Plan \<Rightarrow> bool \<Rightarrow> (world, RollbackGuard option) action" where
  "execute_boot_plan E plan defer_commit = with_tx (\<lambda>recovery.
     let activate_release = (case recovery of
           None \<Rightarrow> True
         | Some tx \<Rightarrow> \<not> recovery_pending tx CandidateCompensated \<and> recovery_pending tx Restored) in
     bind_a (store_a (execute_store_plan E plan defer_commit activate_release)) (\<lambda>_.
     store_a (read_a (installed_rollback_guard E))))"

definition gather_situation :: "ext \<Rightarrow> store \<Rightarrow> Situation io_result" where
  "gather_situation E s =
     bind_r (store_active_release E s) (\<lambda>active.
     bind_r (store_installed E s) (\<lambda>installed.
     bind_r (store_journal E s) (\<lambda>journal.
     Inr \<lparr> sit_installed = installed, sit_active = active, sit_journal = journal \<rparr>)))"

subsection \<open>Failed gates\<close>

definition MAX_ROLLBACK_HEALTH_ATTEMPTS :: u32 where
  "MAX_ROLLBACK_HEALTH_ATTEMPTS = 3"

datatype RollbackHealthOutcome = Retry u32 | SettledUnhealthy

text \<open>What follows the count, once it is in the transaction.\<close>

definition settle_or_retry :: "ext \<Rightarrow> u32 \<Rightarrow> Transaction \<Rightarrow> (world, RollbackHealthOutcome) action" where
  "settle_or_retry E failures tx =
     (if failures \<ge> MAX_ROLLBACK_HEALTH_ATTEMPTS
      then bind_a (persist_transaction E tx) (\<lambda>_.
           if recovery_pending tx RolledBack
           then bind_a (advance_transaction E tx RolledBack) (\<lambda>_. return_a SettledUnhealthy)
           else return_a SettledUnhealthy)
      else bind_a (persist_transaction E tx) (\<lambda>_. return_a (Retry failures)))"

definition bound_unhealthy_rollback :: "ext \<Rightarrow> Transaction \<Rightarrow> (world, RollbackHealthOutcome) action" where
  "bound_unhealthy_rollback E tx = (case record_rollback_health_failure tx of
       (Inl k, tx') \<Rightarrow> bind_a (modify_a (\<lambda>w. w\<lparr> wd_tx := Some tx' \<rparr>)) (\<lambda>_. fail_a k)
     | (Inr failures, tx') \<Rightarrow>
         bind_a (modify_a (\<lambda>w. w\<lparr> wd_tx := Some tx' \<rparr>)) (\<lambda>_. settle_or_retry E failures tx'))"

definition reject_provisional_head :: "ext \<Rightarrow> InstalledState \<Rightarrow> (store, unit) action" where
  "reject_provisional_head E state = reject_deployment E (ins_repository_lineage state) (ins_archive_sha256 state)"

text \<open>A head without a guard makes the code panic; it is only called with one.\<close>

definition revert_guarded_head :: "ext \<Rightarrow> InstalledState \<Rightarrow> bool \<Rightarrow> (store, unit) action" where
  "revert_guarded_head E installed bytes_repaired = (case ins_rollback_guard installed of
       None \<Rightarrow> crash_a
     | Some pending \<Rightarrow>
         let tx = rollback_of_guarded installed pending (\<not> bytes_repaired) in
         bind_a (read_a (store_journal E)) (\<lambda>j.
         bind_a (case j of
                   None \<Rightarrow> return_a ()
                 | Some journal \<Rightarrow>
                     bind_a (read_a (store_active_release E)) (\<lambda>active.
                     if journal_recovery journal active (Some installed) = RecoveryCommitted
                     then clear_journal E else return_a ())) (\<lambda>_.
         bind_a (write_journal E tx) (\<lambda>_.
         if tx_candidate_rejection_required tx
         then reject_deployment E (tx_candidate_repository_lineage tx) (tx_candidate_archive_sha256 tx)
         else return_a ()))))"

definition disarm_update_rollback :: "ext \<Rightarrow> (store, bool) action" where
  "disarm_update_rollback E = handle_a (read_a (store_installed E))
     (\<lambda>i. case i of
        Present st \<Rightarrow>
          (case disarm_rollback st of (changed, st') \<Rightarrow>
             if \<not> changed then return_a True
             else handle_a (commit_installed E st') (\<lambda>_. return_a True) (\<lambda>_. return_a False))
      | _ \<Rightarrow> return_a False)
     (\<lambda>_. return_a False)"

subsection \<open>The boot sequence\<close>

datatype boot_result =
    Rebooting
  | ShutDown
  | Steady bool "RollbackGuard option"

text \<open>What the boot reads from its surroundings besides the reconciler.\<close>

record boot_env =
  bt_env :: env
  bt_first_install :: bool
  bt_bytes_repaired :: bool
  bt_inputs :: "bool io_result"

definition retried :: "boot_env \<Rightarrow> (world, 'a) action \<Rightarrow> (world, 'a) action" where
  "retried B step = recover_through_transients (env_retries (bt_env B)) step"

definition read_boot_head :: "ext \<Rightarrow> store \<Rightarrow> InstalledState io_result" where
  "read_boot_head E s = bind_r (store_installed E s) (\<lambda>i. case i of
       Present installed \<Rightarrow> Inr installed
     | Missing \<Rightarrow> Inl NotFound
     | Invalid \<Rightarrow> Inl InvalidData)"

text \<open>Before any invocation: the recovery transaction is made durable and put on the rollback path.\<close>

definition start_recovery :: "ext \<Rightarrow> Situation \<Rightarrow> Transaction option \<Rightarrow> (world, unit) action" where
  "start_recovery E situation recovery =
     bind_a (modify_a (\<lambda>w. w\<lparr> wd_tx := recovery \<rparr>)) (\<lambda>_.
     case recovery of
       None \<Rightarrow> return_a ()
     | Some tx \<Rightarrow>
         bind_a (if is_rollback tx \<and> sit_journal situation \<noteq> recovery
                 then persist_transaction E tx else return_a ()) (\<lambda>_.
         if \<not> is_rollback tx then bind_a (advance_transaction E tx RollbackPlanned) (\<lambda>_. return_a ())
         else return_a ()))"

text \<open>The committed release's own converge, which never runs during recovery.\<close>

definition boot_converge :: "boot_env \<Rightarrow> port \<Rightarrow> GateTarget \<Rightarrow> (world, error_kind + HostAction) action" where
  "boot_converge B port target = retried B
     (bind_a (mutate port Converge (gt_attempt target)
               \<lparr> tgt_release = gt_candidate target, tgt_archive_sha256 = gt_candidate_archive_sha256 target \<rparr>
               \<lparr> tgt_release = gt_predecessor target, tgt_archive_sha256 = gt_predecessor_archive_sha256 target \<rparr>)
       (\<lambda>result. case result of
          Succeeded host_action \<Rightarrow> return_a (Inr host_action)
        | ReleaseFault error \<Rightarrow> return_a (Inl error)
        | Inconclusive error \<Rightarrow> fail_a error))"

text \<open>The state a failed gate is judged by: a settled rollback's predecessor, otherwise the head.\<close>

definition gate_failure_state :: "ext \<Rightarrow> Plan \<Rightarrow> InstalledState \<Rightarrow> (world, InstalledState) action" where
  "gate_failure_state E plan installed_state = with_tx (\<lambda>recovery. case recovery of
       None \<Rightarrow> return_a installed_state
     | Some tx \<Rightarrow>
         if \<not> is_rollback tx then return_a installed_state
         else bind_a (bound_unhealthy_rollback E tx) (\<lambda>outcome. case outcome of
                SettledUnhealthy \<Rightarrow>
                  (case pl_commit plan of None \<Rightarrow> fail_a OtherError | Some state \<Rightarrow> return_a state)
              | Retry _ \<Rightarrow> fail_a OtherError))"

definition answer_gate_failure :: "ext \<Rightarrow> boot_env \<Rightarrow> InstalledState \<Rightarrow> InstalledState \<Rightarrow> (world, unit) action" where
  "answer_gate_failure E B installed_state state = (case plan_gate_failure state of
       GateRevert \<Rightarrow>
         bind_a (store_a (revert_guarded_head E installed_state (bt_bytes_repaired B))) (\<lambda>_. fail_a OtherError)
     | RejectProvisional \<Rightarrow>
         bind_a (store_a (reject_provisional_head E installed_state)) (\<lambda>_. fail_a OtherError)
     | GateReport \<Rightarrow> return_a ())"

definition handle_gate_failure ::
  "ext \<Rightarrow> boot_env \<Rightarrow> Plan \<Rightarrow> InstalledState \<Rightarrow> (world, unit) action" where
  "handle_gate_failure E B plan installed_state =
     bind_a (gate_failure_state E plan installed_state) (answer_gate_failure E B installed_state)"

definition advance_if_pending :: "ext \<Rightarrow> Phase \<Rightarrow> (world, unit) action" where
  "advance_if_pending E phase = with_tx (\<lambda>recovery. case recovery of
       None \<Rightarrow> return_a ()
     | Some tx \<Rightarrow>
         if recovery_pending tx phase then bind_a (advance_transaction E tx phase) (\<lambda>_. return_a ())
         else return_a ())"

definition settle_boot ::
  "ext \<Rightarrow> Plan \<Rightarrow> bool \<Rightarrow> RollbackGuard option \<Rightarrow> bool \<Rightarrow> (world, boot_result) action" where
  "settle_boot E plan defer_commit pending gate_passed =
     bind_a (if defer_commit
             then (case pl_commit plan of
                     None \<Rightarrow> return_a pending
                   | Some state \<Rightarrow>
                       bind_a (store_a (commit_installed E state)) (\<lambda>_.
                       store_a (read_a (installed_rollback_guard E))))
             else return_a pending) (\<lambda>pending.
     bind_a (if pl_clear_journal plan \<or> defer_commit then store_a (clear_journal E) else return_a ()) (\<lambda>_.
     return_a (Steady gate_passed pending)))"

definition finish_boot ::
  "ext \<Rightarrow> boot_env \<Rightarrow> Plan \<Rightarrow> bool \<Rightarrow> RollbackGuard option \<Rightarrow> bool \<Rightarrow> (world, boot_result) action" where
  "finish_boot E B plan defer_commit pending gate_passed =
     bind_a (if gate_passed then bind_a (retried B (store_a (store_prove_provisional E))) (\<lambda>_. return_a ())
             else return_a ()) (\<lambda>_.
     bind_a (advance_if_pending E RollbackVerified) (\<lambda>_.
     bind_a (advance_if_pending E RolledBack) (\<lambda>_.
     settle_boot E plan defer_commit pending gate_passed)))"

text \<open>The verdict on the release this boot runs, and what follows from it.\<close>

definition judge_boot ::
  "ext \<Rightarrow> boot_env \<Rightarrow> Plan \<Rightarrow> bool \<Rightarrow> RollbackGuard option \<Rightarrow> InstalledState \<Rightarrow> Health \<Rightarrow> (world, boot_result) action" where
  "judge_boot E B plan defer_commit pending installed_state gate =
     bind_a (if gate = Ready then return_a () else handle_gate_failure E B plan installed_state) (\<lambda>_.
     finish_boot E B plan defer_commit pending (gate = Ready))"

definition gate_head ::
  "ext \<Rightarrow> boot_env \<Rightarrow> Plan \<Rightarrow> bool \<Rightarrow> RollbackGuard option \<Rightarrow> InstalledState \<Rightarrow> Transaction option
   \<Rightarrow> (world, boot_result) action" where
  "gate_head E B plan defer_commit pending installed_state recovery =
     (let target = boot_gate_target recovery installed_state
            (if bt_first_install B then ReasonInstall else ReasonRestart);
          port = \<lparr> prt_reconciler = gt_reconciler target, prt_reason = gt_reason target \<rparr> in
      bind_a (if recovery = None then boot_converge B port target else return_a (Inr NoAction)) (\<lambda>convergence.
      if convergence = Inr Reboot then return_a Rebooting
      else
        bind_a (case convergence of
                  Inl error \<Rightarrow> return_a (Unhealthy error)
                | Inr _ \<Rightarrow> became_healthy (bt_env B) port (gt_attempt target)
                    \<lparr> tgt_release = gt_candidate target, tgt_archive_sha256 = gt_candidate_archive_sha256 target \<rparr>
                    \<lparr> tgt_release = gt_predecessor target,
                      tgt_archive_sha256 = gt_predecessor_archive_sha256 target \<rparr>)
          (judge_boot E B plan defer_commit pending installed_state)))"

definition boot_gate ::
  "ext \<Rightarrow> boot_env \<Rightarrow> Plan \<Rightarrow> bool \<Rightarrow> RollbackGuard option \<Rightarrow> (world, boot_result) action" where
  "boot_gate E B plan defer_commit pending =
     bind_a (retried B (store_a (read_a (read_boot_head E)))) (\<lambda>installed_state.
     with_tx (gate_head E B plan defer_commit pending installed_state))"

text \<open>From a plan that runs, once its recovery is durable.\<close>

definition run_plan :: "ext \<Rightarrow> boot_env \<Rightarrow> Plan \<Rightarrow> bool \<Rightarrow> (world, boot_result) action" where
  "run_plan E B plan defer_commit =
     bind_a (retried B (complete_candidate_compensation E)) (\<lambda>action.
     if action = Reboot then return_a Rebooting
     else
       bind_a (retried B (execute_boot_plan E plan defer_commit)) (\<lambda>pending.
       bind_a (retried B (complete_recovery_activation E)) (\<lambda>action.
       if action = Reboot then return_a Rebooting
       else boot_gate E B plan defer_commit pending)))"

definition boot :: "ext \<Rightarrow> boot_env \<Rightarrow> (world, boot_result) action" where
  "boot E B =
     bind_a (store_a (read_a (gather_situation E))) (\<lambda>situation.
     let recovery = recovery_transaction situation;
         defer_commit = (case recovery of None \<Rightarrow> False | Some tx \<Rightarrow> is_rollback tx) in
     case plan_boot situation of
       None \<Rightarrow> crash_a
     | Some plan \<Rightarrow>
         if pl_fail_closed plan then fail_a OtherError
         else
           bind_a (start_recovery E situation recovery) (\<lambda>_.
           bind_a (read_a (\<lambda>_. bt_inputs B)) (\<lambda>ready.
           if \<not> ready then return_a ShutDown
           else run_plan E B plan defer_commit)))"

end
