(* ===== verification/Coherence.thy ===== *)
theory Coherence
  imports Boot
begin

text \<open>
  The invariant that ties the agent's durable files together: which installed record and which
  active pointer may stand beside an update journal in each of its phases.  Every step of the
  update and of boot recovery keeps it, under every fault and crash, and it is what makes recovery
  possible.
\<close>

subsection \<open>The invariant\<close>

definition at_previous :: "Transaction \<Rightarrow> InstalledState \<Rightarrow> bool" where
  "at_previous tx i \<longleftrightarrow> i = predecessor_state tx"

definition at_candidate :: "Transaction \<Rightarrow> InstalledState \<Rightarrow> bool" where
  "at_candidate tx i \<longleftrightarrow> matches_candidate tx i \<and> is_proven i
     \<and> (case ins_rollback_guard i of None \<Rightarrow> False | Some g \<Rightarrow> matches_rollback_guard tx g)"

definition phase_ok :: "Transaction \<Rightarrow> InstalledState \<Rightarrow> ReleaseId \<Rightarrow> bool" where
  "phase_ok tx i a =
     (let prev = tx_previous_release tx; cand = tx_candidate_release tx in
      case tx_phase tx of
        Prepared \<Rightarrow> at_previous tx i \<and> a \<in> {prev, cand}
      | Activated \<Rightarrow> at_previous tx i \<and> a = cand
      | Converged \<Rightarrow> a = cand \<and> (at_previous tx i \<or> (at_candidate tx i \<and> \<not> tx_candidate_rejection_required tx))
      | Verified \<Rightarrow> a = cand \<and> (at_previous tx i \<or> (at_candidate tx i \<and> \<not> tx_candidate_rejection_required tx))
      | Committed \<Rightarrow> a = cand \<and> at_candidate tx i
      | RollbackPlanned \<Rightarrow> (at_previous tx i \<or> at_candidate tx i) \<and> a \<in> {prev, cand}
      | CandidateCompensated \<Rightarrow> (at_previous tx i \<or> at_candidate tx i) \<and> a \<in> {prev, cand}
      | _ \<Rightarrow> (at_previous tx i \<or> at_candidate tx i) \<and> a = prev)"

definition coherent_with :: "ext \<Rightarrow> store \<Rightarrow> InstalledState \<Rightarrow> ReleaseId \<Rightarrow> bool" where
  "coherent_with E s i a \<longleftrightarrow> files_ok E s \<and> st_install_journal s = Absent
     \<and> st_installed s = Record i \<and> st_active s = Record a
     \<and> (case st_journal s of Absent \<Rightarrow> a = ins_release i | Record tx \<Rightarrow> phase_ok tx i a | _ \<Rightarrow> False)"

definition coherent :: "ext \<Rightarrow> store \<Rightarrow> bool" where
  "coherent E s \<longleftrightarrow> (\<exists>i a. coherent_with E s i a)"

lemma coherent_pop [simp]: "coherent_with E (pop_fault s) i a = coherent_with E s i a"
  by (simp add: coherent_with_def)

lemma coherent_reads:
  assumes "coherent_with E s i a"
  shows "store_installed E s = Inr (Present i)" and "store_active_release E s = Inr (Some a)"
    and "st_installed s = Record i" and "st_active s = Record a" and "files_ok E s"
    and "store_install_journal E s = Inr None" and "installed_validate E i = Inr ()"
  using assms files_okD(1,4) [of E s]
  by (auto simp: coherent_with_def store_install_journal_def files_ok_def)

lemma coherent_journal:
  assumes "coherent_with E s i a"
  obtains "st_journal s = Absent" "store_journal E s = Inr None" "a = ins_release i"
    | tx where "st_journal s = Record tx" "store_journal E s = Inr (Some tx)" "phase_ok tx i a"
        "transaction_validate E tx = Inr ()"
proof (cases "st_journal s")
  case Absent
  then show ?thesis using assms that(1) by (simp add: coherent_with_def store_journal_def)
next
  case (Record tx)
  then show ?thesis
    using assms that(2) files_okD(2) [of E s tx] by (auto simp: coherent_with_def files_ok_def)
qed (use assms in \<open>simp_all add: coherent_with_def\<close>)

subsection \<open>Facts about the two positions\<close>

lemma matches_previous_proven:
  "matches_previous tx i \<and> is_proven i \<and> ins_rollback_guard i = None \<longleftrightarrow> at_previous tx i"
  by (cases i) (auto simp: matches_previous_def at_previous_def predecessor_state_def proven_def is_proven_def)

lemma at_previous_sel:
  assumes "at_previous tx i"
  shows "matches_previous tx i" "is_proven i" "ins_rollback_guard i = None"
    "ins_release i = tx_previous_release tx"
  using assms by (simp_all add: matches_previous_proven [symmetric] matches_previous_def)

lemma at_candidate_sel:
  assumes "at_candidate tx i"
  shows "matches_candidate tx i" "is_proven i" "ins_release i = tx_candidate_release tx"
    "\<exists>g. ins_rollback_guard i = Some g \<and> matches_rollback_guard tx g"
  using assms by (auto simp: at_candidate_def matches_candidate_def split: option.splits)

lemma at_previous_not_candidate:
  assumes "transaction_validate E tx = Inr ()" and "at_previous tx i"
  shows "\<not> matches_candidate tx i"
  using assms at_previous_sel(1) [OF assms(2)]
  by (auto simp: transaction_validate_Inr candidate_rejection_sha256_def matches_candidate_def
      matches_previous_def split: if_splits)

lemma positions_identity:
  assumes "tx_identity t = tx_identity u"
  shows "at_previous t i = at_previous u i" "at_candidate t i = at_candidate u i"
    "predecessor_state t = predecessor_state u"
  using tx_identity_sel [OF assms]
  by (simp_all add: at_previous_def at_candidate_def predecessor_state_def matches_candidate_def
      matches_rollback_guard_def split: option.split)

text \<open>\<open>forward_commit_is_durable\<close> and the guard's authority, in terms of the positions.\<close>

lemma forward_durable_iff:
  assumes "installed_validate E i = Inr ()"
  shows "forward_commit_is_durable tx i \<longleftrightarrow> \<not> tx_candidate_rejection_required tx \<and> at_candidate tx i"
  using assms
  by (auto simp: forward_commit_is_durable_def at_candidate_def installed_validate_Inr split: option.splits)

lemma pending_authorizes_candidate:
  assumes "coherent_with E s i a" and "pending_authorizes_rollback_journal E tx s = Inr True"
  shows "tx_phase tx = RollbackPlanned" and "at_candidate tx i" and "tx_rollback_health_failures tx = 0"
  using assms coherent_reads [OF assms(1)]
  by (auto simp: pending_authorizes_rollback_journal_def at_candidate_def installed_validate_Inr
      split: option.splits)

subsection \<open>Journal writes keep coherence\<close>

text \<open>
  What a writer has to know about the machine besides the store's own checks: the pointer has moved
  before an activation or a restoration is recorded, and a verdict is recorded before the commit.
\<close>

definition write_ready :: "Transaction \<Rightarrow> InstalledState \<Rightarrow> ReleaseId \<Rightarrow> bool" where
  "write_ready tx i a \<longleftrightarrow>
     (tx_phase tx = Activated \<longrightarrow> a = tx_candidate_release tx)
     \<and> (tx_phase tx = Restored \<longrightarrow> a = tx_previous_release tx)
     \<and> (tx_candidate_rejection_required tx \<longrightarrow> tx_phase tx = Converged \<longrightarrow> at_previous tx i)"

lemma phase_ok_position: "phase_ok tx i a \<Longrightarrow> at_previous tx i \<or> at_candidate tx i"
  by (cases "tx_phase tx") (auto simp: phase_ok_def Let_def)

lemma phase_ok_pointer: "phase_ok tx i a \<Longrightarrow> a \<in> {tx_previous_release tx, tx_candidate_release tx}"
  by (cases "tx_phase tx") (auto simp: phase_ok_def Let_def)

lemma start_phase_ok:
  assumes c: "coherent_with E s i a" and start: "journal_start_is_authorized E tx s = Inr True"
    and at: "ins_rollback_guard i \<noteq> None \<Longrightarrow> a = ins_release i"
  shows "phase_ok tx i a"
proof (cases "pending_authorizes_rollback_journal E tx s = Inr True")
  case True
  note p = pending_authorizes_candidate [OF c True]
  have "ins_rollback_guard i \<noteq> None" using at_candidate_sel(4) [OF p(2)] by auto
  with p at show ?thesis using at_candidate_sel(3) [OF p(2)] by (simp add: phase_ok_def Let_def)
next
  case False
  then have "tx_phase tx = Prepared \<and> at_previous tx i \<and> a = ins_release i"
    using start coherent_reads [OF c] matches_previous_proven [of tx i]
    by (cases "pending_authorizes_rollback_journal E tx s")
      (auto simp: journal_start_is_authorized_def split: if_splits)
  then show ?thesis
    using at_previous_sel(4) by (auto simp: phase_ok_def)
qed

lemma discard_pointer:
  assumes c: "coherent_with E s i a" and j: "st_journal s = Record tx"
    and may: "journal_may_discard E tx s = Inr True" and guarded: "ins_rollback_guard i \<noteq> None"
  shows "a = ins_release i"
proof -
  have ok: "phase_ok tx i a" using c j by (simp add: coherent_with_def)
  note r = coherent_reads [OF c]
  show ?thesis
    using may_discardD [OF may] ok guarded r at_previous_sel(3,4) [of tx i] at_candidate_sel(3) [of tx i]
    by (auto simp: phase_ok_def Let_def forward_durable_iff matches_previous_def)
qed

lemma mutable_step_phase_ok:
  assumes step: "mutable_step tx tx'" and ok: "phase_ok tx i a" and ready: "write_ready tx' i a"
    and committed: "tx_phase tx' = Committed \<Longrightarrow> a = tx_candidate_release tx' \<and> at_candidate tx' i"
  shows "phase_ok tx' i a"
proof -
  note ident = mutable_step_identity [OF step]
  note pos = positions_identity [OF ident] and sel = tx_identity_sel [OF ident]
  have fits: "phase_ok tx' i a"
    if "phase_edge (tx_phase tx) (tx_phase tx') \<or> (tx_phase tx = Committed \<and> tx_phase tx' = RollbackPlanned)"
      and "tx_candidate_rejection_required tx' = tx_candidate_rejection_required tx"
    using that ok ready committed sel
    by (cases "tx_phase tx"; cases "tx_phase tx'")
      (auto simp: phase_edge_def edge_defs phase_ok_def Let_def pos write_ready_def)
  from step show ?thesis
  proof (cases rule: mutable_step_cases)
    case replay
    then show ?thesis using ok by simp
  next
    case reject
    then show ?thesis using ok ready sel by (auto simp: phase_ok_def Let_def pos write_ready_def)
  next
    case health
    then show ?thesis using ok sel
      by (auto simp: phase_ok_def Let_def pos health_gate_phase_def)
  qed (use fits in auto)
qed

lemma write_journal_coherent:
  assumes c: "coherent_with E s i a" and chk: "write_journal_check E tx' s = Inr ()"
    and ready: "write_ready tx' i a"
  shows "coherent_with E (s\<lparr> st_journal := Record tx' \<rparr>) i a"
proof -
  note r = coherent_reads [OF c]
  have committed: "a = tx_candidate_release tx' \<and> at_candidate tx' i" if "tx_phase tx' = Committed"
    using write_journal_committed [OF chk that] r forward_durable_iff [OF r(7)]
    by (auto simp: forward_commit_is_authorized_def)
  have "phase_ok tx' i a"
    using c
  proof (cases rule: coherent_journal)
    case 1
    then have "journal_start_is_authorized E tx' s = Inr True"
      using chk by (simp add: write_journal_check_def bind_unit_Inr_iff bind_bool_check_Inr)
    then show ?thesis using 1 by (intro start_phase_ok [OF c])
  next
    case (2 tx)
    from write_journal_replace [OF chk 2(2)] show ?thesis
    proof (elim disjE conjE)
      assume may: "journal_may_discard E tx s = Inr True"
        and start: "journal_start_is_authorized E tx' s = Inr True"
      from discard_pointer [OF c 2(1) may] show ?thesis
        by (intro start_phase_ok [OF c start])
    next
      assume "permits_replacement tx tx'"
      then show ?thesis
        using mutable_step_phase_ok [OF _ 2(3) ready committed] by (simp add: permits_replacement_iff)
    qed
  qed
  then show ?thesis
    using c files_ok_writes(3) [OF r(5) chk] by (simp add: coherent_with_def)
qed

subsection \<open>The other writes\<close>

lemma clear_journal_coherent:
  assumes c: "coherent_with E s i a" and chk: "clear_check E s = Inr ()"
    and swapped: "\<And>tx. st_journal s = Record tx \<Longrightarrow> tx_phase tx = Prepared \<Longrightarrow> a = tx_previous_release tx"
  shows "coherent_with E (s\<lparr> st_journal := Absent \<rparr>) i a"
proof -
  have "a = ins_release i"
    using c
  proof (cases rule: coherent_journal)
    case (2 tx)
    then have may: "journal_may_discard E tx s = Inr True"
      using chk by (simp add: clear_check_def bind_bool_check_Inr)
    show ?thesis
      using may_discardD [OF may] 2 swapped [OF 2(1)] coherent_reads [OF c]
        at_previous_sel(4) [of tx i] at_candidate_sel(3) [of tx i]
      by (auto simp: phase_ok_def Let_def forward_durable_iff matches_previous_def)
  qed simp
  then show ?thesis
    using c files_ok_writes(4) [OF coherent_reads(5) [OF c]] by (simp add: coherent_with_def)
qed

lemma activate_coherent:
  assumes c: "coherent_with E s i a" and chk: "store_verify_release E r s = Inr ()"
    and fits: "case st_journal s of Record tx \<Rightarrow> phase_ok tx i r | _ \<Rightarrow> r = ins_release i"
  shows "coherent_with E (s\<lparr> st_active := Record r \<rparr>) i r"
  using c fits files_ok_writes(2) [OF coherent_reads(5) [OF c] chk]
  by (cases "st_journal s") (simp_all add: coherent_with_def)

lemma commit_coherent:
  assumes c: "coherent_with E s i a" and chk: "commit_check E i' s = Inr ()"
    and fits: "\<And>tx. st_journal s = Record tx \<Longrightarrow> phase_ok tx i' a"
  shows "coherent_with E (s\<lparr> st_installed := Record i' \<rparr>) i' a"
  using c fits files_ok_writes(1) [OF coherent_reads(5) [OF c] chk] commit_checkD(2) [OF chk]
    coherent_reads(2) [OF c]
  by (cases "st_journal s") (simp_all add: coherent_with_def)

lemma coherent_ledger [simp]: "coherent_with E (s\<lparr> st_ledger := l \<rparr>) i a = coherent_with E s i a"
  by (simp add: coherent_with_def files_ok_def)

lemma coherentI: "coherent_with E s i a \<Longrightarrow> coherent E s"
  by (auto simp: coherent_def)

subsection \<open>Steps of the world\<close>

lemma run_ok_store_a:
  "run_ok (store_a m) w Q D C \<longleftrightarrow>
     run_ok m (wd_store w) (\<lambda>x s. Q x (w\<lparr> wd_store := s \<rparr>)) (\<lambda>k s. D k (w\<lparr> wd_store := s \<rparr>))
       (\<lambda>s. C (w\<lparr> wd_store := s \<rparr>))"
  by (simp add: run_ok_def store_a_def split: prod.splits outcome.splits)

abbreviation coh :: "ext \<Rightarrow> world \<Rightarrow> bool" where
  "coh E w \<equiv> coherent E (wd_store w)"

text \<open>The world with journal \<open>tx\<close> on disk.\<close>

definition journaled :: "ext \<Rightarrow> Transaction \<Rightarrow> InstalledState \<Rightarrow> ReleaseId \<Rightarrow> world \<Rightarrow> bool" where
  "journaled E tx i a w \<longleftrightarrow> coherent_with E (wd_store w) i a \<and> st_journal (wd_store w) = Record tx"

lemma journaled_coh: "journaled E tx i a w \<Longrightarrow> coh E w"
  by (auto simp: journaled_def intro: coherentI)

lemma run_ok_write_journal:
  assumes "coherent_with E (wd_store w) i a" and "write_ready tx i a"
  shows "run_ok (persist_transaction E tx) w (\<lambda>_ w'. journaled E tx i a w' \<and> wd_tx w' = wd_tx w)
    (\<lambda>_ w'. coherent_with E (wd_store w') i a \<and> wd_tx w' = wd_tx w
        \<and> st_journal (wd_store w') \<in> {st_journal (wd_store w), Record tx}) (coh E)"
  unfolding persist_transaction_def run_ok_store_a
  using write_journal_coherent [of E "pop_fault (wd_store w)" i a tx] assms
  by (intro journal_w.run_okI) (auto simp: journaled_def intro: coherentI)

lemma run_ok_advance:
  assumes "coherent_with E (wd_store w) i a" and "write_ready (tx\<lparr> tx_phase := p \<rparr>) i a"
  shows "run_ok (advance_transaction E tx p) w
    (\<lambda>tx' w'. tx' = tx\<lparr> tx_phase := p \<rparr> \<and> journaled E tx' i a w' \<and> wd_tx w' = Some tx')
    (\<lambda>_ w'. coherent_with E (wd_store w') i a \<and> wd_tx w' \<in> {Some tx, Some (tx\<lparr> tx_phase := p \<rparr>)}
        \<and> st_journal (wd_store w') \<in> {st_journal (wd_store w), Record (tx\<lparr> tx_phase := p \<rparr>)}) (coh E)"
proof (cases "is_ok (fst (advance tx p))")
  case True
  then have "advance tx p = (Inr (), tx\<lparr> tx_phase := p \<rparr>)"
    using advance_ok_snd by (cases "fst (advance tx p)") (auto simp: prod_eq_iff)
  then have "advance_transaction E tx p w = bind_a (persist_transaction E (tx\<lparr> tx_phase := p \<rparr>))
      (\<lambda>_. return_a (tx\<lparr> tx_phase := p \<rparr>)) (w\<lparr> wd_tx := Some (tx\<lparr> tx_phase := p \<rparr>) \<rparr>)"
    by (simp add: advance_transaction_def)
  then have "run_ok (advance_transaction E tx p) w Q D C \<longleftrightarrow>
      run_ok (bind_a (persist_transaction E (tx\<lparr> tx_phase := p \<rparr>)) (\<lambda>_. return_a (tx\<lparr> tx_phase := p \<rparr>)))
        (w\<lparr> wd_tx := Some (tx\<lparr> tx_phase := p \<rparr>) \<rparr>) Q D C" for Q D C
    by (simp add: run_ok_def)
  then show ?thesis
    unfolding run_ok_bind run_ok_return
    using run_ok_write_journal [of E "w\<lparr> wd_tx := Some (tx\<lparr> tx_phase := p \<rparr>) \<rparr>" i a "tx\<lparr> tx_phase := p \<rparr>"] assms
    by (auto elim!: run_ok_conseq)
next
  case False
  then obtain k where "advance tx p = (Inl k, tx)"
    using advance_err_unchanged [of tx p] by (cases "fst (advance tx p)") (auto simp: prod_eq_iff)
  then show ?thesis
    using assms by (simp add: run_ok_def advance_transaction_def)
qed

lemma run_ok_mutate:
  "(\<And>r w'. wd_store w' = wd_store w \<Longrightarrow> wd_tx w' = wd_tx w \<Longrightarrow> Q r w')
   \<Longrightarrow> run_ok (mutate port op att c p) w Q D C"
  by (simp add: run_ok_def mutate_def)

lemma run_ok_gate:
  "(\<And>r w'. wd_store w' = wd_store w \<Longrightarrow> wd_tx w' = wd_tx w \<Longrightarrow> Q r w')
   \<Longrightarrow> run_ok (became_healthy V port att c p) w Q D C"
  by (simp add: run_ok_def became_healthy_def)

lemma record_rejection_coherent:
  assumes "coherent_with E s i a"
  shows "coherent_with E (snd (record_rejection l d s)) i a"
    and "st_journal (snd (record_rejection l d s)) = st_journal s"
  using assms by (simp_all add: record_rejection_def split: sum.splits prod.splits)

lemma run_ok_rejection:
  assumes "coherent_with E s i a"
  shows "run_ok (record_rejection l d) s
    (\<lambda>_ t. coherent_with E t i a \<and> st_journal t = st_journal s)
    (\<lambda>_ t. coherent_with E t i a \<and> st_journal t = st_journal s)
    (\<lambda>t. coherent_with E t i a \<and> st_journal t = st_journal s)"
  unfolding run_ok_state using record_rejection_coherent [OF assms] by simp

lemma run_ok_reject_deployment:
  assumes "coherent_with E s i a"
  shows "run_ok (reject_deployment E l d) s
    (\<lambda>_ t. coherent_with E t i a \<and> st_journal t = st_journal s)
    (\<lambda>_ t. coherent_with E t i a \<and> st_journal t = st_journal s)
    (\<lambda>t. coherent_with E t i a \<and> st_journal t = st_journal s)"
  using run_ok_rejection [OF assms] assms
  by (auto simp: reject_deployment_def run_ok_fail split: option.splits)

end
