(* ===== verification/Update_Safety.thy ===== *)
theory Update_Safety
  imports Coherence
begin

text \<open>
  The forward update keeps the agent's files coherent under every fault, crash and reconciler
  answer.
\<close>

subsection \<open>The update keeps coherence\<close>

lemma run_ok_recover_on_error:
  assumes "run_ok m w Q' D' (coh E)"
    and "\<And>x w'. Q' x w' \<Longrightarrow> run_ok (f x) w' (\<lambda>_. coh E) (\<lambda>_. coh E) (coh E)"
    and "\<And>k w'. D' k w' \<Longrightarrow> coh E w'"
  shows "run_ok (recover_on_error m f) w (\<lambda>_. coh E) (\<lambda>_. coh E) (coh E)"
  unfolding recover_on_error_def run_ok_handle run_ok_return
  by (rule run_ok_conseq [OF assms(1)]) (use assms(2,3) in auto)

lemma run_ok_activate:
  assumes "coherent_with E s i a"
    and "case st_journal s of Record tx \<Rightarrow> phase_ok tx i r | _ \<Rightarrow> r = ins_release i"
  shows "run_ok (activate E r) s (\<lambda>_ t. coherent_with E t i r \<and> st_journal t = st_journal s)
    (\<lambda>_ t. (coherent_with E t i a \<or> coherent_with E t i r) \<and> st_journal t = st_journal s) (coherent E)"
  using activate_coherent [of E "pop_fault s" i a r] assms
  by (intro active_w.run_okI) (auto intro: coherentI)

lemma run_ok_commit:
  assumes "coherent_with E s i a" and "\<And>tx. st_journal s = Record tx \<Longrightarrow> phase_ok tx i' a"
  shows "run_ok (commit_installed E i') s (\<lambda>_ t. coherent_with E t i' a \<and> st_journal t = st_journal s)
    (\<lambda>_ t. (coherent_with E t i a \<or> coherent_with E t i' a) \<and> st_journal t = st_journal s) (coherent E)"
  using commit_coherent [of E "pop_fault s" i a i'] assms
  by (intro commit_w.run_okI) (auto intro: coherentI)

lemma run_ok_clear:
  assumes "coherent_with E s i a"
    and "\<And>tx. st_journal s = Record tx \<Longrightarrow> tx_phase tx = Prepared \<Longrightarrow> a = tx_previous_release tx"
  shows "run_ok (clear_journal E) s (\<lambda>_ t. coherent_with E t i a \<and> st_journal t = Absent)
    (\<lambda>_ t. coherent_with E t i a \<and> st_journal t \<in> {st_journal s, Absent}) (coherent E)"
proof -
  have "clear_check E (pop_fault s) = clear_check E s"
    unfolding store_reads pop_fault_sel by (rule refl)
  then show ?thesis
    using clear_journal_coherent [of E "pop_fault s" i a] assms
    by (intro clear_w.run_okI) (auto intro: coherentI)
qed

lemma coh_update [simp]: "coh E (w\<lparr> wd_store := s \<rparr>) = coherent E s" "coh E (w\<lparr> wd_tx := t \<rparr>) = coh E w"
  by simp_all

lemma run_ok_mutate_journaled:
  "journaled E tx i a w \<Longrightarrow> (\<And>r w'. journaled E tx i a w' \<Longrightarrow> Q r w')
   \<Longrightarrow> run_ok (mutate port op att c p) w Q D C"
  by (rule run_ok_mutate) (simp add: journaled_def)

lemma run_ok_gate_journaled:
  "journaled E tx i a w \<Longrightarrow> (\<And>r w'. journaled E tx i a w' \<Longrightarrow> Q r w')
   \<Longrightarrow> run_ok (became_healthy V port att c p) w Q D C"
  by (rule run_ok_gate) (simp add: journaled_def)

lemma reject_then_recover_coh:
  assumes "journaled E tx i a w" and "tx_phase tx \<in> {Activated, Converged}" and "at_previous tx i"
  shows "run_ok (reject_then_recover E tx) w (\<lambda>_. coh E) (\<lambda>_. coh E) (coh E)"
proof -
  let ?tx = "tx\<lparr> tx_candidate_rejection_required := True \<rparr>"
  have c: "coherent_with E (wd_store w) i a" and j: "st_journal (wd_store w) = Record tx"
    using assms(1) by (simp_all add: journaled_def)
  have a: "a = tx_candidate_release tx" using c j assms(2) by (auto simp: coherent_with_def phase_ok_def)
  have "at_previous ?tx i = at_previous tx i" by (rule positions_identity) simp
  then have ready: "write_ready ?tx i a" using assms(2,3) a by (auto simp: write_ready_def)
  have rej: "run_ok (store_a (reject_deployment E l d)) w' (\<lambda>_. coh E) (\<lambda>_. coh E) (coh E)"
    if w': "coh E w'" for w' l d
  proof -
    obtain i a where "coherent_with E (wd_store w') i a" using w' unfolding coherent_def by blast
    from run_ok_reject_deployment [OF this] show ?thesis
      unfolding run_ok_store_a by (rule run_ok_conseq) (auto intro: coherentI)
  qed
  have "run_ok (require_candidate_rejection E tx) w (\<lambda>_. coh E) (\<lambda>_. coh E) (coh E)"
  proof (cases "tx_candidate_rejection_required tx")
    case True
    then show ?thesis
      using rej [of w] journaled_coh [OF assms(1)]
      by (simp add: require_candidate_rejection_def run_ok_simps)
  next
    case False
    have "run_ok (persist_transaction E ?tx) (w\<lparr> wd_tx := Some ?tx \<rparr>) (\<lambda>_. coh E) (\<lambda>_. coh E) (coh E)"
      using run_ok_write_journal [of E "w\<lparr> wd_tx := Some ?tx \<rparr>" i a ?tx] c ready
      by (auto elim!: run_ok_conseq intro: coherentI journaled_coh)
    then show ?thesis
      using False rej
      by (auto simp: require_candidate_rejection_def Let_def run_ok_simps persist_transaction_def
          elim!: run_ok_conseq)
  qed
  then show ?thesis
    by (simp add: reject_then_recover_def run_ok_handle run_ok_return)
qed

lemma committed_head_at_candidate: "at_candidate tx (committed_head now tx)"
  by (simp add: at_candidate_def committed_head_def matches_candidate_def matches_rollback_guard_def is_proven_def)

lemma commit_switch_coh:
  assumes "journaled E tx i a w" and "tx_phase tx \<in> {Converged, Verified}"
    and "\<not> tx_candidate_rejection_required tx"
  shows "run_ok (commit_switch E V h tx) w (\<lambda>_. coh E) (\<lambda>_. coh E) (coh E)"
proof -
  let ?i = "committed_head (env_now V) tx"
  have c: "coherent_with E (wd_store w) i a" and j: "st_journal (wd_store w) = Record tx"
    using assms(1) by (simp_all add: journaled_def)
  have a: "a = tx_candidate_release tx" using c j assms(2) by (auto simp: coherent_with_def phase_ok_def)
  have ok: "phase_ok tx ?i a"
    using committed_head_at_candidate assms(2,3) a by (auto simp: phase_ok_def)
  have tail: "run_ok (handle_a (store_a (clear_journal E)) (\<lambda>_. return_a (OutcomeCommitted h))
        (\<lambda>_. return_a (OutcomeCommitted h))) w' (\<lambda>_. coh E) (\<lambda>_. coh E) (coh E)"
    if "journaled E tx' i' a' w'" "tx_phase tx' = Committed" for tx' i' a' w'
    using run_ok_clear [of E "wd_store w'" i' a'] that
    by (auto simp: run_ok_simps run_ok_store_a journaled_def elim!: run_ok_conseq intro: coherentI)
  show ?thesis
    unfolding commit_switch_def
  proof (rule run_ok_recover_on_error)
    show "run_ok (store_a (commit_installed E ?i)) w (\<lambda>_. journaled E tx ?i a) (\<lambda>_. coh E) (coh E)"
      unfolding run_ok_store_a
      by (rule run_ok_conseq [OF run_ok_commit [OF c, of ?i]])
        (use ok j in \<open>auto simp: journaled_def intro: coherentI\<close>)
  next
    fix x w' assume w': "journaled E tx ?i a w'"
    have ready: "write_ready (tx\<lparr> tx_phase := Committed \<rparr>) ?i a" by (simp add: write_ready_def)
    show "run_ok (recover_on_error (advance_transaction E tx Committed) (\<lambda>_. handle_a (store_a (clear_journal E))
        (\<lambda>_. return_a (OutcomeCommitted h)) (\<lambda>_. return_a (OutcomeCommitted h)))) w' (\<lambda>_. coh E) (\<lambda>_. coh E) (coh E)"
      by (rule run_ok_recover_on_error [OF run_ok_advance [OF _ ready]])
        (use w' tail in \<open>auto simp: journaled_def intro: coherentI\<close>)
  qed simp
qed

lemma gate_candidate_coh:
  assumes "journaled E tx i a w" and "tx_phase tx = Converged" and "at_previous tx i"
    and "\<not> tx_candidate_rejection_required tx"
  shows "run_ok (gate_candidate E V port h tx) w (\<lambda>_. coh E) (\<lambda>_. coh E) (coh E)"
proof (cases "h = Reboot")
  case True
  then show ?thesis using commit_switch_coh [OF assms(1)] assms by (simp add: gate_candidate_def)
next
  case False
  have ready: "write_ready (tx\<lparr> tx_phase := Verified \<rparr>) i a" by (simp add: write_ready_def)
  have "run_ok (case health of
      Ready \<Rightarrow> recover_on_error (advance_transaction E tx Verified) (commit_switch E V h)
    | Unhealthy _ \<Rightarrow> reject_then_recover E tx
    | HealthInconclusive _ \<Rightarrow> return_a RollbackPending) w' (\<lambda>_. coh E) (\<lambda>_. coh E) (coh E)"
    if w': "journaled E tx i a w'" for health w'
  proof (cases health)
    case Ready
    have "run_ok (recover_on_error (advance_transaction E tx Verified) (commit_switch E V h)) w'
        (\<lambda>_. coh E) (\<lambda>_. coh E) (coh E)"
      by (rule run_ok_recover_on_error [OF run_ok_advance [OF _ ready]])
        (use w' assms(4) in \<open>auto simp: journaled_def intro: coherentI commit_switch_coh [unfolded journaled_def]\<close>)
    then show ?thesis by (simp add: Ready)
  qed (use reject_then_recover_coh [OF w'] assms journaled_coh [OF w'] in \<open>auto simp: run_ok_return\<close>)
  then show ?thesis
    unfolding gate_candidate_def if_not_P [OF False] run_ok_bind
    by (rule run_ok_gate_journaled [OF assms(1)])
qed

lemma switch_over_coh:
  assumes "journaled E tx i (tx_previous_release tx) w" and "tx_phase tx = Prepared"
    and "\<not> tx_candidate_rejection_required tx"
  shows "run_ok (switch_over E V port tx) w (\<lambda>_. coh E) (\<lambda>_. coh E) (coh E)"
proof -
  let ?a = "tx_candidate_release tx"
  let ?act = "tx\<lparr> tx_phase := Activated \<rparr>" and ?con = "tx\<lparr> tx_phase := Activated, tx_phase := Converged \<rparr>"
  have c: "coherent_with E (wd_store w) i (tx_previous_release tx)" and j: "st_journal (wd_store w) = Record tx"
    using assms(1) by (simp_all add: journaled_def)
  have prev: "at_previous tx i" using c j assms(2) by (simp add: coherent_with_def phase_ok_def Let_def)
  have prev': "at_previous ?act i" "at_previous ?con i"
    using prev positions_identity(1) [of ?act tx i] positions_identity(1) [of ?con tx i] by simp_all
  have ok: "phase_ok tx i ?a" using prev assms(2) by (simp add: phase_ok_def Let_def)
  have ready: "write_ready ?act i ?a" "write_ready ?con i ?a"
    using prev' by (simp_all add: write_ready_def)
  have con: "run_ok (recover_on_error (advance_transaction E ?act Converged) (gate_candidate E V port h)) w'
      (\<lambda>_. coh E) (\<lambda>_. coh E) (coh E)" if w': "journaled E ?act i ?a w'" for h w'
    by (rule run_ok_recover_on_error [OF run_ok_advance [OF _ ready(2)]])
      (use w' prev' assms(3) in \<open>auto simp: journaled_def intro: coherentI gate_candidate_coh [unfolded journaled_def]\<close>)
  have act: "run_ok (bind_a (mutate port Converge (tx_id ?act) (candidate_target ?act) (previous_target ?act))
      (\<lambda>result. case result of
         Succeeded h \<Rightarrow> recover_on_error (advance_transaction E ?act Converged) (gate_candidate E V port h)
       | ReleaseFault _ \<Rightarrow> reject_then_recover E ?act
       | Inconclusive _ \<Rightarrow> return_a RollbackPending)) w' (\<lambda>_. coh E) (\<lambda>_. coh E) (coh E)"
    if w': "journaled E ?act i ?a w'" for w'
    unfolding run_ok_bind
  proof (rule run_ok_mutate_journaled [OF w'])
    fix r w'' assume w'': "journaled E ?act i ?a w''"
    show "run_ok (case r of
         Succeeded h \<Rightarrow> recover_on_error (advance_transaction E ?act Converged) (gate_candidate E V port h)
       | ReleaseFault _ \<Rightarrow> reject_then_recover E ?act
       | Inconclusive _ \<Rightarrow> return_a RollbackPending) w'' (\<lambda>_. coh E) (\<lambda>_. coh E) (coh E)"
      using con [OF w''] reject_then_recover_coh [OF w''] prev'(1) journaled_coh [OF w'']
      by (cases r) (simp_all add: run_ok_return)
  qed
  show ?thesis
    unfolding switch_over_def
  proof (rule run_ok_recover_on_error)
    show "run_ok (store_a (activate E (tx_candidate_release tx))) w (\<lambda>_. journaled E tx i ?a) (\<lambda>_. coh E) (coh E)"
      unfolding run_ok_store_a
      by (rule run_ok_conseq [OF run_ok_activate [OF c, of ?a]])
        (use ok j in \<open>auto simp: journaled_def intro: coherentI\<close>)
  next
    fix x w' assume w': "journaled E tx i ?a w'"
    show "run_ok (recover_on_error (advance_transaction E tx Activated) (\<lambda>tx.
        bind_a (mutate port Converge (tx_id tx) (candidate_target tx) (previous_target tx)) (\<lambda>result.
        case result of
          Succeeded h \<Rightarrow> recover_on_error (advance_transaction E tx Converged) (\<lambda>tx. gate_candidate E V port h tx)
        | ReleaseFault _ \<Rightarrow> reject_then_recover E tx
        | Inconclusive _ \<Rightarrow> return_a RollbackPending))) w' (\<lambda>_. coh E) (\<lambda>_. coh E) (coh E)"
      by (rule run_ok_recover_on_error [OF run_ok_advance [OF _ ready(1)]])
        (use w' act in \<open>auto simp: journaled_def intro: coherentI\<close>)
  qed simp
qed

lemma run_ok_read_store:
  assumes "f (wd_store w) = Inr x" and "run_ok (g x) w Q D C"
  shows "run_ok (bind_a (store_a (read_a f)) g) w Q D C"
  using assms by (simp add: run_ok_bind run_ok_store_a run_ok_read)

lemma drives_rollback_iff:
  "phase_evidence_is_valid tx \<Longrightarrow> drives_rollback tx \<longleftrightarrow> tx_phase tx \<notin> {Committed, RolledBack}"
  by (cases "tx_phase tx")
    (simp_all add: drives_rollback_def is_rollback_def recovery_pending_def advance_cases phase_edge_def
      edge_defs phase_evidence_is_valid_def split: prod.splits sum.splits)

lemma new_transaction_sel [simp]:
  "tx_phase (new_transaction t i r a x l c) = Prepared"
  "\<not> tx_candidate_rejection_required (new_transaction t i r a x l c)"
  "tx_previous_release (new_transaction t i r a x l c) = ins_release i"
  by (simp_all add: new_transaction_def)

lemma begin_update_coh:
  assumes c: "coherent_with E (wd_store w) i a" and j: "st_journal (wd_store w) = Absent"
  shows "run_ok (begin_update E V port cand archive lineage reconciler i) w (\<lambda>_. coh E) (\<lambda>_. coh E) (coh E)"
proof -
  have "run_ok (bind_a (persist_transaction E tx) (\<lambda>_. switch_over E V port tx)) w
      (\<lambda>_. coh E) (\<lambda>_. coh E) (coh E)"
    if tx: "tx_phase tx = Prepared" "\<not> tx_candidate_rejection_required tx" "tx_previous_release tx = ins_release i"
    for tx
  proof -
    have a: "a = tx_previous_release tx" using c j tx(3) by (simp add: coherent_with_def)
    have ready: "write_ready tx i a" using tx by (simp add: write_ready_def)
    show ?thesis
      unfolding run_ok_bind
      by (rule run_ok_conseq [OF run_ok_write_journal [OF c ready]])
        (use a tx in \<open>auto intro: coherentI switch_over_coh\<close>)
  qed
  then show ?thesis
    using coherentI [OF c]
    by (auto simp: begin_update_def Let_def run_ok_simps split: sum.splits option.splits)
qed

lemma execute_update_coh:
  assumes "coh E w"
  shows "run_ok (execute_update E V port cand archive lineage reconciler) w (\<lambda>_. coh E) (\<lambda>_. coh E) (coh E)"
proof -
  obtain i a where c: "coherent_with E (wd_store w) i a" using assms unfolding coherent_def by blast
  have tail: "run_ok (bind_a (store_a (read_a (store_installed E)))
      (\<lambda>i. case i of Present installed \<Rightarrow> begin_update E V port cand archive lineage reconciler installed
         | _ \<Rightarrow> fail_a OtherError)) w' (\<lambda>_. coh E) (\<lambda>_. coh E) (coh E)"
    if w': "coherent_with E (wd_store w') i a" "st_journal (wd_store w') = Absent" for w'
    by (rule run_ok_read_store [where f = "store_installed E", OF coherent_reads(1) [OF w'(1)]]) (use begin_update_coh [OF w'] in simp)
  have clear: "run_ok (case j of None \<Rightarrow> return_a () | Some journal \<Rightarrow>
         if \<not> drives_rollback journal then store_a (clear_journal E) else fail_a OtherError) w
      (\<lambda>_ w'. coherent_with E (wd_store w') i a \<and> st_journal (wd_store w') = Absent) (\<lambda>_. coh E) (coh E)"
    if j: "store_journal E (wd_store w) = Inr j" for j
    using c
  proof (cases rule: coherent_journal)
    case 1
    then show ?thesis using c j by (simp add: run_ok_return)
  next
    case (2 tx)
    have "\<not> drives_rollback tx \<Longrightarrow> tx_phase tx \<noteq> Prepared"
      using 2(4) drives_rollback_iff [of tx] by (auto simp: transaction_validate_Inr)
    then show ?thesis
      using j 2 run_ok_conseq [OF run_ok_clear [OF c], where D' = "\<lambda>_. coherent E" and C' = "coherent E"]
        coherentI [OF c] coherentI [of E _ i a]
      by (auto simp: run_ok_fail run_ok_store_a)
  qed
  obtain j where j: "store_journal E (wd_store w) = Inr j"
    using c by (rule coherent_journal)
  show ?thesis
    unfolding execute_update_def
    by (rule run_ok_read_store [where f = "store_journal E", OF j], subst run_ok_bind, rule run_ok_conseq [OF clear [OF j]])
      (use tail in auto)
qed

end
