(* ===== verification/Boot_Safety.thy ===== *)
theory Boot_Safety
  imports Update_Safety
begin

text \<open>
  Boot recovery keeps the agent's files coherent under every fault, crash and reconciler answer,
  the retried steps included.
\<close>

lemma run_ok_retry:
  assumes step: "\<And>w. I w \<Longrightarrow> run_ok step w Q (\<lambda>_. I) C" and "I w"
  shows "run_ok (recover_through_transients n step) w Q (\<lambda>_. I) C"
  using assms(2)
proof (induction n arbitrary: w)
  case (Suc n)
  have "run_ok step w Q (\<lambda>k w'. run_ok (if is_node_local_transient k
      then recover_through_transients n step else fail_a k) w' Q (\<lambda>_. I) C) C"
    by (rule run_ok_conseq [OF step [OF Suc.prems]]) (auto simp: run_ok_fail Suc.IH)
  then show ?case by (simp add: run_ok_handle run_ok_return)
qed (simp add: step)

text \<open>A step that keeps the world coherent whatever happens to it.\<close>

abbreviation keeps :: "ext \<Rightarrow> (world, 'a) action \<Rightarrow> world \<Rightarrow> bool" where
  "keeps E m w \<equiv> run_ok m w (\<lambda>_. coh E) (\<lambda>_. coh E) (coh E)"

lemma bind_return_a: "bind_a (return_a x) f = f x"
  by (simp add: bind_a_def return_a_def)

lemma run_ok_bindI:
  assumes "run_ok m w Q' D' C'" and "\<And>x w'. Q' x w' \<Longrightarrow> run_ok (f x) w' Q D C"
    and "\<And>k w'. D' k w' \<Longrightarrow> D k w'" and "\<And>w'. C' w' \<Longrightarrow> C w'"
  shows "run_ok (bind_a m f) w Q D C"
  unfolding run_ok_bind by (rule run_ok_conseq [OF assms(1)]) (use assms in auto)

lemma keeps_bind:
  assumes "run_ok m w Q D (coh E)" and "\<And>x w'. Q x w' \<Longrightarrow> keeps E (f x) w'" and "\<And>k w'. D k w' \<Longrightarrow> coh E w'"
  shows "keeps E (bind_a m f) w"
  unfolding run_ok_bind by (rule run_ok_conseq [OF assms(1)]) (use assms(2,3) in auto)

subsection \<open>Driving a rollback\<close>

lemma pending_iff:
  "recovery_pending m CandidateCompensated \<longleftrightarrow> tx_phase m = RollbackPlanned"
  "recovery_pending m Restored \<longleftrightarrow> tx_phase m \<in> {RollbackPlanned, CandidateCompensated}"
  "recovery_pending m RollbackVerified \<longleftrightarrow> tx_phase m \<in> {RollbackPlanned, CandidateCompensated, Restored}"
  "recovery_pending m RolledBack \<longleftrightarrow>
     tx_phase m \<in> {RollbackPlanned, CandidateCompensated, Restored, RollbackVerified}"
  by (cases "tx_phase m"; simp add: recovery_pending_def)+

definition rolling :: "ext \<Rightarrow> Transaction \<Rightarrow> InstalledState \<Rightarrow> ReleaseId \<Rightarrow> world \<Rightarrow> bool" where
  "rolling E m i a w \<longleftrightarrow> coherent_with E (wd_store w) i a \<and> wd_tx w = Some m \<and> is_rollback m
     \<and> (\<exists>d. st_journal (wd_store w) = Record d \<and> is_rollback d \<and> tx_identity d = tx_identity m)"

text \<open>With the pointer restored once the rollback has come that far, in memory, on the way to \<open>t\<close>.\<close>

definition resuming :: "ext \<Rightarrow> Transaction \<Rightarrow> InstalledState \<Rightarrow> world \<Rightarrow> bool" where
  "resuming E t i w \<longleftrightarrow> (\<exists>m a. rolling E m i a w \<and> tx_identity m = tx_identity t
     \<and> (\<not> recovery_pending m Restored \<longrightarrow> a = tx_previous_release t))"

definition restored :: "ext \<Rightarrow> Transaction \<Rightarrow> InstalledState \<Rightarrow> world \<Rightarrow> bool" where
  "restored E t i w \<longleftrightarrow> (\<exists>m. rolling E m i (tx_previous_release t) w \<and> tx_identity m = tx_identity t
     \<and> \<not> recovery_pending m CandidateCompensated)"

lemma rolling_coh: "rolling E m i a w \<Longrightarrow> coh E w"
  by (auto simp: rolling_def intro: coherentI)

lemma resuming_coh: "resuming E t i w \<Longrightarrow> coh E w"
  unfolding resuming_def using rolling_coh by blast

lemma restored_coh: "restored E t i w \<Longrightarrow> coh E w"
  unfolding restored_def using rolling_coh by blast

lemma rolling_write:
  assumes r: "rolling E m i a w" and m': "tx_identity m' = tx_identity m" "is_rollback m'"
    and restored: "tx_phase m' = Restored \<Longrightarrow> a = tx_previous_release m'"
  shows "run_ok (persist_transaction E m') (w\<lparr> wd_tx := Some m' \<rparr>)
    (\<lambda>_. rolling E m' i a) (\<lambda>_. rolling E m' i a) (coh E)"
proof -
  have ready: "write_ready m' i a"
    using m'(2) restored by (auto simp: write_ready_def is_rollback_def)
  have c: "coherent_with E (wd_store (w\<lparr> wd_tx := Some m' \<rparr>)) i a"
    using r by (simp add: rolling_def)
  show ?thesis
    by (rule run_ok_conseq [OF run_ok_write_journal [OF c ready]])
      (use r m' in \<open>auto simp: rolling_def journaled_def\<close>)
qed

lemma rolling_advance:
  assumes r: "rolling E m i a w" and p: "is_rollback (m\<lparr> tx_phase := p \<rparr>)"
    and restored: "p = Restored \<Longrightarrow> a = tx_previous_release m"
  shows "run_ok (advance_transaction E m p) w
    (\<lambda>m' w'. m' = m\<lparr> tx_phase := p \<rparr> \<and> rolling E m' i a w')
    (\<lambda>_ w'. rolling E m i a w' \<or> rolling E (m\<lparr> tx_phase := p \<rparr>) i a w') (coh E)"
proof -
  have ready: "write_ready (m\<lparr> tx_phase := p \<rparr>) i a"
    using p restored by (auto simp: write_ready_def is_rollback_def)
  have c: "coherent_with E (wd_store w) i a"
    using r by (simp add: rolling_def)
  show ?thesis
    by (rule run_ok_conseq [OF run_ok_advance [OF c ready]])
      (use r p in \<open>auto simp: rolling_def journaled_def\<close>)
qed

lemma rolling_mutation:
  assumes "rolling E m i a w"
  shows "run_ok (run_reconciler_mutation port op att c p) w (\<lambda>_. rolling E m i a) (\<lambda>_. rolling E m i a) C"
  unfolding run_reconciler_mutation_def run_ok_bind
  by (rule run_ok_mutate) (use assms in \<open>auto simp: rolling_def run_ok_simps split: invocation.splits\<close>)

lemma run_ok_with_tx: "run_ok (with_tx f) w Q D C \<longleftrightarrow> run_ok (f (wd_tx w)) w Q D C"
  by (simp add: run_ok_def with_tx_def)

lemma compensation_step:
  assumes "resuming E t i w"
  shows "run_ok (complete_candidate_compensation E) w
    (\<lambda>_ w'. resuming E t i w' \<and> (\<forall>m. wd_tx w' = Some m \<longrightarrow> \<not> recovery_pending m CandidateCompensated))
    (\<lambda>_. resuming E t i) (coh E)"
proof -
  obtain m a where r: "rolling E m i a w" and id: "tx_identity m = tx_identity t"
    and ptr: "\<not> recovery_pending m Restored \<longrightarrow> a = tx_previous_release t"
    using assms by (auto simp: resuming_def)
  have m: "wd_tx w = Some m" using r by (simp add: rolling_def)
  show ?thesis
  proof (cases "recovery_pending m CandidateCompensated")
    case False
    then show ?thesis
      using assms m by (simp add: complete_candidate_compensation_def run_ok_with_tx run_ok_return)
  next
    case True
    let ?m = "m\<lparr> tx_phase := CandidateCompensated \<rparr>"
    have roll: "is_rollback ?m" by (simp add: is_rollback_def)
    have pend: "recovery_pending m Restored" "recovery_pending ?m Restored"
        "\<not> recovery_pending ?m CandidateCompensated"
      using True by (auto simp: pending_iff)
    have keep: "resuming E t i w'" if "rolling E m i a w' \<or> rolling E ?m i a w'" for w'
    proof -
      from that obtain m' where "rolling E m' i a w'" "m' = m \<or> m' = ?m" by blast
      then show ?thesis using id pend by (auto simp: resuming_def intro!: exI [of _ m'])
    qed
    have adv: "run_ok (advance_transaction E m CandidateCompensated) w'
        (\<lambda>_ w''. resuming E t i w'' \<and> (\<forall>m. wd_tx w'' = Some m \<longrightarrow> \<not> recovery_pending m CandidateCompensated))
        (\<lambda>_. resuming E t i) (coh E)" if "rolling E m i a w'" for w'
      by (rule run_ok_conseq [OF rolling_advance [OF that roll]])
        (use keep pend in \<open>auto simp: rolling_def\<close>)
    show ?thesis
      unfolding complete_candidate_compensation_def run_ok_with_tx m
      using True run_ok_conseq [OF rolling_mutation [OF r]] adv keep
      by (auto simp: run_ok_bind run_ok_return)
  qed
qed

lemma activation_step:
  assumes "restored E t i w"
  shows "run_ok (complete_recovery_activation E) w (\<lambda>_. restored E t i) (\<lambda>_. restored E t i) (coh E)"
proof -
  let ?a = "tx_previous_release t"
  obtain m where r: "rolling E m i ?a w" and id: "tx_identity m = tx_identity t"
    and cc: "\<not> recovery_pending m CandidateCompensated"
    using assms by (auto simp: restored_def)
  have m: "wd_tx w = Some m" using r by (simp add: rolling_def)
  let ?m = "m\<lparr> tx_phase := Restored \<rparr>"
  have roll: "is_rollback ?m" by (simp add: is_rollback_def)
  have prev: "?a = tx_previous_release m" using tx_identity_sel [OF id] by simp
  have keep: "restored E t i w'" if "rolling E m i ?a w' \<or> rolling E ?m i ?a w'" for w'
  proof -
    from that obtain m' where "rolling E m' i ?a w'" "m' = m \<or> m' = ?m" by blast
    then show ?thesis using id cc by (auto simp: restored_def pending_iff intro!: exI [of _ m'])
  qed
  have adv: "run_ok (advance_transaction E m Restored) w' (\<lambda>_. restored E t i) (\<lambda>_. restored E t i) (coh E)"
    if "rolling E m i ?a w'" for w'
    by (rule run_ok_conseq [OF rolling_advance [OF that roll prev]]) (use keep in auto)
  show ?thesis
    unfolding complete_recovery_activation_def run_ok_with_tx m
    using run_ok_conseq [OF rolling_mutation [OF r]] adv keep assms
    by (auto simp: run_ok_bind run_ok_return)
qed

lemma rollback_phase_ok_previous:
  "is_rollback d \<Longrightarrow> phase_ok d i a \<Longrightarrow> phase_ok d i (tx_previous_release d)"
  by (cases "tx_phase d") (auto simp: is_rollback_def phase_ok_def Let_def)

lemma rollback_phase_ok_predecessor:
  "is_rollback d \<Longrightarrow> phase_ok d i a \<Longrightarrow> phase_ok d (predecessor_state d) a"
  by (cases "tx_phase d") (auto simp: is_rollback_def phase_ok_def Let_def at_previous_def)

lemma reject_all_coherent:
  assumes "coherent_with E s i a" and "st_journal s = j"
  shows "run_ok (reject_all ps) s (\<lambda>_ t. coherent_with E t i a \<and> st_journal t = j)
    (\<lambda>_ t. coherent_with E t i a \<and> st_journal t = j) (coherent E)"
  using assms
proof (induction ps arbitrary: s)
  case (Cons p ps)
  show ?case
    unfolding reject_all.simps(2) [of "fst p" "snd p" ps, unfolded prod.collapse] run_ok_bind reject_artifact_def
    by (rule run_ok_conseq [OF run_ok_rejection [OF Cons.prems(1)]])
      (use Cons in \<open>auto intro: coherentI\<close>)
qed (simp add: run_ok_return)

text \<open>The plans a rollback is driven with.\<close>

definition rollback_plan :: "Transaction \<Rightarrow> bool \<Rightarrow> Plan \<Rightarrow> bool" where
  "rollback_plan t defer_commit plan \<longleftrightarrow> pl_release plan = ActivateRelease (tx_previous_release t)
     \<and> pl_commit plan = (if defer_commit then Some (predecessor_state t) else None)"

lemma rolling_journal:
  assumes "rolling E m i a w"
  obtains d where "st_journal (wd_store w) = Record d" "is_rollback d" "tx_identity d = tx_identity m"
    "phase_ok d i a" "coherent_with E (wd_store w) i a"
  using assms by (auto simp: rolling_def coherent_with_def)

lemma plan_step:
  assumes "resuming E t i w" and cc: "\<And>m. wd_tx w = Some m \<Longrightarrow> \<not> recovery_pending m CandidateCompensated"
    and plan: "rollback_plan t defer_commit plan"
  shows "run_ok (execute_boot_plan E plan defer_commit) w (\<lambda>_. restored E t i)
    (\<lambda>_ w'. resuming E t i w' \<and> (\<forall>m. wd_tx w' = Some m \<longrightarrow> \<not> recovery_pending m CandidateCompensated)) (coh E)"
proof -
  obtain m a where r: "rolling E m i a w" and id: "tx_identity m = tx_identity t"
    and ptr: "\<not> recovery_pending m Restored \<longrightarrow> a = tx_previous_release t"
    using assms(1) by (auto simp: resuming_def)
  obtain d where d: "st_journal (wd_store w) = Record d" "is_rollback d" "tx_identity d = tx_identity m"
      "phase_ok d i a" and c: "coherent_with E (wd_store w) i a"
    using r by (rule rolling_journal)
  have m: "wd_tx w = Some m" "is_rollback m" using r by (auto simp: rolling_def)
  let ?prev = "tx_previous_release t"
  have prev: "tx_previous_release d = ?prev" using tx_identity_sel d(3) id by metis
  have resume: "resuming E t i (w\<lparr> wd_store := s \<rparr>)"
    if "coherent_with E s i b" "st_journal s = Record d" "\<not> recovery_pending m Restored \<longrightarrow> b = ?prev" for s b
    using that m id d by (auto simp: resuming_def rolling_def)
  have fin: "restored E t i (w\<lparr> wd_store := s \<rparr>)"
    if "coherent_with E s i ?prev" "st_journal s = Record d" for s
    using that m id d cc [OF m(1)] by (auto simp: restored_def rolling_def)
  have act: "run_ok (if recovery_pending m Restored then activate E ?prev else return_a ()) (wd_store w)
      (\<lambda>_ s. coherent_with E s i ?prev \<and> st_journal s = Record d)
      (\<lambda>_ s. resuming E t i (w\<lparr> wd_store := s \<rparr>)) (coherent E)"
  proof (cases "recovery_pending m Restored")
    case True
    have "phase_ok d i ?prev" using rollback_phase_ok_previous [OF d(2,4)] prev by simp
    then have "run_ok (activate E ?prev) (wd_store w)
        (\<lambda>_ s. coherent_with E s i ?prev \<and> st_journal s = Record d)
        (\<lambda>_ s. resuming E t i (w\<lparr> wd_store := s \<rparr>)) (coherent E)"
      by (intro run_ok_conseq [OF run_ok_activate [OF c, of ?prev]]) (use d(1) resume True in auto)
    then show ?thesis using True by simp
  qed (use c d ptr in \<open>auto simp: run_ok_return\<close>)
  have rest: "run_ok (reject_all (pl_reject_candidate plan)) s (\<lambda>_ s. restored E t i (w\<lparr> wd_store := s \<rparr>))
      (\<lambda>_ s. resuming E t i (w\<lparr> wd_store := s \<rparr>)) (coherent E)"
    if "coherent_with E s i ?prev" "st_journal s = Record d" for s
    by (rule run_ok_conseq [OF reject_all_coherent [OF that]]) (use fin resume in auto)
  have "run_ok (execute_store_plan E plan defer_commit (recovery_pending m Restored)) (wd_store w)
      (\<lambda>_ s. restored E t i (w\<lparr> wd_store := s \<rparr>)) (\<lambda>_ s. resuming E t i (w\<lparr> wd_store := s \<rparr>)) (coherent E)"
  proof -
    have "execute_store_plan E plan defer_commit (recovery_pending m Restored) =
        bind_a (if recovery_pending m Restored then activate E ?prev else return_a ())
          (\<lambda>_. reject_all (pl_reject_candidate plan))"
      using plan by (auto simp: execute_store_plan_def rollback_plan_def bind_return_a)
    then show ?thesis
      by (simp only:) (rule run_ok_bindI [OF act], use rest in auto)
  qed
  moreover have "restored E t i w' \<Longrightarrow> resuming E t i w' \<and> (\<forall>m. wd_tx w' = Some m \<longrightarrow> \<not> recovery_pending m CandidateCompensated)" for w'
    by (auto simp: restored_def resuming_def rolling_def)
  ultimately show ?thesis
    using cc [OF m(1)] m(1)
    by (auto simp: execute_boot_plan_def run_ok_with_tx run_ok_bind run_ok_store_a run_ok_read
        elim!: run_ok_conseq split: sum.splits)
qed

subsection \<open>The gate and the end of a rollback\<close>

lemma restored_advance:
  assumes "restored E t i w" and p: "p \<in> {RollbackVerified, RolledBack}"
  shows "run_ok (advance_if_pending E p) w (\<lambda>_. restored E t i) (\<lambda>_. restored E t i) (coh E)"
proof -
  obtain m where r: "rolling E m i (tx_previous_release t) w" and id: "tx_identity m = tx_identity t"
    and cc: "\<not> recovery_pending m CandidateCompensated"
    using assms by (auto simp: restored_def)
  let ?m = "m\<lparr> tx_phase := p \<rparr>"
  have roll: "is_rollback ?m" and notr: "p \<noteq> Restored" using p by (auto simp: is_rollback_def)
  have keep: "restored E t i w'"
    if "rolling E m i (tx_previous_release t) w' \<or> rolling E ?m i (tx_previous_release t) w'" for w'
  proof -
    from that obtain m' where "rolling E m' i (tx_previous_release t) w'" "m' = m \<or> m' = ?m" by blast
    then show ?thesis using id cc p by (auto simp: restored_def pending_iff intro!: exI [of _ m'])
  qed
  have "run_ok (advance_transaction E m p) w (\<lambda>_. restored E t i) (\<lambda>_. restored E t i) (coh E)"
    by (rule run_ok_conseq [OF rolling_advance [OF r roll]]) (use keep notr in auto)
  moreover have "wd_tx w = Some m" using r by (simp add: rolling_def)
  ultimately show ?thesis
    using assms(1) by (simp add: advance_if_pending_def run_ok_with_tx run_ok_bind run_ok_return)
qed

lemma restored_settle:
  assumes r: "rolling E m i (tx_previous_release t) w" and m': "tx_identity m' = tx_identity m" "is_rollback m'"
    and id: "tx_identity m = tx_identity t" and cc: "\<not> recovery_pending m' CandidateCompensated"
  shows "run_ok (settle_or_retry E n m') (w\<lparr> wd_tx := Some m' \<rparr>) (\<lambda>_. restored E t i) (\<lambda>_. coh E) (coh E)"
proof -
  have prev: "tx_previous_release t = tx_previous_release m'" using tx_identity_sel m'(1) id by metis
  have keep: "rolling E m' i (tx_previous_release t) w' \<Longrightarrow> restored E t i w'" for w'
    using m' id cc by (auto simp: restored_def)
  note persist = rolling_write [OF r m' prev]
  have last: "run_ok (if recovery_pending m' RolledBack
      then bind_a (advance_transaction E m' RolledBack) (\<lambda>_. return_a SettledUnhealthy)
      else return_a SettledUnhealthy) w' (\<lambda>_. restored E t i) (\<lambda>_. coh E) (coh E)"
    if w': "rolling E m' i (tx_previous_release t) w'" for w'
  proof -
    have "wd_tx w' = Some m'" using w' by (simp add: rolling_def)
    then show ?thesis
      using run_ok_conseq [OF restored_advance [OF keep [OF w'], of RolledBack], where D' = "\<lambda>_. coh E"]
        restored_coh keep [OF w']
      by (auto simp: advance_if_pending_def run_ok_with_tx run_ok_simps)
  qed
  have "run_ok (bind_a (persist_transaction E m') (\<lambda>_. return_a (Retry n))) (w\<lparr> wd_tx := Some m' \<rparr>)
      (\<lambda>_. restored E t i) (\<lambda>_. coh E) (coh E)"
    by (rule run_ok_bindI [OF persist]) (use keep rolling_coh in \<open>auto simp: run_ok_return\<close>)
  moreover have "run_ok (bind_a (persist_transaction E m') (\<lambda>_.
      if recovery_pending m' RolledBack
      then bind_a (advance_transaction E m' RolledBack) (\<lambda>_. return_a SettledUnhealthy)
      else return_a SettledUnhealthy)) (w\<lparr> wd_tx := Some m' \<rparr>) (\<lambda>_. restored E t i) (\<lambda>_. coh E) (coh E)"
    by (rule run_ok_bindI [OF persist last]) (use rolling_coh in auto)
  ultimately show ?thesis by (simp add: settle_or_retry_def)
qed

lemma restored_health_failure:
  assumes r: "rolling E m i (tx_previous_release t) w" and id: "tx_identity m = tx_identity t"
    and cc: "\<not> recovery_pending m CandidateCompensated"
  shows "run_ok (bound_unhealthy_rollback E m) w (\<lambda>_. restored E t i) (\<lambda>_. coh E) (coh E)"
proof (cases "record_rollback_health_failure m")
  case (Pair res m')
  show ?thesis
  proof (cases res)
    case (Inl k)
    then show ?thesis
      using Pair rolling_coh [OF r] by (simp add: bound_unhealthy_rollback_def run_ok_simps)
  next
    case (Inr n)
    then have m': "tx_identity m' = tx_identity m" "tx_phase m' = tx_phase m"
      using Pair by (auto simp: record_failure_cases split: if_splits)
    have "is_rollback m'" "\<not> recovery_pending m' CandidateCompensated"
      using r m' cc by (auto simp: rolling_def is_rollback_def pending_iff)
    from restored_settle [OF r m'(1) this(1) id this(2)] show ?thesis
      using Pair Inr by (simp add: bound_unhealthy_rollback_def run_ok_simps)
  qed
qed

lemma predecessor_gate_report: "plan_gate_failure (predecessor_state t) = GateReport"
  by (simp add: plan_gate_failure_def predecessor_state_def)

lemma restored_gate_failure:
  assumes "restored E t i w" and plan: "rollback_plan t defer_commit plan"
  shows "run_ok (handle_gate_failure E B plan i) w (\<lambda>_. restored E t i) (\<lambda>_. coh E) (coh E)"
proof -
  obtain m where r: "rolling E m i (tx_previous_release t) w" and id: "tx_identity m = tx_identity t"
    and cc: "\<not> recovery_pending m CandidateCompensated"
    using assms by (auto simp: restored_def)
  have m: "wd_tx w = Some m" "is_rollback m" using r by (auto simp: rolling_def)
  have "run_ok (gate_failure_state E plan i) w (\<lambda>x w'. restored E t i w' \<and> x = predecessor_state t)
      (\<lambda>_. coh E) (coh E)"
    unfolding gate_failure_state_def run_ok_with_tx m option.case if_not_P [OF not_not [THEN iffD2, OF m(2)]]
  proof (rule run_ok_bindI [OF restored_health_failure [OF r id cc]])
    fix x w' assume "restored E t i w'"
    then show "run_ok (case x of
        SettledUnhealthy \<Rightarrow> (case pl_commit plan of None \<Rightarrow> fail_a OtherError | Some state \<Rightarrow> return_a state)
      | Retry _ \<Rightarrow> fail_a OtherError) w' (\<lambda>x w'. restored E t i w' \<and> x = predecessor_state t) (\<lambda>_. coh E) (coh E)"
      using plan restored_coh by (cases x) (auto simp: rollback_plan_def run_ok_simps)
  qed auto
  then show ?thesis
    unfolding handle_gate_failure_def
    by (rule run_ok_bindI) (auto simp: answer_gate_failure_def predecessor_gate_report run_ok_return)
qed

lemma prove_provisional_proven:
  assumes "coherent_with E s i a" and "is_proven i"
  shows "store_prove_provisional E s = (Ok False, s)"
  using assms coherent_reads(1) [OF assms(1)]
  by (cases "ins_maturity i")
    (simp_all add: store_prove_provisional_def bind_read prove_provisional_def return_a_def is_proven_def)

lemma restored_proven: "restored E t i w \<Longrightarrow> is_proven i"
  unfolding restored_def
  by (auto elim!: rolling_journal dest!: phase_ok_position at_previous_sel(2) at_candidate_sel(2))

lemma restored_prove:
  assumes "restored E t i w"
  shows "run_ok (store_a (store_prove_provisional E)) w (\<lambda>_. restored E t i) (\<lambda>_. restored E t i) (coh E)"
proof -
  have "coherent_with E (wd_store w) i (tx_previous_release t)"
    using assms by (auto simp: restored_def rolling_def)
  from prove_provisional_proven [OF this restored_proven [OF assms]] show ?thesis
    using assms by (simp add: run_ok_def store_a_def)
qed

lemma restored_commit:
  assumes "restored E t i w"
  shows "run_ok (store_a (commit_installed E (predecessor_state t))) w
    (\<lambda>_. restored E t (predecessor_state t)) (\<lambda>_. coh E) (coh E)"
proof -
  obtain m where r: "rolling E m i (tx_previous_release t) w" and id: "tx_identity m = tx_identity t"
    and cc: "\<not> recovery_pending m CandidateCompensated"
    using assms by (auto simp: restored_def)
  obtain d where d: "st_journal (wd_store w) = Record d" "is_rollback d" "tx_identity d = tx_identity m"
      "phase_ok d i (tx_previous_release t)" and c: "coherent_with E (wd_store w) i (tx_previous_release t)"
    using r by (rule rolling_journal)
  have "predecessor_state d = predecessor_state t" using positions_identity(3) d(3) id by metis
  then have fits: "phase_ok d (predecessor_state t) (tx_previous_release t)"
    using rollback_phase_ok_predecessor [OF d(2,4)] by simp
  show ?thesis
    unfolding run_ok_store_a
    by (rule run_ok_conseq [OF run_ok_commit [OF c, of "predecessor_state t"]])
      (use fits d r id cc in \<open>auto simp: restored_def rolling_def intro: coherentI\<close>)
qed

lemma restored_clear:
  assumes "restored E t i w"
  shows "keeps E (store_a (clear_journal E)) w"
proof -
  obtain m where "rolling E m i (tx_previous_release t) w" using assms by (auto simp: restored_def)
  then obtain d where d: "st_journal (wd_store w) = Record d" "is_rollback d"
      and c: "coherent_with E (wd_store w) i (tx_previous_release t)"
    by (rule rolling_journal)
  show ?thesis
    unfolding run_ok_store_a
    by (rule run_ok_conseq [OF run_ok_clear [OF c]]) (use d in \<open>auto simp: is_rollback_def intro: coherentI\<close>)
qed

lemma restored_settle_boot:
  assumes "restored E t i w" and plan: "rollback_plan t defer_commit plan"
  shows "keeps E (settle_boot E plan defer_commit pending gate_passed) w"
proof -
  have clear: "keeps E (bind_a (if pl_clear_journal plan \<or> defer_commit then store_a (clear_journal E) else return_a ())
      (\<lambda>_. return_a (Steady gate_passed g))) w'" if "restored E t j w'" for j w' g
    using restored_clear [OF that] restored_coh [OF that] by (auto simp: run_ok_simps)
  show ?thesis
  proof (cases defer_commit)
    case True
    have "run_ok (store_a (read_a (installed_rollback_guard E))) w' (\<lambda>_. restored E t j) (\<lambda>_. coh E) (coh E)"
      if "restored E t j w'" for j w'
      using that restored_coh [OF that] by (simp add: run_ok_store_a run_ok_read split: sum.splits)
    then have "run_ok (bind_a (store_a (commit_installed E (predecessor_state t)))
          (\<lambda>_. store_a (read_a (installed_rollback_guard E)))) w (\<lambda>_. restored E t (predecessor_state t)) (\<lambda>_. coh E) (coh E)"
      by (intro run_ok_bindI [OF restored_commit [OF assms(1)]]) auto
    from run_ok_bindI [OF this clear] show ?thesis
      using True plan by (simp add: rollback_plan_def settle_boot_def)
  next
    case False
    then show ?thesis using clear [OF assms(1), of pending] by (simp add: bind_return_a settle_boot_def)
  qed
qed

lemma restored_finish:
  assumes "restored E t i w" and plan: "rollback_plan t defer_commit plan"
  shows "keeps E (finish_boot E B plan defer_commit pending gate_passed) w"
proof -
  have advance: "keeps E (bind_a (advance_if_pending E RollbackVerified) (\<lambda>_.
      bind_a (advance_if_pending E RolledBack) (\<lambda>_. settle_boot E plan defer_commit pending gate_passed))) w'"
    if w': "restored E t i w'" for w'
    by (rule run_ok_bindI [OF restored_advance [OF w']], simp,
        rule run_ok_bindI [OF restored_advance], assumption, simp, erule restored_settle_boot [OF _ plan])
      (use restored_coh in auto)
  have "run_ok (if gate_passed then bind_a (retried B (store_a (store_prove_provisional E))) (\<lambda>_. return_a ())
      else return_a ()) w (\<lambda>_. restored E t i) (\<lambda>_. restored E t i) (coh E)"
    using run_ok_retry [of "restored E t i", OF restored_prove assms(1)] assms(1)
    by (simp add: retried_def run_ok_simps)
  then show ?thesis
    unfolding finish_boot_def
    by (rule run_ok_bindI) (use advance restored_coh in auto)
qed

lemma restored_judge:
  assumes "restored E t i w" and "rollback_plan t defer_commit plan"
  shows "keeps E (judge_boot E B plan defer_commit pending i gate) w"
proof -
  have "run_ok (if gate = Ready then return_a () else handle_gate_failure E B plan i) w
      (\<lambda>_. restored E t i) (\<lambda>_. coh E) (coh E)"
    using restored_gate_failure [OF assms] assms(1) by (simp add: run_ok_return)
  then show ?thesis
    unfolding judge_boot_def by (rule run_ok_bindI) (use restored_finish [OF _ assms(2)] in auto)
qed

lemma read_boot_head_coherent: "coherent_with E s i a \<Longrightarrow> read_boot_head E s = Inr i"
  by (simp add: read_boot_head_def coherent_reads)

lemma restored_gate:
  assumes "restored E t i w" and plan: "rollback_plan t defer_commit plan"
  shows "keeps E (boot_gate E B plan defer_commit pending) w"
proof -
  let ?I = "restored E t i"
  have head: "run_ok (store_a (read_a (read_boot_head E))) w' (\<lambda>x w''. x = i \<and> ?I w'') (\<lambda>_. ?I) (coh E)"
    if "?I w'" for w'
    using that read_boot_head_coherent [of E "wd_store w'" i]
    by (auto simp: restored_def rolling_def run_ok_store_a run_ok_read)
  have gate: "keeps E (bind_a (became_healthy V port att c p) (judge_boot E B plan defer_commit pending i)) w'"
    if "?I w'" for w' V port att c p
    unfolding run_ok_bind
  proof (rule run_ok_gate)
    fix r and w'' :: world assume "wd_store w'' = wd_store w'" "wd_tx w'' = wd_tx w'"
    then have "?I w''" using that by (auto simp: restored_def rolling_def)
    then show "keeps E (judge_boot E B plan defer_commit pending i r) w''"
      using restored_judge plan by blast
  qed
  have "keeps E (with_tx (gate_head E B plan defer_commit pending i)) w'" if w': "?I w'" for w'
  proof -
    obtain m where "wd_tx w' = Some m" using w' by (auto simp: restored_def rolling_def)
    then show ?thesis using gate [OF w'] by (simp add: run_ok_with_tx gate_head_def Let_def bind_return_a)
  qed
  then show ?thesis
    unfolding boot_gate_def retried_def
    by (intro run_ok_bindI [OF run_ok_retry [of ?I, OF head assms(1)]]) (use restored_coh in auto)
qed

lemma resuming_run_plan:
  assumes "resuming E t i w" and plan: "rollback_plan t defer_commit plan"
  shows "keeps E (run_plan E B plan defer_commit) w"
proof -
  let ?J = "\<lambda>w. resuming E t i w \<and> (\<forall>m. wd_tx w = Some m \<longrightarrow> \<not> recovery_pending m CandidateCompensated)"
  have last: "keeps E (bind_a (retried B (complete_recovery_activation E)) (\<lambda>action.
       if action = Reboot then return_a Rebooting else boot_gate E B plan defer_commit pending)) w'"
    if "restored E t i w'" for w' pending
    unfolding retried_def
    by (rule run_ok_bindI [OF run_ok_retry [of "restored E t i", OF activation_step that]])
      (use restored_gate [OF _ plan] restored_coh in \<open>auto simp: run_ok_return\<close>)
  have step: "run_ok (execute_boot_plan E plan defer_commit) w (\<lambda>_. restored E t i) (\<lambda>_. ?J) (coh E)" if "?J w" for w
    using plan_step [OF _ _ plan] that by blast
  have middle: "keeps E (bind_a (retried B (execute_boot_plan E plan defer_commit)) (\<lambda>pending.
       bind_a (retried B (complete_recovery_activation E)) (\<lambda>action.
       if action = Reboot then return_a Rebooting else boot_gate E B plan defer_commit pending))) w'"
    if "?J w'" for w'
    by (subst retried_def, rule run_ok_bindI [OF run_ok_retry [of ?J, OF step that]])
      (use last resuming_coh in auto)
  show ?thesis
    unfolding run_plan_def
    by (subst retried_def, rule run_ok_bindI [OF run_ok_retry [of "resuming E t i", OF compensation_step assms(1)]])
      (use middle resuming_coh in \<open>auto simp: run_ok_return\<close>)
qed

end
