(* ===== verification/Life_Cycle.thy ===== *)
theory Life_Cycle
  imports Boot_Safety
begin

text \<open>
  What a boot plans in a coherent state, the boot that has no rollback to drive, and the machine's
  whole life: updates and boots in any order keep the files coherent.
\<close>

subsection \<open>What a boot plans\<close>

definition idle_phase :: "Transaction \<Rightarrow> InstalledState \<Rightarrow> ReleaseId \<Rightarrow> bool" where
  "idle_phase tx i a \<longleftrightarrow> (tx_phase tx = Prepared \<and> at_previous tx i \<and> a = tx_previous_release tx)
     \<or> (tx_phase tx \<in> {Converged, Verified, Committed} \<and> at_candidate tx i \<and> a = tx_candidate_release tx)
     \<or> (tx_phase tx = RolledBack \<and> (at_previous tx i \<or> at_candidate tx i) \<and> a = tx_previous_release tx)"

lemma journal_recovery_coherent:
  assumes "phase_ok tx i a" and "transaction_validate E tx = Inr ()"
  shows "journal_recovery tx (Some a) (Some i) =
    (if \<not> idle_phase tx i a then RestorePredecessor
     else if tx_phase tx \<in> {Prepared, RolledBack} then NeverSwapped else RecoveryCommitted)"
proof -
  have drives: "drives_rollback tx \<longleftrightarrow> tx_phase tx \<notin> {Committed, RolledBack}"
    using assms(2) by (intro drives_rollback_iff) (auto simp: transaction_validate_Inr)
  show ?thesis
    using assms at_previous_not_candidate [OF assms(2), of i] at_candidate_sel(1) [of tx i]
    by (cases "tx_phase tx")
      (auto simp: journal_recovery_def classify_recovery_def drives phase_ok_def Let_def idle_phase_def)
qed

definition situation_of :: "InstalledState \<Rightarrow> ReleaseId \<Rightarrow> Transaction option \<Rightarrow> Situation" where
  "situation_of i a j = \<lparr> sit_installed = Present i, sit_active = Some a, sit_journal = j \<rparr>"

lemma situation_of_sel [simp]:
  "sit_installed (situation_of i a j) = Present i" "sit_active (situation_of i a j) = Some a"
  "sit_journal (situation_of i a j) = j"
  by (simp_all add: situation_of_def)

lemma gather_coherent:
  "coherent_with E s i a \<Longrightarrow> store_journal E s = Inr j \<Longrightarrow> gather_situation E s = Inr (situation_of i a j)"
  by (simp add: gather_situation_def coherent_reads situation_of_def)

lemma settled_predecessor:
  assumes "a = ins_release i"
  shows "\<not> predecessor_is_active (situation_of i a j)"
    and "confirmation_window_rollback (situation_of i a j) = None"
    and "enforce_installed p (situation_of i a j) i = p"
  using assms
  by (auto simp: predecessor_is_active_def confirmation_window_rollback_def enforce_installed_def
      split: option.splits)

lemma idle_phase_committed:
  "idle_phase tx i a \<Longrightarrow> tx_phase tx \<notin> {Prepared, RolledBack} \<Longrightarrow> a = ins_release i"
  using at_candidate_sel(3) by (auto simp: idle_phase_def)

text \<open>The plan of a boot that drives no rollback.\<close>

definition idle_plan :: "Transaction option \<Rightarrow> Plan \<Rightarrow> bool" where
  "idle_plan j plan \<longleftrightarrow> pl_release plan = NoFix \<and> pl_clear_journal plan = (j \<noteq> None)
     \<and> pl_commit plan = (case j of
         Some tx \<Rightarrow> if tx_phase tx = RolledBack then Some (predecessor_state tx) else None
       | None \<Rightarrow> None)
     \<and> pl_reject_candidate plan = (case j of
         Some tx \<Rightarrow> if tx_candidate_rejection_required tx
           then [(tx_candidate_repository_lineage tx, tx_candidate_rejection_sha256 tx)] else []
       | None \<Rightarrow> [])"

lemma plan_absent:
  assumes "a = ins_release i"
  obtains plan where "plan_boot (situation_of i a None) = Some plan" "\<not> pl_fail_closed plan"
    "recovery_transaction (situation_of i a None) = None" "idle_plan None plan"
  using settled_predecessor [OF assms, where j = None]
  by (auto simp: plan_boot_def recovery_transaction_def idle_plan_def plan_default_def Let_def)

lemma plan_idle:
  assumes ok: "phase_ok tx i a" and v: "transaction_validate E tx = Inr ()" and idle: "idle_phase tx i a"
  obtains plan where "plan_boot (situation_of i a (Some tx)) = Some plan" "\<not> pl_fail_closed plan"
    "recovery_transaction (situation_of i a (Some tx)) = None" "idle_plan (Some tx) plan"
proof (cases "tx_phase tx \<in> {Prepared, RolledBack}")
  case True
  then show ?thesis
    using that journal_recovery_coherent [OF ok v] idle
    by (auto simp: plan_boot_def reconcile_transaction_def recovery_transaction_def idle_plan_def
        plan_default_def Let_def is_rollback_def)
next
  case False
  note rel = idle_phase_committed [OF idle False]
  show ?thesis
    using that journal_recovery_coherent [OF ok v] idle False settled_predecessor [OF rel, where j = "Some tx"]
    by (auto simp: plan_boot_def reconcile_transaction_def recovery_transaction_def idle_plan_def
        plan_default_def Let_def)
qed

lemma plan_rollback:
  assumes ok: "phase_ok tx i a" and v: "transaction_validate E tx = Inr ()" and idle: "\<not> idle_phase tx i a"
  obtains plan where "plan_boot (situation_of i a (Some tx)) = Some plan" "\<not> pl_fail_closed plan"
    "recovery_transaction (situation_of i a (Some tx)) = Some tx" "rollback_plan tx (is_rollback tx) plan"
    "pl_reject_candidate plan = (if tx_candidate_rejection_required tx
       then [(tx_candidate_repository_lineage tx, tx_candidate_rejection_sha256 tx)] else [])"
    "pl_clear_journal plan"
  using journal_recovery_coherent [OF ok v] idle
  by (auto simp: plan_boot_def reconcile_transaction_def recovery_transaction_def rollback_plan_def
      plan_default_def Let_def)

subsection \<open>The boot without a rollback\<close>

definition idle :: "ext \<Rightarrow> Transaction option \<Rightarrow> InstalledState \<Rightarrow> ReleaseId \<Rightarrow> world \<Rightarrow> bool" where
  "idle E j i a w \<longleftrightarrow> coherent_with E (wd_store w) i a \<and> wd_tx w = None
     \<and> st_journal (wd_store w) = (case j of None \<Rightarrow> Absent | Some tx \<Rightarrow> Record tx)
     \<and> (\<forall>tx. j = Some tx \<longrightarrow> idle_phase tx i a)"

lemma idle_coh: "idle E j i a w \<Longrightarrow> coh E w"
  by (auto simp: idle_def intro: coherentI)

lemma idle_world:
  "idle E j i a w \<Longrightarrow> wd_store w' = wd_store w \<Longrightarrow> wd_tx w' = wd_tx w \<Longrightarrow> idle E j i a w'"
  by (simp add: idle_def)

lemma idle_prepared:
  "idle E j i a w \<Longrightarrow> st_journal (wd_store w) = Record tx \<Longrightarrow> tx_phase tx = Prepared \<Longrightarrow> a = tx_previous_release tx"
  by (auto simp: idle_def idle_phase_def split: option.splits)

lemma idle_proven: "idle E (Some tx) i a w \<Longrightarrow> is_proven i"
  by (auto simp: idle_def coherent_with_def dest!: phase_ok_position at_previous_sel(2) at_candidate_sel(2))

lemma idle_phase_predecessor:
  "tx_phase tx = RolledBack \<Longrightarrow> idle_phase tx i a \<Longrightarrow>
     phase_ok tx (predecessor_state tx) a \<and> idle_phase tx (predecessor_state tx) a"
  by (auto simp: idle_phase_def phase_ok_def at_previous_def)

lemma idle_plan_step:
  assumes w: "idle E j i a w" and plan: "idle_plan j plan"
  shows "run_ok (execute_boot_plan E plan False) w (\<lambda>_ w'. \<exists>i. idle E j i a w') (\<lambda>_ w'. \<exists>i. idle E j i a w') (coh E)"
proof -
  have tx: "wd_tx w = None" and c: "coherent_with E (wd_store w) i a" using w by (auto simp: idle_def)
  let ?J = "\<lambda>s. \<exists>i. idle E j i a (w\<lparr> wd_store := s \<rparr>)"
  have keep: "?J s" if "coherent_with E s i' a" "st_journal s = st_journal (wd_store w)"
      and "i' = i \<or> (\<exists>tx. j = Some tx \<and> tx_phase tx = RolledBack \<and> i' = predecessor_state tx)" for s i'
    using that w idle_phase_predecessor by (auto simp: idle_def)
  have commit: "run_ok (case pl_commit plan of None \<Rightarrow> return_a () | Some state \<Rightarrow> commit_installed E state)
      (wd_store w) (\<lambda>_. ?J) (\<lambda>_. ?J) (coherent E)"
  proof (cases "pl_commit plan")
    case None
    then show ?thesis using w by (auto simp: run_ok_return intro!: exI [of _ i])
  next
    case (Some st)
    then obtain tx where j: "j = Some tx" "tx_phase tx = RolledBack" "st = predecessor_state tx"
      using plan by (auto simp: idle_plan_def split: option.splits if_splits)
    then have "phase_ok tx st a" "st_journal (wd_store w) = Record tx"
      using w idle_phase_predecessor by (auto simp: idle_def)
    then have "run_ok (commit_installed E st) (wd_store w) (\<lambda>_. ?J) (\<lambda>_. ?J) (coherent E)"
      by (intro run_ok_conseq [OF run_ok_commit [OF c, of st]]) (use keep j in auto)
    then show ?thesis using Some by simp
  qed
  have rest: "run_ok (reject_all ps) s (\<lambda>_. ?J) (\<lambda>_. ?J) (coherent E)" if J: "?J s" for s ps
  proof -
    from J obtain i' where i': "idle E j i' a (w\<lparr> wd_store := s \<rparr>)" by blast
    then have "coherent_with E s i' a" by (simp add: idle_def)
    from reject_all_coherent [OF this refl] show ?thesis
      by (rule run_ok_conseq) (use i' in \<open>auto simp: idle_def\<close>)
  qed
  have "run_ok (execute_store_plan E plan False True) (wd_store w) (\<lambda>_. ?J) (\<lambda>_. ?J) (coherent E)"
    using run_ok_bindI [OF commit rest] plan
    by (simp add: execute_store_plan_def idle_plan_def bind_return_a)
  then show ?thesis
    unfolding execute_boot_plan_def run_ok_with_tx tx Let_def run_ok_bind run_ok_store_a
    by (auto simp: run_ok_read elim!: run_ok_conseq split: sum.splits)
qed

lemma idle_converge:
  assumes "idle E j i a w"
  shows "run_ok (boot_converge B port target) w (\<lambda>_. idle E j i a) (\<lambda>_. idle E j i a) (coh E)"
proof -
  let ?step = "bind_a (mutate port Converge (gt_attempt target)
      \<lparr> tgt_release = gt_candidate target, tgt_archive_sha256 = gt_candidate_archive_sha256 target \<rparr>
      \<lparr> tgt_release = gt_predecessor target, tgt_archive_sha256 = gt_predecessor_archive_sha256 target \<rparr>)
      (\<lambda>result. case result of
          Succeeded host_action \<Rightarrow> return_a (Inr host_action)
        | ReleaseFault error \<Rightarrow> return_a (Inl error)
        | Inconclusive error \<Rightarrow> fail_a error)"
  have "run_ok ?step w (\<lambda>_. idle E j i a) (\<lambda>_. idle E j i a) (coh E)" if "idle E j i a w" for w
    unfolding run_ok_bind
    by (rule run_ok_mutate) (use that in \<open>auto simp: run_ok_simps idle_def split: invocation.splits\<close>)
  from run_ok_retry [of "idle E j i a", OF this assms] show ?thesis
    by (simp add: boot_converge_def retried_def)
qed

lemma idle_revert:
  assumes w: "idle E j i a w"
  shows "keeps E (store_a (revert_guarded_head E i repaired)) w"
proof (cases "ins_rollback_guard i")
  case None
  then show ?thesis
    using idle_coh [OF w] by (simp add: revert_guarded_head_def run_ok_store_a run_ok_crash)
next
  case (Some g)
  let ?tx = "rollback_of_guarded i g (\<not> repaired)" and ?K = "\<lambda>s. coherent_with E s i a"
  have ready: "write_ready ?tx i a" by (simp add: write_ready_def rollback_of_guarded_def)
  have c: "?K (wd_store w)" using w by (simp add: idle_def)
  have clear: "run_ok (clear_journal E) (wd_store w) (\<lambda>_. ?K) (\<lambda>_. ?K) (coherent E)"
    by (rule run_ok_conseq [OF run_ok_clear [OF c]]) (use idle_prepared [OF w] in auto)
  have reject: "run_ok (if b then reject_deployment E l d else return_a ()) s (\<lambda>_. coherent E) (\<lambda>_. coherent E) (coherent E)"
    if "?K s" for b l d s
  proof -
    have "run_ok (reject_deployment E l d) s (\<lambda>_. coherent E) (\<lambda>_. coherent E) (coherent E)"
      by (rule run_ok_conseq [OF run_ok_reject_deployment [OF that]]) (auto intro: coherentI)
    then show ?thesis using coherentI [OF that] by (simp add: run_ok_return)
  qed
  have "run_ok (write_journal E ?tx) s (\<lambda>_. ?K) (\<lambda>_. coherent E) (coherent E)" if "?K s" for s
    using run_ok_write_journal [of E "w\<lparr> wd_store := s \<rparr>" i a ?tx] that ready
    by (auto simp: persist_transaction_def run_ok_store_a journaled_def elim!: run_ok_conseq intro: coherentI)
  then have tail: "run_ok (bind_a (write_journal E ?tx) (\<lambda>_.
      if tx_candidate_rejection_required ?tx
      then reject_deployment E (tx_candidate_repository_lineage ?tx) (tx_candidate_archive_sha256 ?tx)
      else return_a ())) s (\<lambda>_. coherent E) (\<lambda>_. coherent E) (coherent E)" if "?K s" for s
    by (rule run_ok_bindI) (use that reject in auto)
  obtain x where x: "store_journal E (wd_store w) = Inr x" using c by (rule coherent_journal)
  have head: "run_ok (case x of None \<Rightarrow> return_a ()
      | Some journal \<Rightarrow> bind_a (read_a (store_active_release E)) (\<lambda>active.
          if journal_recovery journal active (Some i) = RecoveryCommitted then clear_journal E else return_a ()))
      (wd_store w) (\<lambda>_. ?K) (\<lambda>_. ?K) (coherent E)"
    using clear c coherent_reads(2) [OF c] by (auto simp: run_ok_simps split: option.split)
  show ?thesis
    using run_ok_bindI [OF head tail] x Some coherentI
    by (auto simp: revert_guarded_head_def run_ok_store_a Let_def run_ok_bind run_ok_read elim!: run_ok_conseq)
qed

lemma idle_gate_failure:
  assumes w: "idle E j i a w"
  shows "run_ok (handle_gate_failure E B plan i) w (\<lambda>_. idle E j i a) (\<lambda>_. coh E) (coh E)"
proof -
  have tx: "wd_tx w = None" and c: "coherent_with E (wd_store w) i a" using w by (auto simp: idle_def)
  have state: "run_ok (gate_failure_state E plan i) w (\<lambda>x w'. x = i \<and> w' = w) (\<lambda>_. coh E) (coh E)"
    by (simp add: gate_failure_state_def run_ok_with_tx tx run_ok_return)
  have reject: "keeps E (store_a (reject_provisional_head E i)) w"
    unfolding reject_provisional_head_def run_ok_store_a
    by (rule run_ok_conseq [OF run_ok_reject_deployment [OF c]]) (auto intro: coherentI)
  have after: "run_ok (bind_a m (\<lambda>_. fail_a k)) w (\<lambda>_. idle E j i a) (\<lambda>_. coh E) (coh E)" if "keeps E m w"
    for m :: "(world, unit) action" and k
    by (rule run_ok_bindI [OF that]) (auto simp: run_ok_fail)
  show ?thesis
    unfolding handle_gate_failure_def
    by (rule run_ok_bindI [OF state])
      (use after [OF reject] after [OF idle_revert [OF w]] w in
        \<open>auto simp: answer_gate_failure_def run_ok_return split: GateFailure.split\<close>)
qed

lemma idle_prove:
  assumes w: "idle E j i a w"
  shows "run_ok (store_a (store_prove_provisional E)) w
    (\<lambda>_ w'. \<exists>i. idle E j i a w') (\<lambda>_ w'. \<exists>i. idle E j i a w') (coh E)"
proof -
  have c: "coherent_with E (wd_store w) i a" using w by (simp add: idle_def)
  show ?thesis
  proof (cases j)
    case None
    let ?J = "\<lambda>s. \<exists>i. idle E j i a (w\<lparr> wd_store := s \<rparr>)"
    have "run_ok (commit_installed E st) (wd_store w) (\<lambda>_. ?J) (\<lambda>_. ?J) (coherent E)" for st
      by (rule run_ok_conseq [OF run_ok_commit [OF c, of st]]) (use w None in \<open>auto simp: idle_def\<close>)
    moreover have "?J (wd_store w)" using w by (auto intro!: exI [of _ i])
    ultimately show ?thesis
      by (simp add: run_ok_store_a store_prove_provisional_def run_ok_bind run_ok_read coherent_reads(1) [OF c]
          run_ok_return split: prod.split)
  next
    case (Some tx)
    then have "store_prove_provisional E (wd_store w) = (Ok False, wd_store w)"
      using prove_provisional_proven [OF c] idle_proven w by blast
    then show ?thesis using w by (auto simp: run_ok_def store_a_def)
  qed
qed

lemma idle_finish:
  assumes w: "idle E j i a w"
  shows "keeps E (finish_boot E B plan False pending gate_passed) w"
proof -
  let ?I = "\<lambda>w. \<exists>i. idle E j i a w"
  have prove: "run_ok (if gate_passed then bind_a (retried B (store_a (store_prove_provisional E))) (\<lambda>_. return_a ())
      else return_a ()) w (\<lambda>_. ?I) (\<lambda>_. ?I) (coh E)"
  proof -
    have "run_ok (retried B (store_a (store_prove_provisional E))) w (\<lambda>_. ?I) (\<lambda>_. ?I) (coh E)"
      unfolding retried_def by (rule run_ok_retry [of ?I]) (use idle_prove w in blast)+
    then show ?thesis using w by (auto simp: run_ok_simps)
  qed
  have skip: "run_ok (bind_a (advance_if_pending E p) f) w' Q D C \<longleftrightarrow> run_ok (f ()) w' Q D C"
    if "wd_tx w' = None" for w' p Q D C and f :: "unit \<Rightarrow> (world, boot_result) action"
    by (simp add: advance_if_pending_def run_ok_with_tx run_ok_bind that run_ok_return)
  have clear: "keeps E (store_a (clear_journal E)) w'" if "idle E j i' a w'" for i' w'
    unfolding run_ok_store_a
    by (rule run_ok_conseq [OF run_ok_clear])
      (use that idle_prepared [OF that] in \<open>auto simp: idle_def intro: coherentI\<close>)
  have "keeps E (settle_boot E plan False pending gate_passed) w'" if "idle E j i' a w'" for i' w'
    using clear [OF that] idle_coh [OF that] by (auto simp: settle_boot_def bind_return_a run_ok_simps)
  then show ?thesis
    unfolding finish_boot_def
    by (intro run_ok_bindI [OF prove]) (auto simp: idle_def skip intro: coherentI)
qed

lemma idle_judge:
  assumes w: "idle E j i a w"
  shows "keeps E (judge_boot E B plan False pending i gate) w"
proof -
  have "run_ok (if gate = Ready then return_a () else handle_gate_failure E B plan i) w
      (\<lambda>_. idle E j i a) (\<lambda>_. coh E) (coh E)"
    using idle_gate_failure [OF w] w by (simp add: run_ok_return)
  then show ?thesis
    unfolding judge_boot_def by (rule run_ok_bindI) (use idle_finish in auto)
qed

lemma idle_gate:
  assumes w: "idle E j i a w"
  shows "keeps E (boot_gate E B plan False pending) w"
proof -
  let ?I = "idle E j i a"
  have gate: "keeps E (bind_a (became_healthy V port att c p) (judge_boot E B plan False pending i)) w'"
    if "?I w'" for w' V port att c p
    unfolding run_ok_bind by (rule run_ok_gate) (use idle_world [OF that] idle_judge in blast)
  have none: "?I w' \<Longrightarrow> wd_tx w' = None" for w' by (simp add: idle_def)
  have head: "run_ok (store_a (read_a (read_boot_head E))) w' (\<lambda>x w''. x = i \<and> ?I w'') (\<lambda>_. ?I) (coh E)"
    if "?I w'" for w'
    using that read_boot_head_coherent [of E "wd_store w'" i]
    by (auto simp: idle_def run_ok_store_a run_ok_read)
  have verdict: "keeps E (if convergence = Inr Reboot then return_a Rebooting
       else bind_a (case convergence of
                 Inl error \<Rightarrow> return_a (Unhealthy error)
               | Inr _ \<Rightarrow> became_healthy V port att c p) (judge_boot E B plan False pending i)) w'"
    if "?I w'" for w' convergence V port att c p
    using that gate [OF that] idle_judge [OF that] idle_coh [OF that]
    by (auto simp: run_ok_return bind_return_a split: sum.split)
  have continue: "keeps E (bind_a (boot_converge B port target) (\<lambda>convergence.
       if convergence = Inr Reboot then return_a Rebooting
       else bind_a (case convergence of
                 Inl error \<Rightarrow> return_a (Unhealthy error)
               | Inr _ \<Rightarrow> became_healthy V port att c p) (judge_boot E B plan False pending i))) w'"
    if "?I w'" for w' port target V att c p
    by (rule run_ok_bindI [OF idle_converge [OF that]]) (use verdict idle_coh in auto)
  have "keeps E (with_tx (gate_head E B plan False pending i)) w'" if "?I w'" for w'
    unfolding run_ok_with_tx none [OF that] gate_head_def Let_def using continue [OF that] by simp
  then show ?thesis
    unfolding boot_gate_def retried_def
    by (intro run_ok_bindI [OF run_ok_retry [of ?I, OF head w]]) (use idle_coh in auto)
qed

lemma idle_run_plan:
  assumes w: "idle E j i a w" and plan: "idle_plan j plan"
  shows "keeps E (run_plan E B plan False) w"
proof -
  let ?I = "\<lambda>w. \<exists>i. idle E j i a w"
  have none: "?I w' \<Longrightarrow> wd_tx w' = None" for w' by (auto simp: idle_def)
  have skip: "run_ok (retried B (complete_candidate_compensation E)) w' (\<lambda>x w'. x = NoAction \<and> ?I w') (\<lambda>_. ?I) (coh E)"
      "run_ok (retried B (complete_recovery_activation E)) w' (\<lambda>x w'. x = NoAction \<and> ?I w') (\<lambda>_. ?I) (coh E)"
    if "?I w'" for w'
    unfolding retried_def
    by (rule run_ok_retry [of ?I, OF _ that],
        simp add: complete_candidate_compensation_def complete_recovery_activation_def run_ok_with_tx none run_ok_return)+
  have step: "run_ok (execute_boot_plan E plan False) w' (\<lambda>_. ?I) (\<lambda>_. ?I) (coh E)" if "?I w'" for w'
    using that idle_plan_step [OF _ plan] by blast
  have last: "keeps E (bind_a (retried B (complete_recovery_activation E)) (\<lambda>action.
       if action = Reboot then return_a Rebooting else boot_gate E B plan False pending)) w'" if "?I w'" for w' pending
    by (rule run_ok_bindI [OF skip(2) [OF that]]) (use idle_gate idle_coh in auto)
  have middle: "keeps E (bind_a (retried B (execute_boot_plan E plan False)) (\<lambda>pending.
       bind_a (retried B (complete_recovery_activation E)) (\<lambda>action.
       if action = Reboot then return_a Rebooting else boot_gate E B plan False pending))) w'" if "?I w'" for w'
    by (subst retried_def, rule run_ok_bindI [OF run_ok_retry [of ?I, OF step that]])
      (use last idle_coh in auto)
  show ?thesis
    unfolding run_plan_def
    by (rule run_ok_bindI [OF skip(1)]) (use w middle idle_coh in auto)
qed

subsection \<open>Every boot keeps coherence\<close>

lemma start_recovery_resuming:
  assumes c: "coherent_with E (wd_store w) i a" and j: "st_journal (wd_store w) = Record tx"
    and ok: "phase_ok tx i a" and idle: "\<not> idle_phase tx i a"
  shows "run_ok (start_recovery E (situation_of i a (Some tx)) (Some tx)) w
    (\<lambda>_. resuming E tx i) (\<lambda>_. coh E) (coh E)"
proof (cases "is_rollback tx")
  case True
  have "\<not> recovery_pending tx Restored \<Longrightarrow> a = tx_previous_release tx"
    using ok True by (cases "tx_phase tx") (auto simp: pending_iff phase_ok_def Let_def is_rollback_def)
  then have "resuming E tx i (w\<lparr> wd_tx := Some tx \<rparr>)"
    using c j True by (auto simp: resuming_def rolling_def)
  then show ?thesis using True by (simp add: start_recovery_def run_ok_simps)
next
  case False
  let ?tx = "tx\<lparr> tx_phase := RollbackPlanned \<rparr>"
  have roll: "is_rollback ?tx" "recovery_pending ?tx Restored"
    by (simp_all add: is_rollback_def pending_iff)
  have ready: "write_ready ?tx i a" by (simp add: write_ready_def)
  have c': "coherent_with E (wd_store (w\<lparr> wd_tx := Some tx \<rparr>)) i a" using c by simp
  have "run_ok (advance_transaction E tx RollbackPlanned) (w\<lparr> wd_tx := Some tx \<rparr>)
      (\<lambda>_. resuming E tx i) (\<lambda>_. coh E) (coh E)"
    by (rule run_ok_conseq [OF run_ok_advance [OF c' ready]])
      (use roll in \<open>auto simp: resuming_def rolling_def journaled_def intro: coherentI\<close>)
  then show ?thesis using False by (auto simp: start_recovery_def run_ok_simps)
qed

lemma run_inputs:
  assumes "keeps E m w" and "coh E w"
  shows "keeps E (bind_a (read_a (\<lambda>_. bt_inputs B)) (\<lambda>ready. if \<not> ready then return_a ShutDown else m)) w"
  using assms by (auto simp: run_ok_simps split: sum.split)

lemma boot_coh:
  assumes "coh E w"
  shows "keeps E (boot E B) w"
proof -
  obtain i a where c: "coherent_with E (wd_store w) i a" using assms by (auto simp: coherent_def)
  have read: "run_ok (bind_a (store_a (read_a (gather_situation E))) f) w Q D C \<longleftrightarrow> run_ok (f (situation_of i a j)) w Q D C"
    if "store_journal E (wd_store w) = Inr j" for j f Q D C
    by (simp add: run_ok_bind run_ok_store_a run_ok_read gather_coherent [OF c that])
  have idle: ?thesis
    if j: "store_journal E (wd_store w) = Inr j" and p: "plan_boot (situation_of i a j) = Some plan"
      and "\<not> pl_fail_closed plan" "recovery_transaction (situation_of i a j) = None" and plan: "idle_plan j plan"
      and w: "idle E j i a (w\<lparr> wd_tx := None \<rparr>)" for j plan
    unfolding boot_def read [OF j]
    using that run_inputs [OF idle_run_plan [OF w plan]] idle_coh [OF w]
    by (simp add: Let_def start_recovery_def run_ok_modify run_ok_return bind_return_a run_ok_bind
        del: not_not cong: if_cong)
  from c show ?thesis
  proof (cases rule: coherent_journal)
    case 1
    obtain plan where "plan_boot (situation_of i a None) = Some plan" "\<not> pl_fail_closed plan"
      "recovery_transaction (situation_of i a None) = None" "idle_plan None plan"
      using 1(3) by (rule plan_absent)
    then show ?thesis using idle [OF 1(2)] c 1(1) by (simp add: idle_def)
  next
    case (2 tx)
    show ?thesis
    proof (cases "idle_phase tx i a")
      case True
      from 2(3,4) True obtain plan where "plan_boot (situation_of i a (Some tx)) = Some plan"
        "\<not> pl_fail_closed plan" "recovery_transaction (situation_of i a (Some tx)) = None" "idle_plan (Some tx) plan"
        by (rule plan_idle)
      then show ?thesis using idle [OF 2(2)] c 2(1) True by (simp add: idle_def)
    next
      case False
      from 2(3,4) False obtain plan where plan: "plan_boot (situation_of i a (Some tx)) = Some plan"
        "\<not> pl_fail_closed plan" "recovery_transaction (situation_of i a (Some tx)) = Some tx"
        "rollback_plan tx (is_rollback tx) plan"
        by (rule plan_rollback)
      have "keeps E (bind_a (start_recovery E (situation_of i a (Some tx)) (Some tx)) (\<lambda>_.
          bind_a (read_a (\<lambda>_. bt_inputs B)) (\<lambda>ready.
            if \<not> ready then return_a ShutDown else run_plan E B plan (is_rollback tx)))) w"
        by (rule run_ok_bindI [OF start_recovery_resuming [OF c 2(1,3) False]])
          (assumption | rule run_inputs resuming_run_plan plan(4) resuming_coh)+
      then show ?thesis unfolding boot_def read [OF 2(2)] using plan by (simp add: Let_def cong: if_cong)
    qed
  qed
qed

subsection \<open>The life of a machine\<close>

lemma run_ok_always: "run_ok m w (\<lambda>_. P) (\<lambda>_. P) P \<longleftrightarrow> P (snd (m w))"
  by (rule run_ok_state)

lemma coherent_environment [simp]:
  "coherent_with E (s\<lparr> st_faults := fs, st_versions := vs \<rparr>) i a = coherent_with E s i a"
  by (simp add: coherent_with_def files_ok_def)

lemma reopen_coherent: "coherent E s \<Longrightarrow> coherent E (snd (store_open s))"
  by (auto simp: store_open_def coherent_def split: sum.split)

lemma disarm_coherent:
  assumes "coherent E s" and "st_journal s = Absent"
  shows "coherent E (snd (disarm_update_rollback E s))"
proof -
  obtain i a where c: "coherent_with E s i a" using assms(1) by (auto simp: coherent_def)
  have commit: "run_ok (commit_installed E st) s (\<lambda>_. coherent E) (\<lambda>_. coherent E) (coherent E)" for st
    by (rule run_ok_conseq [OF run_ok_commit [OF c, of st]]) (use assms(2) in \<open>auto intro: coherentI\<close>)
  have "run_ok (disarm_update_rollback E) s (\<lambda>_. coherent E) (\<lambda>_. coherent E) (coherent E)"
    using commit assms(1)
    by (simp add: disarm_update_rollback_def run_ok_handle run_ok_read coherent_reads(1) [OF c] run_ok_return
        split: prod.split)
  then show ?thesis unfolding run_ok_always .
qed

text \<open>
  One thing that happens to the machine: an update, a boot, the confirmation of an update whose
  journal is gone, a rejection, and a restart or the passage of time, which loses the agent's
  memory, reloads the rejection set, and brings new faults, trees and reconciler answers.
\<close>

inductive life_step :: "ext \<Rightarrow> world \<Rightarrow> world \<Rightarrow> bool" for E where
  update: "life_step E w (snd (execute_update E V port candidate archive lineage reconciler w))"
| boot: "life_step E w (snd (boot E B w))"
| confirm: "st_journal (wd_store w) = Absent \<Longrightarrow> life_step E w (snd (store_a (disarm_update_rollback E) w))"
| reject: "life_step E w (snd (store_a (reject_deployment E lineage digest) w))"
| elapse: "wd_store w' = (snd (store_open (wd_store w)))\<lparr> st_faults := faults, st_versions := versions \<rparr>
    \<Longrightarrow> life_step E w w'"

lemma life_step_coherent:
  assumes "life_step E w w'" and "coh E w"
  shows "coh E w'"
  using assms
proof (induction rule: life_step.induct)
  case (update w V port candidate archive lineage reconciler)
  then show ?case using execute_update_coh unfolding run_ok_always by blast
next
  case (boot w B)
  then show ?case using boot_coh unfolding run_ok_always by blast
next
  case (confirm w)
  then show ?case using disarm_coherent [of E "wd_store w"] by (auto simp: store_a_def split: prod.splits)
next
  case (reject w lineage digest)
  then obtain i a where c: "coherent_with E (wd_store w) i a" by (auto simp: coherent_def)
  have "run_ok (reject_deployment E lineage digest) (wd_store w) (\<lambda>_. coherent E) (\<lambda>_. coherent E) (coherent E)"
    by (rule run_ok_conseq [OF run_ok_reject_deployment [OF c]]) (auto intro: coherentI)
  then show ?case unfolding run_ok_always by (auto simp: store_a_def split: prod.splits)
next
  case (elapse w' versions faults w)
  let ?s = "snd (store_open (wd_store w))"
  have "coherent E ?s" using elapse.prems by (rule reopen_coherent)
  then obtain i a where "coherent_with E ?s i a" unfolding coherent_def by blast
  then show ?case using elapse.hyps by (auto intro!: coherentI)
qed


definition sample_world :: "store \<Rightarrow> HostAction invocation list \<Rightarrow> unit invocation list list \<Rightarrow> world" where
  "sample_world s ms ps =
     \<lparr> wd_store = s, wd_tx = None, wd_mutations = ms, wd_probes = ps, wd_trace = [] \<rparr>"

definition sample_env :: env where
  "sample_env = \<lparr> env_successes = 2, env_retries = 2, env_now = 7,
     env_token = Inr (sample_digest (CHR ''9'')), env_prepare = Inr () \<rparr>"

definition sample_boot_env :: boot_env where
  "sample_boot_env = \<lparr> bt_env = sample_env, bt_first_install = False, bt_bytes_repaired = False,
     bt_inputs = Inr True \<rparr>"

definition sample_update :: "(world, Outcome) action" where
  "sample_update = execute_update sample_ext sample_env
     \<lparr> prt_reconciler = sample_reconciler, prt_reason = ReasonUpdate \<rparr> (sample_release ''2.0.0'')
     (sample_digest (CHR ''d'')) (sample_digest (CHR ''1'')) sample_reconciler"

lemma sample_coherent:
  "coherent_with sample_ext (sample_store (Record sample_installed) Absent ''1.0.0'' fs)
     sample_installed (sample_release ''1.0.0'')"
  using sample_store_inv(1) [of "Record sample_installed" Absent "''1.0.0''" fs]
  by (simp add: coherent_with_def sample_installed_valid) (simp add: sample_installed_def)


end
