(* ===== verification/Gate.thy ===== *)
theory Gate
  imports Update "HOL-Library.Sublist"
begin

text \<open>
  What the readiness gate of \<^verbatim>\<open>crates/agent/src/update.rs\<close> decides: the streaming count of
  \<^verbatim>\<open>Readiness\<close> finds exactly the probe sequences that contain the required run of
  consecutive successes.
\<close>

lemma unat_succ_less: "w < v \<Longrightarrow> unat (w + 1) = Suc (unat w)" for w v :: "'a::len word"
  by (rule checked_succ_unat) (auto simp: checked_succ_def)

lemma replicate_prefix_mono:
  "prefix (replicate n x) ys \<Longrightarrow> m \<le> n \<Longrightarrow> prefix (replicate m x) ys"
  by (metis le_add_diff_inverse prefix_order.trans prefixI replicate_add)

lemma sublist_replicate_Cons:
  "sublist (replicate (Suc k) x) (y # ys) \<longleftrightarrow> (y = x \<and> prefix (replicate k x) ys) \<or> sublist (replicate (Suc k) x) ys"
  by (auto simp: sublist_Cons_right)

lemma gate_loop_Ready:
  assumes "rdy_consecutive r < rdy_need r"
  shows "gate_loop r l ps = Ready \<longleftrightarrow>
    prefix (replicate (unat (rdy_need r) - unat (rdy_consecutive r)) True) (map probe_ok ps)
    \<or> sublist (replicate (unat (rdy_need r)) True) (map probe_ok ps)"
  using assms
proof (induction r l ps rule: gate_loop.induct)
  case (1 r l)
  then show ?case by (auto simp: word_less_nat_alt split: option.split invocation.split)
next
  case (2 r l p ps)
  obtain k where k: "unat (rdy_need r) = Suc k" using 2(2) by (cases "unat (rdy_need r)") (auto simp: word_less_nat_alt)
  show ?case
  proof (cases "probe_ok p")
    case False
    let ?r = "r\<lparr> rdy_consecutive := 0 \<rparr>"
    have "0 < rdy_need r" using 2(2) by (auto simp: word_less_nat_alt)
    then have "gate_loop ?r (Some p) ps = Ready \<longleftrightarrow> sublist (replicate (Suc k) True) (map probe_ok ps)"
      using 2(1) [of _ ?r] False k by (auto simp: observe_def)
    then show ?thesis
      using False k 2(2) sublist_replicate_Cons [of k True False "map probe_ok ps"]
      by (auto simp: observe_def word_less_nat_alt Suc_diff_le)
  next
    case True
    let ?r = "r\<lparr> rdy_consecutive := rdy_consecutive r + 1 \<rparr>"
    note inc = unat_succ_less [OF 2(2)]
    show ?thesis
    proof (cases "rdy_consecutive r + 1 \<ge> rdy_need r")
      case done': True
      then have "unat (rdy_need r) - unat (rdy_consecutive r) = 1"
        using 2(2) inc by (simp add: word_less_nat_alt word_le_nat_alt)
      then show ?thesis using True done' by (simp add: observe_def Let_def)
    next
      case False
      then have "gate_loop ?r (Some p) ps = Ready \<longleftrightarrow>
          prefix (replicate (unat (rdy_need r) - unat (rdy_consecutive r + 1)) True) (map probe_ok ps)
          \<or> sublist (replicate (unat (rdy_need r)) True) (map probe_ok ps)"
        using 2(1) [of False ?r] True by (auto simp: observe_def Let_def)
      moreover have "unat (rdy_need r) - unat (rdy_consecutive r) = Suc (unat (rdy_need r) - unat (rdy_consecutive r + 1))"
        using False inc by (simp add: word_le_nat_alt)
      ultimately show ?thesis
        using True False k replicate_prefix_mono [of k True "map probe_ok ps"]
          sublist_replicate_Cons [of k True True "map probe_ok ps"]
        by (auto simp: observe_def Let_def)
    qed
  qed
qed

lemma gate_loop_unready:
  "gate_loop r l ps \<noteq> Ready \<Longrightarrow> gate_loop r l ps = (case (if ps = [] then l else Some (last ps)) of
     Some (ReleaseFault error) \<Rightarrow> Unhealthy error
   | Some (Inconclusive error) \<Rightarrow> HealthInconclusive error
   | Some (Succeeded _) \<Rightarrow> Unhealthy TimedOut
   | None \<Rightarrow> HealthInconclusive TimedOut)"
  by (induction r l ps rule: gate_loop.induct) (auto split: prod.splits if_splits)

lemma gate_verdict_Ready:
  "gate_verdict successes probes = Ready \<longleftrightarrow>
     sublist (replicate (max (unat successes) 1) True) (map probe_ok probes)"
proof -
  let ?r = "readiness_new successes"
  have need: "unat (rdy_need ?r) = max (unat successes) 1"
    by (auto simp: readiness_new_def max_def word_le_nat_alt)
  have "rdy_consecutive ?r < rdy_need ?r"
    unfolding word_less_nat_alt need by (simp add: readiness_new_def)
  moreover have "unat (rdy_consecutive ?r) = 0" by (simp add: readiness_new_def)
  ultimately show ?thesis
    using gate_loop_Ready [of ?r None probes] by (auto simp: gate_verdict_def need)
qed

text \<open>C9. The readiness gate is exactly its specification: it answers Ready if and only if the
  probes answered before the deadline contain a run of at least \<open>successes\<close> consecutive successes
  (one, when the policy asks for none), at any position; the wrapping counter never overflows.
  Otherwise the verdict is the last probe's: a release fault or a success that came too late is
  unhealthy, and an unreachable reconciler, or no answer at all, is no verdict about the release.\<close>

theorem gate_verdict_spec:
  "gate_verdict successes probes =
     (if sublist (replicate (max (unat successes) 1) True) (map probe_ok probes) then Ready
      else if probes = [] then HealthInconclusive TimedOut
      else case last probes of
             ReleaseFault error \<Rightarrow> Unhealthy error
           | Inconclusive error \<Rightarrow> HealthInconclusive error
           | Succeeded _ \<Rightarrow> Unhealthy TimedOut)"
  using gate_loop_unready [of "readiness_new successes" None probes] gate_verdict_Ready [of successes probes]
  by (auto simp: gate_verdict_def split: invocation.splits)

text \<open>All probes of a run of the required length succeed.\<close>

lemma gate_verdict_success:
  "gate_verdict successes (replicate (unat (max successes 1)) (Succeeded ())) = Ready"
proof -
  have "unat (max successes 1) = max (unat successes) 1"
    by (auto simp: max_def word_le_nat_alt)
  then show ?thesis by (simp add: gate_verdict_Ready)
qed

end
