(* ===== verification/Recovery.thy ===== *)
theory Recovery
  imports Life_Cycle Gate
begin

text \<open>
  Progress: a boot that meets no fault and whose reconciler answers finishes whatever was
  interrupted, from every coherent state.  The other theories show that nothing a boot does is
  wrong; this one shows that it gets there.
\<close>

subsection \<open>Total correctness\<close>

abbreviation completes :: "('s, 'a) action \<Rightarrow> 's \<Rightarrow> ('a \<Rightarrow> 's \<Rightarrow> bool) \<Rightarrow> bool" where
  "completes m s Q \<equiv> run_ok m s Q (\<lambda>_ _. False) (\<lambda>_. False)"

lemma completes_iff: "completes m s Q \<longleftrightarrow> (\<exists>x s'. m s = (Ok x, s') \<and> Q x s')"
  by (cases "m s"; cases "fst (m s)") (auto simp: run_ok_def)

lemma completes_bindI:
  "completes m s Q' \<Longrightarrow> (\<And>x s'. Q' x s' \<Longrightarrow> completes (f x) s' Q) \<Longrightarrow> completes (bind_a m f) s Q"
  unfolding run_ok_bind by (auto simp: completes_iff)

lemma completes_weaken: "completes m s Q' \<Longrightarrow> (\<And>x s'. Q' x s' \<Longrightarrow> Q x s') \<Longrightarrow> completes m s Q"
  by (auto simp: completes_iff)

lemma completes_store:
  "completes m (wd_store w) (\<lambda>x s. Q x (w\<lparr> wd_store := s \<rparr>)) \<Longrightarrow> completes (store_a m) w Q"
  by (simp add: run_ok_store_a)

lemma completes_retried: "completes m w Q \<Longrightarrow> completes (retried B m) w Q"
proof -
  have "completes (recover_through_transients n m) w Q" if "completes m w Q" for n
    using that by (cases n) (auto simp: run_ok_handle run_ok_return elim!: run_ok_conseq)
  then show "completes m w Q \<Longrightarrow> ?thesis" by (simp add: retried_def)
qed

text \<open>No fault ahead, and a reconciler whose answers are all favourable.\<close>

definition quiet :: "world \<Rightarrow> bool" where
  "quiet w \<longleftrightarrow> st_faults (wd_store w) = [] \<and> wd_mutations w = [] \<and> wd_probes w = []"

lemma pop_fault_quiet: "st_faults s = [] \<Longrightarrow> pop_fault s = s"
  by (simp add: pop_fault_def)

lemma next_fault_quiet: "st_faults s = [] \<Longrightarrow> next_fault s = NoFault"
  by (simp add: next_fault_def)

lemmas quiet_store = pop_fault_quiet next_fault_quiet

subsection \<open>Steps of a driven rollback\<close>

text \<open>
  The rollback of \<open>t\<close> under way, with the same transaction \<open>m\<close> in memory and on disk.
\<close>

definition driving ::
  "ext \<Rightarrow> Transaction \<Rightarrow> InstalledState \<Rightarrow> ReleaseId \<Rightarrow> ledger \<Rightarrow> Transaction \<Rightarrow> world \<Rightarrow> bool" where
  "driving E t i a L m w \<longleftrightarrow> quiet w \<and> coherent_with E (wd_store w) i a
     \<and> st_journal (wd_store w) = Record m \<and> wd_tx w = Some m \<and> is_rollback m
     \<and> tx_identity m = tx_identity t
     \<and> tx_candidate_rejection_required m = tx_candidate_rejection_required t
     \<and> st_ledger (wd_store w) = L \<and> st_versions (wd_store w) (tx_previous_release t) = Inr ()"

lemma driving_journal:
  assumes "driving E t i a L m w"
  shows "transaction_validate E m = Inr ()" "phase_ok m i a" "store_journal E (wd_store w) = Inr (Some m)"
    "coherent_with E (wd_store w) i a" "quiet w"
  using assms coherent_journal [of E "wd_store w" i a] by (auto simp: driving_def)

lemma rollback_edge_evidence:
  "rollback_edge (tx_phase m) p \<Longrightarrow> phase_evidence_is_valid m \<Longrightarrow> phase_evidence_is_valid (m\<lparr> tx_phase := p \<rparr>)"
  by (auto simp: rollback_edge_def phase_evidence_is_valid_def)

lemma replace_check:
  assumes c: "coherent_with E s i a" and j: "st_journal s = Record m" "store_journal E s = Inr (Some m)"
    and v: "transaction_validate E m' = Inr ()" and step: "permits_replacement m m'"
    and phase: "tx_phase m' \<noteq> Committed" "tx_phase m \<noteq> Committed"
  shows "write_journal_check E m' s = Inr ()"
proof -
  have "tx_id m = tx_id m'"
    using step mutable_step_identity tx_identity_sel by (metis permits_replacement_iff)
  then show ?thesis
    using assms coherent_reads [OF c]
    by (simp add: write_journal_check_def ensure_exclusive_journal_def check_def)
qed

lemma advance_journaled:
  assumes q: "quiet w" and c: "coherent_with E (wd_store w) i a"
    and j: "st_journal (wd_store w) = Record m" "transaction_validate E m = Inr ()"
    and edge: "phase_edge (tx_phase m) p" "p \<noteq> Committed" and m': "m' = m\<lparr> tx_phase := p \<rparr>"
    and ev: "phase_evidence_is_valid m'" and ready: "write_ready m' i a"
  shows "advance_transaction E m p w =
      (Ok m', w\<lparr> wd_tx := Some m', wd_store := (wd_store w)\<lparr> st_journal := Record m' \<rparr> \<rparr>)"
    and "coherent_with E ((wd_store w)\<lparr> st_journal := Record m' \<rparr>) i a"
proof -
  have adv: "advance m p = (Inr (), m')" using edge ev m' by (simp add: advance_cases)
  have v: "transaction_validate E m' = Inr ()" using j(2) ev m' by (simp add: transaction_validate_Inr)
  have step: "permits_replacement m m'"
    using edge ev m' by (auto simp: permits_replacement_iff mutable_step_def)
  have phases: "tx_phase m' \<noteq> Committed" "tx_phase m \<noteq> Committed"
    using edge m' by (auto simp: phase_edge_def edge_defs)
  have sj: "store_journal E (wd_store w) = Inr (Some m)" using c j(1) by (cases rule: coherent_journal) auto
  note chk = replace_check [OF c j(1) sj v step phases]
  show "advance_transaction E m p w =
      (Ok m', w\<lparr> wd_tx := Some m', wd_store := (wd_store w)\<lparr> st_journal := Record m' \<rparr> \<rparr>)"
    using adv q journal_w.fault_free [OF chk]
    by (simp add: advance_transaction_def bind_a_def persist_transaction_def store_a_def
        return_a_def quiet_def quiet_store)
  show "coherent_with E ((wd_store w)\<lparr> st_journal := Record m' \<rparr>) i a"
    by (rule write_journal_coherent [OF c chk ready])
qed

lemma advance_completes:
  assumes d: "driving E t i a L m w" and edge: "rollback_edge (tx_phase m) p"
    and restored: "p = Restored \<Longrightarrow> a = tx_previous_release t"
  shows "completes (advance_transaction E m p) w (\<lambda>x w'. x = m\<lparr> tx_phase := p \<rparr> \<and> driving E t i a L x w')"
proof -
  let ?m = "m\<lparr> tx_phase := p \<rparr>"
  note j = driving_journal [OF d]
  have jr: "st_journal (wd_store w) = Record m" using d unfolding driving_def by blast
  have prev: "tx_previous_release m = tx_previous_release t"
    using d tx_identity_sel unfolding driving_def by blast
  have e: "phase_edge (tx_phase m) p" "p \<noteq> Committed" using edge by (auto simp: phase_edge_def rollback_edge_def)
  have ev: "phase_evidence_is_valid ?m"
    using rollback_edge_evidence [OF edge] j(1) by (simp add: transaction_validate_Inr)
  have "write_ready ?m i a"
    using edge restored prev by (auto simp: write_ready_def rollback_edge_def)
  note adv = advance_journaled [OF j(5,4) jr j(1) e refl ev this]
  from adv(2) have "driving E t i a L ?m (w\<lparr> wd_tx := Some ?m, wd_store := (wd_store w)\<lparr> st_journal := Record ?m \<rparr> \<rparr>)"
    using d edge by (auto simp: driving_def quiet_def is_rollback_def rollback_edge_def)
  then show ?thesis using adv(1) by (simp add: completes_iff)
qed

lemma mutation_completes:
  assumes "quiet w"
  shows "completes (run_reconciler_mutation port op att c p) w
    (\<lambda>x w'. x = NoAction \<and> quiet w' \<and> wd_store w' = wd_store w \<and> wd_tx w' = wd_tx w)"
  using assms by (simp add: completes_iff run_reconciler_mutation_def bind_a_def mutate_def return_a_def quiet_def)

lemma gate_completes:
  assumes "quiet w"
  shows "completes (became_healthy V port att c p) w
    (\<lambda>x w'. x = Ready \<and> quiet w' \<and> wd_store w' = wd_store w \<and> wd_tx w' = wd_tx w)"
  using assms by (simp add: completes_iff became_healthy_def quiet_def gate_verdict_success)

lemma driving_world:
  "driving E t i a L m w \<Longrightarrow> quiet w' \<and> wd_store w' = wd_store w \<and> wd_tx w' = wd_tx w \<Longrightarrow> driving E t i a L m w'"
  by (simp add: driving_def)

lemma compensation_completes:
  assumes d: "driving E t i a L m w"
  shows "completes (complete_candidate_compensation E) w
    (\<lambda>x w'. x = NoAction \<and> (\<exists>m. driving E t i a L m w' \<and> tx_phase m \<noteq> RollbackPlanned))"
proof -
  have tx: "wd_tx w = Some m" using d unfolding driving_def by blast
  show ?thesis
  proof (cases "recovery_pending m CandidateCompensated")
    case False
    then show ?thesis
      using d by (auto simp: complete_candidate_compensation_def run_ok_with_tx tx run_ok_return pending_iff)
  next
    case True
    then have edge: "rollback_edge (tx_phase m) CandidateCompensated"
      by (simp add: pending_iff rollback_edge_def)
    show ?thesis
      unfolding complete_candidate_compensation_def run_ok_with_tx tx option.case if_not_P [OF not_not [THEN iffD2, OF True]]
    proof (rule completes_bindI [OF mutation_completes [OF driving_journal(5) [OF d]]])
      fix x w' assume x: "x = NoAction \<and> quiet w' \<and> wd_store w' = wd_store w \<and> wd_tx w' = wd_tx w"
      then have "driving E t i a L m w'" using driving_world [OF d] by blast
      from advance_completes [OF this edge]
      show "completes (bind_a (advance_transaction E m CandidateCompensated) (\<lambda>_. return_a x)) w'
          (\<lambda>x w'. x = NoAction \<and> (\<exists>m. driving E t i a L m w' \<and> tx_phase m \<noteq> RollbackPlanned))"
        by (rule completes_bindI, simp) (use x in \<open>auto simp: run_ok_return intro!: exI [of _ "m\<lparr> tx_phase := CandidateCompensated \<rparr>"]\<close>)
    qed
  qed
qed

text \<open>What the verdict owed by a transaction needs of the ledger, and what recording it leaves.\<close>

definition verdict_fits :: "Transaction \<Rightarrow> ledger \<Rightarrow> bool" where
  "verdict_fits t L \<longleftrightarrow> ledger_inv L \<and> (tx_candidate_rejection_required t \<longrightarrow>
     length (rej_hashes (led_live L)) < MAX_REJECTION_KEYS
     \<or> is_rejected (led_live L) (lineage_rejection_key (tx_candidate_repository_lineage t) (tx_candidate_rejection_sha256 t)))"

definition verdict_durable :: "Transaction \<Rightarrow> store \<Rightarrow> bool" where
  "verdict_durable t s \<longleftrightarrow> (tx_candidate_rejection_required t \<longrightarrow>
     rejection_is_durable s (tx_candidate_repository_lineage t) (tx_candidate_rejection_sha256 t))"

definition verdicts :: "Transaction \<Rightarrow> (RepositoryLineage \<times> string) list" where
  "verdicts t = (if tx_candidate_rejection_required t
     then [(tx_candidate_repository_lineage t, tx_candidate_rejection_sha256 t)] else [])"

lemma verdict_ledger:
  "st_ledger s' = st_ledger s \<Longrightarrow> verdict_durable t s' = verdict_durable t s"
  by (simp add: verdict_durable_def rejection_is_durable_def split: sum.split)

lemma persist_completes:
  assumes "keys_ok (rej_hashes (led_live L))"
  obtains L' where "persist NoFault L = (Ok (), L')"
  using save_text_bounded [OF assms]
  by (auto simp: persist_def save_def Let_def apply_fault_def outcome_simps)

lemma reject_completes:
  assumes "ledger_inv L" and "is_rejection_key key"
    and "length (rej_hashes (led_live L)) < MAX_REJECTION_KEYS \<or> is_rejected (led_live L) key"
  obtains L' where "reject NoFault key L = (Ok (), L')" "is_durably_rejected (led_live L') key"
proof -
  have keys: "keys_ok (rej_hashes (led_live L))" using assms(1) by (auto simp: ledger_inv_def)
  have "\<exists>L'. reject NoFault key L = (Ok (), L')"
  proof (cases "key \<in> set (rej_hashes (led_live L))")
    case True
    with assms(2) persist_completes [OF keys] show ?thesis by (auto simp: reject_def digest_key_def)
  next
    case False
    then have room: "length (rej_hashes (led_live L)) < MAX_REJECTION_KEYS"
      using assms(2,3) by (auto simp: is_rejected_def digest_key_def)
    have "keys_ok (rej_hashes (led_live (insert_hash key L)))"
      using keys_ok_insert(1) [OF keys assms(2) False room] by simp
    from persist_completes [OF this] show ?thesis
      using False room assms(2) by (auto simp: reject_def digest_key_def)
  qed
  then show thesis using that reject_inv [OF assms(1), of key NoFault] by auto
qed

lemma reject_all_completes:
  assumes q: "st_faults s = []" and v: "transaction_validate E t = Inr ()" and fits: "verdict_fits t (st_ledger s)"
  shows "completes (reject_all (verdicts t)) s (\<lambda>_ s'. (\<exists>L. s' = s\<lparr> st_ledger := L \<rparr>) \<and> verdict_durable t s')"
proof (cases "tx_candidate_rejection_required t")
  case True
  let ?l = "tx_candidate_repository_lineage t" and ?d = "tx_candidate_rejection_sha256 t"
  let ?key = "lineage_rejection_key ?l ?d"
  have key: "rejection_key ?l ?d = Inr ?key" "is_rejection_key ?key"
    using v rejection_key_lineage by (auto simp: rejection_key_def transaction_validate_Inr lineage_validate_def)
  obtain L where L: "reject NoFault ?key (st_ledger s) = (Ok (), L)" "is_durably_rejected (led_live L) ?key"
    using reject_completes [of "st_ledger s" ?key] fits key True by (auto simp: verdict_fits_def)
  then have "reject_artifact ?l ?d s = (Ok (), s\<lparr> st_ledger := L \<rparr>)"
    using q key by (simp add: reject_artifact_def record_rejection_def quiet_store)
  then show ?thesis
    using L(2) key True
    by (auto simp: completes_iff verdicts_def bind_a_def return_a_def verdict_durable_def rejection_is_durable_def)
qed (auto simp: verdicts_def verdict_durable_def run_ok_return intro!: exI [of _ "st_ledger s"])

lemma plan_completes:
  assumes d: "driving E t i a L m w" and phase: "tx_phase m \<noteq> RollbackPlanned"
    and plan: "rollback_plan t defer_commit plan" "pl_reject_candidate plan = verdicts t"
    and fits: "verdict_fits t L" and v: "transaction_validate E t = Inr ()"
  shows "completes (execute_boot_plan E plan defer_commit) w
    (\<lambda>g w'. g = ins_rollback_guard i \<and> (\<exists>L. driving E t i (tx_previous_release t) L m w')
       \<and> verdict_durable t (wd_store w'))"
proof -
  let ?prev = "tx_previous_release t" and ?s = "wd_store w"
  note j = driving_journal [OF d]
  have tx: "wd_tx w = Some m" and jr: "st_journal ?s = Record m" and q: "st_faults ?s = []"
    and id: "tx_identity m = tx_identity t" and roll: "is_rollback m"
    using d unfolding driving_def quiet_def by blast+
  have prev: "tx_previous_release m = ?prev" using tx_identity_sel [OF id] by blast
  have act: "completes (if recovery_pending m Restored then activate E ?prev else return_a ()) ?s
      (\<lambda>_ s. driving E t i ?prev L m (w\<lparr> wd_store := s \<rparr>))"
  proof (cases "recovery_pending m Restored")
    case True
    have chk: "store_verify_release E ?prev ?s = Inr ()"
      using d j(1) prev by (auto simp: store_verify_release_def driving_def transaction_validate_Inr)
    have "phase_ok m i ?prev" using rollback_phase_ok_previous [OF roll j(2)] prev by simp
    then have "coherent_with E (?s\<lparr> st_active := Record ?prev \<rparr>) i ?prev"
      using activate_coherent [OF j(4) chk] jr by simp
    then have "driving E t i ?prev L m (w\<lparr> wd_store := ?s\<lparr> st_active := Record ?prev \<rparr> \<rparr>)"
      using d by (auto simp: driving_def quiet_def)
    then show ?thesis
      using True active_w.fault_free [OF chk] q by (simp add: completes_iff quiet_store)
  next
    case False
    then have "a = ?prev"
      using j(2) roll prev by (cases "tx_phase m") (auto simp: pending_iff phase_ok_def Let_def is_rollback_def)
    then show ?thesis using False d by (simp add: run_ok_return driving_def quiet_def)
  qed
  have rest: "completes (reject_all (verdicts t)) s
      (\<lambda>_ s. (\<exists>L. driving E t i ?prev L m (w\<lparr> wd_store := s \<rparr>)) \<and> verdict_durable t s)"
    if dr: "driving E t i ?prev L m (w\<lparr> wd_store := s \<rparr>)" for s
  proof -
    have "st_faults s = []" "verdict_fits t (st_ledger s)"
      using dr fits by (auto simp: driving_def quiet_def)
    from reject_all_completes [OF this(1) v this(2)] show ?thesis
      by (rule completes_weaken) (use dr in \<open>auto simp: driving_def quiet_def\<close>)
  qed
  have "execute_store_plan E plan defer_commit (recovery_pending m Restored) =
      bind_a (if recovery_pending m Restored then activate E ?prev else return_a ())
        (\<lambda>_. reject_all (verdicts t))"
    using plan by (auto simp: execute_store_plan_def rollback_plan_def bind_return_a)
  then have "completes (execute_store_plan E plan defer_commit (recovery_pending m Restored)) ?s
      (\<lambda>_ s. (\<exists>L. driving E t i ?prev L m (w\<lparr> wd_store := s \<rparr>)) \<and> verdict_durable t s)"
    using completes_bindI [OF act rest] by simp
  moreover have "installed_rollback_guard E s = Inr (ins_rollback_guard i)"
    if "driving E t i b L' m (w\<lparr> wd_store := s \<rparr>)" for s b L'
    using coherent_reads(1) [OF driving_journal(4) [OF that]] by (simp add: installed_rollback_guard_def)
  ultimately show ?thesis
    using phase tx
    by (auto simp: execute_boot_plan_def run_ok_with_tx run_ok_bind run_ok_store_a run_ok_read pending_iff
        elim!: completes_weaken)
qed

lemma activation_completes:
  assumes d: "driving E t i (tx_previous_release t) L m w" and phase: "tx_phase m \<noteq> RollbackPlanned"
  shows "completes (complete_recovery_activation E) w (\<lambda>x w'. x = NoAction
    \<and> (\<exists>m. driving E t i (tx_previous_release t) L m w' \<and> \<not> recovery_pending m Restored))"
proof -
  let ?D = "driving E t i (tx_previous_release t) L"
  have tx: "wd_tx w = Some m" using d unfolding driving_def by blast
  have adv: "completes (if recovery_pending m Restored
      then bind_a (advance_transaction E m Restored) (\<lambda>_. return_a x) else return_a x) w'
      (\<lambda>x w'. x = NoAction \<and> (\<exists>m. ?D m w' \<and> \<not> recovery_pending m Restored))"
    if x: "x = NoAction \<and> quiet w' \<and> wd_store w' = wd_store w \<and> wd_tx w' = wd_tx w" for x w'
  proof -
    have dr: "?D m w'" using driving_world [OF d] x by blast
    show ?thesis
    proof (cases "recovery_pending m Restored")
      case True
      then have "rollback_edge (tx_phase m) Restored" using phase by (auto simp: pending_iff rollback_edge_def)
      from advance_completes [OF dr this refl]
      have "completes (bind_a (advance_transaction E m Restored) (\<lambda>_. return_a x)) w'
          (\<lambda>x w'. x = NoAction \<and> (\<exists>m. ?D m w' \<and> \<not> recovery_pending m Restored))"
        by (rule completes_bindI)
          (use x in \<open>auto simp: run_ok_return pending_iff intro!: exI [of _ "m\<lparr> tx_phase := Restored \<rparr>"]\<close>)
      then show ?thesis using True by simp
    qed (use dr x in \<open>auto simp: run_ok_return\<close>)
  qed
  show ?thesis
  proof (cases "recovery_pending m RolledBack")
    case True
    then show ?thesis
      unfolding complete_recovery_activation_def run_ok_with_tx tx
      using completes_bindI [OF mutation_completes [OF driving_journal(5) [OF d]] adv] by simp
  next
    case False
    then show ?thesis
      using d by (auto simp: complete_recovery_activation_def run_ok_with_tx tx run_ok_return pending_iff)
  qed
qed

lemma advance_pending_completes:
  assumes d: "driving E t i (tx_previous_release t) L m w" and p: "p \<in> {RollbackVerified, RolledBack}"
    and phase: "\<not> recovery_pending m Restored"
  shows "completes (advance_if_pending E p) w (\<lambda>_ w'.
    \<exists>m. driving E t i (tx_previous_release t) L m w' \<and> \<not> recovery_pending m Restored \<and> \<not> recovery_pending m p)"
proof -
  have tx: "wd_tx w = Some m" using d unfolding driving_def by blast
  show ?thesis
  proof (cases "recovery_pending m p")
    case True
    then have "rollback_edge (tx_phase m) p" using p phase by (auto simp: pending_iff rollback_edge_def)
    moreover have "p \<noteq> Restored" using p by auto
    ultimately have "completes (advance_transaction E m p) w (\<lambda>x w'. x = m\<lparr> tx_phase := p \<rparr> \<and>
        driving E t i (tx_previous_release t) L x w')"
      using advance_completes [OF d] by blast
    then have "completes (bind_a (advance_transaction E m p) (\<lambda>_. return_a ())) w (\<lambda>_ w'.
        \<exists>m. driving E t i (tx_previous_release t) L m w' \<and> \<not> recovery_pending m Restored \<and> \<not> recovery_pending m p)"
      by (rule completes_bindI)
        (use p in \<open>auto simp: run_ok_return pending_iff intro!: exI [of _ "m\<lparr> tx_phase := p \<rparr>"]\<close>)
    then show ?thesis using True by (simp add: advance_if_pending_def run_ok_with_tx tx)
  qed (use d phase in \<open>auto simp: advance_if_pending_def run_ok_with_tx tx run_ok_return\<close>)
qed

lemma predecessor_commit_check:
  assumes c: "coherent_with E s i (tx_previous_release m)" and j: "store_journal E s = Inr (Some m)"
    and v: "transaction_validate E m = Inr ()" and phase: "tx_phase m = RolledBack"
    and pos: "at_previous m i \<or> at_candidate m i"
  shows "commit_check E (predecessor_state m) s = Inr ()"
proof -
  note r = coherent_reads [OF c]
  have valid: "installed_validate E (predecessor_state m) = Inr ()"
    using v by (simp add: installed_validate_Inr predecessor_state_def transaction_validate_Inr)
  have "validate_installed_transition E (predecessor_state m) s = Inr ()"
    using pos
  proof
    assume "at_previous m i"
    then show ?thesis
      using r by (simp add: validate_installed_transition_def metadata_transition_is_authorized_def at_previous_def)
  next
    assume "at_candidate m i"
    then have "journal_transition_is_authorized E i (predecessor_state m) s = Inr True"
      using j phase at_candidate_sel [of m i] at_previous_sel [of m "predecessor_state m"]
      by (simp add: journal_transition_is_authorized_def at_previous_def)
    then show ?thesis using r by (simp add: validate_installed_transition_def)
  qed
  then show ?thesis using r valid by (simp add: commit_check_def predecessor_state_def)
qed

lemma predecessor_clear_check:
  assumes c: "coherent_with E s i (tx_previous_release m)" and j: "store_journal E s = Inr (Some m)"
    and phase: "tx_phase m = RolledBack" and i: "at_previous m i" and "verdict_durable m s"
  shows "clear_check E s = Inr ()"
  using assms coherent_reads [OF c] at_previous_sel(1) [OF i]
  by (auto simp: clear_check_def journal_may_discard_def verdict_durable_def)

subsection \<open>The driven rollback finishes\<close>

text \<open>A machine with nothing left to recover: no journal, and the pointer at the installed release.\<close>

definition recovered :: "ext \<Rightarrow> InstalledState \<Rightarrow> world \<Rightarrow> bool" where
  "recovered E i w \<longleftrightarrow> coherent_with E (wd_store w) i (ins_release i) \<and> st_journal (wd_store w) = Absent"

lemma clear_completes:
  assumes d: "driving E t (predecessor_state t) (tx_previous_release t) L m w" and phase: "tx_phase m = RolledBack"
    and durable: "verdict_durable t (wd_store w)"
  shows "completes (store_a (clear_journal E)) w
    (\<lambda>_ w'. recovered E (predecessor_state t) w' \<and> verdict_durable t (wd_store w'))"
proof -
  let ?s = "wd_store w"
  note j = driving_journal [OF d]
  have id: "tx_identity m = tx_identity t" "tx_candidate_rejection_required m = tx_candidate_rejection_required t"
    and q: "st_faults ?s = []"
    using d unfolding driving_def quiet_def by blast+
  note sel = tx_identity_sel [OF id(1)] positions_identity(3) [OF id(1)]
  have i: "at_previous m (predecessor_state t)" using sel by (simp add: at_previous_def)
  have c: "coherent_with E ?s (predecessor_state t) (tx_previous_release m)" using j(4) sel by simp
  have "verdict_durable m ?s" using durable id(2) sel by (simp add: verdict_durable_def)
  note chk = predecessor_clear_check [OF c j(3) phase i this]
  have "coherent_with E (?s\<lparr> st_journal := Absent \<rparr>) (predecessor_state t) (tx_previous_release t)"
    by (rule clear_journal_coherent [OF j(4) chk]) (use d phase in \<open>auto simp: driving_def\<close>)
  then show ?thesis
    using clear_w.fault_free [OF chk] q durable verdict_ledger [of "?s\<lparr> st_journal := Absent \<rparr>" ?s t]
    by (simp add: completes_iff store_a_def quiet_store recovered_def predecessor_state_def)
qed

lemma commit_completes:
  assumes d: "driving E t i (tx_previous_release t) L m w" and phase: "tx_phase m = RolledBack"
  shows "completes (bind_a (store_a (commit_installed E (predecessor_state t)))
      (\<lambda>_. store_a (read_a (installed_rollback_guard E)))) w
    (\<lambda>g w'. g = None \<and> driving E t (predecessor_state t) (tx_previous_release t) L m w')"
proof -
  let ?s = "wd_store w" and ?p = "predecessor_state t"
  note j = driving_journal [OF d]
  have id: "tx_identity m = tx_identity t" and q: "st_faults ?s = []" and roll: "is_rollback m"
    and jr: "st_journal ?s = Record m"
    using d unfolding driving_def quiet_def by blast+
  note sel = tx_identity_sel [OF id] positions_identity(3) [OF id]
  have c: "coherent_with E ?s i (tx_previous_release m)" using j(4) sel by simp
  have chk: "commit_check E ?p ?s = Inr ()"
    using predecessor_commit_check [OF c j(3,1) phase phase_ok_position [OF j(2)]] sel by simp
  have "phase_ok m ?p (tx_previous_release t)"
    using rollback_phase_ok_predecessor [OF roll j(2)] sel by simp
  then have c': "coherent_with E (?s\<lparr> st_installed := Record ?p \<rparr>) ?p (tx_previous_release t)"
    using commit_coherent [OF j(4) chk] jr by auto
  then have "driving E t ?p (tx_previous_release t) L m (w\<lparr> wd_store := ?s\<lparr> st_installed := Record ?p \<rparr> \<rparr>)"
    using d by (auto simp: driving_def quiet_def)
  then show ?thesis
    using commit_w.fault_free [OF chk] q coherent_reads(1) [OF c']
    by (simp add: completes_iff store_a_def bind_a_def read_a_def quiet_store installed_rollback_guard_def
        predecessor_state_def)
qed

lemma settle_completes:
  assumes d: "driving E t i (tx_previous_release t) L m w" and phase: "tx_phase m = RolledBack"
    and durable: "verdict_durable t (wd_store w)"
    and plan: "rollback_plan t defer_commit plan" "pl_clear_journal plan"
    and owed: "defer_commit \<or> at_previous t i"
  shows "completes (settle_boot E plan defer_commit (ins_rollback_guard i) gate_passed) w
    (\<lambda>r w'. r = Steady gate_passed None \<and> recovered E (predecessor_state t) w' \<and> verdict_durable t (wd_store w'))"
proof -
  have clear: "completes (bind_a (store_a (clear_journal E)) (\<lambda>_. return_a (Steady gate_passed g))) w'
      (\<lambda>r w'. r = Steady gate_passed None \<and> recovered E (predecessor_state t) w' \<and> verdict_durable t (wd_store w'))"
    if "g = None" and dr: "driving E t (predecessor_state t) (tx_previous_release t) L m w'" for g w'
  proof -
    have "st_ledger (wd_store w') = st_ledger (wd_store w)"
      using d dr unfolding driving_def by blast
    then have "verdict_durable t (wd_store w')" using durable verdict_ledger by blast
    from clear_completes [OF dr phase this] show ?thesis
      by (rule completes_bindI) (use that(1) in \<open>simp add: run_ok_return\<close>)
  qed
  show ?thesis
  proof (cases defer_commit)
    case True
    then show ?thesis
      using completes_bindI [OF commit_completes [OF d phase] clear] plan
      by (simp add: settle_boot_def rollback_plan_def)
  next
    case False
    then have "i = predecessor_state t" using owed by (simp add: at_previous_def)
    then show ?thesis
      using clear [of None w] d False plan(2) by (simp add: settle_boot_def bind_return_a predecessor_state_def)
  qed
qed

lemma finish_completes:
  assumes d: "driving E t i (tx_previous_release t) L m w" and phase: "\<not> recovery_pending m Restored"
    and durable: "verdict_durable t (wd_store w)"
    and plan: "rollback_plan t defer_commit plan" "pl_clear_journal plan"
    and owed: "defer_commit \<or> at_previous t i"
  shows "completes (finish_boot E B plan defer_commit (ins_rollback_guard i) True) w
    (\<lambda>r w'. r = Steady True None \<and> recovered E (predecessor_state t) w' \<and> verdict_durable t (wd_store w'))"
    (is "completes _ _ ?Q")
proof -
  let ?D = "driving E t i (tx_previous_release t) L"
  have keep: "verdict_durable t (wd_store w')" if "?D m' w'" for m' w'
    using that d durable verdict_ledger unfolding driving_def by metis
  have i: "is_proven i"
    using phase_ok_position [OF driving_journal(2) [OF d]] at_previous_sel(2) at_candidate_sel(2) by blast
  have "store_prove_provisional E (wd_store w) = (Ok False, wd_store w)"
    using prove_provisional_proven [OF driving_journal(4) [OF d] i] .
  then have "completes (store_a (store_prove_provisional E)) w (\<lambda>_ w'. ?D m w')"
    using d by (auto simp: completes_iff store_a_def)
  from completes_retried [OF this]
  have prove: "completes (bind_a (retried B (store_a (store_prove_provisional E))) (\<lambda>_. return_a ())) w (\<lambda>_ w'. ?D m w')"
    by (rule completes_bindI) (simp add: run_ok_return)
  have settle: "completes (settle_boot E plan defer_commit (ins_rollback_guard i) True) w' ?Q"
    if "?D m' w'" "\<not> recovery_pending m' Restored" "\<not> recovery_pending m' RolledBack" for m' w'
  proof -
    have "tx_phase m' = RolledBack"
      using that unfolding driving_def is_rollback_def by (cases "tx_phase m'") (auto simp: pending_iff)
    from settle_completes [OF that(1) this keep [OF that(1)] plan owed] show ?thesis .
  qed
  have final: "completes (bind_a (advance_if_pending E RolledBack)
      (\<lambda>_. settle_boot E plan defer_commit (ins_rollback_guard i) True)) w' ?Q"
    if "?D m' w'" "\<not> recovery_pending m' Restored" for m' w'
    by (rule completes_bindI [OF advance_pending_completes [OF that(1) _ that(2)]]) (use settle in auto)
  have verify: "completes (bind_a (advance_if_pending E RollbackVerified) (\<lambda>_.
      bind_a (advance_if_pending E RolledBack)
        (\<lambda>_. settle_boot E plan defer_commit (ins_rollback_guard i) True))) w' ?Q" if "?D m w'" for w'
    by (rule completes_bindI [OF advance_pending_completes [OF that _ phase]]) (use final in auto)
  show ?thesis
    unfolding finish_boot_def by (simp add: completes_bindI [OF prove verify])
qed

lemma gate_head_completes:
  assumes d: "driving E t i (tx_previous_release t) L m w" and phase: "\<not> recovery_pending m Restored"
    and durable: "verdict_durable t (wd_store w)"
    and plan: "rollback_plan t defer_commit plan" "pl_clear_journal plan"
    and owed: "defer_commit \<or> at_previous t i"
  shows "completes (boot_gate E B plan defer_commit (ins_rollback_guard i)) w
    (\<lambda>r w'. r = Steady True None \<and> recovered E (predecessor_state t) w' \<and> verdict_durable t (wd_store w'))"
    (is "completes _ _ ?Q")
proof -
  have tx: "wd_tx w = Some m" using d unfolding driving_def by blast
  have judge: "completes (judge_boot E B plan defer_commit (ins_rollback_guard i) i x) w' ?Q"
    if x: "x = Ready \<and> quiet w' \<and> wd_store w' = wd_store w \<and> wd_tx w' = wd_tx w" for x w'
  proof -
    have dr: "driving E t i (tx_previous_release t) L m w'" using driving_world [OF d] x by blast
    have "verdict_durable t (wd_store w')" using durable x by simp
    from finish_completes [OF dr phase this plan owed] show ?thesis
      using x by (simp add: judge_boot_def bind_return_a)
  qed
  have gate: "completes (gate_head E B plan defer_commit (ins_rollback_guard i) i (Some m)) w ?Q"
    unfolding gate_head_def Let_def
    using completes_bindI [OF gate_completes [OF driving_journal(5) [OF d]] judge] by (simp add: bind_return_a)
  have "completes (store_a (read_a (read_boot_head E))) w (\<lambda>x w'. x = i \<and> w' = w)"
    using read_boot_head_coherent [OF driving_journal(4) [OF d]] by (simp add: run_ok_store_a run_ok_read)
  from completes_retried [OF this] show ?thesis
    unfolding boot_gate_def by (rule completes_bindI) (use gate tx in \<open>simp add: run_ok_with_tx\<close>)
qed

lemma run_plan_completes:
  assumes d: "driving E t i a L m w" and v: "transaction_validate E t = Inr ()" and fits: "verdict_fits t L"
    and plan: "rollback_plan t defer_commit plan" "pl_reject_candidate plan = verdicts t" "pl_clear_journal plan"
    and owed: "defer_commit \<or> at_previous t i"
  shows "completes (run_plan E B plan defer_commit) w
    (\<lambda>r w'. r = Steady True None \<and> recovered E (predecessor_state t) w' \<and> verdict_durable t (wd_store w'))"
    (is "completes _ _ ?Q")
proof -
  let ?prev = "tx_previous_release t"
  have last: "completes (bind_a (retried B (complete_recovery_activation E)) (\<lambda>action.
      if action = Reboot then return_a Rebooting else boot_gate E B plan defer_commit g)) w' ?Q"
    if g: "g = ins_rollback_guard i" and dr: "driving E t i ?prev L' m' w'" and p: "tx_phase m' \<noteq> RollbackPlanned"
      and durable: "verdict_durable t (wd_store w')" for g L' m' w'
  proof (rule completes_bindI [OF completes_retried [OF activation_completes [OF dr p]]])
    fix x w'' assume x: "x = NoAction \<and> (\<exists>m. driving E t i ?prev L' m w'' \<and> \<not> recovery_pending m Restored)"
    then obtain m'' where m'': "driving E t i ?prev L' m'' w''" "\<not> recovery_pending m'' Restored" by blast
    have "verdict_durable t (wd_store w'')"
      using m''(1) dr durable verdict_ledger unfolding driving_def by metis
    from gate_head_completes [OF m'' this plan(1,3) owed] x g
    show "completes (if x = Reboot then return_a Rebooting else boot_gate E B plan defer_commit g) w'' ?Q" by simp
  qed
  have middle: "completes (bind_a (retried B (execute_boot_plan E plan defer_commit)) (\<lambda>pending.
      bind_a (retried B (complete_recovery_activation E)) (\<lambda>action.
      if action = Reboot then return_a Rebooting else boot_gate E B plan defer_commit pending))) w' ?Q"
    if dr: "driving E t i a L m' w'" and p: "tx_phase m' \<noteq> RollbackPlanned" for m' w'
    by (rule completes_bindI [OF completes_retried [OF plan_completes [OF dr p plan(1,2) fits v]]]) (use last p in blast)
  show ?thesis
    unfolding run_plan_def
    by (rule completes_bindI [OF completes_retried [OF compensation_completes [OF d]]]) (use middle in auto)
qed

lemma start_completes:
  assumes q: "quiet w" and c: "coherent_with E (wd_store w) i a"
    and j: "st_journal (wd_store w) = Record tx" "transaction_validate E tx = Inr ()"
    and ok: "phase_ok tx i a" and idle: "\<not> idle_phase tx i a"
    and tree: "st_versions (wd_store w) (tx_previous_release tx) = Inr ()"
  shows "completes (start_recovery E (situation_of i a (Some tx)) (Some tx)) w
    (\<lambda>_ w'. \<exists>m. driving E tx i a (st_ledger (wd_store w)) m w')"
proof (cases "is_rollback tx")
  case True
  then have "driving E tx i a (st_ledger (wd_store w)) tx (w\<lparr> wd_tx := Some tx \<rparr>)"
    using assms by (auto simp: driving_def quiet_def)
  then show ?thesis using True by (auto simp: start_recovery_def run_ok_simps)
next
  case False
  let ?tx = "tx\<lparr> tx_phase := RollbackPlanned \<rparr>" and ?w = "w\<lparr> wd_tx := Some tx \<rparr>"
  have edge: "phase_edge (tx_phase tx) RollbackPlanned"
    using False ok idle
    by (cases "tx_phase tx") (auto simp: phase_edge_def edge_defs is_rollback_def phase_ok_def Let_def idle_phase_def)
  have ev: "phase_evidence_is_valid ?tx"
    using j(2) False by (auto simp: transaction_validate_Inr phase_evidence_is_valid_def is_rollback_def)
  have q': "quiet ?w" and c': "coherent_with E (wd_store ?w) i a" and j': "st_journal (wd_store ?w) = Record tx"
    using q c j by (auto simp: quiet_def)
  have "write_ready ?tx i a" by (simp add: write_ready_def)
  note adv = advance_journaled [OF q' c' j' j(2) edge _ refl ev this]
  have "driving E tx i a (st_ledger (wd_store w)) ?tx
      (?w\<lparr> wd_tx := Some ?tx, wd_store := (wd_store ?w)\<lparr> st_journal := Record ?tx \<rparr> \<rparr>)"
    using adv(2) q tree by (auto simp: driving_def quiet_def is_rollback_def)
  then have "completes (advance_transaction E tx RollbackPlanned) ?w (\<lambda>_ w'. \<exists>m. driving E tx i a (st_ledger (wd_store w)) m w')"
    using adv(1) by (auto simp: completes_iff)
  then show ?thesis using False by (simp add: start_recovery_def run_ok_simps)
qed

lemma boot_gathers:
  assumes c: "coherent_with E (wd_store w) i a" and j: "store_journal E (wd_store w) = Inr j"
    and plan: "plan_boot (situation_of i a j) = Some plan" "\<not> pl_fail_closed plan" and inputs: "bt_inputs B = Inr True"
    and start: "completes (start_recovery E (situation_of i a j) (recovery_transaction (situation_of i a j))) w Q'"
    and run: "\<And>x w'. Q' x w' \<Longrightarrow> completes (run_plan E B plan
        (case recovery_transaction (situation_of i a j) of None \<Rightarrow> False | Some tx \<Rightarrow> is_rollback tx)) w' Q"
  shows "completes (boot E B) w Q"
proof -
  let ?d = "case recovery_transaction (situation_of i a j) of None \<Rightarrow> False | Some tx \<Rightarrow> is_rollback tx"
  have "completes (bind_a (read_a (\<lambda>_. bt_inputs B))
      (\<lambda>ready. if \<not> ready then return_a ShutDown else run_plan E B plan ?d)) w' Q" if "Q' x w'" for x w'
    using run [OF that] inputs by (simp add: run_ok_bind run_ok_read)
  from completes_bindI [OF start this]
  show ?thesis
    using gather_coherent [OF c j] plan
    by (simp add: boot_def Let_def run_ok_bind run_ok_store_a run_ok_read cong: if_cong)
qed

lemma boot_rollback_completes:
  assumes q: "quiet w" and c: "coherent_with E (wd_store w) i a"
    and j: "st_journal (wd_store w) = Record tx" and idle: "\<not> idle_phase tx i a"
    and tree: "st_versions (wd_store w) (tx_previous_release tx) = Inr ()"
    and fits: "verdict_fits tx (st_ledger (wd_store w))" and inputs: "bt_inputs B = Inr True"
  shows "completes (boot E B) w (\<lambda>r w'. r = Steady True None \<and> recovered E (predecessor_state tx) w'
    \<and> verdict_durable tx (wd_store w'))"
proof -
  have sj: "store_journal E (wd_store w) = Inr (Some tx)" and ok: "phase_ok tx i a"
      and v: "transaction_validate E tx = Inr ()"
    using c j by (cases rule: coherent_journal; simp)+
  from ok v idle obtain plan where plan: "plan_boot (situation_of i a (Some tx)) = Some plan"
    "\<not> pl_fail_closed plan" "recovery_transaction (situation_of i a (Some tx)) = Some tx"
    "rollback_plan tx (is_rollback tx) plan" "pl_reject_candidate plan = verdicts tx" "pl_clear_journal plan"
    unfolding verdicts_def by (rule plan_rollback)
  have owed: "is_rollback tx \<or> at_previous tx i"
    using ok idle by (cases "tx_phase tx") (auto simp: is_rollback_def phase_ok_def Let_def idle_phase_def)
  have start: "completes (start_recovery E (situation_of i a (Some tx))
      (recovery_transaction (situation_of i a (Some tx)))) w
      (\<lambda>_ w'. \<exists>m. driving E tx i a (st_ledger (wd_store w)) m w')"
    unfolding plan(3) by (rule start_completes [OF q c j v ok idle tree])
  show ?thesis
    by (rule boot_gathers [OF c sj plan(1,2) inputs start])
      (use run_plan_completes [OF _ v fits plan(4-6) owed] plan(3) in auto)
qed

subsection \<open>The boot with no rollback to drive\<close>

definition settled :: "ext \<Rightarrow> Transaction option \<Rightarrow> InstalledState \<Rightarrow> world \<Rightarrow> bool" where
  "settled E j i w \<longleftrightarrow> quiet w \<and> idle E j i (ins_release i) w
     \<and> (\<forall>tx. j = Some tx \<longrightarrow> verdict_durable tx (wd_store w) \<and> (tx_phase tx = RolledBack \<longrightarrow> at_previous tx i))"

definition settled_head :: "Transaction option \<Rightarrow> InstalledState \<Rightarrow> InstalledState" where
  "settled_head j i = (case j of
       Some tx \<Rightarrow> if tx_phase tx = RolledBack then predecessor_state tx else i
     | None \<Rightarrow> i)"

lemma settled_world:
  "settled E j i w \<Longrightarrow> quiet w' \<and> wd_store w' = wd_store w \<and> wd_tx w' = wd_tx w \<Longrightarrow> settled E j i w'"
  by (simp add: settled_def idle_def)

lemma idle_journal:
  assumes "idle E j i a w"
  shows "coherent_with E (wd_store w) i a" "store_journal E (wd_store w) = Inr j"
    and "j = Some tx \<Longrightarrow> transaction_validate E tx = Inr () \<and> phase_ok tx i a"
  using assms coherent_journal [of E "wd_store w" i a]
  by (auto simp: idle_def split: option.splits)

lemma idle_release:
  assumes "idle E j i a w" and "\<And>tx. j = Some tx \<Longrightarrow> tx_phase tx = RolledBack \<Longrightarrow> at_previous tx i"
  shows "a = ins_release i"
proof (cases j)
  case None
  then show ?thesis using assms(1) by (auto simp: idle_def coherent_with_def)
next
  case (Some tx)
  then show ?thesis
    using assms at_previous_sel(4) [of tx i] at_candidate_sel(3) [of tx i]
    by (auto simp: idle_def idle_phase_def)
qed

lemma idle_plan_completes:
  assumes w: "idle E j i a w" and q: "quiet w" and plan: "idle_plan j plan"
    and fits: "\<And>tx. j = Some tx \<Longrightarrow> verdict_fits tx (st_ledger (wd_store w))"
  shows "completes (execute_boot_plan E plan False) w
    (\<lambda>g w'. g = ins_rollback_guard (settled_head j i) \<and> settled E j (settled_head j i) w')"
proof -
  let ?s = "wd_store w" and ?i = "settled_head j i"
  note c = idle_journal [OF w]
  have tx: "wd_tx w = None" and f: "st_faults ?s = []" using w q by (auto simp: idle_def quiet_def)
  have commit: "completes (case pl_commit plan of None \<Rightarrow> return_a () | Some state \<Rightarrow> commit_installed E state) ?s
      (\<lambda>_ s'. idle E j ?i a (w\<lparr> wd_store := s' \<rparr>) \<and> st_ledger s' = st_ledger ?s \<and> st_faults s' = [])"
  proof (cases "pl_commit plan")
    case None
    then have "?i = i" using plan by (auto simp: idle_plan_def settled_head_def split: option.splits if_splits)
    then show ?thesis using None w f by (simp add: run_ok_return)
  next
    case (Some st)
    then obtain t where t: "j = Some t" "tx_phase t = RolledBack" "st = predecessor_state t"
      using plan by (auto simp: idle_plan_def split: option.splits if_splits)
    then have i: "?i = st" by (simp add: settled_head_def)
    have ip: "idle_phase t i a" and a: "a = tx_previous_release t"
      using w t by (auto simp: idle_def idle_phase_def)
    have v: "transaction_validate E t = Inr ()" "at_previous t i \<or> at_candidate t i"
      using c(3) [OF t(1)] phase_ok_position by blast+
    have c': "coherent_with E ?s i (tx_previous_release t)" using c(1) a by simp
    have chk: "commit_check E st ?s = Inr ()"
      using predecessor_commit_check [OF c' _ v(1) t(2) v(2)] c(2) t by simp
    have "idle E j st a (w\<lparr> wd_store := ?s\<lparr> st_installed := Record st \<rparr> \<rparr>)"
      using commit_coherent [OF c(1) chk] w idle_phase_predecessor [OF t(2) ip] t by (auto simp: idle_def)
    then show ?thesis
      using Some i commit_w.fault_free [OF chk] f by (simp add: completes_iff quiet_store)
  qed
  have reject: "completes (reject_all (pl_reject_candidate plan)) s' (\<lambda>_ s''. settled E j ?i (w\<lparr> wd_store := s'' \<rparr>))"
    if s': "idle E j ?i a (w\<lparr> wd_store := s' \<rparr>) \<and> st_ledger s' = st_ledger ?s \<and> st_faults s' = []" for s'
  proof -
    have undone: "j = Some tx \<Longrightarrow> tx_phase tx = RolledBack \<Longrightarrow> at_previous tx ?i" for tx
      by (simp add: settled_head_def at_previous_def)
    have a: "a = ins_release ?i" using idle_release s' undone by blast
    have done': "settled E j ?i (w\<lparr> wd_store := s'\<lparr> st_ledger := L \<rparr> \<rparr>)"
      if "\<And>tx. j = Some tx \<Longrightarrow> verdict_durable tx (s'\<lparr> st_ledger := L \<rparr>)" for L
      using that s' undone a q by (auto simp: settled_def idle_def quiet_def)
    show ?thesis
    proof (cases j)
      case None
      then show ?thesis
        using done' [of "st_ledger s'"] plan by (simp add: idle_plan_def run_ok_return)
    next
      case (Some t)
      then have "pl_reject_candidate plan = verdicts t" using plan by (simp add: idle_plan_def verdicts_def)
      moreover have "verdict_fits t (st_ledger s')" using fits [OF Some] s' by simp
      ultimately show ?thesis
        using reject_all_completes [of s' E t] s' c(3) [OF Some] done' Some
        by (auto elim!: completes_weaken)
    qed
  qed
  have "completes (execute_store_plan E plan False True) ?s (\<lambda>_ s''. settled E j ?i (w\<lparr> wd_store := s'' \<rparr>))"
    using completes_bindI [OF commit reject] plan by (simp add: execute_store_plan_def idle_plan_def bind_return_a)
  moreover have "installed_rollback_guard E s'' = Inr (ins_rollback_guard ?i)"
    if "settled E j ?i (w\<lparr> wd_store := s'' \<rparr>)" for s''
    using that coherent_reads(1) [of E s'' ?i] by (auto simp: settled_def idle_def installed_rollback_guard_def)
  ultimately show ?thesis
    unfolding execute_boot_plan_def run_ok_with_tx tx Let_def run_ok_bind run_ok_store_a
    by (auto simp: run_ok_read elim!: completes_weaken)
qed

lemma prove_completes:
  assumes w: "settled E j i w"
  shows "completes (store_a (store_prove_provisional E)) w (\<lambda>_ w'. settled E j (snd (prove_provisional i)) w')"
proof -
  let ?s = "wd_store w" and ?i = "snd (prove_provisional i)"
  have id: "idle E j i (ins_release i) w" and q: "st_faults ?s = []"
    using w by (auto simp: settled_def quiet_def)
  note c = idle_journal [OF id]
  show ?thesis
  proof (cases "is_proven i")
    case True
    then have "?i = i" by (cases i) (simp add: prove_provisional_def is_proven_def)
    then show ?thesis
      using w prove_provisional_proven [OF c(1) True] by (auto simp: completes_iff store_a_def)
  next
    case False
    then have j: "j = None" using id idle_proven by (cases j) auto
    have guard: "ins_rollback_guard i = None" and v: "installed_validate E ?i = Inr ()"
      using coherent_reads(7) [OF c(1)] False
      by (auto simp: installed_validate_Inr prove_provisional_def is_proven_def)
    have chk: "commit_check E ?i ?s = Inr ()"
      using coherent_reads [OF c(1)] v guard False
      by (auto simp: commit_check_def validate_installed_transition_def metadata_transition_is_authorized_def
          prove_provisional_def is_proven_def)
    have "coherent_with E (?s\<lparr> st_installed := Record ?i \<rparr>) ?i (ins_release i)"
      using commit_coherent [OF c(1) chk] id j by (simp add: idle_def)
    then have "settled E j ?i (w\<lparr> wd_store := ?s\<lparr> st_installed := Record ?i \<rparr> \<rparr>)"
      using w j by (auto simp: settled_def idle_def quiet_def prove_provisional_def)
    moreover obtain i' where "prove_provisional i = (True, i')"
      using False by (cases "ins_maturity i") (simp_all add: prove_provisional_def is_proven_def)
    ultimately show ?thesis
      using commit_w.fault_free [OF chk] q coherent_reads(1) [OF c(1)]
      by (auto simp: completes_iff store_a_def store_prove_provisional_def read_a_def bind_a_def return_a_def quiet_store)
  qed
qed

lemma idle_clear_completes:
  assumes w: "settled E (Some tx) i w"
  shows "completes (store_a (clear_journal E)) w
    (\<lambda>_ w'. recovered E i w' \<and> verdict_durable tx (wd_store w'))"
proof -
  let ?s = "wd_store w"
  have id: "idle E (Some tx) i (ins_release i) w" and q: "st_faults ?s = []" and vd: "verdict_durable tx ?s"
    and undone: "tx_phase tx = RolledBack \<Longrightarrow> at_previous tx i"
    using w by (auto simp: settled_def quiet_def)
  note c = idle_journal [OF id]
  have v: "phase_evidence_is_valid tx" "phase_ok tx i (ins_release i)" using c(3) by (auto simp: transaction_validate_Inr)
  have ph: "idle_phase tx i (ins_release i)" using id by (simp add: idle_def)
  have fwd: "forward_commit_is_durable tx i" if p: "tx_phase tx \<in> {Converged, Verified, Committed}"
  proof -
    have cand: "at_candidate tx i" using p ph by (auto simp: idle_phase_def)
    then have "\<not> at_previous tx i"
      using at_previous_not_candidate [of E tx i] at_candidate_sel(1) c(3) by blast
    then have "\<not> tx_candidate_rejection_required tx"
      using p v by (auto simp: phase_ok_def Let_def phase_evidence_is_valid_def)
    then show ?thesis using cand forward_durable_iff [OF coherent_reads(7) [OF c(1)]] by blast
  qed
  have chk: "clear_check E ?s = Inr ()"
    using coherent_reads [OF c(1)] c(2) vd ph fwd undone at_previous_sel(1) [of tx i]
    by (auto simp: clear_check_def journal_may_discard_def verdict_durable_def idle_phase_def split: if_splits)
  have "coherent_with E (?s\<lparr> st_journal := Absent \<rparr>) i (ins_release i)"
    by (rule clear_journal_coherent [OF c(1) chk]) (use idle_prepared [OF id] in blast)
  then show ?thesis
    using clear_w.fault_free [OF chk] q vd verdict_ledger [of "?s\<lparr> st_journal := Absent \<rparr>" ?s tx]
    by (simp add: completes_iff store_a_def quiet_store recovered_def)
qed

abbreviation idle_done :: "ext \<Rightarrow> Transaction option \<Rightarrow> InstalledState \<Rightarrow> boot_result \<Rightarrow> world \<Rightarrow> bool" where
  "idle_done E j i r w \<equiv> r = Steady True (ins_rollback_guard i) \<and> recovered E (snd (prove_provisional i)) w
     \<and> (\<forall>tx. j = Some tx \<longrightarrow> verdict_durable tx (wd_store w))"

lemma idle_finish_completes:
  assumes w: "settled E j i w" and plan: "idle_plan j plan"
  shows "completes (finish_boot E B plan False (ins_rollback_guard i) True) w (idle_done E j i)"
proof -
  let ?i = "snd (prove_provisional i)"
  have prove: "completes (bind_a (retried B (store_a (store_prove_provisional E))) (\<lambda>_. return_a ())) w
      (\<lambda>_. settled E j ?i)"
    by (rule completes_bindI [OF completes_retried [OF prove_completes [OF w]]]) (simp add: run_ok_return)
  have skip: "completes (bind_a (advance_if_pending E p) f) w' Q \<longleftrightarrow> completes (f ()) w' Q"
    if "settled E j ?i w'" for w' p Q and f :: "unit \<Rightarrow> (world, boot_result) action"
    using that by (simp add: advance_if_pending_def run_ok_with_tx run_ok_bind run_ok_return settled_def idle_def)
  have "completes (settle_boot E plan False (ins_rollback_guard i) True) w' (idle_done E j i)"
    if w': "settled E j ?i w'" for w'
  proof (cases j)
    case None
    then have "recovered E ?i w'" using w' by (simp add: settled_def idle_def recovered_def)
    then show ?thesis using None plan by (simp add: settle_boot_def bind_return_a run_ok_return idle_plan_def)
  next
    case (Some tx)
    have "completes (bind_a (store_a (clear_journal E)) (\<lambda>_. return_a (Steady True (ins_rollback_guard i)))) w'
        (idle_done E j i)"
      by (rule completes_bindI [OF idle_clear_completes [of E tx ?i]]) (use w' Some in \<open>auto simp: run_ok_return\<close>)
    then show ?thesis using Some plan by (simp add: settle_boot_def bind_return_a idle_plan_def)
  qed
  then have "completes (bind_a (advance_if_pending E RollbackVerified) (\<lambda>_. bind_a (advance_if_pending E RolledBack)
      (\<lambda>_. settle_boot E plan False (ins_rollback_guard i) True))) w' (idle_done E j i)" if "settled E j ?i w'" for w'
    using that by (simp add: skip)
  from completes_bindI [OF prove this] show ?thesis by (simp add: finish_boot_def)
qed

lemma idle_gate_completes:
  assumes w: "settled E j i w" and plan: "idle_plan j plan"
  shows "completes (boot_gate E B plan False (ins_rollback_guard i)) w (idle_done E j i)"
proof -
  have none: "wd_tx w = None" and q: "quiet w" using w by (auto simp: settled_def idle_def)
  have judge: "completes (judge_boot E B plan False (ins_rollback_guard i) i x) w' (idle_done E j i)"
    if "x = Ready \<and> settled E j i w'" for x w'
    using that idle_finish_completes [OF _ plan] by (simp add: judge_boot_def bind_return_a)
  have gate: "completes (bind_a (became_healthy V port att c p) (judge_boot E B plan False (ins_rollback_guard i) i))
      w' (idle_done E j i)" if w': "settled E j i w'" for w' V port att c p
    by (rule completes_bindI [OF gate_completes]) (use w' settled_world [OF w'] judge in \<open>auto simp: settled_def\<close>)
  have "completes (boot_converge B port target) w (\<lambda>x w'. x = Inr NoAction \<and> settled E j i w')" for port target
    unfolding boot_converge_def
    by (rule completes_retried)
      (use w q settled_world [OF w] in \<open>auto simp: completes_iff bind_a_def mutate_def return_a_def quiet_def\<close>)
  then have "completes (gate_head E B plan False (ins_rollback_guard i) i None) w (idle_done E j i)"
    unfolding gate_head_def Let_def by (simp only: if_P) (rule completes_bindI, assumption, simp add: gate)
  moreover have read: "completes (store_a (read_a (read_boot_head E))) w (\<lambda>x w'. x = i \<and> w' = w)"
    using w read_boot_head_coherent [of E "wd_store w" i] by (auto simp: settled_def idle_def run_ok_store_a run_ok_read)
  ultimately show ?thesis
    unfolding boot_gate_def using none
    by (intro completes_bindI [OF completes_retried [OF read]]) (auto simp: run_ok_with_tx)
qed

lemma boot_idle_completes:
  assumes w: "idle E j i a (w\<lparr> wd_tx := None \<rparr>)" and q: "quiet w"
    and fits: "\<And>tx. j = Some tx \<Longrightarrow> verdict_fits tx (st_ledger (wd_store w))"
    and plan: "plan_boot (situation_of i a j) = Some plan" "\<not> pl_fail_closed plan"
      "recovery_transaction (situation_of i a j) = None" "idle_plan j plan"
    and inputs: "bt_inputs B = Inr True"
  shows "completes (boot E B) w (idle_done E j (settled_head j i))"
proof -
  let ?w = "w\<lparr> wd_tx := None \<rparr>" and ?i = "settled_head j i"
  have c: "coherent_with E (wd_store w) i a" "store_journal E (wd_store w) = Inr j"
    using idle_journal [OF w] by auto
  have q': "quiet ?w" using q by (simp add: quiet_def)
  have skip: "completes (retried B (complete_candidate_compensation E)) w' (\<lambda>x w''. x = NoAction \<and> w'' = w')"
      "completes (retried B (complete_recovery_activation E)) w' (\<lambda>x w''. x = NoAction \<and> w'' = w')"
    if "wd_tx w' = None" for w'
    by (rule completes_retried, simp add: complete_candidate_compensation_def complete_recovery_activation_def
        run_ok_with_tx that run_ok_return)+
  have last: "completes (bind_a (retried B (complete_recovery_activation E)) (\<lambda>action.
      if action = Reboot then return_a Rebooting else boot_gate E B plan False g)) w' (idle_done E j ?i)"
    if "g = ins_rollback_guard ?i \<and> settled E j ?i w'" for g w'
    by (rule completes_bindI [OF skip(2)]) (use that idle_gate_completes [OF _ plan(4)] in \<open>auto simp: settled_def idle_def\<close>)
  have "completes (retried B (execute_boot_plan E plan False)) ?w
      (\<lambda>g w'. g = ins_rollback_guard ?i \<and> settled E j ?i w')"
    by (rule completes_retried [OF idle_plan_completes [OF w q' plan(4)]]) (use fits in auto)
  from completes_bindI [OF this last]
  have run: "completes (run_plan E B plan False) ?w (idle_done E j ?i)"
    unfolding run_plan_def by (intro completes_bindI [OF skip(1)]) auto
  have "completes (start_recovery E (situation_of i a j) (recovery_transaction (situation_of i a j))) w (\<lambda>_ w'. w' = ?w)"
    by (simp add: start_recovery_def plan(3) run_ok_simps)
  from boot_gathers [OF c plan(1,2) inputs this] show ?thesis using run plan(3) by simp
qed

subsection \<open>Every interrupted update recovers\<close>

text \<open>
  The installed record a recovery must end with: the candidate when its commit had landed, otherwise
  the exact predecessor; a head without a journal is confirmed.
\<close>

definition recovery_head :: "Transaction slot \<Rightarrow> InstalledState \<Rightarrow> InstalledState" where
  "recovery_head j i = (case j of
       Record tx \<Rightarrow> if tx_phase tx \<in> {Converged, Verified, Committed} \<and> matches_candidate tx i
                    then i else predecessor_state tx
     | _ \<Rightarrow> i\<lparr> ins_maturity := Proven \<rparr>)"

lemma boot_completes:
  assumes c: "coherent_with E (wd_store w) i a" and q: "quiet w" and inputs: "bt_inputs B = Inr True"
    and owes: "\<And>tx. st_journal (wd_store w) = Record tx \<Longrightarrow>
      st_versions (wd_store w) (tx_previous_release tx) = Inr () \<and> verdict_fits tx (st_ledger (wd_store w))"
  defines "head \<equiv> recovery_head (st_journal (wd_store w)) i"
  shows "completes (boot E B) w (\<lambda>r w'. r = Steady True (ins_rollback_guard head) \<and> recovered E head w'
    \<and> is_proven head \<and> (\<forall>tx. st_journal (wd_store w) = Record tx \<longrightarrow> verdict_durable tx (wd_store w')))"
  using c
proof (cases rule: coherent_journal)
  case 1
  obtain plan where plan: "plan_boot (situation_of i a None) = Some plan" "\<not> pl_fail_closed plan"
      "recovery_transaction (situation_of i a None) = None" "idle_plan None plan"
    using 1(3) by (rule plan_absent)
  have "idle E None i a (w\<lparr> wd_tx := None \<rparr>)" using c 1 by (simp add: idle_def)
  from boot_idle_completes [OF this q _ plan inputs] show ?thesis
    using 1(1) by (simp add: head_def recovery_head_def settled_head_def prove_provisional_def is_proven_def)
next
  case (2 tx)
  show ?thesis
  proof (cases "idle_phase tx i a")
    case False
    have "head = predecessor_state tx"
      using False 2(1,3) at_previous_not_candidate [OF 2(4), of i] at_candidate_sel(1) [of tx i]
      by (cases "tx_phase tx") (auto simp: head_def recovery_head_def idle_phase_def phase_ok_def Let_def)
    moreover have "ins_rollback_guard (predecessor_state tx) = None" "is_proven (predecessor_state tx)"
      by (simp_all add: predecessor_state_def is_proven_def)
    ultimately show ?thesis
      using boot_rollback_completes [OF q c 2(1) False _ _ inputs] owes [OF 2(1)] 2(1)
      by (auto elim!: completes_weaken)
  next
    case True
    have w: "idle E (Some tx) i a (w\<lparr> wd_tx := None \<rparr>)" using c 2 True by (simp add: idle_def)
    from 2(3,4) True obtain plan where plan: "plan_boot (situation_of i a (Some tx)) = Some plan"
      "\<not> pl_fail_closed plan" "recovery_transaction (situation_of i a (Some tx)) = None" "idle_plan (Some tx) plan"
      by (rule plan_idle)
    have head: "head = settled_head (Some tx) i"
      using True 2(1) at_previous_not_candidate [OF 2(4), of i] at_candidate_sel(1) [of tx i]
      by (auto simp: head_def recovery_head_def settled_head_def idle_phase_def at_previous_def)
    have "is_proven head"
      using idle_proven [OF w] unfolding head settled_head_def by (simp add: predecessor_state_def is_proven_def)
    moreover from this have "snd (prove_provisional head) = head"
      by (cases head) (simp add: prove_provisional_def is_proven_def)
    moreover note boot_idle_completes [OF w q _ plan inputs, folded head]
    ultimately show ?thesis
      using owes [OF 2(1)] 2(1) by (auto elim!: completes_weaken)
  qed
qed


lemma sample_activated_coherent:
  "coherent_with sample_ext (sample_store (Record sample_installed) (Record (sample_tx Activated)) ''2.0.0'' [])
     sample_installed (sample_release ''2.0.0'')"
proof -
  have "files_ok sample_ext (sample_store (Record sample_installed) (Record (sample_tx Activated)) ''2.0.0'' [])"
    by (rule sample_store_inv) (simp_all add: sample_installed_valid)
  moreover have "phase_ok (sample_tx Activated) sample_installed (sample_release ''2.0.0'')"
    by (simp add: phase_ok_def at_previous_def predecessor_state_def sample_installed_def sample_tx_def)
  ultimately show ?thesis by (simp add: coherent_with_def)
qed


text \<open>C3. A verdict is carried out.  When the interrupted journal says the candidate failed its own
  convergence or readiness, the calm boot ends on exactly the predecessor with the pointer on its
  release, the journal is gone, and the deployment is durably rejected: it cannot be selected again.\<close>

theorem failed_candidate_rejected:
  assumes "coherent E (wd_store w)" and "st_journal (wd_store w) = Record tx" and "tx_candidate_rejection_required tx"
    and "st_faults (wd_store w) = []" "wd_mutations w = []" "wd_probes w = []" and "bt_inputs B = Inr True"
    and "st_versions (wd_store w) (tx_previous_release tx) = Inr ()" and "verdict_fits tx (st_ledger (wd_store w))"
  shows "\<exists>w'. boot E B w = (Ok (Steady True None), w') \<and> st_journal (wd_store w') = Absent
    \<and> st_installed (wd_store w') = Record (predecessor_state tx)
    \<and> st_active (wd_store w') = Record (tx_previous_release tx)
    \<and> rejection_is_durable (wd_store w') (tx_candidate_repository_lineage tx) (tx_candidate_rejection_sha256 tx)"
proof -
  obtain i a where c: "coherent_with E (wd_store w) i a" using assms(1) by (auto simp: coherent_def)
  have ok: "phase_ok tx i a" and v: "transaction_validate E tx = Inr ()"
    using c assms(2) by (cases rule: coherent_journal; simp)+
  have "recovery_head (Record tx) i = predecessor_state tx"
    using ok v assms(3) at_previous_not_candidate [OF v, of i]
    by (auto simp: recovery_head_def phase_ok_def Let_def transaction_validate_Inr phase_evidence_is_valid_def)
  moreover have "quiet w" using assms(4-6) by (simp add: quiet_def)
  ultimately show ?thesis
    using boot_completes [OF c _ assms(7)] assms(2,3,8,9)
    by (auto simp: completes_iff recovered_def coherent_with_def verdict_durable_def predecessor_state_def)
qed

theorem failed_candidate_rejected_witness:
  "let tx = (sample_tx Activated)\<lparr> tx_candidate_rejection_required := True \<rparr>;
       w = sample_world (sample_store (Record sample_installed) (Record tx) ''2.0.0'' []) [] [] in
   \<exists>w'. boot sample_ext sample_boot_env w = (Ok (Steady True None), w') \<and> st_journal (wd_store w') = Absent
    \<and> st_installed (wd_store w') = Record (predecessor_state tx)
    \<and> st_active (wd_store w') = Record (tx_previous_release tx)
    \<and> rejection_is_durable (wd_store w') (tx_candidate_repository_lineage tx) (tx_candidate_rejection_sha256 tx)"
proof -
  let ?tx = "(sample_tx Activated)\<lparr> tx_candidate_rejection_required := True \<rparr>"
  let ?s = "sample_store (Record sample_installed) (Record ?tx) ''2.0.0'' []"
  have v: "transaction_validate sample_ext ?tx = Inr ()"
    using transaction_validate_Inr [THEN iffD1, OF sample_tx_valid [of Activated]]
    by (simp add: transaction_validate_Inr phase_evidence_is_valid_def)
  have inv: "files_ok sample_ext ?s" "store_inv sample_ext ?s"
    by (rule sample_store_inv; simp add: sample_installed_valid v)+
  have "phase_ok ?tx sample_installed (sample_release ''2.0.0'')"
    by (simp add: phase_ok_def at_previous_def predecessor_state_def sample_installed_def sample_tx_def)
  then have "coherent sample_ext ?s"
    using inv(1) by (auto simp: coherent_def coherent_with_def)
  moreover have "verdict_fits ?tx empty_ledger"
    using inv(2) by (simp add: store_inv_def verdict_fits_def empty_ledger_def MAX_REJECTION_KEYS_def)
  ultimately show ?thesis
    unfolding Let_def by (intro failed_candidate_rejected) (simp_all add: sample_world_def sample_boot_env_def)
qed

subsection \<open>A retried barrier\<close>

lemma write_journal_fails:
  assumes "write_journal_check E tx s = Inr ()" and "next_fault s = FailBefore k"
  shows "write_journal E tx s = (Err k, pop_fault s)"
  using assms
  by (auto simp: write_journal_def record_journal_def bind_read durable_def apply_fault_def write_journal_check_def
      bind_unit_Inr_iff)

lemma skipped_barrier_refused:
  assumes c: "coherent_with E (wd_store w) i a" and j: "st_journal (wd_store w) = Record m"
    and phase: "tx_phase m = RollbackPlanned"
  shows "fst (advance_transaction E (m\<lparr> tx_phase := CandidateCompensated \<rparr>) Restored w) = Err InvalidInput"
proof -
  let ?m = "m\<lparr> tx_phase := Restored \<rparr>"
  have sj: "store_journal E (wd_store w) = Inr (Some m)" and v: "transaction_validate E m = Inr ()"
    using c j by (cases rule: coherent_journal; simp)+
  have ev: "phase_evidence_is_valid ?m"
    using v phase by (auto simp: transaction_validate_Inr phase_evidence_is_valid_def)
  then have adv: "advance (m\<lparr> tx_phase := CandidateCompensated \<rparr>) Restored = (Inr (), ?m)"
    by (simp add: advance_cases phase_edge_def edge_defs)
  have "transaction_validate E ?m = Inr ()" using v ev by (simp add: transaction_validate_Inr)
  moreover have "\<not> permits_replacement m ?m"
    using phase by (auto simp: permits_replacement_iff mutable_step_def phase_edge_def edge_defs
        dest!: arg_cong [of _ _ tx_phase])
  ultimately have "write_journal_check E ?m (wd_store w) = Inl InvalidInput"
    using sj coherent_reads [OF c]
    by (simp add: write_journal_check_def ensure_exclusive_journal_def check_def)
  then show ?thesis
    using adv by (simp add: advance_transaction_def bind_a_def persist_transaction_def store_a_def journal_w.refuse)
qed

text \<open>C8. Retrying a recovery step does not resume where the failure landed.  The boot retries
  candidate compensation after a transient write fault on the strength of the phase guards, but the
  transaction in memory has already advanced: when recording the completed compensation fails once,
  before anything is written, the retried step returns success without recording it.  The reboot the
  compensation asked for is dropped from the result, the journal on disk still says the compensation
  is planned, and the next checkpoint of this boot is refused.\<close>

theorem transient_barrier_skipped:
  assumes c: "coherent_with E (wd_store w) i a" and j: "st_journal (wd_store w) = Record m" and m: "wd_tx w = Some m"
    and phase: "tx_phase m = RollbackPlanned" and fault: "next_fault (wd_store w) = FailBefore k"
    and k: "is_node_local_transient k" and retries: "env_retries (bt_env B) > 0"
    and reboot: "wd_mutations w = Succeeded Reboot # ms"
  shows "\<exists>w'. retried B (complete_candidate_compensation E) w = (Ok NoAction, w')
    \<and> st_journal (wd_store w') = Record m \<and> wd_tx w' = Some (m\<lparr> tx_phase := CandidateCompensated \<rparr>)
    \<and> fst (advance_transaction E (m\<lparr> tx_phase := CandidateCompensated \<rparr>) Restored w') = Err InvalidInput"
proof -
  let ?m = "m\<lparr> tx_phase := CandidateCompensated \<rparr>" and ?s = "wd_store w"
  have sj: "store_journal E ?s = Inr (Some m)" and v: "transaction_validate E m = Inr ()"
    using c j by (cases rule: coherent_journal; simp)+
  have ev: "phase_evidence_is_valid ?m"
    using v phase by (auto simp: transaction_validate_Inr phase_evidence_is_valid_def)
  then have adv: "advance m CandidateCompensated = (Inr (), ?m)"
    using phase by (simp add: advance_cases phase_edge_def edge_defs)
  have step: "permits_replacement m ?m"
    using phase ev by (auto simp: permits_replacement_iff mutable_step_def phase_edge_def edge_defs)
  have v': "transaction_validate E ?m = Inr ()" using v ev by (simp add: transaction_validate_Inr)
  have chk: "write_journal_check E ?m ?s = Inr ()"
    by (rule replace_check [OF c j sj v' step]) (simp_all add: phase)
  define w' where "w' = w\<lparr> wd_store := pop_fault ?s, wd_tx := Some ?m, wd_mutations := ms,
    wd_trace := wd_trace w @ [Mutate Rollback \<lparr> prt_reconciler = tx_candidate_reconciler m, prt_reason = ReasonUpdate \<rparr>
      (rollback_attempt_id m) (candidate_target m) (previous_target m)] \<rparr>"
  have first: "complete_candidate_compensation E w = (Err k, w')"
    using m phase reboot adv write_journal_fails [OF chk fault]
    by (simp add: complete_candidate_compensation_def with_tx_def run_reconciler_mutation_def bind_a_def mutate_def
        return_a_def pending_iff advance_transaction_def persist_transaction_def store_a_def w'_def)
  have again: "complete_candidate_compensation E w' = (Ok NoAction, w')"
    by (simp add: complete_candidate_compensation_def with_tx_def return_a_def pending_iff w'_def)
  obtain n where n: "env_retries (bt_env B) = Suc n" using retries by (cases "env_retries (bt_env B)") auto
  have "recover_through_transients n (complete_candidate_compensation E) w' = (Ok NoAction, w')"
    by (cases n) (simp_all add: again handle_a_def return_a_def)
  then have "retried B (complete_candidate_compensation E) w = (Ok NoAction, w')"
    using first k n by (simp add: retried_def handle_a_def)
  moreover have "coherent_with E (wd_store w') i a" "st_journal (wd_store w') = Record m"
    using c j by (simp_all add: w'_def)
  ultimately show ?thesis
    using skipped_barrier_refused [of E w' i a m] phase by (auto simp: w'_def)
qed

theorem transient_barrier_skipped_witness:
  "let w = (sample_world (sample_store (Record sample_installed) (Record (sample_tx RollbackPlanned)) ''2.0.0''
             [FailBefore StorageFull]) [Succeeded Reboot] [])\<lparr> wd_tx := Some (sample_tx RollbackPlanned) \<rparr> in
   \<exists>w'. retried sample_boot_env (complete_candidate_compensation sample_ext) w = (Ok NoAction, w')
    \<and> st_journal (wd_store w') = Record (sample_tx RollbackPlanned)
    \<and> wd_tx w' = Some (sample_tx CandidateCompensated)
    \<and> fst (advance_transaction sample_ext (sample_tx CandidateCompensated) Restored w') = Err InvalidInput"
proof -
  let ?m = "sample_tx RollbackPlanned"
  let ?w = "(sample_world (sample_store (Record sample_installed) (Record ?m) ''2.0.0''
      [FailBefore StorageFull]) [Succeeded Reboot] [])\<lparr> wd_tx := Some ?m \<rparr>"
  have "files_ok sample_ext (wd_store ?w)"
    unfolding sample_world_def world.simps by (rule sample_store_inv) (simp_all add: sample_installed_valid)
  moreover have "phase_ok ?m sample_installed (sample_release ''2.0.0'')"
    by (simp add: phase_ok_def at_previous_def predecessor_state_def sample_installed_def sample_tx_def)
  ultimately have "coherent_with sample_ext (wd_store ?w) sample_installed (sample_release ''2.0.0'')"
    by (simp add: coherent_with_def sample_world_def)
  from transient_barrier_skipped [OF this, of ?m StorageFull sample_boot_env "[]"] show ?thesis
    by (simp add: sample_world_def next_fault_def is_node_local_transient_def sample_boot_env_def sample_env_def)
qed

end
