(* ===== verification/Ordered_Map.thy ===== *)
theory Ordered_Map
  imports Prelude
begin

text \<open>
  The ordered maps of the control plane, Rust's \<^verbatim>\<open>BTreeMap<String, V>\<close>: association lists whose
  keys increase strictly.  Iteration order is key order, as the planner relies on, and two maps are
  equal exactly when they hold the same entries (\<open>bm_ext\<close>), as the derived \<^verbatim>\<open>PartialEq\<close> says.

  \<open>ordered_table\<close> is what the components below use of the container; the association lists
  interpret it.
\<close>

type_synonym 'v bmap = "(string \<times> 'v) list"

definition bm_wf :: "'v bmap \<Rightarrow> bool" where
  "bm_wf m \<longleftrightarrow> sorted_wrt (<) (map fst m)"

abbreviation bm_get :: "'v bmap \<Rightarrow> string \<Rightarrow> 'v option" where
  "bm_get m k \<equiv> map_of m k"

definition bm_has :: "'v bmap \<Rightarrow> string \<Rightarrow> bool" where
  "bm_has m k \<longleftrightarrow> map_of m k \<noteq> None"

abbreviation bm_keys :: "'v bmap \<Rightarrow> string list" where
  "bm_keys m \<equiv> map fst m"

abbreviation bm_values :: "'v bmap \<Rightarrow> 'v list" where
  "bm_values m \<equiv> map snd m"

fun bm_insert :: "string \<Rightarrow> 'v \<Rightarrow> 'v bmap \<Rightarrow> 'v bmap" where
  "bm_insert k v [] = [(k, v)]"
| "bm_insert k v ((k', v') # m) =
     (if k < k' then (k, v) # (k', v') # m
      else if k = k' then (k, v) # m
      else (k', v') # bm_insert k v m)"

text \<open>\<^verbatim>\<open>entry(k).or_insert(v)\<close>, \<^verbatim>\<open>retain\<close> and \<^verbatim>\<open>collect\<close>.\<close>

definition bm_or_insert :: "string \<Rightarrow> 'v \<Rightarrow> 'v bmap \<Rightarrow> 'v bmap" where
  "bm_or_insert k v m = (if bm_has m k then m else bm_insert k v m)"

definition bm_retain :: "(string \<Rightarrow> 'v \<Rightarrow> bool) \<Rightarrow> 'v bmap \<Rightarrow> 'v bmap" where
  "bm_retain keep m = filter (\<lambda>(k, v). keep k v) m"

definition bm_filter_map :: "(string \<Rightarrow> 'v \<Rightarrow> 'w option) \<Rightarrow> 'v bmap \<Rightarrow> 'w bmap" where
  "bm_filter_map f m = List.map_filter (\<lambda>(k, v). map_option (Pair k) (f k v)) m"

definition bm_collect :: "(string \<times> 'v) list \<Rightarrow> 'v bmap" where
  "bm_collect entries = fold (\<lambda>(k, v). bm_insert k v) entries []"

definition bm_map :: "(string \<Rightarrow> 'v \<Rightarrow> 'w) \<Rightarrow> 'v bmap \<Rightarrow> 'w bmap" where
  "bm_map f m = map (\<lambda>(k, v). (k, f k v)) m"

named_theorems bm_simps \<open>the laws of the ordered maps\<close>

lemma bm_get_insert [bm_simps, simp]: "bm_get (bm_insert k v m) = (map_of m)(k \<mapsto> v)"
  by (induction m) (auto simp: fun_eq_iff)

lemma bm_keys_insert [bm_simps, simp]: "set (bm_keys (bm_insert k v m)) = insert k (set (bm_keys m))"
  by (induction k v m rule: bm_insert.induct) (simp_all add: insert_commute)

lemma bm_wf_Nil [simp]: "bm_wf []"
  by (simp add: bm_wf_def)

lemma bm_wf_Cons: "bm_wf ((k, v) # m) \<longleftrightarrow> (\<forall>k' \<in> set (bm_keys m). k < k') \<and> bm_wf m"
  by (simp add: bm_wf_def)

lemma bm_wf_insert [bm_simps, simp]: "bm_wf m \<Longrightarrow> bm_wf (bm_insert k v m)"
proof (induction k v m rule: bm_insert.induct)
  case (2 k v k' v' m)
  then show ?case
    using bm_keys_insert [of k v m] by (fastforce simp: bm_wf_Cons simp del: set_map)
qed (simp add: bm_wf_Cons)

lemma bm_wf_distinct: "bm_wf m \<Longrightarrow> distinct (bm_keys m)"
  by (auto simp: bm_wf_def strict_sorted_iff)

lemma bm_wf_sorted: "bm_wf m \<Longrightarrow> sorted (bm_keys m)"
  by (auto simp: bm_wf_def strict_sorted_iff)

lemma bm_has_iff [bm_simps]: "bm_has m k \<longleftrightarrow> k \<in> set (bm_keys m)"
  by (simp add: bm_has_def map_of_eq_None_iff)

lemma bm_get_iff: "bm_wf m \<Longrightarrow> bm_get m k = Some v \<longleftrightarrow> (k, v) \<in> set m"
  by (simp add: bm_wf_distinct)

lemma bm_wf_filter: "bm_wf m \<Longrightarrow> bm_wf (filter P m)"
  by (induction m) (auto simp: bm_wf_Cons)

lemma bm_wf_retain [bm_simps, simp]: "bm_wf m \<Longrightarrow> bm_wf (bm_retain keep m)"
  by (simp add: bm_retain_def bm_wf_filter)

lemma bm_get_retain [bm_simps]:
  assumes "bm_wf m"
  shows "bm_get (bm_retain keep m) k = (case bm_get m k of None \<Rightarrow> None | Some v \<Rightarrow> if keep k v then Some v else None)"
  using assms
proof (induction m)
  case (Cons kv m)
  obtain k' v where kv: "kv = (k', v)"
    by (cases kv)
  with Cons.prems have "bm_get m k' = None" and wf: "bm_wf m"
    by (auto simp: bm_wf_Cons map_of_eq_None_iff)
  with Cons.IH kv show ?case
    by (auto simp: bm_retain_def split: option.splits)
qed (simp add: bm_retain_def)

lemma bm_filter_map_simps [simp]:
  "bm_filter_map f [] = []"
  "bm_filter_map f ((k, v) # m) = (case f k v of None \<Rightarrow> bm_filter_map f m | Some w \<Rightarrow> (k, w) # bm_filter_map f m)"
  by (simp_all add: bm_filter_map_def List.map_filter_simps split: option.splits)

lemma bm_keys_filter_map: "set (bm_keys (bm_filter_map f m)) \<subseteq> set (bm_keys m)"
  by (induction m) (auto simp del: set_map split: option.splits)

lemma bm_wf_filter_map [bm_simps, simp]: "bm_wf m \<Longrightarrow> bm_wf (bm_filter_map f m)"
proof (induction m)
  case (Cons kv m)
  then show ?case
    using bm_keys_filter_map [of f m] by (cases kv) (auto simp: bm_wf_Cons simp del: set_map split: option.splits)
qed simp

lemma bm_get_filter_map [bm_simps]:
  "bm_wf m \<Longrightarrow> bm_get (bm_filter_map f m) k = Option.bind (bm_get m k) (f k)"
proof (induction m)
  case (Cons kv m)
  obtain k' v where kv: "kv = (k', v)"
    by (cases kv)
  with Cons.prems have "bm_get m k' = None" and "bm_wf m"
    by (auto simp: bm_wf_Cons map_of_eq_None_iff)
  with Cons.IH kv show ?case
    by (auto split: option.splits)
qed simp

lemma bm_keys_map [bm_simps, simp]: "bm_keys (bm_map f m) = bm_keys m"
  by (induction m) (auto simp: bm_map_def)

lemma bm_wf_map [bm_simps, simp]: "bm_wf (bm_map f m) = bm_wf m"
  by (simp add: bm_wf_def)

lemma bm_get_map [bm_simps, simp]: "bm_get (bm_map f m) k = map_option (f k) (bm_get m k)"
  by (induction m) (auto simp: bm_map_def)

lemma bm_wf_or_insert [bm_simps, simp]: "bm_wf m \<Longrightarrow> bm_wf (bm_or_insert k v m)"
  by (simp add: bm_or_insert_def)

lemma bm_get_or_insert [bm_simps]:
  "bm_get (bm_or_insert k v m) k' = (if k' = k \<and> bm_get m k = None then Some v else bm_get m k')"
  by (auto simp: bm_or_insert_def bm_has_def)

lemma bm_wf_fold_insert: "bm_wf m \<Longrightarrow> bm_wf (fold (\<lambda>(k, v). bm_insert k v) entries m)"
  by (induction entries arbitrary: m) auto

lemma bm_wf_collect [bm_simps, simp]: "bm_wf (bm_collect entries)"
  by (simp add: bm_collect_def bm_wf_fold_insert)

lemma bm_get_fold_insert:
  "bm_get (fold (\<lambda>(k, v). bm_insert k v) entries m) = map_of m ++ map_of (rev entries)"
  by (induction entries arbitrary: m) (auto simp: fun_eq_iff map_add_def split: option.splits)

lemma bm_get_collect [bm_simps]: "bm_get (bm_collect entries) = map_of (rev entries)"
  by (simp add: bm_collect_def bm_get_fold_insert)

lemma bm_ext:
  assumes "bm_wf m" and "bm_wf n" and "\<And>k. bm_get m k = bm_get n k"
  shows "m = n"
proof -
  have "set m = set n"
    using assms by (auto simp: set_eq_iff simp flip: bm_get_iff)
  then show ?thesis
    using assms map_sorted_distinct_set_unique [of fst m n]
    by (simp add: bm_wf_distinct bm_wf_sorted distinct_map [THEN iffD1, OF bm_wf_distinct])
qed

locale ordered_table =
  fixes valid :: "'t \<Rightarrow> bool"
    and get :: "'t \<Rightarrow> string \<Rightarrow> 'v option"
    and put :: "string \<Rightarrow> 'v \<Rightarrow> 't \<Rightarrow> 't"
    and keys :: "'t \<Rightarrow> string list"
  assumes get_put: "get (put k v t) = (get t)(k \<mapsto> v)"
    and valid_put: "valid t \<Longrightarrow> valid (put k v t)"
    and valid_keys: "valid t \<Longrightarrow> sorted (keys t) \<and> distinct (keys t)"
    and keys_get: "set (keys t) = dom (get t)"
begin

lemma fold_put_other: "k \<notin> fst ` set es \<Longrightarrow> get (fold (\<lambda>(k, v). put k v) es t) k = get t k"
  by (induction es arbitrary: t) (auto simp: get_put)

lemma valid_fold_put: "valid t \<Longrightarrow> valid (fold (\<lambda>(k, v). put k v) es t)"
  by (induction es arbitrary: t) (auto simp: valid_put)

end

interpretation bm: ordered_table bm_wf map_of bm_insert "map fst"
  by unfold_locales (auto simp: bm_wf_sorted bm_wf_distinct dom_map_of_conv_image_fst)

end
