(* ===== verification/Release_Graph.thy ===== *)
theory Release_Graph
  imports Identity Ordered_Map
begin

text \<open>
  The release graph of \<^verbatim>\<open>crates/updated-contracts/src/releases.rs\<close>: declared releases, the
  exact predecessors each accepts, and the breadth-first search for the shortest permitted route
  from what a node runs to the target.

  The \<^verbatim>\<open>semver\<close> package is a parameter, the record \<open>versions\<close>: a parsed version is represented
  by its rendered text, and \<open>vs_before\<close> is \<^verbatim>\<open>cmp_precedence(..).is_lt()\<close>.  A \<^verbatim>\<open>BTreeSet\<close> of
  names is a list here, since only membership and the set of its elements are observed.

  The search is \<open>bfs\<close>, whose termination is proved from the number of undiscovered releases plus
  the queue.  Reading the route back through the parent map is a \<^verbatim>\<open>while let\<close> loop that could
  in principle run forever or index a missing entry, so it is a partial function and \<^const>\<open>None\<close>
  stands for both; \<open>Release_Route\<close> shows that it always returns.
\<close>

record versions =
  vs_parse :: "string \<Rightarrow> string option"
  vs_before :: "string \<Rightarrow> string \<Rightarrow> bool"

definition parse_release_version :: "'z versions_scheme \<Rightarrow> string \<Rightarrow> string option" where
  "parse_release_version V value =
     (if length value > MAX_RELEASE_VERSION_BYTES \<or> list_ex is_ascii_uppercase value then None
      else vs_parse V value)"

subsection \<open>Data\<close>

record TargetReference =
  tr_path :: string
  tr_sha256 :: string

definition MAX_PATH_BYTES :: nat where
  "MAX_PATH_BYTES = 1024"

definition target_is_valid :: "TargetReference \<Rightarrow> bool" where
  "target_is_valid t \<longleftrightarrow>
     length (tr_path t) \<le> MAX_PATH_BYTES
     \<and> is_confined_relative (tr_path t)
     \<and> is_canonical_sha256 (tr_sha256 t)"

record Release =
  package :: TargetReference
  upgrade_from :: "string list"
  rollback_from :: "string list"
  installable :: bool

record ReleaseGraph =
  graph_target :: string
  releases :: "Release bmap"

definition MAX_RELEASES :: nat where
  "MAX_RELEASES = 128"

datatype Direction = UpgradeDir | RollbackDir

fun predecessors :: "Direction \<Rightarrow> Release \<Rightarrow> string list" where
  "predecessors UpgradeDir release = upgrade_from release"
| "predecessors RollbackDir release = rollback_from release"

fun permits :: "'z versions_scheme \<Rightarrow> Direction \<Rightarrow> string \<Rightarrow> string \<Rightarrow> bool" where
  "permits V UpgradeDir from_v to_v = vs_before V from_v to_v"
| "permits V RollbackDir from_v to_v = vs_before V to_v from_v"

datatype graph_error =
    ReleaseCount | TargetUndeclared | InvalidVersion string | InvalidPackage string
  | UndeclaredPredecessor string string | BadEdge string string
  | SourceUndeclared | SourceBytesDiffer | NoUpgradePath | NoSupportedRoute

type_synonym 'a graph_result = "graph_error + 'a"

text \<open>\<^verbatim>\<open>?\<close> and the early return of a failed check, over any error type.\<close>

definition check_e :: "bool \<Rightarrow> 'e \<Rightarrow> 'e + unit" where
  "check_e b e = (if b then Inr () else Inl e)"

definition bind_e :: "'e + 'a \<Rightarrow> ('a \<Rightarrow> 'e + 'b) \<Rightarrow> 'e + 'b" where
  "bind_e r f = (case r of Inl e \<Rightarrow> Inl e | Inr x \<Rightarrow> f x)"

definition map_err :: "('e \<Rightarrow> 'f) \<Rightarrow> 'e + 'a \<Rightarrow> 'f + 'a" where
  "map_err f = map_sum f id"

lemma bind_e_simps [simp]: "bind_e (Inl e) f = Inl e" "bind_e (Inr x) f = f x"
  by (simp_all add: bind_e_def)

lemma bind_e_Inr_iff: "bind_e r f = Inr y \<longleftrightarrow> (\<exists>x. r = Inr x \<and> f x = Inr y)"
  by (cases r) auto

lemma check_e_Inr_iff [simp]: "check_e b e = Inr u \<longleftrightarrow> b"
  by (simp add: check_e_def)

lemma map_err_Inr_iff [simp]: "map_err f r = Inr x \<longleftrightarrow> r = Inr x"
  by (cases r) (auto simp: map_err_def)

subsection \<open>Validation\<close>

definition target_reference :: "ReleaseGraph \<Rightarrow> TargetReference graph_result" where
  "target_reference g =
     (case bm_get (releases g) (graph_target g) of
        None \<Rightarrow> Inl TargetUndeclared
      | Some release \<Rightarrow> Inr (package release))"

text \<open>The two edge lists of a release, upgrade edges first, each edge against its direction.\<close>

definition declared_edges :: "Release \<Rightarrow> (Direction \<times> string) list" where
  "declared_edges release =
     map (Pair UpgradeDir) (predecessors UpgradeDir release)
     @ map (Pair RollbackDir) (predecessors RollbackDir release)"

fun validate_edges ::
  "'z versions_scheme \<Rightarrow> ReleaseGraph \<Rightarrow> string \<Rightarrow> string \<Rightarrow> (Direction \<times> string) list \<Rightarrow> unit graph_result"
  where
  "validate_edges V g version parsed [] = Inr ()"
| "validate_edges V g version parsed ((direction, from_v) # es) =
     (case (if bm_has (releases g) from_v then parse_release_version V from_v else None) of
        None \<Rightarrow> Inl (UndeclaredPredecessor version from_v)
      | Some source \<Rightarrow>
          if permits V direction source parsed then validate_edges V g version parsed es
          else Inl (BadEdge from_v version))"

fun validate_releases ::
  "'z versions_scheme \<Rightarrow> ReleaseGraph \<Rightarrow> string set \<Rightarrow> (string \<times> Release) list \<Rightarrow> unit graph_result"
  where
  "validate_releases V g packages [] = Inr ()"
| "validate_releases V g packages ((version, release) # rest) =
     (case parse_release_version V version of
        None \<Rightarrow> Inl (InvalidVersion version)
      | Some parsed \<Rightarrow>
          if parsed \<noteq> version then Inl (InvalidVersion version)
          else if \<not> target_is_valid (package release) \<or> tr_sha256 (package release) \<in> packages
          then Inl (InvalidPackage version)
          else bind_e (validate_edges V g version parsed (declared_edges release))
                 (\<lambda>_. validate_releases V g (insert (tr_sha256 (package release)) packages) rest))"

definition graph_validate :: "'z versions_scheme \<Rightarrow> ReleaseGraph \<Rightarrow> unit graph_result" where
  "graph_validate V g =
     (if releases g = [] \<or> length (releases g) > MAX_RELEASES then Inl ReleaseCount
      else bind_e (target_reference g) (\<lambda>_. validate_releases V g {} (releases g)))"

definition check_source :: "ReleaseGraph \<Rightarrow> string \<Rightarrow> string \<Rightarrow> unit graph_result" where
  "check_source g version sha256 =
     (case bm_get (releases g) version of
        None \<Rightarrow> Inl SourceUndeclared
      | Some source \<Rightarrow>
          if digests_match (tr_sha256 (package source)) sha256 then Inr () else Inl SourceBytesDiffer)"

subsection \<open>Routes\<close>

definition direction :: "'z versions_scheme \<Rightarrow> ReleaseGraph \<Rightarrow> string option \<Rightarrow> Direction" where
  "direction V g installed =
     (case installed of
        Some version \<Rightarrow>
          (if permits V RollbackDir (the (parse_release_version V version))
                (the (parse_release_version V (graph_target g)))
           then RollbackDir else UpgradeDir)
      | None \<Rightarrow> UpgradeDir)"

type_synonym search = "string option bmap \<times> string list"

text \<open>One turn of the search loop: every permitted, undiscovered successor of \<open>version\<close>, in key order.\<close>

definition discover_one ::
  "Direction \<Rightarrow> string set \<Rightarrow> string \<Rightarrow> string \<times> Release \<Rightarrow> search \<Rightarrow> search" where
  "discover_one dir allowed version = (\<lambda>(nxt, release) (parents, queue).
     if nxt \<in> allowed \<and> \<not> bm_has parents nxt \<and> version \<in> set (predecessors dir release)
     then (bm_insert nxt (Some version) parents, queue @ [nxt])
     else (parents, queue))"

definition discover ::
  "ReleaseGraph \<Rightarrow> Direction \<Rightarrow> string set \<Rightarrow> string \<Rightarrow> search \<Rightarrow> search" where
  "discover g dir allowed version = fold (discover_one dir allowed version) (releases g)"

definition undiscovered :: "ReleaseGraph \<Rightarrow> string option bmap \<Rightarrow> nat" where
  "undiscovered g parents = length (filter (\<lambda>(n, _). \<not> bm_has parents n) (releases g))"

lemma undiscovered_insert:
  "undiscovered g (bm_insert n p parents) + (if bm_has parents n \<or> n \<notin> set (bm_keys (releases g)) then 0 else 1)
     \<le> undiscovered g parents"
proof -
  have "length (filter (\<lambda>(k, _). \<not> bm_has (bm_insert n p parents) k) xs)
          + (if bm_has parents n \<or> n \<notin> set (bm_keys xs) then 0 else 1)
        \<le> length (filter (\<lambda>(k, _). \<not> bm_has parents k) xs)" for xs :: "Release bmap"
    by (induction xs) (auto simp: bm_has_def split: if_splits)
  then show ?thesis
    by (simp add: undiscovered_def)
qed

lemma discover_measure:
  assumes "set es \<subseteq> set (releases g)"
  shows "undiscovered g (fst (fold (discover_one dir allowed version) es (ps, q)))
           + length (snd (fold (discover_one dir allowed version) es (ps, q)))
         \<le> undiscovered g ps + length q"
  using assms
proof (induction es arbitrary: ps q)
  case (Cons e es)
  obtain n r where e: "e = (n, r)"
    by (cases e)
  then have n: "n \<in> set (bm_keys (releases g))"
    using Cons.prems by force
  show ?case
  proof (cases "n \<in> allowed \<and> \<not> bm_has ps n \<and> version \<in> set (predecessors dir r)")
    case True
    then have "discover_one dir allowed version e (ps, q) = (bm_insert n (Some version) ps, q @ [n])"
      by (simp add: discover_one_def e)
    moreover have "Suc (undiscovered g (bm_insert n (Some version) ps)) \<le> undiscovered g ps"
      using undiscovered_insert [of g n "Some version" ps] True n by simp
    ultimately show ?thesis
      using Cons.IH [of "bm_insert n (Some version) ps" "q @ [n]"] Cons.prems by simp
  next
    case False
    then have "discover_one dir allowed version e (ps, q) = (ps, q)"
      by (auto simp: discover_one_def e)
    then show ?thesis
      using Cons by simp
  qed
qed simp

text \<open>The search itself: the final parent map once the target is taken from the queue, or nothing.\<close>

function bfs ::
  "ReleaseGraph \<Rightarrow> Direction \<Rightarrow> string set \<Rightarrow> string option bmap \<Rightarrow> string list \<Rightarrow> string option bmap option"
  where
  "bfs g dir allowed parents [] = None"
| "bfs g dir allowed parents (version # queue) =
     (if version = graph_target g then Some parents
      else bfs g dir allowed (fst (discover g dir allowed version (parents, queue)))
             (snd (discover g dir allowed version (parents, queue))))"
  by pat_completeness auto

termination
proof (relation "measure (\<lambda>(g, _, _, parents, queue). undiscovered g parents + length queue)")
  fix g dir allowed parents version queue
  show "((g, dir, allowed, fst (discover g dir allowed version (parents, queue)),
          snd (discover g dir allowed version (parents, queue))),
         g, dir, allowed, parents, version # queue)
        \<in> measure (\<lambda>(g, _, _, parents, queue). undiscovered g parents + length queue)"
    using discover_measure [of "releases g" g dir allowed version parents queue]
    by (simp add: discover_def case_prod_beta)
qed simp

partial_function (option) trace_back ::
  "string option bmap \<Rightarrow> string option \<Rightarrow> string option \<Rightarrow> string list \<Rightarrow> string list option"
  where
  "trace_back parents installed at acc =
     (case at of
        None \<Rightarrow> Some (rev acc)
      | Some current \<Rightarrow>
          (case bm_get parents current of
             None \<Rightarrow> None
           | Some parent \<Rightarrow>
               trace_back parents installed parent
                 (if Some current \<noteq> installed then acc @ [current] else acc)))"

text \<open>Where the search starts: the installed release, or every available installable one.\<close>

definition route_starts :: "ReleaseGraph \<Rightarrow> string set \<Rightarrow> string option \<Rightarrow> string list" where
  "route_starts g allowed installed =
     (case installed of
        Some version \<Rightarrow> [version]
      | None \<Rightarrow> map fst (filter (\<lambda>(version, release). installable release \<and> version \<in> allowed) (releases g)))"

definition available_set :: "ReleaseGraph \<Rightarrow> (string \<Rightarrow> Release \<Rightarrow> bool) \<Rightarrow> string set" where
  "available_set g available = fst ` set (filter (\<lambda>(version, release). available version release) (releases g))"

definition route ::
  "'z versions_scheme \<Rightarrow> ReleaseGraph \<Rightarrow> string option \<Rightarrow> (string \<Rightarrow> Release \<Rightarrow> bool)
     \<Rightarrow> string list graph_result option" where
  "route V g installed available =
     (case graph_validate V g of
        Inl e \<Rightarrow> Some (Inl e)
      | Inr _ \<Rightarrow>
          if (case installed of Some version \<Rightarrow> \<not> bm_has (releases g) version | None \<Rightarrow> False)
          then Some (Inl NoUpgradePath)
          else if installed = Some (graph_target g) then Some (Inr [])
          else (let dir = direction V g installed;
                    allowed = available_set g available;
                    starts = route_starts g allowed installed
                in case bfs g dir allowed (bm_collect (map (\<lambda>s. (s, None)) starts)) starts of
                     None \<Rightarrow> Some (Inl NoSupportedRoute)
                   | Some parents \<Rightarrow>
                       map_option Inr (trace_back parents installed (Some (graph_target g)) [])))"

text \<open>
  \<open>route_versions\<close>: the releases on some complete route.  Two queue-driven closures, one backwards
  from the target along the declared predecessors and one forwards from the starts, intersected.
  \<open>spread\<close> is the loop they share; indexing a release that is not declared is its \<^const>\<open>None\<close>.
\<close>

definition enqueue_new :: "string \<Rightarrow> string set \<times> string list \<Rightarrow> string set \<times> string list" where
  "enqueue_new n = (\<lambda>(seen, queue). if n \<in> seen then (seen, queue) else (insert n seen, queue @ [n]))"

partial_function (option) spread ::
  "(string \<Rightarrow> string list option) \<Rightarrow> string set \<Rightarrow> string list \<Rightarrow> string set option" where
  "spread neighbours seen queue =
     (case queue of
        [] \<Rightarrow> Some seen
      | version # rest \<Rightarrow>
          (case neighbours version of
             None \<Rightarrow> None
           | Some ns \<Rightarrow>
               spread neighbours (fst (fold enqueue_new ns (seen, rest)))
                 (snd (fold enqueue_new ns (seen, rest)))))"

definition backward :: "ReleaseGraph \<Rightarrow> Direction \<Rightarrow> string \<Rightarrow> string list option" where
  "backward g dir version = map_option (predecessors dir) (bm_get (releases g) version)"

definition forward :: "ReleaseGraph \<Rightarrow> Direction \<Rightarrow> string \<Rightarrow> string list option" where
  "forward g dir version =
     Some (map fst (filter (\<lambda>(_, release). version \<in> set (predecessors dir release)) (releases g)))"

definition route_versions ::
  "'z versions_scheme \<Rightarrow> ReleaseGraph \<Rightarrow> string option \<Rightarrow> string set graph_result option" where
  "route_versions V g installed =
     (case route V g installed (\<lambda>_ _. True) of
        None \<Rightarrow> None
      | Some (Inl e) \<Rightarrow> Some (Inl e)
      | Some (Inr _) \<Rightarrow>
          if installed = Some (graph_target g) then Some (Inr {})
          else (let dir = direction V g installed;
                    starts = route_starts g (fst ` set (releases g)) installed
                in case spread (backward g dir) {graph_target g} [graph_target g] of
                     None \<Rightarrow> None
                   | Some reaches_target \<Rightarrow>
                       (case spread (forward g dir) (set starts) starts of
                          None \<Rightarrow> None
                        | Some reachable \<Rightarrow>
                            Some (Inr {version \<in> reachable \<inter> reaches_target. Some version \<noteq> installed}))))"

end
