(* ===== verification/Assignment.thy ===== *)
theory Assignment
  imports Release_Graph
begin

text \<open>
  The signed assignment of \<^verbatim>\<open>crates/updated-contracts/src/assignment.rs\<close>: what the control plane
  publishes for a node (its \<^verbatim>\<open>DesiredDeployment\<close>), its validation, the identity it is known by,
  and the restoration of an earlier deployment over the current catalogue.

  Parameters, the record \<open>publisher\<close>: the JSON encoder and SHA-256, and whether the \<^verbatim>\<open>url\<close>
  package accepts a repository base.  The pinned TUF root is carried as its JSON text, with whether
  it is an object and its encoded length read through the same parameter.
\<close>

subsection \<open>Data\<close>

record InputSelection =
  is_generation :: string
  is_object_sha256 :: string
  is_files :: "string list"

record ManagedRepositoryLimits =
  metadata_limit :: u64
  target_limit :: u64
  transport_timeout_seconds :: u64

record ManagedStorage =
  inactive_releases :: u64
  inactive_bytes :: u64
  inactive_repository_caches :: u64

record ManagedTimeouts =
  check_interval_seconds :: u64
  health_grace_seconds :: u64
  health_successes :: u32
  health_interval_seconds :: u64
  refresh_retry_seconds :: u64
  confirmation_window_seconds :: u64

record ManagedRuntime =
  rt_product :: string
  rt_channel :: string
  rt_install_root :: string
  rt_inputs :: InputSelection
  rt_repository :: ManagedRepositoryLimits
  rt_storage :: ManagedStorage
  rt_timeouts :: ManagedTimeouts

record RepositoryAssignment =
  as_schema :: u32
  as_deployment :: string
  as_metadata_url :: string
  as_targets_url :: string
  as_application :: ReleaseGraph
  as_release_root :: string
  as_runtime :: ManagedRuntime

type_synonym DesiredDeployment = RepositoryAssignment

record publisher = versions +
  pb_sha256 :: "string \<Rightarrow> string"
  pb_encode :: "RepositoryAssignment \<Rightarrow> string option"
  pb_base_ok :: "string \<Rightarrow> bool"
  pb_is_object :: "string \<Rightarrow> bool"
  pb_root_bytes :: "string \<Rightarrow> string option"

definition SCHEMA :: u32 where
  "SCHEMA = 6"

definition MAX_DATAFLOW_BODY_BYTES :: nat where
  "MAX_DATAFLOW_BODY_BYTES = 512 * 1024"

definition MAX_DOCUMENT_BYTES :: nat where
  "MAX_DOCUMENT_BYTES = MAX_DATAFLOW_BODY_BYTES + 1024 * 1024"

definition MAX_INTERVAL_SECONDS :: u64 where
  "MAX_INTERVAL_SECONDS = 30 * 24 * 60 * 60"

definition MAX_REPOSITORY_METADATA_BYTES :: u64 where
  "MAX_REPOSITORY_METADATA_BYTES = 64 * 1024 * 1024"

definition MAX_REPOSITORY_TARGET_BYTES :: u64 where
  "MAX_REPOSITORY_TARGET_BYTES = 2 * 1024 * 1024 * 1024"

definition REPORT_FRESHNESS_SECS :: u64 where
  "REPORT_FRESHNESS_SECS = 60"

definition REPORT_CADENCE_JITTER_PERCENT :: u64 where
  "REPORT_CADENCE_JITTER_PERCENT = 20"

definition MAX_CHECK_INTERVAL_SECONDS :: u64 where
  "MAX_CHECK_INTERVAL_SECONDS =
     REPORT_FRESHNESS_SECS * 100 div (3 * (100 + REPORT_CADENCE_JITTER_PERCENT))"

definition MAX_FILES :: nat where
  "MAX_FILES = 64"

definition saturating_mul :: "'a::len word \<Rightarrow> 'a word \<Rightarrow> 'a word" where
  "saturating_mul a b = (if unat a * unat b < 2 ^ LENGTH('a) then a * b else - 1)"

subsection \<open>Validation\<close>

datatype assignment_error =
    SchemaUnsupported | DeploymentInvalid | BaseInvalid | ApplicationInvalid graph_error
  | RootNotObject | RuntimeIdentity | InstallRootRelative | ZeroLimit | LimitExceeded
  | IntervalExceeded | InputsInvalid | GraceTooShort | RootEncoding | RootTooLarge
  | EncodingFailed | DocumentTooLarge | RouteDiverged

definition inputs_validate :: "InputSelection \<Rightarrow> bool" where
  "inputs_validate s \<longleftrightarrow>
     (let empty = (is_files s = [])
      in \<not> (length (is_files s) > MAX_FILES
            \<or> list_ex (\<lambda>name. \<not> is_segment name) (is_files s)
            \<or> empty \<noteq> (is_generation s = [])
            \<or> empty \<noteq> (is_object_sha256 s = [])
            \<or> (\<not> empty \<and> (\<not> is_canonical_sha256 (is_generation s)
                           \<or> \<not> is_canonical_sha256 (is_object_sha256 s)))))"

definition is_ascii_alphabetic :: "char \<Rightarrow> bool" where
  "is_ascii_alphabetic c \<longleftrightarrow> is_ascii_lowercase c \<or> is_ascii_uppercase c"

definition is_absolute_install_root :: "string \<Rightarrow> bool" where
  "is_absolute_install_root path \<longleftrightarrow>
     (path \<noteq> [] \<and> hd path = CHR ''/'')
     \<or> (3 \<le> length path \<and> is_ascii_alphabetic (path ! 0) \<and> path ! 1 = CHR '':''
         \<and> (path ! 2 = CHR ''/'' \<or> path ! 2 = CHR 0x5C))"

definition min_grace :: "ManagedTimeouts \<Rightarrow> u64" where
  "min_grace t = saturating_mul (ucast (saturating_sub (health_successes t) 1)) (health_interval_seconds t)"

definition runtime_validate :: "ManagedRuntime \<Rightarrow> assignment_error + unit" where
  "runtime_validate r =
     (let repository = rt_repository r; storage = rt_storage r; timeouts = rt_timeouts r in
      bind_e (check_e (is_segment (rt_product r) \<and> is_segment (rt_channel r)) RuntimeIdentity) (\<lambda>_.
      bind_e (check_e (is_absolute_install_root (rt_install_root r)) InstallRootRelative) (\<lambda>_.
      bind_e (check_e (\<not> (metadata_limit repository = 0 \<or> target_limit repository = 0
                          \<or> transport_timeout_seconds repository = 0 \<or> inactive_bytes storage = 0
                          \<or> check_interval_seconds timeouts = 0 \<or> health_grace_seconds timeouts = 0
                          \<or> health_successes timeouts = 0 \<or> health_interval_seconds timeouts = 0
                          \<or> refresh_retry_seconds timeouts = 0 \<or> confirmation_window_seconds timeouts = 0))
                ZeroLimit) (\<lambda>_.
      bind_e (check_e (\<not> (metadata_limit repository > MAX_REPOSITORY_METADATA_BYTES
                          \<or> target_limit repository > MAX_REPOSITORY_TARGET_BYTES)) LimitExceeded) (\<lambda>_.
      bind_e (check_e (list_all (\<lambda>seconds. seconds \<le> MAX_INTERVAL_SECONDS)
                         [transport_timeout_seconds repository, health_grace_seconds timeouts,
                          health_interval_seconds timeouts, confirmation_window_seconds timeouts])
                IntervalExceeded) (\<lambda>_.
      bind_e (check_e (list_all (\<lambda>seconds. seconds \<le> MAX_CHECK_INTERVAL_SECONDS)
                         [check_interval_seconds timeouts, refresh_retry_seconds timeouts])
                IntervalExceeded) (\<lambda>_.
      bind_e (check_e (inputs_validate (rt_inputs r)) InputsInvalid) (\<lambda>_.
      check_e (\<not> health_grace_seconds timeouts < min_grace timeouts) GraceTooShort))))))))"

definition assignment_validate :: "publisher \<Rightarrow> RepositoryAssignment \<Rightarrow> assignment_error + unit" where
  "assignment_validate P a =
     bind_e (check_e (as_schema a = SCHEMA) SchemaUnsupported) (\<lambda>_.
     bind_e (check_e (is_segment (as_deployment a)) DeploymentInvalid) (\<lambda>_.
     bind_e (check_e (pb_base_ok P (as_metadata_url a) \<and> pb_base_ok P (as_targets_url a)) BaseInvalid) (\<lambda>_.
     bind_e (map_err ApplicationInvalid (graph_validate P (as_application a))) (\<lambda>_.
     bind_e (check_e (pb_is_object P (as_release_root a)) RootNotObject) (\<lambda>_.
     bind_e (runtime_validate (as_runtime a)) (\<lambda>_.
     case pb_root_bytes P (as_release_root a) of
       None \<Rightarrow> Inl RootEncoding
     | Some root_bytes \<Rightarrow>
         check_e (\<not> length root_bytes > unat (metadata_limit (rt_repository (as_runtime a)))) RootTooLarge))))))"

subsection \<open>Publication and identity\<close>

definition to_bounded_json :: "publisher \<Rightarrow> RepositoryAssignment \<Rightarrow> assignment_error + string" where
  "to_bounded_json P a =
     bind_e (assignment_validate P a) (\<lambda>_.
     case pb_encode P a of
       None \<Rightarrow> Inl EncodingFailed
     | Some bytes \<Rightarrow> if length bytes > MAX_DOCUMENT_BYTES then Inl DocumentTooLarge else Inr bytes)"

definition publication :: "publisher \<Rightarrow> RepositoryAssignment \<Rightarrow> assignment_error + string \<times> string" where
  "publication P a = bind_e (to_bounded_json P a) (\<lambda>bytes. Inr (bytes, pb_sha256 P bytes))"

definition deployment_identity :: "publisher \<Rightarrow> DesiredDeployment \<Rightarrow> string option" where
  "deployment_identity P value =
     (case publication P value of Inl _ \<Rightarrow> None | Inr (_, identity) \<Rightarrow> Some identity)"

subsection \<open>Restoring an earlier deployment\<close>

definition rollback_to ::
  "publisher \<Rightarrow> RepositoryAssignment \<Rightarrow> RepositoryAssignment \<Rightarrow> assignment_error + RepositoryAssignment" where
  "rollback_to P a previous =
     (let version = graph_target (as_application previous) in
      bind_e (map_err ApplicationInvalid (target_reference (as_application previous))) (\<lambda>reference.
      bind_e (map_err ApplicationInvalid (check_source (as_application a) version (tr_sha256 reference))) (\<lambda>_.
      let restored = previous\<lparr>as_application := (as_application a)\<lparr>graph_target := version\<rparr>\<rparr> in
      bind_e (assignment_validate P restored) (\<lambda>_.
      case route P (as_application restored) (Some (graph_target (as_application a))) (\<lambda>_ _. True) of
        None \<Rightarrow> Inl RouteDiverged
      | Some (Inl e) \<Rightarrow> Inl (ApplicationInvalid e)
      | Some (Inr _) \<Rightarrow> Inr restored))))"

end
