(* ===== verification/Dataflow.thy ===== *)
theory Dataflow
  imports Assignment
begin

text \<open>
  The dataflow documents of \<^verbatim>\<open>crates/updated-contracts/src/dataflow.rs\<close>: the file snapshots a node
  publishes as outputs and a group receives as inputs, the private publication that carries an
  input snapshot and the signed selection that binds it.  The byte bound of every document is
  \<^verbatim>\<open>crates/updated-contracts/src/bounded.rs\<close>; the exact output publication is
  \<^verbatim>\<open>crates/updatec/src/dataflow.rs\<close>.

  Base64, JSON, HMAC-SHA256 with its hexadecimal encoding and SHA-256 are the parameter
  \<open>dataflow_lib\<close>.  A \<^verbatim>\<open>FileValue\<close> is its only field, the base64 text; a \<^verbatim>\<open>FileSnapshot\<close> is its
  only field, the map of files.
\<close>

subsection \<open>Bounded documents\<close>

datatype dataflow_error =
    FileOversized | FileNotCanonical | TooManyFiles | FileNameInvalid string | EncodeFailed | DecodeFailed
  | PastLimit nat nat | SelectionInvalid | SelectionMismatch | KeyTooShort | SnapshotEmpty | PublicationInvalid
  | GenerationMismatch | OutputInvalid

definition bounded_check :: "nat \<Rightarrow> nat \<Rightarrow> dataflow_error + unit" where
  "bounded_check n limit = check_e (\<not> n > limit) (PastLimit n limit)"

definition bounded_encode :: "('a \<Rightarrow> string option) \<Rightarrow> nat \<Rightarrow> 'a \<Rightarrow> dataflow_error + string" where
  "bounded_encode to_vec limit value =
     (case to_vec value of
        None \<Rightarrow> Inl EncodeFailed
      | Some bytes \<Rightarrow> bind_e (bounded_check (length bytes) limit) (\<lambda>_. Inr bytes))"

definition bounded_decode :: "(string \<Rightarrow> 'a option) \<Rightarrow> nat \<Rightarrow> string \<Rightarrow> dataflow_error + 'a" where
  "bounded_decode from_slice limit bytes =
     bind_e (bounded_check (length bytes) limit) (\<lambda>_.
     case from_slice bytes of None \<Rightarrow> Inl DecodeFailed | Some value \<Rightarrow> Inr value)"

subsection \<open>Files and snapshots\<close>

type_synonym FileValue = string
type_synonym FileSnapshot = "FileValue bmap"

record InputPublication =
  ip_schema :: u32
  ip_generation :: string
  ip_blinding :: string
  ip_snapshot :: FileSnapshot

record OutputPublication =
  op_schema :: u32
  op_node :: string
  op_deployment :: string
  op_assignment_sha256 :: string
  op_archive_sha256 :: string
  op_snapshot :: FileSnapshot

record dataflow_lib =
  dl_b64_encode :: "string \<Rightarrow> string"
  dl_b64_decode :: "string \<Rightarrow> string option"
  dl_snapshot_json :: "FileSnapshot \<Rightarrow> string option"
  dl_input_json :: "InputPublication \<Rightarrow> string option"
  dl_input_parse :: "string \<Rightarrow> InputPublication option"
  dl_output_json :: "OutputPublication \<Rightarrow> string option"
  dl_output_parse :: "string \<Rightarrow> OutputPublication option"
  dl_hmac :: "string \<Rightarrow> string \<Rightarrow> string"
  dl_sha256 :: "string \<Rightarrow> string"

definition MAX_BYTES :: nat where
  "MAX_BYTES = 64 * 1024"

definition from_bytes :: "dataflow_lib \<Rightarrow> string \<Rightarrow> dataflow_error + FileValue" where
  "from_bytes D bytes = (if length bytes > MAX_BYTES then Inl FileOversized else Inr (dl_b64_encode D bytes))"

definition file_bytes :: "dataflow_lib \<Rightarrow> FileValue \<Rightarrow> dataflow_error + string" where
  "file_bytes D value =
     (case dl_b64_decode D value of
        None \<Rightarrow> Inl FileNotCanonical
      | Some bytes \<Rightarrow>
          if length bytes > MAX_BYTES \<or> dl_b64_encode D bytes \<noteq> value then Inl FileNotCanonical else Inr bytes)"

definition valid_name :: "string \<Rightarrow> bool" where
  "valid_name name \<longleftrightarrow> is_segment name"

fun validate_files :: "dataflow_lib \<Rightarrow> (string \<times> FileValue) list \<Rightarrow> dataflow_error + unit" where
  "validate_files D [] = Inr ()"
| "validate_files D ((name, value) # files) =
     (if \<not> valid_name name then Inl (FileNameInvalid name)
      else bind_e (file_bytes D value) (\<lambda>_. validate_files D files))"

definition snapshot_validate :: "dataflow_lib \<Rightarrow> FileSnapshot \<Rightarrow> dataflow_error + unit" where
  "snapshot_validate D files =
     (if length files > MAX_FILES then Inl TooManyFiles
      else bind_e (validate_files D files) (\<lambda>_.
           bind_e (bounded_encode (dl_snapshot_json D) MAX_DATAFLOW_BODY_BYTES files) (\<lambda>_. Inr ())))"

definition validate_selection :: "dataflow_lib \<Rightarrow> FileSnapshot \<Rightarrow> InputSelection \<Rightarrow> dataflow_error + unit" where
  "validate_selection D files selection =
     bind_e (check_e (inputs_validate selection) SelectionInvalid) (\<lambda>_.
     bind_e (snapshot_validate D files) (\<lambda>_.
     check_e (set (bm_keys files) = set (is_files selection)) SelectionMismatch))"

definition opaque_generation :: "dataflow_lib \<Rightarrow> FileSnapshot \<Rightarrow> string \<Rightarrow> dataflow_error + string" where
  "opaque_generation D files key =
     (if length key < 32 then Inl KeyTooShort
      else bind_e (snapshot_validate D files) (\<lambda>_.
           case dl_snapshot_json D files of
             None \<Rightarrow> Inl EncodeFailed
           | Some encoded \<Rightarrow> Inr (dl_hmac D key encoded)))"

subsection \<open>Input publications\<close>

definition INPUT_SCHEMA :: u32 where
  "INPUT_SCHEMA = 1"

definition BLINDING_DOMAIN :: string where
  "BLINDING_DOMAIN = ''updated-input-publication-v1'' @ [CHR 0x00]"

definition input_validate :: "dataflow_lib \<Rightarrow> InputPublication \<Rightarrow> dataflow_error + unit" where
  "input_validate D p =
     (if ip_schema p \<noteq> INPUT_SCHEMA \<or> \<not> is_canonical_sha256 (ip_generation p)
         \<or> \<not> is_canonical_sha256 (ip_blinding p) \<or> ip_snapshot p = []
      then Inl PublicationInvalid
      else bind_e (snapshot_validate D (ip_snapshot p)) (\<lambda>_.
           bind_e (bounded_encode (dl_input_json D) MAX_DATAFLOW_BODY_BYTES p) (\<lambda>_. Inr ())))"

definition from_snapshot :: "dataflow_lib \<Rightarrow> FileSnapshot \<Rightarrow> string \<Rightarrow> dataflow_error + InputPublication" where
  "from_snapshot D files key =
     (if files = [] then Inl SnapshotEmpty
      else if length key < 32 then Inl KeyTooShort
      else bind_e (snapshot_validate D files) (\<lambda>_.
           case dl_snapshot_json D files of
             None \<Rightarrow> Inl EncodeFailed
           | Some encoded \<Rightarrow>
               bind_e (opaque_generation D files key) (\<lambda>generation.
               let p = \<lparr>ip_schema = INPUT_SCHEMA, ip_generation = generation,
                        ip_blinding = dl_hmac D key (BLINDING_DOMAIN @ encoded), ip_snapshot = files\<rparr>
               in bind_e (input_validate D p) (\<lambda>_. Inr p))))"

definition input_body :: "dataflow_lib \<Rightarrow> InputPublication \<Rightarrow> dataflow_error + string" where
  "input_body D p =
     bind_e (input_validate D p) (\<lambda>_. bounded_encode (dl_input_json D) MAX_DATAFLOW_BODY_BYTES p)"

definition selection :: "dataflow_lib \<Rightarrow> InputPublication \<Rightarrow> dataflow_error + InputSelection" where
  "selection D p =
     bind_e (input_body D p) (\<lambda>body.
     Inr \<lparr>is_generation = ip_generation p, is_object_sha256 = dl_sha256 D body,
          is_files = bm_keys (ip_snapshot p)\<rparr>)"

definition input_from_body ::
  "dataflow_lib \<Rightarrow> string \<Rightarrow> InputSelection \<Rightarrow> dataflow_error + InputPublication" where
  "input_from_body D bytes sel =
     bind_e (check_e (inputs_validate sel) SelectionInvalid) (\<lambda>_.
     if is_files sel = [] \<or> length bytes > MAX_DATAFLOW_BODY_BYTES \<or> dl_sha256 D bytes \<noteq> is_object_sha256 sel
     then Inl SelectionMismatch
     else case dl_input_parse D bytes of
            None \<Rightarrow> Inl DecodeFailed
          | Some p \<Rightarrow>
              bind_e (input_validate D p) (\<lambda>_.
              if ip_generation p \<noteq> is_generation sel then Inl GenerationMismatch
              else bind_e (validate_selection D (ip_snapshot p) sel) (\<lambda>_. Inr p)))"

subsection \<open>Output publications\<close>

definition OUTPUT_SCHEMA :: u32 where
  "OUTPUT_SCHEMA = 2"

definition output_validate :: "dataflow_lib \<Rightarrow> OutputPublication \<Rightarrow> string \<Rightarrow> dataflow_error + unit" where
  "output_validate D p node =
     (if op_schema p \<noteq> OUTPUT_SCHEMA \<or> op_node p \<noteq> node \<or> \<not> is_segment (op_deployment p)
         \<or> \<not> is_canonical_sha256 (op_assignment_sha256 p) \<or> \<not> is_canonical_sha256 (op_archive_sha256 p)
      then Inl OutputInvalid
      else bind_e (snapshot_validate D (op_snapshot p)) (\<lambda>_.
           bind_e (bounded_encode (dl_output_json D) MAX_DATAFLOW_BODY_BYTES p) (\<lambda>_. Inr ())))"

definition output_body :: "dataflow_lib \<Rightarrow> OutputPublication \<Rightarrow> dataflow_error + string" where
  "output_body D p =
     bind_e (output_validate D p (op_node p)) (\<lambda>_. bounded_encode (dl_output_json D) MAX_DATAFLOW_BODY_BYTES p)"

record ExactOutputPublication =
  eo_sha256 :: string
  eo_publication :: OutputPublication

definition exact_decode ::
  "dataflow_lib \<Rightarrow> string \<Rightarrow> string \<Rightarrow> dataflow_error + ExactOutputPublication" where
  "exact_decode D body node =
     (if length body > MAX_DATAFLOW_BODY_BYTES then Inl (PastLimit (length body) MAX_DATAFLOW_BODY_BYTES)
      else case dl_output_parse D body of
             None \<Rightarrow> Inl DecodeFailed
           | Some p \<Rightarrow>
               bind_e (output_validate D p node) (\<lambda>_. Inr \<lparr>eo_sha256 = dl_sha256 D body, eo_publication = p\<rparr>))"

text \<open>Whether a name may be a key of a snapshot, asked of the contract itself (\<^verbatim>\<open>updatec/src/lib.rs\<close>).\<close>

definition is_output_name :: "dataflow_lib \<Rightarrow> string \<Rightarrow> bool" where
  "is_output_name D name \<longleftrightarrow>
     (case from_bytes D [] of Inl _ \<Rightarrow> False | Inr value \<Rightarrow> snapshot_validate D [(name, value)] = Inr ())"

subsection \<open>Lemmas\<close>

declare bind_e_Inr_iff [simp]

lemma bounded_encode_Inr [simp]:
  "bounded_encode to_vec limit v = Inr bytes \<longleftrightarrow> to_vec v = Some bytes \<and> length bytes \<le> limit"
  by (auto simp: bounded_encode_def bounded_check_def split: option.splits)

lemma validate_files_names: "validate_files D files = Inr () \<Longrightarrow> n \<in> set (bm_keys files) \<Longrightarrow> is_segment n"
  by (induction D files rule: validate_files.induct) (auto simp: valid_name_def split: if_splits)

lemma snapshot_validate_names:
  assumes "snapshot_validate D files = Inr ()"
  shows "length files \<le> MAX_FILES" and "n \<in> set (bm_keys files) \<Longrightarrow> is_segment n"
  using assms validate_files_names [of D files n] by (auto simp: snapshot_validate_def split: if_splits)

lemma input_validate_fields:
  assumes "input_validate D p = Inr ()"
  shows "is_canonical_sha256 (ip_generation p)" "ip_snapshot p \<noteq> []" "snapshot_validate D (ip_snapshot p) = Inr ()"
  using assms by (auto simp: input_validate_def split: if_splits)

lemma canonical_nonempty: "is_canonical_sha256 s \<Longrightarrow> s \<noteq> []"
  by (auto simp: is_canonical_sha256_def)

lemma selection_valid:
  assumes "input_validate D p = Inr ()" "is_canonical_sha256 digest"
  shows "inputs_validate \<lparr>is_generation = ip_generation p, is_object_sha256 = digest, is_files = bm_keys (ip_snapshot p)\<rparr>"
  using input_validate_fields [OF assms(1)] snapshot_validate_names [of D "ip_snapshot p"] assms(2)
  by (auto simp: inputs_validate_def Let_def list_ex_iff canonical_nonempty not_less)

text \<open>
  C33.  A private input publication round-trips through the body its signed selection binds, and
  nothing else does.  Whatever \<^verbatim>\<open>from_snapshot\<close> accepts has a body and a selection that read back as
  that very publication; and any body the selection accepts has the signed digest, the signed
  generation and exactly the signed file names.  The JSON of the publication is assumed to parse
  back, and SHA-256 to be written as 64 lowercase hexadecimal characters.
\<close>

theorem input_publication_roundtrip:
  assumes p: "from_snapshot D files key = Inr p"
    and json: "\<And>s. dl_input_json D p = Some s \<Longrightarrow> dl_input_parse D s = Some p"
    and sha: "\<And>s. is_canonical_sha256 (dl_sha256 D s)"
  shows "\<exists>body sel. input_body D p = Inr body \<and> selection D p = Inr sel \<and> input_from_body D body sel = Inr p
     \<and> is_files sel = bm_keys files
     \<and> (\<forall>body' p'. input_from_body D body' sel = Inr p' \<longrightarrow>
          dl_sha256 D body' = dl_sha256 D body \<and> ip_generation p' = ip_generation p
          \<and> set (bm_keys (ip_snapshot p')) = set (bm_keys files))"
proof -
  have valid: "input_validate D p = Inr ()" and files: "ip_snapshot p = files"
    using p by (auto simp: from_snapshot_def Let_def split: if_splits option.splits)
  obtain body where body: "dl_input_json D p = Some body" "length body \<le> MAX_DATAFLOW_BODY_BYTES"
    using valid by (auto simp: input_validate_def split: if_splits)
  define sel where "sel = \<lparr>is_generation = ip_generation p, is_object_sha256 = dl_sha256 D body, is_files = bm_keys files\<rparr>"
  have sel_valid: "inputs_validate sel"
    using selection_valid [OF valid sha] by (simp add: sel_def files)
  have "input_body D p = Inr body" "selection D p = Inr sel"
    using valid body by (simp_all add: input_body_def selection_def sel_def files)
  moreover have "input_from_body D body sel = Inr p"
    using sel_valid valid json [OF body(1)] body(2) input_validate_fields(2,3) [OF valid]
    by (auto simp: input_from_body_def validate_selection_def sel_def files)
  moreover have "dl_sha256 D body' = dl_sha256 D body \<and> ip_generation p' = ip_generation p
      \<and> set (bm_keys (ip_snapshot p')) = set (bm_keys files)"
    if "input_from_body D body' sel = Inr p'" for body' p'
    using that by (auto simp: input_from_body_def validate_selection_def sel_def split: if_splits option.splits)
  moreover have "is_files sel = bm_keys files"
    by (simp add: sel_def)
  ultimately show ?thesis
    by blast
qed

definition sample_publication :: InputPublication where
  "sample_publication =
     \<lparr>ip_schema = 1, ip_generation = replicate 64 (CHR ''a''), ip_blinding = replicate 64 (CHR ''a''),
      ip_snapshot = [(''host'', ''db'')]\<rparr>"

definition sample_dataflow :: dataflow_lib where
  "sample_dataflow =
     \<lparr>dl_b64_encode = (\<lambda>b. b), dl_b64_decode = Some, dl_snapshot_json = (\<lambda>_. Some []),
      dl_input_json = (\<lambda>_. Some []), dl_input_parse = (\<lambda>_. Some sample_publication),
      dl_output_json = (\<lambda>_. Some []), dl_output_parse = (\<lambda>_. None),
      dl_hmac = (\<lambda>_ _. replicate 64 (CHR ''a'')), dl_sha256 = (\<lambda>_. replicate 64 (CHR ''a''))\<rparr>"

theorem input_publication_roundtrip_witness:
  "\<exists>body sel. input_body sample_dataflow sample_publication = Inr body
     \<and> selection sample_dataflow sample_publication = Inr sel
     \<and> input_from_body sample_dataflow body sel = Inr sample_publication"
proof -
  have a: "is_canonical_sha256 (replicate 64 (CHR ''a''))"
    by (simp add: is_canonical_sha256_def list_all_iff is_ascii_digit_def byte_in_def)
  have seg: "is_segment ''host''"
    by (simp add: is_segment_def segment_byte_def MAX_SEGMENT_BYTES_def is_windows_device_stem_def is_ascii_digit_def
        is_ascii_lowercase_def is_ascii_uppercase_def is_ascii_alphanumeric_def byte_in_def)
  have s: "snapshot_validate sample_dataflow [(''host'', ''db'')] = Inr ()"
    by (simp add: snapshot_validate_def MAX_FILES_def valid_name_def seg file_bytes_def sample_dataflow_def MAX_BYTES_def
        bounded_encode_def bounded_check_def check_e_def)
  have fields: "dl_snapshot_json sample_dataflow = (\<lambda>_. Some [])" "dl_input_json sample_dataflow = (\<lambda>_. Some [])"
    "dl_hmac sample_dataflow = (\<lambda>_ _. replicate 64 (CHR ''a''))" "dl_input_parse sample_dataflow = (\<lambda>_. Some sample_publication)"
    "dl_sha256 sample_dataflow = (\<lambda>_. replicate 64 (CHR ''a''))"
    by (simp_all add: sample_dataflow_def)
  have v: "input_validate sample_dataflow sample_publication = Inr ()"
    by (simp add: input_validate_def sample_publication_def INPUT_SCHEMA_def s a fields)
  have g: "opaque_generation sample_dataflow [(''host'', ''db'')] (replicate 32 (CHR ''k'')) = Inr (replicate 64 (CHR ''a''))"
    by (simp add: opaque_generation_def s fields)
  have "from_snapshot sample_dataflow [(''host'', ''db'')] (replicate 32 (CHR ''k'')) = Inr sample_publication"
    using v by (simp add: from_snapshot_def s g fields Let_def INPUT_SCHEMA_def sample_publication_def)
  then show ?thesis
    using input_publication_roundtrip [of sample_dataflow "[(''host'', ''db'')]" "replicate 32 (CHR ''k'')"
        sample_publication] a by (auto simp: fields)
qed

end
