(* ===== verification/Schedule.thy ===== *)
theory Schedule
  imports Identity
begin

text \<open>
  The rollout schedule of \<^verbatim>\<open>crates/updatec/src/window.rs\<close>: recurring windows and dated
  calendar entries, evaluated against a supplied moment.

  A \<^verbatim>\<open>NaiveDate\<close> is its day number (day 1 is 0001-01-01, a Monday), a \<^verbatim>\<open>NaiveDateTime\<close> its
  number of milliseconds from day 0, and the clock reading is a \<open>moment\<close>.  The \<^verbatim>\<open>chrono\<close>
  package's date parser and the range of dates it represents are the parameter \<open>calendar_lib\<close>.
\<close>

record calendar_lib =
  cl_parse_date :: "string \<Rightarrow> int option"
  cl_min_date :: int
  cl_max_date :: int

record moment =
  mo_day :: int
  mo_millis :: nat

definition DAY_MILLIS :: int where
  "DAY_MILLIS = 86400000"

definition MINUTE_MILLIS :: int where
  "MINUTE_MILLIS = 60000"

text \<open>Minutes since midnight, \<^verbatim>\<open>now.hour() * 60 + now.minute()\<close>, and \<^verbatim>\<open>now.naive_utc()\<close>.\<close>

definition minute_of_day :: "moment \<Rightarrow> nat" where
  "minute_of_day now = mo_millis now div 60000"

definition instant :: "moment \<Rightarrow> int" where
  "instant now = mo_day now * DAY_MILLIS + int (mo_millis now)"

definition moment_wf :: "moment \<Rightarrow> bool" where
  "moment_wf now \<longleftrightarrow> mo_millis now < 86400000"

text \<open>\<^verbatim>\<open>timestamp_millis().max(0) as u64\<close>; day 719163 is 1970-01-01.\<close>

definition timestamp_millis :: "moment \<Rightarrow> int" where
  "timestamp_millis now = max 0 (instant now - 719163 * DAY_MILLIS)"

definition checked_sub_days :: "calendar_lib \<Rightarrow> int \<Rightarrow> int \<Rightarrow> int option" where
  "checked_sub_days C date days = (if date - days < cl_min_date C then None else Some (date - days))"

definition checked_add_minutes :: "calendar_lib \<Rightarrow> int \<Rightarrow> nat \<Rightarrow> int option" where
  "checked_add_minutes C date minutes =
     (let result = date * DAY_MILLIS + int minutes * MINUTE_MILLIS
      in if result div DAY_MILLIS > cl_max_date C then None else Some result)"

subsection \<open>Weekdays\<close>

datatype Weekday = Monday | Tuesday | Wednesday | Thursday | Friday | Saturday | Sunday

definition num_days_from_monday :: "int \<Rightarrow> int" where
  "num_days_from_monday date = (date - 1) mod 7"

definition weekday :: "int \<Rightarrow> Weekday" where
  "weekday date =
     [Monday, Tuesday, Wednesday, Thursday, Friday, Saturday, Sunday] ! nat (num_days_from_monday date)"

subsection \<open>Parsing times of day\<close>

text \<open>\<^verbatim>\<open>str::parse::<u32>\<close>: an optional plus sign and decimal digits, in range.\<close>

definition digit_value :: "char \<Rightarrow> nat" where
  "digit_value c = of_char c - 48"

definition decimal :: "string \<Rightarrow> nat" where
  "decimal s = foldl (\<lambda>n c. 10 * n + digit_value c) 0 s"

definition parse_u32 :: "string \<Rightarrow> nat option" where
  "parse_u32 s =
     (let digits = (if s \<noteq> [] \<and> hd s = CHR ''+'' then tl s else s)
      in if digits = [] \<or> \<not> list_all is_ascii_digit digits \<or> 2 ^ 32 \<le> decimal digits then None
         else Some (decimal digits))"

definition parse_minute :: "string \<Rightarrow> nat option" where
  "parse_minute raw =
     (case split_once (CHR '':'') raw of
        None \<Rightarrow> None
      | Some (hh, mm) \<Rightarrow>
          (case (parse_u32 hh, parse_u32 mm) of
             (Some hours, Some minutes) \<Rightarrow>
               if 60 \<le> minutes \<or> hours > 24 \<or> (hours = 24 \<and> minutes \<noteq> 0) then None
               else Some (hours * 60 + minutes)
           | _ \<Rightarrow> None))"

subsection \<open>Recurring windows\<close>

record RolloutWindow =
  rw_weekdays :: "Weekday list"
  rw_interval_weeks :: "nat option"
  rw_anchor_week :: "string option"
  rw_start :: string
  rw_end :: string

definition default_start :: string where
  "default_start = ''00:00''"

definition default_end :: string where
  "default_end = ''24:00''"

definition has_week_phase :: "RolloutWindow \<Rightarrow> bool" where
  "has_week_phase w \<longleftrightarrow>
     (case rw_interval_weeks w of Some n \<Rightarrow> n > 1 | None \<Rightarrow> False) \<or> rw_anchor_week w \<noteq> None"

definition monday_of_week :: "calendar_lib \<Rightarrow> int \<Rightarrow> int option" where
  "monday_of_week C date = checked_sub_days C date (num_days_from_monday date)"

definition weeks_between :: "calendar_lib \<Rightarrow> int \<Rightarrow> int \<Rightarrow> int option" where
  "weeks_between C anchor date =
     (case (monday_of_week C date, monday_of_week C anchor) of
        (Some d, Some a) \<Rightarrow> Some ((d - a) div 7)
      | _ \<Rightarrow> None)"

definition is_active_day :: "calendar_lib \<Rightarrow> RolloutWindow \<Rightarrow> int \<Rightarrow> bool" where
  "is_active_day C w date =
     (if rw_weekdays w = [] then \<not> has_week_phase w
      else if weekday date \<notin> set (rw_weekdays w) then False
      else (case rw_interval_weeks w of
              None \<Rightarrow> True
            | Some interval \<Rightarrow>
                if interval = 0 \<or> interval = 1 then True
                else (case Option.bind (rw_anchor_week w) (cl_parse_date C) of
                        None \<Rightarrow> False
                      | Some anchor \<Rightarrow>
                          (case weeks_between C anchor date of
                             None \<Rightarrow> False
                           | Some weeks \<Rightarrow> weeks mod int interval = 0))))"

definition is_active :: "calendar_lib \<Rightarrow> RolloutWindow \<Rightarrow> moment \<Rightarrow> bool" where
  "is_active C w now =
     (case (parse_minute (rw_start w), parse_minute (rw_end w)) of
        (Some s, Some e) \<Rightarrow>
          (let today = mo_day now; minute = minute_of_day now
           in if s < e then is_active_day C w today \<and> s \<le> minute \<and> minute < e
              else if s = e then is_active_day C w today
              else (s \<le> minute \<and> is_active_day C w today)
                   \<or> (minute < e
                       \<and> (case checked_sub_days C today 1 of
                            None \<Rightarrow> False
                          | Some yesterday \<Rightarrow> is_active_day C w yesterday)))
      | _ \<Rightarrow> False)"

datatype window_error =
    PhaseNeedsWeekdays | BadStart | BadEnd | AnchorMissing | AnchorUnparseable | AnchorUnrepresentable
  | BadDate | EmptySpan | SpanUnrepresentable

definition window_validate :: "calendar_lib \<Rightarrow> RolloutWindow \<Rightarrow> window_error option" where
  "window_validate C w =
     (if rw_weekdays w = [] \<and> has_week_phase w then Some PhaseNeedsWeekdays
      else if parse_minute (rw_start w) = None then Some BadStart
      else if parse_minute (rw_end w) = None then Some BadEnd
      else if (case rw_interval_weeks w of Some n \<Rightarrow> n > 1 | None \<Rightarrow> False)
      then (case rw_anchor_week w of
              None \<Rightarrow> Some AnchorMissing
            | Some raw \<Rightarrow>
                (case cl_parse_date C raw of
                   None \<Rightarrow> Some AnchorUnparseable
                 | Some anchor \<Rightarrow>
                     if monday_of_week C anchor = None then Some AnchorUnrepresentable else None))
      else None)"

definition is_open :: "calendar_lib \<Rightarrow> RolloutWindow list \<Rightarrow> moment \<Rightarrow> bool" where
  "is_open C windows now \<longleftrightarrow> windows = [] \<or> list_ex (\<lambda>window. is_active C window now) windows"

subsection \<open>Dated calendars\<close>

record CalendarEntry =
  ce_date :: string
  ce_start :: string
  ce_end :: string

definition entry_span :: "calendar_lib \<Rightarrow> CalendarEntry \<Rightarrow> (int \<times> int) option" where
  "entry_span C entry =
     (case cl_parse_date C (ce_date entry) of
        None \<Rightarrow> None
      | Some date \<Rightarrow>
          (case (parse_minute (ce_start entry), parse_minute (ce_end entry)) of
             (Some s, Some e) \<Rightarrow>
               if e \<le> s then None
               else (case (checked_add_minutes C date s, checked_add_minutes C date e) of
                       (Some a, Some b) \<Rightarrow> Some (a, b)
                     | _ \<Rightarrow> None)
           | _ \<Rightarrow> None))"

definition entry_validate :: "calendar_lib \<Rightarrow> CalendarEntry \<Rightarrow> window_error option" where
  "entry_validate C entry =
     (if cl_parse_date C (ce_date entry) = None then Some BadDate
      else case parse_minute (ce_start entry) of
             None \<Rightarrow> Some BadStart
           | Some s \<Rightarrow>
               (case parse_minute (ce_end entry) of
                  None \<Rightarrow> Some BadEnd
                | Some e \<Rightarrow>
                    if e \<le> s then Some EmptySpan
                    else if entry_span C entry = None then Some SpanUnrepresentable
                    else None))"

definition usable_spans :: "calendar_lib \<Rightarrow> CalendarEntry list \<Rightarrow> (int \<times> int) list" where
  "usable_spans C calendar = List.map_filter (entry_span C) calendar"

definition ran_out :: "CalendarEntry list \<Rightarrow> (int \<times> int) list \<Rightarrow> int \<Rightarrow> bool" where
  "ran_out calendar spans now \<longleftrightarrow>
     length spans = length calendar \<and> spans \<noteq> [] \<and> list_all (\<lambda>(_, e). now \<ge> e) spans"

definition calendar_open :: "calendar_lib \<Rightarrow> CalendarEntry list \<Rightarrow> moment \<Rightarrow> bool" where
  "calendar_open C calendar now =
     (if calendar = [] then True
      else (let spans = usable_spans C calendar
            in list_ex (\<lambda>(s, e). s \<le> instant now \<and> instant now < e) spans
               \<or> ran_out calendar spans (instant now)))"

definition calendar_exhausted :: "calendar_lib \<Rightarrow> CalendarEntry list \<Rightarrow> moment \<Rightarrow> bool" where
  "calendar_exhausted C calendar now = ran_out calendar (usable_spans C calendar) (instant now)"

end
