(* ===== verification/Evidence.thy ===== *)
theory Evidence
  imports Release_Graph
begin

text \<open>
  What the control plane believes a node said: the signed report and its trust gate
  (\<^verbatim>\<open>crates/updated-contracts/src/telemetry.rs\<close>), the cache of authenticity verdicts and the
  memory that outlives a planning pass (\<^verbatim>\<open>crates/updatec/src/evidence.rs\<close>).

  Base64, the ECDSA check and the JSON parser are the parameter \<open>report_lib\<close>.  A \<^verbatim>\<open>HashMap\<close> is an
  ordered map here: its iteration order is not observed, since every entry is treated on its own.
\<close>

subsection \<open>Reports\<close>

record Attention =
  at_product :: string
  at_receipt :: string
  at_operation :: MutationOperation
  at_attempt :: string
  at_version :: string
  at_message :: string

record Support =
  sp_apis :: "u32 list"
  sp_capabilities :: "string list"

record Fingerprint =
  fp_definition_sha256 :: string
  fp_output_sha256 :: string

text \<open>The identities the last reconciliation record names; the rest of it is not read here.\<close>

record LastReconciliation =
  lr_version :: string
  lr_archive_sha256 :: string
  lr_definition_sha256 :: string

record NodeReport =
  nr_attention :: "Attention option"
  nr_helper :: "Support option"
  nr_schema :: u32
  nr_node :: string
  nr_deployment :: string
  nr_assignment_sha256 :: string
  nr_version :: string
  nr_archive_sha256 :: string
  nr_definition_sha256 :: string
  nr_healthy :: bool
  nr_updating :: bool
  nr_rejected :: bool
  nr_reported_at_ms :: u64
  nr_fingerprint :: "Fingerprint option"
  nr_output_sha256 :: "string option"
  nr_reconciliation :: "LastReconciliation option"

definition REPORT_SCHEMA :: u32 where
  "REPORT_SCHEMA = 12"

definition REPORT_FRESHNESS :: u64 where
  "REPORT_FRESHNESS = 60000"

definition REPORT_MAX_SKEW :: u64 where
  "REPORT_MAX_SKEW = 60000"

definition MAX_RESULT_MESSAGE_BYTES :: nat where
  "MAX_RESULT_MESSAGE_BYTES = 4 * 1024"

definition attempt_is_reserved :: "string \<Rightarrow> bool" where
  "attempt_is_reserved i \<longleftrightarrow> i \<in> {''boot'', ''converge'', ''periodic'', ''fingerprint''}"

definition attempt_is_compensation :: "string \<Rightarrow> bool" where
  "attempt_is_compensation i \<longleftrightarrow> i \<noteq> [] \<and> last i = CHR ''r'' \<and> is_canonical_sha256 (butlast i)"

definition is_transaction_invocation :: "string \<Rightarrow> bool" where
  "is_transaction_invocation i \<longleftrightarrow> is_canonical_sha256 i \<or> attempt_is_compensation i"

definition attention_validate :: "'z versions_scheme \<Rightarrow> Attention \<Rightarrow> bool" where
  "attention_validate V a \<longleftrightarrow>
     \<not> (\<not> is_segment (at_product a)
        \<or> \<not> is_canonical_sha256 (at_receipt a)
        \<or> parse_release_version V (at_version a) = None
        \<or> \<not> (attempt_is_reserved (at_attempt a) \<or> is_transaction_invocation (at_attempt a))
        \<or> at_message a = []
        \<or> length (at_message a) > MAX_RESULT_MESSAGE_BYTES
        \<or> has_control (at_message a))"

definition valid_capabilities :: "string list \<Rightarrow> bool" where
  "valid_capabilities values \<longleftrightarrow>
     length values \<le> 32
     \<and> list_all (\<lambda>value. length value \<le> 64 \<and> is_segment value) values
     \<and> list_all (\<lambda>(i, value). value \<notin> set (take i values)) (enumerate 0 values)"

definition support_is_valid :: "Support \<Rightarrow> bool" where
  "support_is_valid s \<longleftrightarrow>
     sp_apis s \<noteq> []
     \<and> length (sp_apis s) \<le> 16
     \<and> list_all (\<lambda>(i, api). api \<noteq> 0 \<and> api \<notin> set (take i (sp_apis s))) (enumerate 0 (sp_apis s))
     \<and> valid_capabilities (sp_capabilities s)"

definition fingerprint_is_wellformed :: "Fingerprint \<Rightarrow> bool" where
  "fingerprint_is_wellformed f \<longleftrightarrow>
     is_canonical_sha256 (fp_definition_sha256 f) \<and> is_canonical_sha256 (fp_output_sha256 f)"

datatype report_defect =
    InvalidAttention | InvalidHelper | UnknownSchema | InvalidDeployment | MissingTimestamp
  | IncompleteVersion | InvalidReleaseVersion | IncompleteExecution | HealthyWithoutRelease
  | HealthyAndUpdating | InvalidArchive | InvalidDefinition | InvalidAssignment
  | InvalidFingerprint | InvalidOutput | UnhealthyWithEvidence | MissingReconciliation
  | UnexpectedReconciliation | ForeignReconciliation

definition shape_error :: "'z versions_scheme \<Rightarrow> NodeReport \<Rightarrow> report_defect option" where
  "shape_error V r =
     (if (case nr_attention r of Some record_ \<Rightarrow> nr_healthy r \<or> \<not> attention_validate V record_ | None \<Rightarrow> False)
      then Some InvalidAttention
      else if (case nr_helper r of Some helper \<Rightarrow> \<not> support_is_valid helper | None \<Rightarrow> False)
      then Some InvalidHelper
      else if nr_schema r \<noteq> REPORT_SCHEMA then Some UnknownSchema
      else if \<not> is_segment (nr_deployment r) then Some InvalidDeployment
      else if nr_reported_at_ms r = 0 then Some MissingTimestamp
      else if (nr_version r = []) \<noteq> (nr_archive_sha256 r = []) then Some IncompleteVersion
      else if nr_version r \<noteq> [] \<and> parse_release_version V (nr_version r) = None
      then Some InvalidReleaseVersion
      else if (nr_archive_sha256 r = []) \<noteq> (nr_definition_sha256 r = []) then Some IncompleteExecution
      else if nr_healthy r \<and> nr_archive_sha256 r = [] then Some HealthyWithoutRelease
      else if nr_healthy r \<and> nr_updating r then Some HealthyAndUpdating
      else if nr_archive_sha256 r \<noteq> [] \<and> \<not> is_canonical_sha256 (nr_archive_sha256 r)
      then Some InvalidArchive
      else if nr_definition_sha256 r \<noteq> [] \<and> \<not> is_canonical_sha256 (nr_definition_sha256 r)
      then Some InvalidDefinition
      else if nr_assignment_sha256 r \<noteq> [] \<and> \<not> is_canonical_sha256 (nr_assignment_sha256 r)
      then Some InvalidAssignment
      else if (case nr_fingerprint r of Some f \<Rightarrow> \<not> fingerprint_is_wellformed f | None \<Rightarrow> False)
      then Some InvalidFingerprint
      else if (case nr_output_sha256 r of Some d \<Rightarrow> \<not> is_canonical_sha256 d | None \<Rightarrow> False)
      then Some InvalidOutput
      else if \<not> nr_healthy r \<and> (nr_fingerprint r \<noteq> None \<or> nr_output_sha256 r \<noteq> None)
      then Some UnhealthyWithEvidence
      else (case nr_reconciliation r of
              None \<Rightarrow>
                if nr_version r = [] \<or> nr_attention r \<noteq> None then None else Some MissingReconciliation
            | Some record_ \<Rightarrow>
                if nr_version r = [] then Some UnexpectedReconciliation
                else if lr_version record_ \<noteq> nr_version r
                        \<or> lr_archive_sha256 record_ \<noteq> nr_archive_sha256 r
                        \<or> lr_definition_sha256 record_ \<noteq> nr_definition_sha256 r
                then Some ForeignReconciliation
                else None))"

definition is_wellformed :: "'z versions_scheme \<Rightarrow> NodeReport \<Rightarrow> bool" where
  "is_wellformed V r \<longleftrightarrow> shape_error V r = None"

definition is_fresh :: "NodeReport \<Rightarrow> u64 \<Rightarrow> bool" where
  "is_fresh r now_ms \<longleftrightarrow>
     now_ms \<noteq> 0
     \<and> nr_reported_at_ms r \<le> saturating_add now_ms REPORT_MAX_SKEW
     \<and> saturating_sub now_ms (nr_reported_at_ms r) \<le> REPORT_FRESHNESS"

definition is_converged_to :: "'z versions_scheme \<Rightarrow> NodeReport \<Rightarrow> string \<Rightarrow> string \<Rightarrow> bool" where
  "is_converged_to V r assignment_sha256 archive_sha256 \<longleftrightarrow>
     is_wellformed V r
     \<and> nr_healthy r
     \<and> \<not> nr_rejected r
     \<and> nr_assignment_sha256 r = assignment_sha256
     \<and> nr_archive_sha256 r = archive_sha256"

subsection \<open>The trust gate\<close>

record Envelope =
  en_payload :: string
  en_payload_type :: string
  en_signatures :: "string list"

type_synonym P256PublicKey = string

record report_lib =
  rl_base64_decode :: "string \<Rightarrow> string option"
  rl_verify_asn1 :: "P256PublicKey \<Rightarrow> string \<Rightarrow> string \<Rightarrow> bool"
  rl_parse :: "string \<Rightarrow> NodeReport option"

definition REPORT_PAYLOAD_TYPE :: string where
  "REPORT_PAYLOAD_TYPE = ''application/vnd.updated.node-report+json''"

definition MAX_SIGNATURES :: nat where
  "MAX_SIGNATURES = 4"

text \<open>\<^verbatim>\<open>usize::to_string\<close>.\<close>

definition digit_char :: "nat \<Rightarrow> char" where
  "digit_char d = char_of (48 + d)"

fun show_nat :: "nat \<Rightarrow> string" where
  "show_nat n = (if n < 10 then [digit_char n] else show_nat (n div 10) @ [digit_char (n mod 10)])"

declare show_nat.simps [simp del]

definition pae :: "string \<Rightarrow> string \<Rightarrow> string" where
  "pae payload payload_type =
     ''DSSEv1 '' @ show_nat (length payload_type) @ '' '' @ payload_type @ '' ''
       @ show_nat (length payload) @ '' '' @ payload"

definition decode_report_payload :: "report_lib \<Rightarrow> Envelope \<Rightarrow> string option" where
  "decode_report_payload L envelope =
     (if en_payload_type envelope \<noteq> REPORT_PAYLOAD_TYPE
         \<or> en_signatures envelope = []
         \<or> length (en_signatures envelope) > MAX_SIGNATURES
      then None
      else rl_base64_decode L (en_payload envelope))"

definition parse_attributed_payload ::
  "'z versions_scheme \<Rightarrow> report_lib \<Rightarrow> string \<Rightarrow> string \<Rightarrow> NodeReport option" where
  "parse_attributed_payload V L payload node =
     (case rl_parse L payload of
        None \<Rightarrow> None
      | Some report \<Rightarrow> if nr_node report = node \<and> is_wellformed V report then Some report else None)"

text \<open>An \<^verbatim>\<open>AuthenticReport\<close> is the report itself; \<open>fresh_report\<close> and \<open>rejected_assignment\<close> are its two readings.\<close>

definition authenticate_report ::
  "'z versions_scheme \<Rightarrow> report_lib \<Rightarrow> Envelope \<Rightarrow> string \<Rightarrow> P256PublicKey \<Rightarrow> NodeReport option" where
  "authenticate_report V L envelope expected_node public_key =
     (case decode_report_payload L envelope of
        None \<Rightarrow> None
      | Some payload \<Rightarrow>
          if list_ex (\<lambda>sig. case rl_base64_decode L sig of
                              None \<Rightarrow> False
                            | Some s \<Rightarrow> rl_verify_asn1 L public_key (pae payload REPORT_PAYLOAD_TYPE) s)
               (en_signatures envelope)
          then parse_attributed_payload V L payload expected_node
          else None)"

definition fresh_report :: "NodeReport \<Rightarrow> u64 \<Rightarrow> NodeReport option" where
  "fresh_report r now_ms = (if is_fresh r now_ms then Some r else None)"

definition rejected_assignment :: "NodeReport \<Rightarrow> string option" where
  "rejected_assignment r = (if nr_rejected r then Some (nr_assignment_sha256 r) else None)"

subsection \<open>The cache of verdicts\<close>

record VerifiedEntry =
  ve_key :: P256PublicKey
  ve_envelope :: Envelope
  ve_report :: "NodeReport option"

record VerifiedReports =
  vr_entries :: "VerifiedEntry bmap"
  vr_verifications :: nat

definition vr_default :: VerifiedReports where
  "vr_default = \<lparr>vr_entries = [], vr_verifications = 0\<rparr>"

definition authentic :: "VerifiedReports \<Rightarrow> string \<Rightarrow> Envelope \<Rightarrow> P256PublicKey \<Rightarrow> NodeReport option" where
  "authentic vr node envelope key =
     (case bm_get (vr_entries vr) node of
        None \<Rightarrow> None
      | Some entry \<Rightarrow> if ve_envelope entry = envelope \<and> ve_key entry = key then ve_report entry else None)"

definition vr_fresh ::
  "VerifiedReports \<Rightarrow> string \<Rightarrow> Envelope \<Rightarrow> P256PublicKey \<Rightarrow> u64 \<Rightarrow> NodeReport option" where
  "vr_fresh vr node envelope key now_ms =
     Option.bind (authentic vr node envelope key) (\<lambda>report. fresh_report report now_ms)"

definition vr_rejected_assignment ::
  "VerifiedReports \<Rightarrow> string \<Rightarrow> Envelope \<Rightarrow> P256PublicKey \<Rightarrow> string option" where
  "vr_rejected_assignment vr node envelope key =
     Option.bind (authentic vr node envelope key) rejected_assignment"

definition is_warm :: "VerifiedReports \<Rightarrow> string \<Rightarrow> Envelope \<Rightarrow> P256PublicKey \<Rightarrow> bool" where
  "is_warm vr node envelope key \<longleftrightarrow>
     (case bm_get (vr_entries vr) node of
        None \<Rightarrow> False | Some entry \<Rightarrow> ve_envelope entry = envelope \<and> ve_key entry = key)"

definition pending_verifications ::
  "VerifiedReports \<Rightarrow> Envelope bmap \<Rightarrow> P256PublicKey bmap \<Rightarrow> (string \<times> Envelope \<times> P256PublicKey) list" where
  "pending_verifications vr reports public_keys =
     filter (\<lambda>(node, envelope, key). \<not> is_warm vr node envelope key)
       (List.map_filter (\<lambda>(node, envelope).
          map_option (\<lambda>key. (node, envelope, key)) (bm_get public_keys node)) reports)"

definition verify_fleet ::
  "'z versions_scheme \<Rightarrow> report_lib \<Rightarrow> Envelope bmap \<Rightarrow> P256PublicKey bmap \<Rightarrow> VerifiedReports \<Rightarrow> VerifiedReports"
  where
  "verify_fleet V L reports public_keys vr =
     (let pending = pending_verifications vr reports public_keys in
      vr\<lparr>vr_verifications := vr_verifications vr + length pending,
         vr_entries := fold (\<lambda>(node, envelope, key).
           bm_insert node \<lparr>ve_key = key, ve_envelope = envelope,
             ve_report = authenticate_report V L envelope node key\<rparr>) pending (vr_entries vr)\<rparr>)"

definition vr_prune_nodes :: "(string \<Rightarrow> bool) \<Rightarrow> VerifiedReports \<Rightarrow> VerifiedReports" where
  "vr_prune_nodes fleet vr = vr\<lparr>vr_entries := bm_retain (\<lambda>node _. fleet node) (vr_entries vr)\<rparr>"

subsection \<open>The memory that outlives a pass\<close>

record ObservationLog =
  ol_reported :: "string set"
  ol_rejections :: "(string \<times> string) set"

definition ol_new :: ObservationLog where
  "ol_new = \<lparr>ol_reported = {}, ol_rejections = {}\<rparr>"

definition note_reported :: "string list \<Rightarrow> ObservationLog \<Rightarrow> ObservationLog" where
  "note_reported nodes log = log\<lparr>ol_reported := ol_reported log \<union> set nodes\<rparr>"

definition has_reported :: "ObservationLog \<Rightarrow> string \<Rightarrow> bool" where
  "has_reported log node \<longleftrightarrow> node \<in> ol_reported log"

definition note_rejection :: "string \<Rightarrow> string \<Rightarrow> ObservationLog \<Rightarrow> ObservationLog" where
  "note_rejection node identity log = log\<lparr>ol_rejections := insert (node, identity) (ol_rejections log)\<rparr>"

definition provers :: "ObservationLog \<Rightarrow> string \<Rightarrow> string set" where
  "provers log identity = fst ` {claim \<in> ol_rejections log. snd claim = identity}"

definition prune_identities :: "string set \<Rightarrow> ObservationLog \<Rightarrow> ObservationLog" where
  "prune_identities live log = log\<lparr>ol_rejections := {claim \<in> ol_rejections log. snd claim \<in> live}\<rparr>"

definition prune_nodes :: "(string \<Rightarrow> bool) \<Rightarrow> ObservationLog \<Rightarrow> ObservationLog" where
  "prune_nodes fleet log =
     log\<lparr>ol_reported := {node \<in> ol_reported log. fleet node},
         ol_rejections := {claim \<in> ol_rejections log. fleet (fst claim)}\<rparr>"

end
