(* ===== verification/Rollout.thy ===== *)
theory Rollout
  imports Dataflow Schedule Evidence
begin

text \<open>
  The rollout planner of \<^verbatim>\<open>crates/updatec/src/rollout.rs\<close>: from desired groups, durable
  admissions and verified reports to the deployment each node is handed in the next signed
  generation.  The definitions follow the file's order; \<open>plan_rollouts\<close> composes them.

  \<open>P\<close> is the publisher (identities of deployments), \<open>C\<close> the calendar library and \<open>L\<close> the report
  library.  A \<^verbatim>\<open>usize\<close> count of in-memory items is a \<^typ>\<open>nat\<close>.
\<close>

subsection \<open>Durable and desired state\<close>

record AdmittedDeployment =
  ad_current :: DesiredDeployment
  ad_previous :: "DesiredDeployment list"

record GroupOutputReference =
  gr_group :: string
  gr_output :: string

record ResolvedGroup =
  rg_name :: string
  rg_match_labels :: "string bmap"
  rg_depends_on :: "string list"
  rg_inputs :: "GroupOutputReference bmap"
  rg_input_snapshot :: "FileSnapshot option"
  rg_deployment :: DesiredDeployment
  rg_max_unavailable :: nat
  rg_emergency_correction :: bool

definition inputs_ready :: "ResolvedGroup \<Rightarrow> bool" where
  "inputs_ready g \<longleftrightarrow> rg_inputs g = [] \<or> rg_input_snapshot g \<noteq> None"

datatype RegressionResponse = Halt | RollbackOnRegression

record UpdateGroupSet =
  us_name :: "string option"
  us_selector :: "string bmap"
  us_max_concurrent :: "nat option"
  us_rollout_windows :: "RolloutWindow list"
  us_calendar :: "CalendarEntry list"
  us_max_regressions :: "nat option"
  us_on_regression :: RegressionResponse

definition effective_max_concurrent :: "UpdateGroupSet \<Rightarrow> nat \<Rightarrow> nat" where
  "effective_max_concurrent s members =
     (let ceiling = max (members - 1) 1;
          requested = (case us_max_concurrent s of Some n \<Rightarrow> n | None \<Rightarrow> ceiling)
      in min (max requested 1) ceiling)"

definition selector_matches :: "string bmap \<Rightarrow> string bmap \<Rightarrow> bool" where
  "selector_matches expected labels \<longleftrightarrow>
     list_all (\<lambda>(key, value). bm_get labels key = Some value) expected"

record HaltedDeployment =
  hd_deployment :: string
  hd_evidence :: nat
  hd_rolled_back :: bool

record VetoedDeployment =
  vd_deployment :: string
  vd_evidence :: nat

definition DEFAULT_GROUP :: string where
  "DEFAULT_GROUP = ''default''"

subsection \<open>Verdicts\<close>

datatype GroupProgress = Held | Rolling | Blocked | Settled | Failed | Unobservable

definition satisfies_dependency :: "GroupProgress \<Rightarrow> bool" where
  "satisfies_dependency p \<longleftrightarrow> p = Settled"

definition is_advancing :: "GroupProgress \<Rightarrow> bool" where
  "is_advancing p \<longleftrightarrow> p = Rolling"

record GroupObservation =
  go_moving :: bool
  go_failed :: bool
  go_blocked :: bool
  go_observable :: bool
  go_halted :: bool

definition observation_default :: GroupObservation where
  "observation_default =
     \<lparr>go_moving = False, go_failed = False, go_blocked = False, go_observable = False, go_halted = False\<rparr>"

definition verdict :: "GroupObservation \<Rightarrow> GroupProgress" where
  "verdict obs =
     (if go_moving obs then Rolling
      else if go_failed obs then Failed
      else if go_blocked obs then Blocked
      else if go_observable obs then Settled
      else Unobservable)"

definition observation_holds_slot :: "GroupObservation \<Rightarrow> bool" where
  "observation_holds_slot obs \<longleftrightarrow> \<not> go_halted obs \<and> verdict obs = Rolling"

record GroupNodes =
  gn_total :: nat
  gn_on_target :: nat
  gn_fresh :: nat
  gn_observable :: nat
  gn_held :: nat
  gn_target :: "string option"

record SetStatus =
  ss_name :: string
  ss_member_count :: nat
  ss_max_concurrent :: nat
  ss_rolling :: "string list"
  ss_settled :: "string list"
  ss_failed :: "string list"
  ss_unobservable :: "string list"
  ss_shared :: "string list"
  ss_emergency :: "string list"
  ss_frozen :: bool
  ss_calendar_exhausted :: bool
  ss_halted :: "HaltedDeployment list"

record RolloutPlan =
  rp_sets :: "SetStatus list"
  rp_node_deployments :: "DesiredDeployment bmap"
  rp_groups :: "GroupProgress bmap"
  rp_node_counts :: "GroupNodes bmap"
  rp_halted_groups :: "HaltedDeployment bmap"
  rp_blocked :: "string set"

record RolloutInputs =
  ri_groups :: "ResolvedGroup bmap"
  ri_group_labels :: "string bmap bmap"
  ri_node_groups :: "string bmap"
  ri_reports :: "Envelope bmap"
  ri_public_keys :: "P256PublicKey bmap"
  ri_published :: "string bmap"
  ri_held :: "AdmittedDeployment bmap"
  ri_holds :: "string set"
  ri_cordons :: "string set"
  ri_blocked_deployments :: "string set"
  ri_default_deployment :: DesiredDeployment

subsection \<open>Observations\<close>

datatype NodeEvidence = Healthy | Broken | Silent | Blind

definition unavailable :: "NodeEvidence \<Rightarrow> bool" where
  "unavailable e \<longleftrightarrow> e = Broken \<or> e = Silent"

record Observations =
  ob_node_groups :: "string bmap"
  ob_reports :: "Envelope bmap"
  ob_public_keys :: "P256PublicKey bmap"
  ob_published :: "string bmap"
  ob_cordons :: "string set"
  ob_now_ms :: u64
  ob_verified :: VerifiedReports

definition report :: "Observations \<Rightarrow> string \<Rightarrow> NodeReport option" where
  "report Ob node =
     (case (bm_get (ob_reports Ob) node, bm_get (ob_public_keys Ob) node) of
        (Some envelope, Some key) \<Rightarrow> vr_fresh (ob_verified Ob) node envelope key (ob_now_ms Ob)
      | _ \<Rightarrow> None)"

definition evidence :: "Observations \<Rightarrow> string \<Rightarrow> string \<Rightarrow> NodeEvidence" where
  "evidence Ob node identity =
     (if \<not> bm_has (ob_public_keys Ob) node then Blind
      else (case report Ob node of
              Some r \<Rightarrow>
                if nr_assignment_sha256 r = identity then (if nr_healthy r then Healthy else Broken)
                else Silent
            | None \<Rightarrow> Silent))"

definition nodes :: "Observations \<Rightarrow> string \<Rightarrow> string list" where
  "nodes Ob grp = map fst (filter (\<lambda>(_, selected). selected = grp) (ob_node_groups Ob))"

definition any_node_published :: "Observations \<Rightarrow> string \<Rightarrow> bool" where
  "any_node_published Ob grp \<longleftrightarrow> list_ex (bm_has (ob_published Ob)) (nodes Ob grp)"

definition placement :: "Observations \<Rightarrow> string \<Rightarrow> string option" where
  "placement Ob node =
     (case bm_get (ob_published Ob) node of
        Some identity \<Rightarrow> Some identity
      | None \<Rightarrow> map_option nr_assignment_sha256 (report Ob node))"

definition advanced :: "Observations \<Rightarrow> string \<Rightarrow> string \<Rightarrow> bool" where
  "advanced Ob node identity \<longleftrightarrow>
     bm_get (ob_published Ob) node = Some identity
     \<or> (case report Ob node of Some r \<Rightarrow> nr_assignment_sha256 r = identity | None \<Rightarrow> False)"

definition converged :: "publisher \<Rightarrow> Observations \<Rightarrow> string \<Rightarrow> string \<Rightarrow> DesiredDeployment \<Rightarrow> bool" where
  "converged P Ob node identity deployment \<longleftrightarrow>
     (case report Ob node of
        None \<Rightarrow> False
      | Some r \<Rightarrow>
          (case target_reference (as_application deployment) of
             Inl _ \<Rightarrow> False
           | Inr reference \<Rightarrow> is_converged_to P r identity (tr_sha256 reference)))"

record MovementVerdict =
  mv_proofs :: "string set bmap"
  mv_blocked :: "string set"

definition observe_node ::
  "publisher \<Rightarrow> Observations \<Rightarrow> DesiredDeployment \<Rightarrow> string \<Rightarrow> string set option
     \<Rightarrow> string \<Rightarrow> GroupObservation \<Rightarrow> GroupObservation" where
  "observe_node P Ob current identity rejected node obs =
     (if node \<in> ob_cordons Ob then obs
      else if (case rejected of Some ns \<Rightarrow> node \<in> ns | None \<Rightarrow> False)
      then obs\<lparr>go_observable := True, go_failed := True\<rparr>
      else if \<not> advanced Ob node identity
      then (if go_halted obs then obs\<lparr>go_blocked := True\<rparr> else obs\<lparr>go_moving := True\<rparr>)
      else (case evidence Ob node identity of
              Healthy \<Rightarrow>
                if converged P Ob node identity current then obs\<lparr>go_observable := True\<rparr>
                else obs\<lparr>go_observable := True, go_moving := True\<rparr>
            | Broken \<Rightarrow> obs\<lparr>go_observable := True, go_moving := True\<rparr>
            | Silent \<Rightarrow> obs\<lparr>go_observable := True, go_moving := True\<rparr>
            | Blind \<Rightarrow> obs))"

definition observe_group ::
  "publisher \<Rightarrow> Observations \<Rightarrow> string \<Rightarrow> AdmittedDeployment \<Rightarrow> MovementVerdict \<Rightarrow> GroupObservation" where
  "observe_group P Ob grp state movement =
     (case deployment_identity P (ad_current state) of
        None \<Rightarrow> observation_default
      | Some identity \<Rightarrow>
          fold (observe_node P Ob (ad_current state) identity (bm_get (mv_proofs movement) identity))
            (nodes Ob grp)
            (observation_default\<lparr>go_halted := identity \<in> mv_blocked movement\<rparr>))"

definition progress ::
  "publisher \<Rightarrow> Observations \<Rightarrow> string \<Rightarrow> AdmittedDeployment \<Rightarrow> MovementVerdict \<Rightarrow> GroupProgress" where
  "progress P Ob grp state movement = verdict (observe_group P Ob grp state movement)"

definition fully_handed :: "publisher \<Rightarrow> Observations \<Rightarrow> string \<Rightarrow> DesiredDeployment \<Rightarrow> bool" where
  "fully_handed P Ob grp deployment \<longleftrightarrow>
     (case deployment_identity P deployment of
        None \<Rightarrow> False
      | Some identity \<Rightarrow>
          list_all (\<lambda>node. advanced Ob node identity)
            (filter (\<lambda>node. node \<notin> ob_cordons Ob) (nodes Ob grp)))"

definition claims_rejection :: "Observations \<Rightarrow> string \<Rightarrow> string option" where
  "claims_rejection Ob node =
     (case (bm_get (ob_reports Ob) node, bm_get (ob_public_keys Ob) node) of
        (Some envelope, Some key) \<Rightarrow> vr_rejected_assignment (ob_verified Ob) node envelope key
      | _ \<Rightarrow> None)"

definition placed_anywhere :: "publisher \<Rightarrow> Observations \<Rightarrow> DesiredDeployment \<Rightarrow> bool" where
  "placed_anywhere P Ob deployment \<longleftrightarrow>
     (case deployment_identity P deployment of
        None \<Rightarrow> False
      | Some identity \<Rightarrow> list_ex (\<lambda>node. advanced Ob node identity) (bm_keys (ob_node_groups Ob)))"

definition classify ::
  "publisher \<Rightarrow> string \<Rightarrow> DesiredDeployment bmap \<Rightarrow> AdmittedDeployment bmap \<Rightarrow> Observations
     \<Rightarrow> MovementVerdict \<Rightarrow> GroupProgress" where
  "classify P name desired admitted Ob movement =
     (case bm_get admitted name of
        Some state \<Rightarrow>
          if bm_get desired name = Some (ad_current state) then progress P Ob name state movement else Held
      | None \<Rightarrow> Held)"

subsection \<open>Retaining bodies\<close>

definition bodies :: "AdmittedDeployment \<Rightarrow> DesiredDeployment list" where
  "bodies state = ad_current state # ad_previous state"

definition retire_state ::
  "publisher \<Rightarrow> Observations \<Rightarrow> DesiredDeployment bmap \<Rightarrow> string \<Rightarrow> AdmittedDeployment \<Rightarrow> AdmittedDeployment option"
  where
  "retire_state P Ob desired name state =
     (if bm_has desired name then Some state
      else (case filter (placed_anywhere P Ob) (bodies state) of
              [] \<Rightarrow> None
            | d # live \<Rightarrow> Some \<lparr>ad_current = d, ad_previous = live\<rparr>))"

definition retire_deleted_groups ::
  "publisher \<Rightarrow> DesiredDeployment bmap \<Rightarrow> Observations \<Rightarrow> AdmittedDeployment bmap \<Rightarrow> AdmittedDeployment bmap" where
  "retire_deleted_groups P desired Ob admitted =
     bm_filter_map (retire_state P Ob desired) admitted"

definition provided :: "publisher \<Rightarrow> AdmittedDeployment bmap \<Rightarrow> string set" where
  "provided P admitted = set (List.map_filter (\<lambda>state. deployment_identity P (ad_current state)) (bm_values admitted))"

definition needed :: "publisher \<Rightarrow> Observations \<Rightarrow> string set \<Rightarrow> DesiredDeployment \<Rightarrow> bool" where
  "needed P Ob given deployment \<longleftrightarrow>
     placed_anywhere P Ob deployment
     \<and> \<not> (case deployment_identity P deployment of Some i \<Rightarrow> i \<in> given | None \<Rightarrow> False)"

definition finish_state ::
  "publisher \<Rightarrow> Observations \<Rightarrow> DesiredDeployment bmap \<Rightarrow> string set \<Rightarrow> string \<Rightarrow> AdmittedDeployment \<Rightarrow> AdmittedDeployment"
  where
  "finish_state P Ob desired given name state =
     (if \<not> bm_has desired name \<or> ad_previous state = [] then state
      else if fully_handed P Ob name (ad_current state)
      then state\<lparr>ad_previous := filter (needed P Ob given) (ad_previous state)\<rparr>
      else (let live = filter (needed P Ob given) (ad_previous state)
            in if live = [] then state\<lparr>ad_previous := take 1 (ad_previous state)\<rparr>
               else state\<lparr>ad_previous := live\<rparr>))"

definition finish_staged_rollouts ::
  "publisher \<Rightarrow> DesiredDeployment bmap \<Rightarrow> Observations \<Rightarrow> AdmittedDeployment bmap \<Rightarrow> AdmittedDeployment bmap" where
  "finish_staged_rollouts P desired Ob admitted =
     bm_map (finish_state P Ob desired (provided P admitted)) admitted"

subsection \<open>Sets\<close>

definition set_members ::
  "UpdateGroupSet \<Rightarrow> DesiredDeployment bmap \<Rightarrow> string bmap bmap \<Rightarrow> string list" where
  "set_members s desired group_labels =
     sort (filter (\<lambda>name. case bm_get group_labels name of
                            None \<Rightarrow> False
                          | Some labels \<Rightarrow> selector_matches (us_selector s) labels)
             (bm_keys desired))"

record SetPlan =
  sp_members :: "string list"
  sp_max_concurrent :: nat
  sp_slots :: nat
  sp_frozen :: bool

definition holds_slot ::
  "publisher \<Rightarrow> AdmittedDeployment bmap \<Rightarrow> Observations \<Rightarrow> MovementVerdict \<Rightarrow> string \<Rightarrow> bool" where
  "holds_slot P admitted Ob movement name \<longleftrightarrow>
     (case bm_get admitted name of
        None \<Rightarrow> False
      | Some state \<Rightarrow> observation_holds_slot (observe_group P Ob name state movement))"

definition build_set_plan ::
  "publisher \<Rightarrow> calendar_lib \<Rightarrow> DesiredDeployment bmap \<Rightarrow> string bmap bmap \<Rightarrow> AdmittedDeployment bmap
     \<Rightarrow> Observations \<Rightarrow> MovementVerdict \<Rightarrow> moment \<Rightarrow> UpdateGroupSet \<Rightarrow> SetPlan" where
  "build_set_plan P C desired group_labels admitted Ob movement now s =
     (let members = set_members s desired group_labels;
          max_concurrent = (if members = [] then 0 else effective_max_concurrent s (length members));
          rolling_now = length (filter (holds_slot P admitted Ob movement) members);
          opened = is_open C (us_rollout_windows s) now \<and> calendar_open C (us_calendar s) now
      in \<lparr>sp_members = members, sp_max_concurrent = max_concurrent,
          sp_slots = max_concurrent - rolling_now, sp_frozen = \<not> opened\<rparr>)"

definition push_index :: "nat \<Rightarrow> string \<Rightarrow> nat list bmap \<Rightarrow> nat list bmap" where
  "push_index i name group_plans =
     bm_insert name ((case bm_get group_plans name of None \<Rightarrow> [] | Some is \<Rightarrow> is) @ [i]) group_plans"

definition build_set_plans ::
  "publisher \<Rightarrow> calendar_lib \<Rightarrow> UpdateGroupSet list \<Rightarrow> DesiredDeployment bmap \<Rightarrow> string bmap bmap
     \<Rightarrow> AdmittedDeployment bmap \<Rightarrow> Observations \<Rightarrow> MovementVerdict \<Rightarrow> moment
     \<Rightarrow> SetPlan list \<times> nat list bmap" where
  "build_set_plans P C sets desired group_labels admitted Ob movement now =
     fold (\<lambda>s (plans, group_plans).
       let plan = build_set_plan P C desired group_labels admitted Ob movement now s
       in (plans @ [plan], fold (push_index (length plans)) (sp_members plan) group_plans))
       sets ([], [])"

subsection \<open>The regression verdict\<close>

definition named_identities ::
  "publisher \<Rightarrow> string \<Rightarrow> DesiredDeployment bmap \<Rightarrow> AdmittedDeployment bmap \<Rightarrow> string list" where
  "named_identities P grp desired admitted =
     List.map_filter (deployment_identity P)
       ((case bm_get admitted grp of None \<Rightarrow> [] | Some state \<Rightarrow> [ad_current state])
        @ (case bm_get desired grp of None \<Rightarrow> [] | Some d \<Rightarrow> [d]))"

record Regressions =
  rs_proofs :: "string set bmap"
  rs_halts :: "(string \<times> nat) bmap"

definition regressions_default :: Regressions where
  "regressions_default = \<lparr>rs_proofs = [], rs_halts = []\<rparr>"

definition gather_evidence ::
  "publisher \<Rightarrow> ObservationLog \<Rightarrow> DesiredDeployment list \<Rightarrow> (string \<times> string set) bmap" where
  "gather_evidence P observed targets =
     fold (\<lambda>target ev.
       case deployment_identity P target of
         None \<Rightarrow> ev
       | Some identity \<Rightarrow>
           if bm_has ev identity \<or> provers observed identity = {} then ev
           else bm_insert identity (as_deployment target, provers observed identity) ev)
       targets []"

definition tighten :: "(string \<times> string set) bmap \<Rightarrow> nat \<Rightarrow> string \<Rightarrow> nat bmap \<Rightarrow> nat bmap" where
  "tighten ev threshold identity thresholds =
     (if bm_has ev identity
      then bm_insert identity
             (case bm_get thresholds identity of None \<Rightarrow> threshold | Some t \<Rightarrow> min t threshold) thresholds
      else thresholds)"

definition set_threshold :: "UpdateGroupSet \<Rightarrow> nat" where
  "set_threshold s = max (case us_max_regressions s of Some n \<Rightarrow> n | None \<Rightarrow> 1) 1"

definition gather_thresholds ::
  "publisher \<Rightarrow> UpdateGroupSet list \<Rightarrow> DesiredDeployment bmap \<Rightarrow> string bmap bmap
     \<Rightarrow> AdmittedDeployment bmap \<Rightarrow> (string \<times> string set) bmap \<Rightarrow> nat bmap" where
  "gather_thresholds P sets desired group_labels admitted ev =
     fold (\<lambda>s. fold (\<lambda>member. fold (tighten ev (set_threshold s))
                                  (named_identities P member desired admitted))
                 (set_members s desired group_labels))
       sets []"

definition regression_verdict ::
  "publisher \<Rightarrow> UpdateGroupSet list \<Rightarrow> DesiredDeployment bmap \<Rightarrow> string bmap bmap
     \<Rightarrow> AdmittedDeployment bmap \<Rightarrow> ObservationLog \<Rightarrow> VetoedDeployment bmap \<Rightarrow> Regressions" where
  "regression_verdict P sets desired group_labels admitted observed vetoed =
     (let ev = gather_evidence P observed (map ad_current (bm_values admitted) @ bm_values desired)
      in if ev = [] \<and> vetoed = [] then regressions_default
         else (let thresholds = gather_thresholds P sets desired group_labels admitted ev;
                   live = bm_map (\<lambda>_ (name, ns). (name, card ns))
                            (bm_retain (\<lambda>identity (_, ns).
                               (case bm_get thresholds identity of None \<Rightarrow> 1 | Some t \<Rightarrow> t) \<le> card ns)
                               ev)
               in \<lparr>rs_proofs = bm_map (\<lambda>_. snd) ev,
                   rs_halts = fold (\<lambda>(identity, veto).
                                bm_or_insert identity (vd_deployment veto, vd_evidence veto)) vetoed live\<rparr>))"

subsection \<open>The rollback response\<close>

definition count_policy :: "UpdateGroupSet \<Rightarrow> string \<Rightarrow> (nat \<times> nat) bmap \<Rightarrow> (nat \<times> nat) bmap" where
  "count_policy s member policies =
     (let (governing, rollback) = (case bm_get policies member of None \<Rightarrow> (0, 0) | Some p \<Rightarrow> p)
      in bm_insert member
           (governing + 1, if us_on_regression s = RollbackOnRegression then rollback + 1 else rollback)
           policies)"

definition rollback_groups ::
  "UpdateGroupSet list \<Rightarrow> DesiredDeployment bmap \<Rightarrow> string bmap bmap \<Rightarrow> string set" where
  "rollback_groups sets desired group_labels =
     fst ` set (filter (\<lambda>(_, governing, rollback). 0 < governing \<and> governing = rollback)
       (fold (\<lambda>s. fold (count_policy s) (set_members s desired group_labels)) sets []))"

fun rollback_target_from ::
  "publisher \<Rightarrow> DesiredDeployment \<Rightarrow> nat \<Rightarrow> DesiredDeployment list \<Rightarrow> string set \<Rightarrow> (nat \<times> DesiredDeployment) option"
  where
  "rollback_target_from P current i [] blocks = None"
| "rollback_target_from P current i (d # ds) blocks =
     (let rest = rollback_target_from P current (Suc i) ds blocks in
      case deployment_identity P d of
        None \<Rightarrow> rest
      | Some previous_identity \<Rightarrow>
          (case rollback_to P current d of
             Inl _ \<Rightarrow> rest
           | Inr restored \<Rightarrow>
               (case deployment_identity P restored of
                  None \<Rightarrow> rest
                | Some restored_identity \<Rightarrow>
                    if previous_identity \<notin> blocks \<and> restored_identity \<notin> blocks
                    then Some (i, restored) else rest)))"

definition rollback_target ::
  "publisher \<Rightarrow> DesiredDeployment \<Rightarrow> DesiredDeployment list \<Rightarrow> string set \<Rightarrow> (nat \<times> DesiredDeployment) option"
  where
  "rollback_target P current previous blocks = rollback_target_from P current 0 previous blocks"

text \<open>Whether every prover this rebase moves shows a completed rollback of its own.\<close>

definition provers_recovered :: "Observations \<Rightarrow> Regressions \<Rightarrow> string \<Rightarrow> string \<Rightarrow> bool" where
  "provers_recovered Ob regressions name identity \<longleftrightarrow>
     (case bm_get (rs_proofs regressions) identity of
        None \<Rightarrow> True
      | Some ns \<Rightarrow>
          (\<forall>node \<in> ns. node \<in> set (nodes Ob name) \<longrightarrow>
             (case report Ob node of
                Some r \<Rightarrow>
                  if nr_assignment_sha256 r \<noteq> identity then True else nr_healthy r \<and> nr_rejected r
              | None \<Rightarrow> False)))"

definition rebase_of ::
  "publisher \<Rightarrow> UpdateGroupSet list \<Rightarrow> DesiredDeployment bmap \<Rightarrow> string bmap bmap \<Rightarrow> Observations
     \<Rightarrow> Regressions \<Rightarrow> string set \<Rightarrow> string \<times> AdmittedDeployment
     \<Rightarrow> (string \<times> string \<times> nat \<times> DesiredDeployment) option" where
  "rebase_of P sets desired group_labels Ob regressions blocks = (\<lambda>(name, state).
     if bm_has desired name \<and> name \<in> rollback_groups sets desired group_labels
     then (case deployment_identity P (ad_current state) of
             None \<Rightarrow> None
           | Some identity \<Rightarrow>
               if \<not> bm_has (rs_halts regressions) identity then None
               else (case rollback_target P (ad_current state) (ad_previous state) blocks of
                       None \<Rightarrow> None
                     | Some (index, restored) \<Rightarrow>
                         if provers_recovered Ob regressions name identity
                         then Some (name, identity, index, restored) else None))
     else None)"

definition apply_rebase ::
  "Regressions \<Rightarrow> string \<times> string \<times> nat \<times> DesiredDeployment
     \<Rightarrow> AdmittedDeployment bmap \<times> VetoedDeployment bmap \<Rightarrow> AdmittedDeployment bmap \<times> VetoedDeployment bmap"
  where
  "apply_rebase regressions = (\<lambda>(name, identity, index, restored) (admitted, vetoed).
     let state = the (bm_get admitted name);
         predecessor = ad_previous state ! index;
         others = take index (ad_previous state) @ drop (Suc index) (ad_previous state);
         kept = (if predecessor \<noteq> restored then predecessor # others else others);
         (deployment, count) = the (bm_get (rs_halts regressions) identity)
     in (bm_insert name \<lparr>ad_current = restored, ad_previous = ad_current state # kept\<rparr> admitted,
         bm_or_insert identity \<lparr>vd_deployment = deployment, vd_evidence = count\<rparr> vetoed))"

definition rollback_response ::
  "publisher \<Rightarrow> UpdateGroupSet list \<Rightarrow> DesiredDeployment bmap \<Rightarrow> string bmap bmap \<Rightarrow> Observations
     \<Rightarrow> Regressions \<Rightarrow> string set \<Rightarrow> AdmittedDeployment bmap \<times> VetoedDeployment bmap
     \<Rightarrow> AdmittedDeployment bmap \<times> VetoedDeployment bmap" where
  "rollback_response P sets desired group_labels Ob regressions blocks = (\<lambda>(admitted, vetoed).
     if rs_halts regressions = [] then (admitted, vetoed)
     else fold (apply_rebase regressions)
            (List.map_filter (rebase_of P sets desired group_labels Ob regressions blocks) admitted)
            (admitted, vetoed))"

subsection \<open>Admission\<close>

definition pending_order :: "nat list bmap \<Rightarrow> string list \<Rightarrow> string list" where
  "pending_order group_plans names =
     sort_key (\<lambda>n. - int (case bm_get group_plans n of None \<Rightarrow> 0 | Some is \<Rightarrow> length is)) (sort names)"

text \<open>The bodies a retarget stages away from: everything admitted so far but the one admitted now.\<close>

definition staged_previous :: "DesiredDeployment \<Rightarrow> AdmittedDeployment option \<Rightarrow> DesiredDeployment list" where
  "staged_previous target prior =
     (case prior of
        None \<Rightarrow> []
      | Some state \<Rightarrow>
          fold (\<lambda>d previous. if d \<noteq> target \<and> d \<notin> set previous then previous @ [d] else previous)
            (bodies state) [])"

definition admit ::
  "string \<Rightarrow> DesiredDeployment \<Rightarrow> AdmittedDeployment bmap \<Rightarrow> AdmittedDeployment bmap" where
  "admit name target admitted =
     bm_insert name \<lparr>ad_current = target, ad_previous = staged_previous target (bm_get admitted name)\<rparr> admitted"

definition take_slot :: "nat \<Rightarrow> SetPlan list \<Rightarrow> SetPlan list" where
  "take_slot i plans = plans[i := (plans ! i)\<lparr>sp_slots := sp_slots (plans ! i) - 1\<rparr>]"

definition admit_one ::
  "publisher \<Rightarrow> ResolvedGroup bmap \<Rightarrow> DesiredDeployment bmap \<Rightarrow> nat list bmap \<Rightarrow> Observations
     \<Rightarrow> MovementVerdict \<Rightarrow> string \<Rightarrow> AdmittedDeployment bmap \<times> SetPlan list
     \<Rightarrow> AdmittedDeployment bmap \<times> SetPlan list" where
  "admit_one P groups desired group_plans Ob movement name = (\<lambda>(admitted, plans).
     let grp = the (bm_get groups name); target = the (bm_get desired name) in
     if \<not> inputs_ready grp then (admitted, plans)
     else if \<not> list_all (\<lambda>dependency.
                 satisfies_dependency (classify P dependency desired admitted Ob movement))
               (rg_depends_on grp)
     then (admitted, plans)
     else if (case deployment_identity P target of Some i \<Rightarrow> i \<in> mv_blocked movement | None \<Rightarrow> False)
     then (admitted, plans)
     else if \<not> bm_has admitted name \<and> \<not> any_node_published Ob name
     then (admit name target admitted, plans)
     else (case bm_get group_plans name of
             None \<Rightarrow> (admit name target admitted, plans)
           | Some indices \<Rightarrow>
               if list_ex (\<lambda>i. sp_frozen (plans ! i)) indices \<and> \<not> rg_emergency_correction grp
               then (admitted, plans)
               else if holds_slot P admitted Ob movement name
               then (admit name target admitted, plans)
               else if list_all (\<lambda>i. 0 < sp_slots (plans ! i)) indices
               then (admit name target admitted, fold take_slot indices plans)
               else (admitted, plans)))"

definition admit_pending ::
  "publisher \<Rightarrow> ResolvedGroup bmap \<Rightarrow> DesiredDeployment bmap \<Rightarrow> nat list bmap \<Rightarrow> Observations
     \<Rightarrow> MovementVerdict \<Rightarrow> AdmittedDeployment bmap \<times> SetPlan list
     \<Rightarrow> AdmittedDeployment bmap \<times> SetPlan list" where
  "admit_pending P groups desired group_plans Ob movement = (\<lambda>(admitted, plans).
     let pending = filter (\<lambda>name. case bm_get admitted name of
                                     None \<Rightarrow> True
                                   | Some state \<Rightarrow> Some (ad_current state) \<noteq> bm_get desired name)
                     (bm_keys desired)
     in fold (admit_one P groups desired group_plans Ob movement)
          (pending_order group_plans pending) (admitted, plans))"

subsection \<open>Set statuses\<close>

definition listed_rolling :: "GroupProgress bmap \<Rightarrow> string set \<Rightarrow> string \<Rightarrow> bool" where
  "listed_rolling group_progress slot_holders name \<longleftrightarrow>
     bm_get group_progress name \<in> {Some Held, Some Rolling, Some Blocked} \<and> name \<in> slot_holders"

definition build_status ::
  "calendar_lib \<Rightarrow> nat list bmap \<Rightarrow> GroupProgress bmap \<Rightarrow> string set \<Rightarrow> string set \<Rightarrow> moment
     \<Rightarrow> UpdateGroupSet \<times> SetPlan \<times> HaltedDeployment list \<Rightarrow> SetStatus" where
  "build_status C group_plans group_progress slot_holders emergency now = (\<lambda>(s, plan, halted).
     let verdict_is = (\<lambda>v. filter (\<lambda>name. bm_get group_progress name = Some v) (sp_members plan)) in
     \<lparr>ss_name = (case us_name s of None \<Rightarrow> [] | Some n \<Rightarrow> n),
      ss_member_count = length (sp_members plan),
      ss_max_concurrent = sp_max_concurrent plan,
      ss_rolling = filter (listed_rolling group_progress slot_holders) (sp_members plan),
      ss_settled = verdict_is Settled,
      ss_failed = verdict_is Failed,
      ss_unobservable = verdict_is Unobservable,
      ss_shared = filter (\<lambda>name. case bm_get group_plans name of None \<Rightarrow> False | Some is \<Rightarrow> length is > 1)
                    (sp_members plan),
      ss_emergency = filter (\<lambda>name. name \<in> emergency) (sp_members plan),
      ss_frozen = sp_frozen plan,
      ss_calendar_exhausted = calendar_exhausted C (us_calendar s) now,
      ss_halted = halted\<rparr>)"

definition build_statuses ::
  "calendar_lib \<Rightarrow> UpdateGroupSet list \<Rightarrow> SetPlan list \<Rightarrow> nat list bmap \<Rightarrow> GroupProgress bmap
     \<Rightarrow> string set \<Rightarrow> string set \<Rightarrow> HaltedDeployment list list \<Rightarrow> moment \<Rightarrow> SetStatus list" where
  "build_statuses C sets plans group_plans group_progress slot_holders emergency halts now =
     map (build_status C group_plans group_progress slot_holders emergency now) (zip sets (zip plans halts))"

subsection \<open>Assigning nodes\<close>

definition identified :: "publisher \<Rightarrow> DesiredDeployment list \<Rightarrow> (string \<times> DesiredDeployment) list" where
  "identified P ds = List.map_filter (\<lambda>d. map_option (\<lambda>i. (i, d)) (deployment_identity P d)) ds"

definition bodies_by_identity :: "publisher \<Rightarrow> AdmittedDeployment list \<Rightarrow> DesiredDeployment bmap" where
  "bodies_by_identity P states = bm_collect (identified P (concat (map bodies states)))"

type_synonym staged_node = "string \<times> NodeEvidence \<times> DesiredDeployment option"

record Staging =
  sg_deployments :: "DesiredDeployment bmap"
  sg_unavailable :: nat
  sg_staged :: "staged_node list"

definition hand :: "string \<Rightarrow> DesiredDeployment \<Rightarrow> Staging \<Rightarrow> Staging" where
  "hand node d sg = sg\<lparr>sg_deployments := bm_insert node d (sg_deployments sg)\<rparr>"

definition charge :: "NodeEvidence \<Rightarrow> Staging \<Rightarrow> Staging" where
  "charge e sg = (if unavailable e then sg\<lparr>sg_unavailable := sg_unavailable sg + 1\<rparr> else sg)"

definition stage :: "string \<Rightarrow> NodeEvidence \<Rightarrow> DesiredDeployment option \<Rightarrow> Staging \<Rightarrow> Staging" where
  "stage node e hold sg = sg\<lparr>sg_staged := sg_staged sg @ [(node, e, hold)]\<rparr>"

definition stage_node ::
  "Observations \<Rightarrow> DesiredDeployment bmap \<Rightarrow> string set \<Rightarrow> DesiredDeployment \<Rightarrow> string
     \<Rightarrow> (string \<times> DesiredDeployment) list \<Rightarrow> bool \<Rightarrow> string \<Rightarrow> Staging \<Rightarrow> Staging" where
  "stage_node Ob running holds current current_id previous blocked_now node sg =
     (if node \<in> holds
      then (if node \<notin> ob_cordons Ob
            then (case placement Ob node of
                    Some identity \<Rightarrow> charge (evidence Ob node identity) sg
                  | None \<Rightarrow> sg)
            else sg)
      else if node \<in> ob_cordons Ob \<and> \<not> blocked_now then hand node current sg
      else if advanced Ob node current_id
      then hand node current (charge (evidence Ob node current_id) sg)
      else (case find (\<lambda>(identity, _). advanced Ob node identity) previous of
              Some (identity, body) \<Rightarrow>
                stage node (evidence Ob node identity) (Some body) (charge (evidence Ob node identity) sg)
            | None \<Rightarrow>
                (case placement Ob node of
                   Some identity \<Rightarrow>
                     stage node (evidence Ob node identity) (bm_get running identity)
                       (charge (evidence Ob node identity) sg)
                 | None \<Rightarrow>
                     if previous = []
                     then (if blocked_now then sg
                           else hand node current (charge (evidence Ob node current_id) sg))
                     else stage node Silent None sg)))"

text \<open>One pass over the staged nodes: the rescues of broken nodes, then everyone else.\<close>

definition move_node ::
  "DesiredDeployment \<Rightarrow> bool \<Rightarrow> nat \<Rightarrow> bool \<Rightarrow> staged_node
     \<Rightarrow> nat \<times> DesiredDeployment bmap \<Rightarrow> nat \<times> DesiredDeployment bmap" where
  "move_node current blocked_now budget rescue_pass = (\<lambda>(node, e, hold) (moved, deployments).
     if (e = Broken) \<noteq> rescue_pass then (moved, deployments)
     else (let (moved', deployment) =
                 (if blocked_now then (moved, hold)
                  else if moved < budget then (moved + 1, Some current)
                  else (moved, hold))
           in (moved', case deployment of
                         Some d \<Rightarrow> bm_insert node d deployments
                       | None \<Rightarrow> deployments)))"

definition move_staged ::
  "DesiredDeployment \<Rightarrow> bool \<Rightarrow> nat \<Rightarrow> Staging \<Rightarrow> nat \<times> DesiredDeployment bmap" where
  "move_staged current blocked_now max_unavailable sg =
     (let capacity = max_unavailable - sg_unavailable sg; rescue_budget = max_unavailable in
      fold (move_node current blocked_now capacity False) (sg_staged sg)
        (fold (move_node current blocked_now rescue_budget True) (sg_staged sg) (0, sg_deployments sg)))"

definition stage_group ::
  "publisher \<Rightarrow> Observations \<Rightarrow> DesiredDeployment bmap \<Rightarrow> string set \<Rightarrow> string set \<Rightarrow> string
     \<Rightarrow> AdmittedDeployment \<Rightarrow> string \<Rightarrow> DesiredDeployment bmap \<Rightarrow> Staging" where
  "stage_group P Ob running holds movement_blocks name state current_id deployments =
     fold (stage_node Ob running holds (ad_current state) current_id (identified P (ad_previous state))
             (current_id \<in> movement_blocks))
       (sort (nodes Ob name))
       \<lparr>sg_deployments = deployments, sg_unavailable = 0, sg_staged = []\<rparr>"

definition assign_group ::
  "publisher \<Rightarrow> AdmittedDeployment bmap \<Rightarrow> Observations \<Rightarrow> DesiredDeployment bmap \<Rightarrow> string set
     \<Rightarrow> string set \<Rightarrow> string \<times> ResolvedGroup \<Rightarrow> DesiredDeployment bmap \<Rightarrow> DesiredDeployment bmap" where
  "assign_group P admitted Ob running holds movement_blocks = (\<lambda>(name, grp) deployments.
     case bm_get admitted name of
       None \<Rightarrow> deployments
     | Some state \<Rightarrow>
         (case deployment_identity P (ad_current state) of
            None \<Rightarrow> deployments
          | Some current_id \<Rightarrow>
              snd (move_staged (ad_current state) (current_id \<in> movement_blocks) (rg_max_unavailable grp)
                     (stage_group P Ob running holds movement_blocks name state current_id deployments))))"

definition assign_nodes ::
  "publisher \<Rightarrow> ResolvedGroup bmap \<Rightarrow> AdmittedDeployment bmap \<Rightarrow> AdmittedDeployment bmap
     \<Rightarrow> Observations \<Rightarrow> string set \<Rightarrow> string set \<Rightarrow> DesiredDeployment bmap" where
  "assign_nodes P groups admitted held Ob holds movement_blocks =
     fold (assign_group P admitted Ob
             (bodies_by_identity P (bm_values admitted @ bm_values held)) holds movement_blocks)
       groups []"

subsection \<open>The planning pass\<close>

record PlannerState =
  ps_admitted :: "AdmittedDeployment bmap"
  ps_vetoed :: "VetoedDeployment bmap"
  ps_observed :: ObservationLog
  ps_verified :: VerifiedReports

definition desired_of :: "ResolvedGroup bmap \<Rightarrow> DesiredDeployment bmap" where
  "desired_of groups = bm_map (\<lambda>_ grp. rg_deployment grp) groups"

definition observations_of :: "RolloutInputs \<Rightarrow> VerifiedReports \<Rightarrow> moment \<Rightarrow> Observations" where
  "observations_of inputs verified now =
     \<lparr>ob_node_groups = ri_node_groups inputs, ob_reports = ri_reports inputs,
      ob_public_keys = ri_public_keys inputs, ob_published = ri_published inputs,
      ob_cordons = ri_cordons inputs, ob_now_ms = word_of_int (timestamp_millis now),
      ob_verified = verified\<rparr>"

definition live_identities ::
  "publisher \<Rightarrow> AdmittedDeployment bmap \<Rightarrow> DesiredDeployment bmap \<Rightarrow> string set" where
  "live_identities P admitted desired =
     set (List.map_filter (deployment_identity P)
       (concat (map bodies (bm_values admitted)) @ bm_values desired))"

definition note_claims :: "Observations \<Rightarrow> ObservationLog \<Rightarrow> ObservationLog" where
  "note_claims Ob observed =
     fold (\<lambda>node log. case claims_rejection Ob node of
                         None \<Rightarrow> log | Some identity \<Rightarrow> note_rejection node identity log)
       (bm_keys (ob_node_groups Ob)) observed"

definition first_halt :: "Regressions \<Rightarrow> VetoedDeployment bmap \<Rightarrow> string list \<Rightarrow> HaltedDeployment option" where
  "first_halt regressions vetoed identities =
     (case find (bm_has (rs_halts regressions)) identities of
        None \<Rightarrow> None
      | Some identity \<Rightarrow>
          map_option (\<lambda>(deployment, count).
            \<lparr>hd_deployment = deployment, hd_evidence = count, hd_rolled_back = bm_has vetoed identity\<rparr>)
            (bm_get (rs_halts regressions) identity))"

definition halted_groups_of ::
  "publisher \<Rightarrow> DesiredDeployment bmap \<Rightarrow> AdmittedDeployment bmap \<Rightarrow> DesiredDeployment \<Rightarrow> Regressions
     \<Rightarrow> VetoedDeployment bmap \<Rightarrow> HaltedDeployment bmap" where
  "halted_groups_of P desired admitted default_deployment regressions vetoed =
     bm_collect (List.map_filter (\<lambda>(name, identities).
         map_option (Pair name) (first_halt regressions vetoed identities))
       (map (\<lambda>name. (name, named_identities P name desired admitted)) (bm_keys desired)
        @ [(DEFAULT_GROUP, List.map_filter (deployment_identity P) [default_deployment])]))"

definition set_halts_of ::
  "publisher \<Rightarrow> DesiredDeployment bmap \<Rightarrow> AdmittedDeployment bmap \<Rightarrow> Regressions
     \<Rightarrow> VetoedDeployment bmap \<Rightarrow> SetPlan \<Rightarrow> HaltedDeployment list" where
  "set_halts_of P desired admitted regressions vetoed plan =
     (let named = set (concat (map (\<lambda>m. named_identities P m desired admitted) (sp_members plan))) in
      map (\<lambda>(identity, deployment, count).
             \<lparr>hd_deployment = deployment, hd_evidence = count, hd_rolled_back = bm_has vetoed identity\<rparr>)
        (filter (\<lambda>(identity, _). identity \<in> named) (rs_halts regressions)))"

definition group_nodes ::
  "publisher \<Rightarrow> Observations \<Rightarrow> ObservationLog \<Rightarrow> string set \<Rightarrow> AdmittedDeployment bmap \<Rightarrow> string \<Rightarrow> GroupNodes"
  where
  "group_nodes P Ob observed holds admitted name =
     (let ns = nodes Ob name;
          judged = filter (\<lambda>node. node \<notin> ob_cordons Ob) ns;
          target = Option.bind (bm_get admitted name) (\<lambda>state. deployment_identity P (ad_current state))
      in \<lparr>gn_total = length ns,
          gn_on_target = (case target of
                            None \<Rightarrow> 0
                          | Some identity \<Rightarrow> length (filter (\<lambda>node. advanced Ob node identity) ns)),
          gn_fresh = length (filter (\<lambda>node. report Ob node \<noteq> None) judged),
          gn_observable = length (filter (\<lambda>node. bm_has (ob_public_keys Ob) node \<and> has_reported observed node) judged),
          gn_held = length (filter (\<lambda>node. node \<in> holds) ns),
          gn_target = target\<rparr>)"

text \<open>
  The state the pass works on after pruning, noting and judging: what every later step reads.
\<close>

definition pruned_admitted ::
  "publisher \<Rightarrow> DesiredDeployment bmap \<Rightarrow> Observations \<Rightarrow> AdmittedDeployment bmap \<Rightarrow> AdmittedDeployment bmap" where
  "pruned_admitted P desired Ob admitted =
     finish_staged_rollouts P desired Ob (retire_deleted_groups P desired Ob admitted)"

definition plan_rollouts ::
  "publisher \<Rightarrow> calendar_lib \<Rightarrow> report_lib \<Rightarrow> UpdateGroupSet list \<Rightarrow> RolloutInputs \<Rightarrow> moment
     \<Rightarrow> PlannerState \<Rightarrow> RolloutPlan \<times> PlannerState" where
  "plan_rollouts P C L sets inputs now st =
     (let groups = ri_groups inputs;
          labels = ri_group_labels inputs;
          desired = desired_of groups;
          verified = verify_fleet P L (ri_reports inputs) (ri_public_keys inputs) (ps_verified st);
          Ob = observations_of inputs verified now;
          admitted0 = pruned_admitted P desired Ob (ps_admitted st);
          live = live_identities P admitted0 desired;
          observed = prune_identities live
                       (note_claims Ob (note_reported (bm_keys (ri_reports inputs)) (ps_observed st)));
          vetoed0 = bm_retain (\<lambda>identity _. identity \<in> live) (ps_vetoed st);
          regressions = regression_verdict P sets desired labels admitted0 observed vetoed0;
          blocks = ri_blocked_deployments inputs \<union> set (bm_keys (rs_halts regressions));
          (admitted1, vetoed1) =
            rollback_response P sets desired labels Ob regressions blocks (admitted0, vetoed0);
          movement = \<lparr>mv_proofs = rs_proofs regressions, mv_blocked = blocks\<rparr>;
          (plans0, group_plans) = build_set_plans P C sets desired labels admitted1 Ob movement now;
          (admitted2, plans) = admit_pending P groups desired group_plans Ob movement (admitted1, plans0);
          halted_groups = (if rs_halts regressions = [] then []
                           else halted_groups_of P desired admitted2 (ri_default_deployment inputs)
                                  regressions vetoed1);
          set_halts = (if rs_halts regressions = [] then map (\<lambda>_. []) plans
                       else map (set_halts_of P desired admitted2 regressions vetoed1) plans);
          group_progress = bm_map (\<lambda>name _. classify P name desired admitted2 Ob movement) desired;
          emergency = fst ` set (filter (\<lambda>(_, grp). rg_emergency_correction grp) groups);
          slot_holders = set (filter (holds_slot P admitted2 Ob movement) (bm_keys desired))
      in (\<lparr>rp_sets = build_statuses C sets plans group_plans group_progress slot_holders emergency
                       set_halts now,
           rp_node_deployments = assign_nodes P groups admitted2 (ri_held inputs) Ob (ri_holds inputs) blocks,
           rp_groups = group_progress,
           rp_node_counts = bm_collect (map (\<lambda>name. (name,
                              group_nodes P Ob observed (ri_holds inputs) admitted2 name))
                              (bm_keys desired @ [DEFAULT_GROUP])),
           rp_halted_groups = halted_groups,
           rp_blocked = blocks\<rparr>,
          \<lparr>ps_admitted = admitted2, ps_vetoed = vetoed1, ps_observed = observed, ps_verified = verified\<rparr>))"

end
