(* ===== verification/Fleet_Sample.thy ===== *)
theory Fleet_Sample
  imports Rollout
begin

text \<open>
  A small concrete fleet, on which the theorems about the control plane are instantiated: one group
  \<open>edge\<close> of two nodes moving from deployment \<open>v1\<close> to \<open>v2\<close>, with the library parameters given by
  simple concrete functions.
\<close>

definition sample_publisher :: publisher where
  "sample_publisher =
     \<lparr>vs_parse = Some, vs_before = (\<lambda>a b. length a < length b),
      pb_sha256 = (\<lambda>bytes. bytes), pb_encode = (\<lambda>a. Some (as_deployment a)),
      pb_base_ok = (\<lambda>_. True), pb_is_object = (\<lambda>_. True), pb_root_bytes = Some\<rparr>"

definition sample_catalog_release :: "char \<Rightarrow> Release" where
  "sample_catalog_release c =
     \<lparr>package = \<lparr>tr_path = ''releases/app'', tr_sha256 = replicate 64 c\<rparr>,
      upgrade_from = [], rollback_from = [], installable = True\<rparr>"

definition sample_runtime :: ManagedRuntime where
  "sample_runtime =
     \<lparr>rt_product = ''app'', rt_channel = ''stable'', rt_install_root = ''/app'',
      rt_inputs = \<lparr>is_generation = [], is_object_sha256 = [], is_files = []\<rparr>,
      rt_repository = \<lparr>metadata_limit = 1000, target_limit = 1000, transport_timeout_seconds = 1\<rparr>,
      rt_storage = \<lparr>inactive_releases = 1, inactive_bytes = 1, inactive_repository_caches = 1\<rparr>,
      rt_timeouts = \<lparr>check_interval_seconds = 1, health_grace_seconds = 1, health_successes = 1,
        health_interval_seconds = 1, refresh_retry_seconds = 1, confirmation_window_seconds = 1\<rparr>\<rparr>"

definition sample_deployment :: "string \<Rightarrow> char \<Rightarrow> DesiredDeployment" where
  "sample_deployment name c =
     \<lparr>as_schema = 6, as_deployment = name, as_metadata_url = ''https://host/m/'',
      as_targets_url = ''https://host/t/'',
      as_application = \<lparr>graph_target = ''1.0.0'', releases = [(''1.0.0'', sample_catalog_release c)]\<rparr>,
      as_release_root = ''{}'', as_runtime = sample_runtime\<rparr>"

definition v1 :: DesiredDeployment where "v1 = sample_deployment ''v1'' (CHR ''a'')"
definition v2 :: DesiredDeployment where "v2 = sample_deployment ''v2'' (CHR ''b'')"

lemmas ascii_defs = is_ascii_digit_def is_ascii_lowercase_def is_ascii_uppercase_def
  is_ascii_alphanumeric_def byte_in_def

lemma sample_runtime_valid: "runtime_validate sample_runtime = Inr ()"
  by (simp add: runtime_validate_def sample_runtime_def check_e_def is_segment_def segment_byte_def ascii_defs
      MAX_SEGMENT_BYTES_def is_windows_device_stem_def is_absolute_install_root_def Let_def inputs_validate_def
      MAX_REPOSITORY_METADATA_BYTES_def MAX_REPOSITORY_TARGET_BYTES_def MAX_INTERVAL_SECONDS_def
      MAX_CHECK_INTERVAL_SECONDS_def REPORT_FRESHNESS_SECS_def REPORT_CADENCE_JITTER_PERCENT_def
      MAX_FILES_def min_grace_def saturating_sub_def saturating_mul_def word_le_nat_alt word_less_nat_alt)

lemma sample_graph_valid:
  assumes "is_canonical_sha256 (replicate 64 c)"
  shows "graph_validate sample_publisher \<lparr>graph_target = ''1.0.0'', releases = [(''1.0.0'', sample_catalog_release c)]\<rparr> = Inr ()"
  using assms
  by (simp add: graph_validate_def MAX_RELEASES_def target_reference_def sample_catalog_release_def declared_edges_def
      parse_release_version_def sample_publisher_def MAX_RELEASE_VERSION_BYTES_def ascii_defs target_is_valid_def
      MAX_PATH_BYTES_def is_confined_relative_iff is_safe_component_def)

lemma sample_valid:
  assumes "is_canonical_sha256 (replicate 64 c)" and "is_segment name"
  shows "assignment_validate sample_publisher (sample_deployment name c) = Inr ()"
  using assms sample_graph_valid [OF assms(1)] sample_runtime_valid
  by (simp add: assignment_validate_def sample_deployment_def SCHEMA_def check_e_def map_err_def)
     (simp add: sample_publisher_def sample_runtime_def)

lemma sample_identity:
  assumes "is_canonical_sha256 (replicate 64 c)" and "is_segment name"
  shows "deployment_identity sample_publisher (sample_deployment name c) = Some name"
proof -
  have "length name \<le> 128"
    using assms(2) by (simp add: is_segment_def MAX_SEGMENT_BYTES_def)
  then show ?thesis
    using sample_valid [OF assms]
    by (simp add: deployment_identity_def publication_def to_bounded_json_def)
      (simp add: sample_publisher_def sample_deployment_def MAX_DOCUMENT_BYTES_def MAX_DATAFLOW_BODY_BYTES_def)
qed

lemma v1_identity [simp]: "deployment_identity sample_publisher v1 = Some ''v1''"
  unfolding v1_def
  by (rule sample_identity)
    (simp_all add: is_canonical_sha256_def list_all_iff ascii_defs is_segment_def segment_byte_def MAX_SEGMENT_BYTES_def
      is_windows_device_stem_def)

lemma v2_identity [simp]: "deployment_identity sample_publisher v2 = Some ''v2''"
  unfolding v2_def
  by (rule sample_identity)
    (simp_all add: is_canonical_sha256_def list_all_iff ascii_defs is_segment_def segment_byte_def MAX_SEGMENT_BYTES_def
      is_windows_device_stem_def)

lemma v1_neq_v2 [simp]: "v1 \<noteq> v2" "v2 \<noteq> v1"
  by (simp_all add: v1_def v2_def sample_deployment_def)

subsection \<open>The group\<close>

definition sample_group :: ResolvedGroup where
  "sample_group =
     \<lparr>rg_name = ''edge'', rg_match_labels = [(''role'', ''edge'')], rg_depends_on = [], rg_inputs = [],
      rg_input_snapshot = None, rg_deployment = v2, rg_max_unavailable = 1, rg_emergency_correction = False\<rparr>"

definition sample_admitted :: "AdmittedDeployment bmap" where
  "sample_admitted = [(''edge'', \<lparr>ad_current = v2, ad_previous = [v1]\<rparr>)]"

definition sample_report :: "string \<Rightarrow> string \<Rightarrow> bool \<Rightarrow> NodeReport" where
  "sample_report node assignment healthy =
     \<lparr>nr_attention = None, nr_helper = None, nr_schema = 12, nr_node = node, nr_deployment = ''app'',
      nr_assignment_sha256 = assignment, nr_version = ''1.0.0'', nr_archive_sha256 = replicate 64 (CHR ''a''),
      nr_definition_sha256 = replicate 64 (CHR ''a''), nr_healthy = healthy, nr_updating = False,
      nr_rejected = False, nr_reported_at_ms = 1000, nr_fingerprint = None, nr_output_sha256 = None,
      nr_reconciliation = None\<rparr>"

definition sample_envelope :: Envelope where
  "sample_envelope = \<lparr>en_payload = [], en_payload_type = REPORT_PAYLOAD_TYPE, en_signatures = [[]]\<rparr>"

definition sample_entry :: "NodeReport \<Rightarrow> VerifiedEntry" where
  "sample_entry r = \<lparr>ve_key = ''key'', ve_envelope = sample_envelope, ve_report = Some r\<rparr>"

text \<open>Two nodes published on \<open>v1\<close>; \<open>healthy\<close> says what each reports.\<close>

definition sample_observations :: "bool \<Rightarrow> bool \<Rightarrow> Observations" where
  "sample_observations h1 h2 =
     \<lparr>ob_node_groups = [(''n1'', ''edge''), (''n2'', ''edge'')],
      ob_reports = [(''n1'', sample_envelope), (''n2'', sample_envelope)],
      ob_public_keys = [(''n1'', ''key''), (''n2'', ''key'')],
      ob_published = [(''n1'', ''v1''), (''n2'', ''v1'')],
      ob_cordons = {}, ob_now_ms = 2000,
      ob_verified = \<lparr>vr_entries = [(''n1'', sample_entry (sample_report ''n1'' ''v1'' h1)),
                                  (''n2'', sample_entry (sample_report ''n2'' ''v1'' h2))],
                     vr_verifications = 2\<rparr>\<rparr>"

lemma sample_fresh [simp]: "is_fresh (sample_report node a h) 2000"
  by (simp add: is_fresh_def sample_report_def saturating_add_def saturating_sub_def REPORT_MAX_SKEW_def
      REPORT_FRESHNESS_def)

lemma sample_reports [simp]:
  "report (sample_observations h1 h2) ''n1'' = Some (sample_report ''n1'' ''v1'' h1)"
  "report (sample_observations h1 h2) ''n2'' = Some (sample_report ''n2'' ''v1'' h2)"
  by (simp_all add: report_def sample_observations_def vr_fresh_def authentic_def sample_entry_def fresh_report_def)

lemma sample_observations_simps [simp]:
  "nodes (sample_observations h1 h2) ''edge'' = [''n1'', ''n2'']"
  "ob_cordons (sample_observations h1 h2) = {}"
  "bm_wf (ob_node_groups (sample_observations h1 h2))"
  by (simp_all add: nodes_def sample_observations_def bm_wf_def)

lemma sample_evidence [simp]:
  "evidence (sample_observations h1 h2) ''n1'' ''v1'' = (if h1 then Healthy else Broken)"
  "evidence (sample_observations h1 h2) ''n2'' ''v1'' = (if h2 then Healthy else Broken)"
  by (simp_all add: evidence_def sample_report_def)
     (simp_all add: sample_observations_def bm_has_def)

lemma sample_advanced [simp]:
  "n = ''n1'' \<or> n = ''n2'' \<Longrightarrow> advanced (sample_observations h1 h2) n i \<longleftrightarrow> i = ''v1''"
  "n = ''n1'' \<or> n = ''n2'' \<Longrightarrow> placement (sample_observations h1 h2) n = Some ''v1''"
  by (auto simp: advanced_def placement_def sample_report_def) (auto simp: sample_observations_def)

subsection \<open>One planning pass\<close>

definition sample_calendar :: calendar_lib where
  "sample_calendar = \<lparr>cl_parse_date = (\<lambda>_. None), cl_min_date = -1000000, cl_max_date = 1000000\<rparr>"

definition sample_now :: moment where
  "sample_now = \<lparr>mo_day = 739000, mo_millis = 0\<rparr>"

definition sample_report_lib :: report_lib where
  "sample_report_lib = \<lparr>rl_base64_decode = Some, rl_verify_asn1 = (\<lambda>_ _ _. True), rl_parse = (\<lambda>_. None)\<rparr>"

text \<open>The group has been deleted while both nodes still run \<open>v1\<close>, which it retained.\<close>

definition sample_inputs :: RolloutInputs where
  "sample_inputs =
     \<lparr>ri_groups = [], ri_group_labels = [], ri_node_groups = [(''n1'', ''default''), (''n2'', ''default'')],
      ri_reports = [], ri_public_keys = [], ri_published = [(''n1'', ''v1''), (''n2'', ''v1'')], ri_held = [],
      ri_holds = {}, ri_cordons = {}, ri_blocked_deployments = {}, ri_default_deployment = v2\<rparr>"

definition sample_state :: PlannerState where
  "sample_state = \<lparr>ps_admitted = sample_admitted, ps_vetoed = [], ps_observed = ol_new, ps_verified = vr_default\<rparr>"

end
