(* ===== verification/Rollout_Assign.thy ===== *)
theory Rollout_Assign
  imports Fleet_Sample
begin

text \<open>
  What one signed generation may do to the nodes of a group: \<open>assign_nodes\<close>.  Every entry of the
  generation is the admitted deployment of the node's own group or the body the node is already
  placed on; movement onto the admitted deployment is bounded by \<^verbatim>\<open>maxUnavailable\<close>.
\<close>

subsection \<open>Where a node is held\<close>

lemma identified_sound: "(i, d) \<in> set (identified P ds) \<Longrightarrow> deployment_identity P d = Some i \<and> d \<in> set ds"
  by (auto simp: identified_def List.map_filter_def)

lemma bodies_by_identity_entry:
  assumes "bm_get (bodies_by_identity P states) i = Some d"
  shows "deployment_identity P d = Some i \<and> d \<in> set (concat (map bodies states))"
proof -
  have "(i, d) \<in> set (identified P (concat (map bodies states)))"
    using assms by (auto simp: bodies_by_identity_def bm_get_collect dest: map_of_SomeD)
  then show ?thesis
    by (rule identified_sound)
qed

lemmas bodies_by_identity_sound = bodies_by_identity_entry [THEN conjunct1]

lemma placement_advanced: "placement Ob node = Some i \<Longrightarrow> advanced Ob node i"
  by (auto simp: placement_def advanced_def split: option.splits)

lemma find_identified:
  "find (\<lambda>(i, _). advanced Ob node i) (identified P ds) = Some (i, d)
     \<Longrightarrow> advanced Ob node i \<and> deployment_identity P d = Some i \<and> d \<in> set ds"
  by (auto simp: find_Some_iff dest!: nth_mem intro: identified_sound [THEN conjunct1] identified_sound [THEN conjunct2])

subsection \<open>What a staging pass may record\<close>

definition staging_ok :: "(string \<Rightarrow> DesiredDeployment \<Rightarrow> bool) \<Rightarrow> string set \<Rightarrow> Staging \<Rightarrow> bool" where
  "staging_ok Q free sg \<longleftrightarrow>
     (\<forall>n d. bm_get (sg_deployments sg) n = Some d \<longrightarrow> Q n d)
     \<and> (\<forall>(n, e, hold) \<in> set (sg_staged sg). n \<in> free \<and> (\<forall>d. hold = Some d \<longrightarrow> Q n d))"

lemma staging_ok_charge [simp]: "staging_ok Q free (charge e sg) = staging_ok Q free sg"
  by (simp add: staging_ok_def charge_def)

lemma staging_ok_hand: "staging_ok Q free sg \<Longrightarrow> Q n d \<Longrightarrow> staging_ok Q free (hand n d sg)"
  by (auto simp: staging_ok_def hand_def)

lemma staging_ok_stage:
  "staging_ok Q free sg \<Longrightarrow> n \<in> free \<Longrightarrow> (\<And>d. hold = Some d \<Longrightarrow> Q n d)
     \<Longrightarrow> staging_ok Q free (stage n e hold sg)"
  by (auto simp: staging_ok_def stage_def)

lemma staging_ok_stage_node:
  assumes ok: "staging_ok Q free sg"
    and free: "node \<notin> holds \<Longrightarrow> node \<in> free"
    and cur: "node \<notin> holds \<Longrightarrow> \<not> blocked_now \<or> advanced Ob node current_id \<Longrightarrow> Q node current"
    and hold: "\<And>d i. node \<notin> holds \<Longrightarrow> deployment_identity P d = Some i \<Longrightarrow> advanced Ob node i \<Longrightarrow> d \<in> B \<Longrightarrow> Q node d"
    and running: "\<And>i d. bm_get running i = Some d \<Longrightarrow> deployment_identity P d = Some i \<and> d \<in> B"
    and previous: "set ds \<subseteq> B"
  shows "staging_ok Q free
           (stage_node Ob running holds current current_id (identified P ds) blocked_now node sg)"
  using ok free cur hold running previous unfolding stage_node_def
  by (auto simp: staging_ok_hand staging_ok_stage split: option.splits
      dest!: find_identified placement_advanced intro!: staging_ok_hand staging_ok_stage)

lemma move_node_ok:
  assumes "\<And>n d. bm_get (snd s) n = Some d \<Longrightarrow> Q n d"
    and "x = (node, e, hold)" and "\<And>d. hold = Some d \<Longrightarrow> Q node d" and "\<not> blocked_now \<Longrightarrow> Q node current"
    and "bm_get (snd (move_node current blocked_now budget pass x s)) n = Some d"
  shows "Q n d"
  using assms
  by (cases s) (auto simp: move_node_def Let_def split: if_splits option.splits)

lemma move_staged_ok:
  assumes ok: "staging_ok Q free sg"
    and cur: "\<And>n. n \<in> free \<Longrightarrow> \<not> blocked_now \<Longrightarrow> Q n current"
    and get: "bm_get (snd (move_staged current blocked_now mu sg)) n = Some d"
  shows "Q n d"
proof -
  let ?I = "\<lambda>s :: nat \<times> DesiredDeployment bmap. \<forall>n d. bm_get (snd s) n = Some d \<longrightarrow> Q n d"
  have step: "?I (fold (move_node current blocked_now budget pass) (sg_staged sg) s)" if "?I s" for budget pass s
  proof (rule fold_invariant_set [of ?I, OF that])
    fix x and s :: "nat \<times> DesiredDeployment bmap"
    assume x: "x \<in> set (sg_staged sg)" and I: "?I s"
    obtain node e hold where xe: "x = (node, e, hold)"
      by (cases x)
    with x ok have "node \<in> free" and "\<And>d. hold = Some d \<Longrightarrow> Q node d"
      by (auto simp: staging_ok_def)
    then show "?I (move_node current blocked_now budget pass x s)"
      using move_node_ok [of s Q x node e hold blocked_now current budget pass] I xe cur by blast
  qed
  have "?I (0, sg_deployments sg)"
    using ok by (simp add: staging_ok_def)
  then show ?thesis
    using get step [OF step, of "(0, sg_deployments sg)"] by (simp add: move_staged_def Let_def)
qed

text \<open>
  The two ways an entry can enter a generation: movement onto the group's admitted deployment, which
  a block forbids to anyone not already there, and republication of a body the node is placed on.
\<close>

lemma assign_nodes_all:
  assumes cur: "\<And>name state cid n. bm_get admitted name = Some state \<Longrightarrow>
      deployment_identity P (ad_current state) = Some cid \<Longrightarrow> n \<in> set (nodes Ob name) \<Longrightarrow> n \<notin> holds \<Longrightarrow>
      cid \<notin> blocks \<or> advanced Ob n cid \<Longrightarrow> Q n (ad_current state)"
    and hold: "\<And>n d i. n \<notin> holds \<Longrightarrow> deployment_identity P d = Some i \<Longrightarrow> advanced Ob n i \<Longrightarrow>
      d \<in> set (concat (map bodies (bm_values admitted @ bm_values held))) \<Longrightarrow> Q n d"
    and get: "bm_get (assign_nodes P groups admitted held Ob holds blocks) n = Some d"
  shows "Q n d"
proof -
  let ?running = "bodies_by_identity P (bm_values admitted @ bm_values held)"
  let ?bodies = "set (concat (map bodies (bm_values admitted @ bm_values held)))"
  let ?I = "\<lambda>ds. \<forall>n d. bm_get ds n = Some d \<longrightarrow> Q n d"
  have "?I (assign_group P admitted Ob ?running holds blocks (name, grp) ds)" if I: "?I ds" for name grp ds
  proof (cases "bm_get admitted name")
    case (Some state)
    show ?thesis
    proof (cases "deployment_identity P (ad_current state)")
      case (Some cid)
      let ?free = "{n \<in> set (nodes Ob name). n \<notin> holds}"
      have prev: "set (ad_previous state) \<subseteq> ?bodies"
        using map_of_SomeD [OF \<open>bm_get admitted name = Some state\<close>] by (force simp: bodies_def)
      have "staging_ok Q ?free
              (stage_group P Ob ?running holds blocks name state cid ds)"
        unfolding stage_group_def
      proof (rule fold_invariant_set)
        show "staging_ok Q ?free \<lparr>sg_deployments = ds, sg_unavailable = 0, sg_staged = []\<rparr>"
          using I by (simp add: staging_ok_def)
        show "staging_ok Q ?free
                (stage_node Ob ?running holds (ad_current state) cid (identified P (ad_previous state))
                  (cid \<in> blocks) x sg)" if "x \<in> set (sort (nodes Ob name))" and "staging_ok Q ?free sg" for x sg
          using that cur [OF \<open>bm_get admitted name = Some state\<close> Some] hold
          by (intro staging_ok_stage_node [where P = P, OF _ _ _ _ _ prev]) (auto simp del: set_concat dest: bodies_by_identity_entry)
      qed
      then have "Q n d" if "bm_get (snd (move_staged (ad_current state) (cid \<in> blocks) (rg_max_unavailable grp)
          (stage_group P Ob ?running holds blocks name state cid ds))) n = Some d" for n d
        by (rule move_staged_ok [OF _ _ that]) (simp add: cur [OF \<open>bm_get admitted name = Some state\<close> Some])
      then show ?thesis
        by (simp add: assign_group_def \<open>bm_get admitted name = Some state\<close> Some)
    qed (simp add: assign_group_def \<open>bm_get admitted name = Some state\<close> I)
  qed (simp add: assign_group_def I)
  then have "?I (assign_nodes P groups admitted held Ob holds blocks)"
    unfolding assign_nodes_def by (intro fold_invariant_set [of ?I]) (simp_all add: split_paired_all)
  with get show ?thesis
    by blast
qed

subsection \<open>A node's turn\<close>

text \<open>
  The abstract reading of one staging pass.  A node is left out, given the admitted deployment, or
  waits for a movement slot with the evidence and the body it waits on; and it is charged against
  availability with some evidence or not at all.
\<close>

datatype turn = Leave | Give | Wait NodeEvidence "DesiredDeployment option"

definition turn_of ::
  "Observations \<Rightarrow> DesiredDeployment bmap \<Rightarrow> string set \<Rightarrow> string \<Rightarrow> (string \<times> DesiredDeployment) list
     \<Rightarrow> bool \<Rightarrow> string \<Rightarrow> turn" where
  "turn_of Ob running holds current_id previous blocked_now node =
     (if node \<in> holds then Leave
      else if node \<in> ob_cordons Ob \<and> \<not> blocked_now then Give
      else if advanced Ob node current_id then Give
      else (case find (\<lambda>(identity, _). advanced Ob node identity) previous of
              Some (identity, body) \<Rightarrow> Wait (evidence Ob node identity) (Some body)
            | None \<Rightarrow>
                (case placement Ob node of
                   Some identity \<Rightarrow> Wait (evidence Ob node identity) (bm_get running identity)
                 | None \<Rightarrow>
                     if previous = [] then (if blocked_now then Leave else Give)
                     else Wait Silent None)))"

definition charge_of ::
  "Observations \<Rightarrow> string set \<Rightarrow> string \<Rightarrow> (string \<times> DesiredDeployment) list \<Rightarrow> bool \<Rightarrow> string
     \<Rightarrow> NodeEvidence option" where
  "charge_of Ob holds current_id previous blocked_now node =
     (if node \<in> holds
      then (if node \<in> ob_cordons Ob then None else map_option (evidence Ob node) (placement Ob node))
      else if node \<in> ob_cordons Ob \<and> \<not> blocked_now then None
      else if advanced Ob node current_id then Some (evidence Ob node current_id)
      else (case find (\<lambda>(identity, _). advanced Ob node identity) previous of
              Some (identity, _) \<Rightarrow> Some (evidence Ob node identity)
            | None \<Rightarrow>
                (case placement Ob node of
                   Some identity \<Rightarrow> Some (evidence Ob node identity)
                 | None \<Rightarrow>
                     if previous = [] \<and> \<not> blocked_now then Some (evidence Ob node current_id) else None)))"

definition charged ::
  "Observations \<Rightarrow> string set \<Rightarrow> string \<Rightarrow> (string \<times> DesiredDeployment) list \<Rightarrow> bool \<Rightarrow> string \<Rightarrow> bool" where
  "charged Ob holds current_id previous blocked_now node \<longleftrightarrow>
     (case charge_of Ob holds current_id previous blocked_now node of Some e \<Rightarrow> unavailable e | None \<Rightarrow> False)"

definition waiting :: "(string \<Rightarrow> turn) \<Rightarrow> string list \<Rightarrow> staged_node list" where
  "waiting turn ns = List.map_filter (\<lambda>n. case turn n of Wait e hold \<Rightarrow> Some (n, e, hold) | _ \<Rightarrow> None) ns"

lemma stage_node_turn:
  "stage_node Ob running holds current cid previous blocked node sg =
     (let sg' = (if charged Ob holds cid previous blocked node
                 then sg\<lparr>sg_unavailable := sg_unavailable sg + 1\<rparr> else sg)
      in case turn_of Ob running holds cid previous blocked node of
           Leave \<Rightarrow> sg'
         | Give \<Rightarrow> hand node current sg'
         | Wait e hold \<Rightarrow> stage node e hold sg')"
  by (simp add: stage_node_def turn_of_def charged_def charge_of_def charge_def unavailable_def
      split: option.splits if_splits)

lemma stage_fold:
  assumes "distinct ns"
  shows "sg_unavailable (fold (stage_node Ob running holds current cid previous blocked) ns sg)
           = sg_unavailable sg + length (filter (charged Ob holds cid previous blocked) ns)"
    and "sg_staged (fold (stage_node Ob running holds current cid previous blocked) ns sg)
           = sg_staged sg @ waiting (turn_of Ob running holds cid previous blocked) ns"
    and "bm_get (sg_deployments (fold (stage_node Ob running holds current cid previous blocked) ns sg)) n
           = (if n \<in> set ns \<and> turn_of Ob running holds cid previous blocked n = Give then Some current
              else bm_get (sg_deployments sg) n)"
  using assms
proof (induction ns arbitrary: sg)
  case (Cons a ns)
  {
    case 1
    then show ?case
      using Cons.IH(1) by (simp add: stage_node_turn hand_def stage_def Let_def split: turn.splits)
  next
    case 2
    then show ?case
      using Cons.IH(2)
      by (simp add: stage_node_turn hand_def stage_def Let_def waiting_def List.map_filter_simps split: turn.splits)
  next
    case 3
    then show ?case
      using Cons.IH(3)
      by (auto simp: stage_node_turn hand_def stage_def Let_def split: turn.splits)
  }
qed (simp_all add: waiting_def List.map_filter_simps)

subsection \<open>Who moves\<close>

abbreviation is_rescue :: "staged_node \<Rightarrow> bool" where
  "is_rescue x \<equiv> fst (snd x) = Broken"

definition movers :: "nat \<Rightarrow> nat \<Rightarrow> staged_node list \<Rightarrow> string list" where
  "movers mu unavail staged =
     (let rescues = take mu (filter is_rescue staged) in
      map fst (rescues @ take (mu - unavail - length rescues) (filter (\<lambda>x. \<not> is_rescue x) staged)))"

definition held_on :: "staged_node list \<Rightarrow> string \<Rightarrow> DesiredDeployment option \<Rightarrow> DesiredDeployment option" where
  "held_on staged n other = (case map_of staged n of Some (_, Some d) \<Rightarrow> Some d | _ \<Rightarrow> other)"

lemma move_pass:
  fixes ds :: "DesiredDeployment bmap" and pass :: bool
  assumes "distinct (map fst staged)"
  defines "sel \<equiv> filter (\<lambda>x. is_rescue x = pass) staged"
  shows "fst (fold (move_node current False budget pass) staged (m, ds)) = m + length (take (budget - m) sel)"
    and "bm_get (snd (fold (move_node current False budget pass) staged (m, ds))) n =
           (if n \<in> fst ` set (take (budget - m) sel) then Some current
            else held_on (drop (budget - m) sel) n (bm_get ds n))"
  using assms(1) unfolding sel_def
proof (induction staged arbitrary: m ds)
  case (Cons x staged)
  obtain node e hold where x: "x = (node, e, hold)"
    by (cases x)
  note IH = Cons.IH(1) Cons.IH(2)
  {
    case 1
    then show ?case
      using Cons.IH(1) x by (auto simp: move_node_def Let_def Suc_diff_le take_Cons' split: option.splits)
  next
    case 2
    then have nn: "node \<notin> fst ` set staged"
      using x by simp
    then have none: "map_of (drop k (filter R staged)) node = None" for k R
      by (force simp: map_of_eq_None_iff dest: in_set_dropD)
    show ?case
    proof (cases "(e = Broken) = pass")
      case False
      then show ?thesis
        using Cons.IH(2) 2 x by (auto simp: move_node_def)
    next
      case True
      show ?thesis
      proof (cases "m < budget")
        case True
        then have "budget - m = Suc (budget - Suc m)"
          by simp
        then show ?thesis
          using Cons.IH(2) [of "Suc m"] 2 x \<open>(e = Broken) = pass\<close> nn True none
          by (auto simp: move_node_def held_on_def dest: in_set_takeD in_set_dropD split: option.splits)
      next
        case False
        then show ?thesis
          using Cons.IH(2) [of m] 2 x \<open>(e = Broken) = pass\<close> nn none [of 0]
          by (auto simp: move_node_def held_on_def split: option.splits)
      qed
    qed
  }
qed (simp_all add: held_on_def)

lemma move_pass_blocked:
  fixes ds :: "DesiredDeployment bmap" and pass :: bool
  assumes "distinct (map fst staged)"
  shows "fst (fold (move_node current True budget pass) staged (m, ds)) = m"
    and "bm_get (snd (fold (move_node current True budget pass) staged (m, ds))) n =
           held_on (filter (\<lambda>x. is_rescue x = pass) staged) n (bm_get ds n)"
  using assms
proof (induction staged arbitrary: ds)
  case (Cons x staged)
  obtain node e hold where x: "x = (node, e, hold)"
    by (cases x)
  {
    case 1
    then show ?case
      using Cons.IH(1) x by (simp add: move_node_def)
  next
    case 2
    then have "map_of (filter R staged) node = None" for R
      using x by (force simp: map_of_eq_None_iff)
    then show ?case
      using Cons.IH(2) 2 x by (auto simp: move_node_def held_on_def split: option.splits)
  }
qed (simp_all add: held_on_def)

lemma held_on_Nil [simp]: "held_on [] n other = other"
  by (simp add: held_on_def)

lemma held_on_Cons:
  "held_on (x # xs) n other =
     (if fst x = n then (case snd (snd x) of Some d \<Rightarrow> Some d | None \<Rightarrow> other) else held_on xs n other)"
  by (cases x) (auto simp: held_on_def split: option.splits)

lemma held_on_absent: "n \<notin> fst ` set staged \<Longrightarrow> held_on staged n other = other"
  by (induction staged) (auto simp: held_on_Cons)

lemma held_on_parts:
  assumes "distinct (map fst staged)"
  shows "held_on (filter (\<lambda>x. \<not> R x) staged) n (held_on (filter R staged) n other) = held_on staged n other"
  using assms
proof (induction staged)
  case (Cons x staged)
  then have "held_on (filter Q staged) (fst x) o2 = o2" for Q o2
    by (intro held_on_absent) auto
  moreover have "held_on staged (fst x) o2 = o2" for o2
    using Cons.prems by (intro held_on_absent) auto
  ultimately show ?case
    using Cons by (auto simp: held_on_Cons split: option.splits)
qed simp

lemma held_on_drop:
  assumes "n \<notin> fst ` set (take k xs)"
  shows "held_on (drop k xs) n other = held_on xs n other"
proof -
  have "map_of xs = map_of (drop k xs) ++ map_of (take k xs)"
    by (metis append_take_drop_id map_of_append)
  moreover have "map_of (take k xs) n = None"
    using assms by (simp add: map_of_eq_None_iff)
  ultimately show ?thesis
    by (simp add: held_on_def map_add_def)
qed

lemma distinct_fst_filter: "distinct (map fst xs) \<Longrightarrow> distinct (map fst (filter R xs))"
  by (simp add: distinct_map inj_on_def)

lemma rescue_not_other:
  assumes "distinct (map fst staged)" and "n \<in> fst ` set (take k (filter is_rescue staged))"
  shows "n \<notin> fst ` set (filter (\<lambda>x. \<not> is_rescue x) staged)"
proof
  assume "n \<in> fst ` set (filter (\<lambda>x. \<not> is_rescue x) staged)"
  then obtain y where y: "y \<in> set staged" "\<not> is_rescue y" "n = fst y"
    by auto
  from assms(2) obtain x where x: "x \<in> set staged" "is_rescue x" "n = fst x"
    by (auto dest: in_set_takeD)
  with y assms(1) show False
    by (auto simp: distinct_map inj_on_def)
qed

lemma move_staged_get:
  assumes d: "distinct (map fst (sg_staged sg))"
  shows "bm_get (snd (move_staged current blocked_now mu sg)) n =
           (if \<not> blocked_now \<and> n \<in> set (movers mu (sg_unavailable sg) (sg_staged sg)) then Some current
            else held_on (sg_staged sg) n (bm_get (sg_deployments sg) n))"
proof (cases blocked_now)
  case True
  obtain m1 ds1 where s1: "fold (move_node current True mu True) (sg_staged sg) (0, sg_deployments sg) = (m1, ds1)"
    by (cases "fold (move_node current True mu True) (sg_staged sg) (0, sg_deployments sg)")
  then have "bm_get ds1 n = held_on (filter is_rescue (sg_staged sg)) n (bm_get (sg_deployments sg) n)"
    using move_pass_blocked(2) [OF d, of current mu True 0 "sg_deployments sg" n] by simp
  then show ?thesis
    using True s1 move_pass_blocked(2) [OF d, of current _ False m1 ds1 n] held_on_parts [OF d, of is_rescue]
    by (simp add: move_staged_def)
next
  case False
  let ?R = "filter is_rescue (sg_staged sg)" and ?H = "filter (\<lambda>x. \<not> is_rescue x) (sg_staged sg)"
  let ?U = "sg_unavailable sg" and ?ds = "sg_deployments sg"
  let ?k = "mu - ?U - length (take mu ?R)"
  obtain m1 ds1 where s1: "fold (move_node current False mu True) (sg_staged sg) (0, ?ds) = (m1, ds1)"
    by (cases "fold (move_node current False mu True) (sg_staged sg) (0, ?ds)")
  have m1: "m1 = length (take mu ?R)"
    using move_pass(1) [OF d, of current mu True 0 ?ds] s1 by simp
  have ds1: "bm_get ds1 n = (if n \<in> fst ` set (take mu ?R) then Some current
                             else held_on (drop mu ?R) n (bm_get ?ds n))"
    using move_pass(2) [OF d, of current mu True 0 ?ds n] s1 by simp
  have res: "bm_get (snd (move_staged current blocked_now mu sg)) n =
      (if n \<in> fst ` set (take ?k ?H) then Some current else held_on (drop ?k ?H) n (bm_get ds1 n))"
    using move_pass(2) [OF d, of current "mu - ?U" False m1 ds1 n] s1 False m1
    by (simp add: move_staged_def)
  have mov: "n \<in> set (movers mu ?U (sg_staged sg)) \<longleftrightarrow> n \<in> fst ` set (take mu ?R) \<or> n \<in> fst ` set (take ?k ?H)"
    by (simp add: movers_def Let_def image_Un)
  have dR: "distinct (map fst ?R)" and dH: "distinct (map fst ?H)"
    using d by (simp_all add: distinct_fst_filter)
  consider (healthy) "n \<in> fst ` set (take ?k ?H)" | (rescue) "n \<notin> fst ` set (take ?k ?H)" "n \<in> fst ` set (take mu ?R)"
    | (neither) "n \<notin> fst ` set (take ?k ?H)" "n \<notin> fst ` set (take mu ?R)"
    by blast
  then show ?thesis
  proof cases
    case healthy
    then show ?thesis
      using res mov False by simp
  next
    case rescue
    have "n \<notin> fst ` set (drop ?k ?H)"
      using rescue_not_other [OF d rescue(2)] set_drop_subset [of ?k ?H] by blast
    then show ?thesis
      using rescue res mov ds1 False by (simp add: held_on_absent)
  next
    case neither
    then show ?thesis
      using res mov ds1 False dR dH held_on_parts [OF d, of is_rescue]
      by (simp add: held_on_drop)
  qed
qed

subsection \<open>The generation, node by node\<close>

lemma waiting_simps:
  "waiting turn [] = []"
  "waiting turn (n # ns) = (case turn n of Wait e hold \<Rightarrow> (n, e, hold) # waiting turn ns | _ \<Rightarrow> waiting turn ns)"
  by (simp_all add: waiting_def List.map_filter_simps split: turn.splits)

lemma waiting_iff: "(n, e, hold) \<in> set (waiting turn ns) \<longleftrightarrow> n \<in> set ns \<and> turn n = Wait e hold"
  by (induction ns) (auto simp: waiting_simps split: turn.splits)

lemma waiting_fst: "fst ` set (waiting turn ns) \<subseteq> set ns"
  by (induction ns) (auto simp: waiting_simps split: turn.splits)

lemma waiting_distinct: "distinct ns \<Longrightarrow> distinct (map fst (waiting turn ns))"
proof (induction ns)
  case (Cons n ns)
  then show ?case
    using waiting_fst [of turn ns] by (auto simp: waiting_simps split: turn.splits)
qed (simp add: waiting_simps)

lemma held_on_waiting:
  "distinct ns \<Longrightarrow> held_on (waiting turn ns) n None =
     (if n \<in> set ns then (case turn n of Wait _ hold \<Rightarrow> hold | _ \<Rightarrow> None) else None)"
  by (induction ns) (auto simp: waiting_simps held_on_Cons split: turn.splits option.splits)

lemma nodes_iff: "bm_wf (ob_node_groups Ob) \<Longrightarrow> n \<in> set (nodes Ob name) \<longleftrightarrow> bm_get (ob_node_groups Ob) n = Some name"
  by (force simp: nodes_def bm_get_iff image_iff)

lemma nodes_distinct: "bm_wf (ob_node_groups Ob) \<Longrightarrow> distinct (nodes Ob name)"
  by (simp add: nodes_def distinct_fst_filter bm_wf_distinct)

lemma nodes_sorted: "bm_wf (ob_node_groups Ob) \<Longrightarrow> sort (nodes Ob name) = nodes Ob name"
  by (simp add: nodes_def sorted_sort_id sorted_filter bm_wf_sorted)

text \<open>The turn, the charge and the movers of a planned group.\<close>

definition group_turn ::
  "publisher \<Rightarrow> Observations \<Rightarrow> DesiredDeployment bmap \<Rightarrow> string set \<Rightarrow> string set \<Rightarrow> AdmittedDeployment
     \<Rightarrow> string \<Rightarrow> string \<Rightarrow> turn" where
  "group_turn P Ob running holds blocks state cid =
     turn_of Ob running holds cid (identified P (ad_previous state)) (cid \<in> blocks)"

definition group_charged ::
  "publisher \<Rightarrow> Observations \<Rightarrow> string set \<Rightarrow> string set \<Rightarrow> AdmittedDeployment \<Rightarrow> string \<Rightarrow> string \<Rightarrow> bool" where
  "group_charged P Ob holds blocks state cid =
     charged Ob holds cid (identified P (ad_previous state)) (cid \<in> blocks)"

definition group_unavailable ::
  "publisher \<Rightarrow> Observations \<Rightarrow> string set \<Rightarrow> string set \<Rightarrow> string \<Rightarrow> AdmittedDeployment \<Rightarrow> string \<Rightarrow> nat" where
  "group_unavailable P Ob holds blocks name state cid =
     length (filter (group_charged P Ob holds blocks state cid) (nodes Ob name))"

definition group_movers ::
  "publisher \<Rightarrow> Observations \<Rightarrow> DesiredDeployment bmap \<Rightarrow> string set \<Rightarrow> string set \<Rightarrow> string \<Rightarrow> nat
     \<Rightarrow> AdmittedDeployment \<Rightarrow> string \<Rightarrow> string list" where
  "group_movers P Ob running holds blocks name mu state cid =
     (if cid \<in> blocks then []
      else movers mu (group_unavailable P Ob holds blocks name state cid)
             (waiting (group_turn P Ob running holds blocks state cid) (nodes Ob name)))"

lemma assign_group_get:
  assumes wf: "bm_wf (ob_node_groups Ob)"
    and state: "bm_get admitted name = Some state" "deployment_identity P (ad_current state) = Some cid"
    and fresh: "bm_get ds n = None"
    and n: "n \<in> set (nodes Ob name)"
  shows "bm_get (assign_group P admitted Ob running holds blocks (name, grp) ds) n =
           (case group_turn P Ob running holds blocks state cid n of
              Leave \<Rightarrow> None
            | Give \<Rightarrow> Some (ad_current state)
            | Wait e hold \<Rightarrow>
                if n \<in> set (group_movers P Ob running holds blocks name (rg_max_unavailable grp) state cid)
                then Some (ad_current state) else hold)"
proof -
  let ?t = "turn_of Ob running holds cid (identified P (ad_previous state)) (cid \<in> blocks)"
  let ?sg = "stage_group P Ob running holds blocks name state cid ds"
  have d: "distinct (nodes Ob name)"
    by (rule nodes_distinct [OF wf])
  note sg = stage_fold [OF d, of Ob running holds "ad_current state" cid "identified P (ad_previous state)"
      "cid \<in> blocks" "\<lparr>sg_deployments = ds, sg_unavailable = 0, sg_staged = []\<rparr>"]
  have staged: "sg_staged ?sg = waiting ?t (nodes Ob name)"
    and unav: "sg_unavailable ?sg = group_unavailable P Ob holds blocks name state cid"
    and dep: "bm_get (sg_deployments ?sg) n = (if ?t n = Give then Some (ad_current state) else None)"
    using sg fresh n by (simp_all add: stage_group_def nodes_sorted [OF wf] group_unavailable_def group_charged_def)
  have dw: "distinct (map fst (sg_staged ?sg))"
    by (simp add: staged waiting_distinct [OF d])
  have mv: "n \<in> set (movers mu u (waiting ?t (nodes Ob name))) \<Longrightarrow> \<exists>e hold. ?t n = Wait e hold" for mu u
    by (auto simp: movers_def Let_def waiting_iff dest!: in_set_takeD)
  have "n \<notin> fst ` set (waiting ?t (nodes Ob name))" if "\<And>e hold. ?t n \<noteq> Wait e hold"
    using that by (auto simp: waiting_iff)
  then show ?thesis
    using mv held_on_waiting [OF d, of ?t n] n
    by (auto simp: assign_group_def state move_staged_get [OF dw] staged unav dep group_movers_def
        group_turn_def [abs_def] held_on_absent split: turn.splits)
qed

lemma assign_group_other:
  assumes "n \<notin> set (nodes Ob name)"
  shows "bm_get (assign_group P admitted Ob running holds blocks (name, grp) ds) n = bm_get ds n"
proof -
  have "bm_get (sg_deployments sg') n = bm_get ds n \<and> n \<notin> fst ` set (sg_staged sg')"
    if "sg' = fold (stage_node Ob running holds current cid previous blocked) ns
                \<lparr>sg_deployments = ds, sg_unavailable = 0, sg_staged = []\<rparr>"
      and "set ns = set (nodes Ob name)" for sg' current cid previous blocked ns
    unfolding that(1)
    by (rule fold_invariant_set)
      (use assms that(2) in \<open>auto simp: stage_node_turn hand_def stage_def Let_def split: turn.splits\<close>)
  moreover have "bm_get (snd (move_staged current blocked mu sg)) n = bm_get (sg_deployments sg) n"
    if "n \<notin> fst ` set (sg_staged sg)" for current blocked mu sg
  proof -
    have absent: "(n, e, hold) \<notin> set (sg_staged sg)" for e hold
      using that by force
    have "bm_get (snd (fold (move_node current blocked budget pass) (sg_staged sg) s)) n = bm_get (snd s) n"
      for budget pass and s :: "nat \<times> DesiredDeployment bmap"
      by (rule fold_invariant_set [where I = "\<lambda>t. bm_get (snd t) n = bm_get (snd s) n"])
        (use absent in \<open>auto simp: move_node_def Let_def split: option.splits if_splits\<close>)
    then show ?thesis
      by (simp add: move_staged_def Let_def)
  qed
  ultimately show ?thesis
    by (auto simp: assign_group_def stage_group_def split: option.splits)
qed

text \<open>Only the node's own group decides its entry.\<close>

definition fleet_bodies ::
  "publisher \<Rightarrow> AdmittedDeployment bmap \<Rightarrow> AdmittedDeployment bmap \<Rightarrow> DesiredDeployment bmap" where
  "fleet_bodies P admitted held = bodies_by_identity P (bm_values admitted @ bm_values held)"

lemma assign_fold_other:
  assumes "\<And>name grp. (name, grp) \<in> set gs \<Longrightarrow> n \<notin> set (nodes Ob name)"
  shows "bm_get (fold (assign_group P admitted Ob running holds blocks) gs ds) n = bm_get ds n"
  by (rule fold_invariant_set [where I = "\<lambda>d. bm_get d n = bm_get ds n"])
    (use assms in \<open>auto simp: assign_group_other split_paired_all\<close>)

lemma assign_nodes_local:
  assumes wf: "bm_wf (ob_node_groups Ob)" "bm_wf groups"
    and n: "bm_get (ob_node_groups Ob) n = Some name" and grp: "bm_get groups name = Some grp"
  obtains ds where "bm_get ds n = None"
    and "bm_get (assign_nodes P groups admitted held Ob holds blocks) n
           = bm_get (assign_group P admitted Ob (fleet_bodies P admitted held) holds blocks (name, grp) ds) n"
proof -
  let ?f = "assign_group P admitted Ob (fleet_bodies P admitted held) holds blocks"
  obtain xs ys where parts: "groups = xs @ (name, grp) # ys"
    using map_of_SomeD [OF grp] by (meson split_list)
  then have "name \<notin> fst ` set xs \<union> fst ` set ys"
    using bm_wf_distinct [OF wf(2)] by auto
  then have other: "n \<notin> set (nodes Ob name')" if "(name', g) \<in> set xs \<union> set ys" for name' g
    using that nodes_iff [OF wf(1)] n by (metis Un_iff fst_conv image_eqI option.inject)
  let ?ds = "fold ?f xs []"
  have "bm_get (fold ?f ys (?f (name, grp) ?ds)) n = bm_get (?f (name, grp) ?ds) n"
    by (rule assign_fold_other) (use other in blast)
  then have "bm_get (assign_nodes P groups admitted held Ob holds blocks) n = bm_get (?f (name, grp) ?ds) n"
    unfolding assign_nodes_def parts fleet_bodies_def by simp
  moreover have "bm_get ?ds n = bm_get ([] :: DesiredDeployment bmap) n"
    by (rule assign_fold_other) (use other in blast)
  then have "bm_get ?ds n = None"
    by simp
  ultimately show ?thesis
    using that by blast
qed

lemma assign_nodes_get:
  assumes wf: "bm_wf (ob_node_groups Ob)" "bm_wf groups"
    and n: "bm_get (ob_node_groups Ob) n = Some name" and grp: "bm_get groups name = Some grp"
    and state: "bm_get admitted name = Some state" "deployment_identity P (ad_current state) = Some cid"
  shows "bm_get (assign_nodes P groups admitted held Ob holds blocks) n =
           (case group_turn P Ob (fleet_bodies P admitted held) holds blocks state cid n of
              Leave \<Rightarrow> None
            | Give \<Rightarrow> Some (ad_current state)
            | Wait e hold \<Rightarrow>
                if n \<in> set (group_movers P Ob (fleet_bodies P admitted held) holds blocks name
                              (rg_max_unavailable grp) state cid)
                then Some (ad_current state) else hold)"
proof -
  obtain ds where "bm_get ds n = None"
    and "bm_get (assign_nodes P groups admitted held Ob holds blocks) n
           = bm_get (assign_group P admitted Ob (fleet_bodies P admitted held) holds blocks (name, grp) ds) n"
    by (rule assign_nodes_local [OF wf n grp])
  then show ?thesis
    using assign_group_get [OF wf(1) state, of ds n] nodes_iff [OF wf(1)] n by simp
qed

subsection \<open>The movement budget\<close>

lemma length_movers:
  "length (movers mu u staged) =
     (let b = length (filter is_rescue staged); h = length (filter (\<lambda>x. \<not> is_rescue x) staged)
      in min b mu + min h (mu - u - min b mu))"
  by (simp add: movers_def Let_def min.commute)

lemma movers_distinct:
  assumes "distinct (map fst staged)"
  shows "distinct (movers mu u staged)"
proof -
  let ?R = "filter is_rescue staged" and ?H = "filter (\<lambda>x. \<not> is_rescue x) staged"
  have "distinct (map fst (take j ?R))" and "distinct (map fst (take k ?H))" for j k
    using distinct_fst_filter [OF assms] by (metis distinct_take take_map)+
  moreover have "fst ` set (take j ?R) \<inter> fst ` set (take k ?H) = {}" for j k
    using rescue_not_other [OF assms] set_take_subset [of k ?H] by fast
  ultimately show ?thesis
    by (simp add: movers_def Let_def)
qed

text \<open>A mover that is no rescue leaves room for everyone unavailable.\<close>

lemma movers_within:
  assumes "x \<in> set staged" and "\<not> is_rescue x" and "fst x \<in> set (movers mu u staged)"
    and d: "distinct (map fst staged)"
  shows "u + length (movers mu u staged) \<le> mu"
proof -
  let ?b = "length (filter is_rescue staged)"
  have "fst x \<in> fst ` set (filter (\<lambda>x. \<not> is_rescue x) staged)"
    using assms(1,2) by auto
  then have "fst x \<notin> fst ` set (take mu (filter is_rescue staged))"
    using rescue_not_other [OF d] by blast
  then have "fst x \<in> fst ` set (take (mu - u - min ?b mu) (filter (\<lambda>x. \<not> is_rescue x) staged))"
    using assms(3) by (auto simp: movers_def Let_def image_Un)
  then have "mu - u - min ?b mu \<noteq> 0"
    by (auto intro!: gr0I)
  then show ?thesis
    unfolding length_movers Let_def by linarith
qed

text \<open>
  A move, told from the outside: the node receives the admitted deployment although it was neither
  handed nor reports it, it is in rotation, and this is not the first delivery to an idle group.
  \<open>place\<close> is where the node is judged to be.
\<close>

definition first_delivery :: "publisher \<Rightarrow> Observations \<Rightarrow> AdmittedDeployment \<Rightarrow> string \<Rightarrow> bool" where
  "first_delivery P Ob state n \<longleftrightarrow> placement Ob n = None \<and> identified P (ad_previous state) = []"

definition place :: "publisher \<Rightarrow> Observations \<Rightarrow> AdmittedDeployment \<Rightarrow> string \<Rightarrow> string option" where
  "place P Ob state n =
     (case find (\<lambda>(identity, _). advanced Ob n identity) (identified P (ad_previous state)) of
        Some (identity, _) \<Rightarrow> Some identity | None \<Rightarrow> placement Ob n)"

definition broken_in_place :: "publisher \<Rightarrow> Observations \<Rightarrow> AdmittedDeployment \<Rightarrow> string \<Rightarrow> bool" where
  "broken_in_place P Ob state n \<longleftrightarrow>
     (case place P Ob state n of Some i \<Rightarrow> evidence Ob n i = Broken | None \<Rightarrow> False)"

definition moved ::
  "publisher \<Rightarrow> Observations \<Rightarrow> AdmittedDeployment \<Rightarrow> string \<Rightarrow> DesiredDeployment bmap \<Rightarrow> string \<Rightarrow> string set"
  where
  "moved P Ob state cid gen name =
     {n \<in> set (nodes Ob name). bm_get gen n = Some (ad_current state) \<and> \<not> advanced Ob n cid
        \<and> n \<notin> ob_cordons Ob \<and> \<not> first_delivery P Ob state n}"

definition movable ::
  "publisher \<Rightarrow> Observations \<Rightarrow> string set \<Rightarrow> AdmittedDeployment \<Rightarrow> string \<Rightarrow> string \<Rightarrow> bool" where
  "movable P Ob holds state cid n \<longleftrightarrow>
     n \<notin> holds \<and> n \<notin> ob_cordons Ob \<and> \<not> advanced Ob n cid \<and> \<not> first_delivery P Ob state n"

lemma find_Nil_None [simp]: "find R [] = None"
  by simp

lemma group_turn_Wait_iff:
  assumes "cid \<notin> blocks"
  shows "(\<exists>e hold. group_turn P Ob running holds blocks state cid n = Wait e hold) \<longleftrightarrow> movable P Ob holds state cid n"
  using assms
  by (auto simp: group_turn_def turn_of_def movable_def first_delivery_def split: option.splits)

lemma group_turn_rescue:
  assumes "cid \<notin> blocks" and "group_turn P Ob running holds blocks state cid n = Wait e hold"
  shows "e = Broken \<longleftrightarrow> broken_in_place P Ob state n"
  using assms
  by (auto simp: group_turn_def turn_of_def broken_in_place_def place_def split: option.splits if_splits)

lemma group_turn_hold_not_current:
  assumes "group_turn P Ob (fleet_bodies P admitted held) holds blocks state cid n = Wait e (Some d)"
    and "deployment_identity P (ad_current state) = Some cid"
  shows "d \<noteq> ad_current state"
  using assms
  by (auto simp: group_turn_def turn_of_def fleet_bodies_def split: option.splits if_splits
      dest!: find_identified placement_advanced bodies_by_identity_sound)

lemma movers_subset: "set (movers mu u staged) \<subseteq> fst ` set staged"
  by (auto simp: movers_def Let_def dest!: in_set_takeD)

definition planned ::
  "publisher \<Rightarrow> ResolvedGroup bmap \<Rightarrow> AdmittedDeployment bmap \<Rightarrow> Observations \<Rightarrow> string \<Rightarrow> ResolvedGroup
     \<Rightarrow> AdmittedDeployment \<Rightarrow> string \<Rightarrow> bool" where
  "planned P groups admitted Ob name grp state cid \<longleftrightarrow>
     bm_wf (ob_node_groups Ob) \<and> bm_wf groups
     \<and> bm_get groups name = Some grp \<and> bm_get admitted name = Some state
     \<and> deployment_identity P (ad_current state) = Some cid"

abbreviation fleet_turn where
  "fleet_turn P admitted held Ob holds blocks state cid \<equiv>
     group_turn P Ob (fleet_bodies P admitted held) holds blocks state cid"

abbreviation fleet_movers where
  "fleet_movers P admitted held Ob holds blocks name grp state cid \<equiv>
     group_movers P Ob (fleet_bodies P admitted held) holds blocks name (rg_max_unavailable grp) state cid"

lemma going_Wait:
  assumes "n \<in> set (fleet_movers P admitted held Ob holds blocks name grp state cid)"
  obtains e hold where "cid \<notin> blocks" and "n \<in> set (nodes Ob name)"
    and "fleet_turn P admitted held Ob holds blocks state cid n = Wait e hold"
  using assms movers_subset [of "rg_max_unavailable grp" "group_unavailable P Ob holds blocks name state cid"
      "waiting (fleet_turn P admitted held Ob holds blocks state cid) (nodes Ob name)"]
  by (auto simp: group_movers_def waiting_iff split: if_splits)

lemma moved_going:
  assumes pg: "planned P groups admitted Ob name grp state cid"
  shows "moved P Ob state cid (assign_nodes P groups admitted held Ob holds blocks) name
           = set (fleet_movers P admitted held Ob holds blocks name grp state cid)"
    (is "moved P Ob state cid ?gen name = set ?going")
proof (rule set_eqI)
  let ?turn = "fleet_turn P admitted held Ob holds blocks state cid"
  from pg have wf: "bm_wf (ob_node_groups Ob)" "bm_wf groups" and grp: "bm_get groups name = Some grp"
    and state: "bm_get admitted name = Some state" "deployment_identity P (ad_current state) = Some cid"
    by (simp_all add: planned_def)
  fix n
  show "n \<in> moved P Ob state cid ?gen name \<longleftrightarrow> n \<in> set ?going"
  proof
    assume "n \<in> moved P Ob state cid ?gen name"
    then have mem: "bm_get (ob_node_groups Ob) n = Some name" and got: "bm_get ?gen n = Some (ad_current state)"
      and out: "\<not> advanced Ob n cid" "n \<notin> ob_cordons Ob" "\<not> first_delivery P Ob state n"
      by (simp_all add: moved_def nodes_iff [OF wf(1)])
    have "?turn n \<noteq> Give"
      using out by (auto simp: group_turn_def turn_of_def first_delivery_def split: option.splits)
    then show "n \<in> set ?going"
      using got group_turn_hold_not_current [OF _ state(2), of Ob admitted held holds blocks n]
      by (auto simp: assign_nodes_get [OF wf mem grp state] split: turn.splits if_splits)
  next
    assume n: "n \<in> set ?going"
    then obtain e hold where w: "cid \<notin> blocks" "n \<in> set (nodes Ob name)" "?turn n = Wait e hold"
      by (rule going_Wait)
    then have "movable P Ob holds state cid n"
      using group_turn_Wait_iff [of cid blocks P Ob "fleet_bodies P admitted held" holds state n] by blast
    then show "n \<in> moved P Ob state cid ?gen name"
      using n w assign_nodes_get [OF wf _ grp state] by (simp add: moved_def movable_def nodes_iff [OF wf(1)])
  qed
qed

lemma card_moved:
  assumes pg: "planned P groups admitted Ob name grp state cid"
  shows "card (moved P Ob state cid (assign_nodes P groups admitted held Ob holds blocks) name)
           = length (fleet_movers P admitted held Ob holds blocks name grp state cid)"
proof -
  have "distinct (fleet_movers P admitted held Ob holds blocks name grp state cid)"
    using pg by (simp add: group_movers_def movers_distinct waiting_distinct nodes_distinct planned_def)
  then show ?thesis
    by (simp add: moved_going [OF pg] distinct_card)
qed

lemma moved_room:
  assumes pg: "planned P groups admitted Ob name grp state cid"
    and n: "n \<in> moved P Ob state cid (assign_nodes P groups admitted held Ob holds blocks) name"
    and ok: "\<not> broken_in_place P Ob state n"
  shows "group_unavailable P Ob holds blocks name state cid
           + card (moved P Ob state cid (assign_nodes P groups admitted held Ob holds blocks) name)
         \<le> rg_max_unavailable grp"
proof -
  let ?turn = "fleet_turn P admitted held Ob holds blocks state cid"
  have going: "n \<in> set (fleet_movers P admitted held Ob holds blocks name grp state cid)"
    using n by (simp add: moved_going [OF pg])
  then obtain e hold where w: "cid \<notin> blocks" "n \<in> set (nodes Ob name)" "?turn n = Wait e hold"
    by (rule going_Wait)
  then have "(n, e, hold) \<in> set (waiting ?turn (nodes Ob name))" and "e \<noteq> Broken"
    using ok group_turn_rescue by (auto simp: waiting_iff)
  then show ?thesis
    using movers_within [of "(n, e, hold)" "waiting ?turn (nodes Ob name)"] going w(1) card_moved [OF pg] pg
    by (simp add: group_movers_def waiting_distinct nodes_distinct planned_def)
qed

lemma moved_progress:
  assumes pg: "planned P groups admitted Ob name grp state cid"
    and b: "cid \<notin> blocks" and n: "n \<in> set (nodes Ob name)" and m: "movable P Ob holds state cid n"
    and room: "broken_in_place P Ob state n \<and> 0 < rg_max_unavailable grp
               \<or> group_unavailable P Ob holds blocks name state cid < rg_max_unavailable grp"
  shows "moved P Ob state cid (assign_nodes P groups admitted held Ob holds blocks) name \<noteq> {}"
proof -
  let ?turn = "fleet_turn P admitted held Ob holds blocks state cid"
  let ?S = "waiting ?turn (nodes Ob name)"
  obtain e hold where w: "?turn n = Wait e hold"
    using group_turn_Wait_iff [OF b] m by blast
  then have S: "(n, e, hold) \<in> set ?S"
    using n by (simp add: waiting_iff)
  have e: "e = Broken \<longleftrightarrow> broken_in_place P Ob state n"
    by (rule group_turn_rescue [OF b w])
  have "0 < length (movers (rg_max_unavailable grp) (group_unavailable P Ob holds blocks name state cid) ?S)"
  proof (cases "e = Broken")
    case True
    then have "filter is_rescue ?S \<noteq> []"
      using S by (force simp: filter_empty_conv)
    then show ?thesis
      using room by (auto simp: length_movers Let_def)
  next
    case False
    then have "filter (\<lambda>x. \<not> is_rescue x) ?S \<noteq> []"
      using S by (force simp: filter_empty_conv)
    then have "0 < length (filter (\<lambda>x. \<not> is_rescue x) ?S)"
      and "group_unavailable P Ob holds blocks name state cid < rg_max_unavailable grp"
      using room e False by simp_all
    then show ?thesis
      unfolding length_movers Let_def by linarith
  qed
  then show ?thesis
    using b by (auto simp: moved_going [OF pg] group_movers_def)
qed

subsection \<open>The sample generation\<close>

abbreviation sample_groups :: "ResolvedGroup bmap" where
  "sample_groups \<equiv> [(''edge'', sample_group)]"

lemma sample_planned:
  "planned sample_publisher sample_groups sample_admitted (sample_observations h1 h2) ''edge'' sample_group
     \<lparr>ad_current = v2, ad_previous = [v1]\<rparr> ''v2''"
  by (simp add: planned_def sample_admitted_def bm_wf_Cons)

lemma sample_identified [simp]: "identified sample_publisher [v1] = [(''v1'', v1)]"
  by (simp add: identified_def List.map_filter_simps)

lemma sample_turn [simp]:
  "n = ''n1'' \<or> n = ''n2'' \<Longrightarrow>
   group_turn sample_publisher (sample_observations h1 h2) running {} blocks \<lparr>ad_current = v2, ad_previous = [v1]\<rparr> ''v2'' n
     = Wait (evidence (sample_observations h1 h2) n ''v1'') (Some v1)"
  by (simp add: group_turn_def turn_of_def)

lemma sample_unavailable [simp]:
  "group_unavailable sample_publisher (sample_observations h1 h2) {} blocks ''edge'' \<lparr>ad_current = v2, ad_previous = [v1]\<rparr> ''v2''
     = (if h1 then 0 else 1) + (if h2 then 0 else 1)"
  by (simp add: group_unavailable_def group_charged_def charged_def charge_of_def unavailable_def)

lemma sample_movers:
  "''v2'' \<notin> blocks \<Longrightarrow>
   fleet_movers sample_publisher sample_admitted [] (sample_observations True h2) {} blocks ''edge'' sample_group
     \<lparr>ad_current = v2, ad_previous = [v1]\<rparr> ''v2'' = (if h2 then [''n1''] else [''n2''])"
  by (simp add: group_movers_def movers_def waiting_simps sample_group_def)

lemma sample_generation:
  assumes "''v2'' \<notin> blocks"
  shows "bm_get (assign_nodes sample_publisher sample_groups sample_admitted [] (sample_observations True True) {} blocks) ''n1'' = Some v2"
    and "bm_get (assign_nodes sample_publisher sample_groups sample_admitted [] (sample_observations True True) {} blocks) ''n2'' = Some v1"
proof -
  have "bm_get (ob_node_groups (sample_observations True True)) n = Some ''edge''" if "n = ''n1'' \<or> n = ''n2''" for n
    using that by (auto simp: sample_observations_def)
  then have "bm_get (assign_nodes sample_publisher sample_groups sample_admitted [] (sample_observations True True) {} blocks) n
               = (if n = ''n1'' then Some v2 else Some v1)" if "n = ''n1'' \<or> n = ''n2''" for n
    using that sample_movers [OF assms, of True]
      assign_nodes_get [of "sample_observations True True" sample_groups n "''edge''" sample_group sample_admitted
        "\<lparr>ad_current = v2, ad_previous = [v1]\<rparr>" sample_publisher "''v2''" "[]" "{}" blocks]
    by (auto simp: bm_wf_Cons sample_admitted_def)
  then show "bm_get (assign_nodes sample_publisher sample_groups sample_admitted [] (sample_observations True True) {} blocks) ''n1'' = Some v2"
    and "bm_get (assign_nodes sample_publisher sample_groups sample_admitted [] (sample_observations True True) {} blocks) ''n2'' = Some v1"
    by auto
qed

subsection \<open>Properties\<close>

text \<open>
  C22.  A generation never improvises.  Every entry of a planned group's node is the group's admitted
  deployment or a body the node is already placed on; a held node has no entry, so it is carried
  forward unchanged; and a node already handed the admitted deployment keeps it, whatever its
  telemetry says now.
\<close>

theorem generation_respects_placement:
  assumes pg: "planned P groups admitted Ob name grp state cid"
    and n: "bm_get (ob_node_groups Ob) n = Some name"
  shows "(\<forall>d. bm_get (assign_nodes P groups admitted held Ob holds blocks) n = Some d \<longrightarrow>
            n \<notin> holds \<and> (d = ad_current state \<or> (\<exists>i. deployment_identity P d = Some i \<and> advanced Ob n i)))
         \<and> (n \<notin> holds \<and> advanced Ob n cid \<longrightarrow>
              bm_get (assign_nodes P groups admitted held Ob holds blocks) n = Some (ad_current state))"
proof -
  from pg have wf: "bm_wf (ob_node_groups Ob)" "bm_wf groups" and grp: "bm_get groups name = Some grp"
    and state: "bm_get admitted name = Some state" "deployment_identity P (ad_current state) = Some cid"
    by (simp_all add: planned_def)
  note get = assign_nodes_get [OF wf n grp state, of held holds blocks]
  have "n \<notin> holds \<and> (d = ad_current state \<or> (\<exists>i. deployment_identity P d = Some i \<and> advanced Ob n i))"
    if "bm_get (assign_nodes P groups admitted held Ob holds blocks) n = Some d" for d
    using that get
    by (auto simp: group_turn_def turn_of_def fleet_bodies_def split: option.splits if_splits
        dest: find_identified bodies_by_identity_sound placement_advanced)
  moreover have "fleet_turn P admitted held Ob holds blocks state cid n = Give" if "n \<notin> holds \<and> advanced Ob n cid"
    using that by (simp add: group_turn_def turn_of_def)
  ultimately show ?thesis
    using get by auto
qed

theorem generation_respects_placement_witness:
  "bm_get (assign_nodes sample_publisher sample_groups sample_admitted [] (sample_observations True True) {} {}) ''n2'' = Some v1
   \<and> (\<exists>i. deployment_identity sample_publisher v1 = Some i \<and> advanced (sample_observations True True) ''n2'' i)"
proof -
  have get: "bm_get (assign_nodes sample_publisher sample_groups sample_admitted [] (sample_observations True True) {} {}) ''n2'' = Some v1"
    by (rule sample_generation) simp
  have "bm_get (ob_node_groups (sample_observations True True)) ''n2'' = Some ''edge''"
    by (simp add: sample_observations_def)
  from generation_respects_placement [OF sample_planned this, of "[]" "{}" "{}"] get show ?thesis
    by auto
qed



text \<open>
  C23.  A rollout that may move does move.  When the admitted deployment is not blocked and some node
  of the group is still to be moved, the generation moves a node if that node is broken where it
  stands and the budget is not zero, however many of its siblings are down, or if fewer nodes than
  \<^verbatim>\<open>maxUnavailable\<close> are unavailable.
\<close>

theorem rollout_makes_progress:
  assumes "planned P groups admitted Ob name grp state cid"
    and "cid \<notin> blocks" and "n \<in> set (nodes Ob name)" and "movable P Ob holds state cid n"
    and "broken_in_place P Ob state n \<and> 0 < rg_max_unavailable grp
         \<or> group_unavailable P Ob holds blocks name state cid < rg_max_unavailable grp"
  shows "moved P Ob state cid (assign_nodes P groups admitted held Ob holds blocks) name \<noteq> {}"
  using assms by (rule moved_progress)

theorem rollout_makes_progress_witness:
  "broken_in_place sample_publisher (sample_observations True False) \<lparr>ad_current = v2, ad_previous = [v1]\<rparr> ''n2''
   \<and> moved sample_publisher (sample_observations True False) \<lparr>ad_current = v2, ad_previous = [v1]\<rparr> ''v2''
     (assign_nodes sample_publisher sample_groups sample_admitted [] (sample_observations True False) {} {}) ''edge'' \<noteq> {}"
proof -
  have b: "broken_in_place sample_publisher (sample_observations True False) \<lparr>ad_current = v2, ad_previous = [v1]\<rparr> ''n2''"
    by (simp add: broken_in_place_def place_def)
  have m: "movable sample_publisher (sample_observations True False) {} \<lparr>ad_current = v2, ad_previous = [v1]\<rparr> ''v2'' ''n2''"
    by (simp add: movable_def first_delivery_def)
  have mu: "rg_max_unavailable sample_group = 1"
    by (simp add: sample_group_def)
  show ?thesis
    using b mu rollout_makes_progress [OF sample_planned _ _ m, of "{}" "[]"] by simp
qed

end
