(* ===== verification/Rollout_Retention.thy ===== *)
theory Rollout_Retention
  imports Rollout_Assign
begin

text \<open>
  The durable admitted state across a planning pass: a deployment body some node is placed on is
  never forgotten (\<open>retire_deleted_groups\<close>, \<open>finish_staged_rollouts\<close>, \<open>rollback_response\<close>,
  \<open>admit_pending\<close>), so "where is this node?" keeps an answer.
\<close>

definition known :: "publisher \<Rightarrow> AdmittedDeployment bmap \<Rightarrow> string \<Rightarrow> bool" where
  "known P admitted i \<longleftrightarrow>
     (\<exists>name state d. bm_get admitted name = Some state \<and> d \<in> set (bodies state)
        \<and> deployment_identity P d = Some i)"

definition placed :: "Observations \<Rightarrow> string \<Rightarrow> bool" where
  "placed Ob i \<longleftrightarrow> (\<exists>n \<in> set (bm_keys (ob_node_groups Ob)). advanced Ob n i)"

lemma placed_anywhere_iff: "deployment_identity P d = Some i \<Longrightarrow> placed_anywhere P Ob d \<longleftrightarrow> placed Ob i"
  by (simp add: placed_anywhere_def placed_def list_ex_iff)

lemma known_insert:
  assumes "known P admitted i"
    and "\<And>state. bm_get admitted name = Some state \<Longrightarrow> set (bodies state) \<subseteq> set (bodies new)"
  shows "known P (bm_insert name new admitted) i"
proof -
  from assms(1) obtain name' state d where "bm_get admitted name' = Some state" "d \<in> set (bodies state)"
    "deployment_identity P d = Some i"
    by (auto simp: known_def)
  then show ?thesis
    using assms(2) [of state] unfolding known_def
    by (cases "name' = name") (auto intro!: exI [of _ name'])
qed

subsection \<open>Retirement\<close>

lemma retire_known:
  assumes wf: "bm_wf admitted" and "known P admitted i" and p: "placed Ob i"
  shows "known P (retire_deleted_groups P desired Ob admitted) i"
proof -
  from assms(2) obtain name state d where s: "bm_get admitted name = Some state" "d \<in> set (bodies state)"
    "deployment_identity P d = Some i"
    by (auto simp: known_def)
  then have "d \<in> set (filter (placed_anywhere P Ob) (bodies state))"
    using p by (simp add: placed_anywhere_iff)
  then obtain state' where "retire_state P Ob desired name state = Some state'" "d \<in> set (bodies state')"
  proof (cases "bm_has desired name")
    case True
    then show ?thesis
      using that s(2) by (simp add: retire_state_def)
  next
    case False
    obtain d' live where "filter (placed_anywhere P Ob) (bodies state) = d' # live"
      using \<open>d \<in> set (filter (placed_anywhere P Ob) (bodies state))\<close>
      by (cases "filter (placed_anywhere P Ob) (bodies state)") simp_all
    then show ?thesis
      using that [of "\<lparr>ad_current = d', ad_previous = live\<rparr>"] False
        \<open>d \<in> set (filter (placed_anywhere P Ob) (bodies state))\<close>
      by (simp add: retire_state_def bodies_def [of "\<lparr>ad_current = d', ad_previous = live\<rparr>"])
  qed
  with s show ?thesis
    using wf unfolding known_def retire_deleted_groups_def
    by (intro exI [of _ name]) (auto simp: bm_get_filter_map)
qed

lemma finish_state_current [simp]: "ad_current (finish_state P Ob desired given name state) = ad_current state"
  by (simp add: finish_state_def Let_def)

lemma finish_known:
  assumes wf: "bm_wf admitted" and k: "known P admitted i" and p: "placed Ob i"
  shows "known P (finish_staged_rollouts P desired Ob admitted) i"
proof -
  let ?new = "finish_staged_rollouts P desired Ob admitted"
  have get: "bm_get ?new name = map_option (finish_state P Ob desired (provided P admitted) name) (bm_get admitted name)" for name
    by (simp add: finish_staged_rollouts_def)
  show ?thesis
  proof (cases "i \<in> provided P admitted")
    case True
    then obtain name state where s: "(name, state) \<in> set admitted" "deployment_identity P (ad_current state) = Some i"
      by (auto simp: provided_def List.map_filter_def)
    then have "bm_get admitted name = Some state"
      using bm_get_iff [OF wf] by blast
    with s(2) show ?thesis
      unfolding known_def get by (intro exI [of _ name]) (auto simp: bodies_def)
  next
    case False
    from k obtain name state d where s: "bm_get admitted name = Some state" "d \<in> set (bodies state)"
      "deployment_identity P d = Some i"
      by (auto simp: known_def)
    then have "needed P Ob (provided P admitted) d"
      using p False by (simp add: needed_def placed_anywhere_iff)
    then have "d \<in> set (bodies (finish_state P Ob desired (provided P admitted) name state))"
      using s(2) by (auto simp: finish_state_def bodies_def Let_def filter_empty_conv)
    with s show ?thesis
      unfolding known_def get by (intro exI [of _ name]) auto
  qed
qed

lemma pruned_wf [simp]: "bm_wf admitted \<Longrightarrow> bm_wf (pruned_admitted P desired Ob admitted)"
  by (simp add: pruned_admitted_def finish_staged_rollouts_def retire_deleted_groups_def)

lemma pruned_known:
  assumes "bm_wf admitted" and "known P admitted i" and "placed Ob i"
  shows "known P (pruned_admitted P desired Ob admitted) i"
  using retire_known [OF assms, of desired] assms
  by (simp add: pruned_admitted_def finish_known retire_deleted_groups_def)

subsection \<open>The rollback response\<close>

lemma rollback_target_index:
  "rollback_target_from P current k ds blocks = Some (i, restored) \<Longrightarrow> k \<le> i \<and> i < k + length ds"
  by (induction ds arbitrary: k) (fastforce simp: Let_def split: option.splits sum.splits if_splits)+

lemma set_take_drop_nth: "i < length xs \<Longrightarrow> insert (xs ! i) (set (take i xs @ drop (Suc i) xs)) = set xs"
  by (metis Un_insert_right append_Cons append_take_drop_id Cons_nth_drop_Suc list.simps(15) set_append)

definition rebase_valid :: "AdmittedDeployment bmap \<Rightarrow> string \<times> string \<times> nat \<times> DesiredDeployment \<Rightarrow> bool" where
  "rebase_valid admitted = (\<lambda>(name, _, index, _).
     \<exists>state. bm_get admitted name = Some state \<and> index < length (ad_previous state))"

lemma apply_rebase_known:
  assumes "known P (fst s) i" and "rebase_valid (fst s) r"
  shows "known P (fst (apply_rebase regressions r s)) i"
proof -
  obtain name identity index restored where r: "r = (name, identity, index, restored)"
    by (cases r)
  obtain admitted vetoed where s: "s = (admitted, vetoed)"
    by (cases s)
  from assms(2) obtain state where st: "bm_get admitted name = Some state" "index < length (ad_previous state)"
    by (auto simp: rebase_valid_def r s)
  have "set (ad_previous state) = insert (ad_previous state ! index)
          (set (take index (ad_previous state) @ drop (Suc index) (ad_previous state)))"
    using set_take_drop_nth [OF st(2)] by simp
  then show ?thesis
    using assms(1) st unfolding r s
    by (auto simp: apply_rebase_def Let_def bodies_def split: prod.splits intro!: known_insert)
qed

lemma apply_rebase_other:
  "fst r \<noteq> name \<Longrightarrow> bm_get (fst (apply_rebase regressions r s)) name = bm_get (fst s) name"
  by (auto simp: apply_rebase_def Let_def split: prod.splits)

lemma apply_rebase_wf: "bm_wf (fst s) \<Longrightarrow> bm_wf (fst (apply_rebase regressions r s))"
  by (auto simp: apply_rebase_def Let_def split: prod.splits)

lemma rebases_known:
  assumes "known P (fst s) i" and "\<forall>r \<in> set rs. rebase_valid (fst s) r" and "distinct (map fst rs)"
  shows "known P (fst (fold (apply_rebase regressions) rs s)) i"
  using assms
proof (induction rs arbitrary: s)
  case (Cons r rs)
  have "rebase_valid (fst (apply_rebase regressions r s)) r'" if "r' \<in> set rs" for r'
  proof -
    have "fst r \<noteq> fst r'"
      using Cons.prems(3) that by auto
    then show ?thesis
      using Cons.prems(2) that apply_rebase_other [of r "fst r'" regressions s]
      by (auto simp: rebase_valid_def split: prod.splits)
  qed
  then show ?case
    using Cons by (simp add: apply_rebase_known)
qed simp

lemma rebase_of_valid:
  assumes "(name, state) \<in> set admitted" and "bm_wf admitted"
    and "rebase_of P sets desired labels Ob regressions blocks (name, state) = Some r"
  shows "fst r = name \<and> rebase_valid admitted r"
  using assms rollback_target_index [of P "ad_current state" 0 "ad_previous state" blocks]
  by (fastforce simp: rebase_of_def rebase_valid_def rollback_target_def bm_get_iff [symmetric]
      split: option.splits if_splits)

lemma map_filter_set: "y \<in> set (List.map_filter f xs) \<longleftrightarrow> (\<exists>x \<in> set xs. f x = Some y)"
  by (auto simp: List.map_filter_def image_iff)

lemma rebase_names:
  assumes "bm_wf admitted"
  shows "distinct (map fst (List.map_filter (rebase_of P sets desired labels Ob regressions blocks) admitted))"
proof -
  have name: "rebase_of P sets desired labels Ob regressions blocks x = Some r \<Longrightarrow> fst r = fst x" for x r
    by (cases x) (auto simp: rebase_of_def split: option.splits if_splits)
  have "distinct (map fst (List.map_filter f xs)) \<and> set (map fst (List.map_filter f xs)) \<subseteq> set (map fst xs)"
    if "distinct (map fst xs)" and "\<And>x r. f x = Some r \<Longrightarrow> fst r = fst x"
    for xs :: "(string \<times> AdmittedDeployment) list" and f :: "_ \<Rightarrow> (string \<times> string \<times> nat \<times> DesiredDeployment) option"
    using that by (induction xs) (auto simp: List.map_filter_simps split: option.splits)
  then show ?thesis
    using bm_wf_distinct [OF assms] name by blast
qed

lemma rollback_known:
  assumes "bm_wf admitted" and "known P admitted i"
  shows "known P (fst (rollback_response P sets desired labels Ob regressions blocks (admitted, vetoed))) i"
  using assms rebases_known [of P "(admitted, vetoed)" i] rebase_names [OF assms(1)]
  by (auto simp: rollback_response_def map_filter_set intro!: rebases_known dest: rebase_of_valid)

lemma rollback_wf:
  assumes "bm_wf admitted"
  shows "bm_wf (fst (rollback_response P sets desired labels Ob regressions blocks (admitted, vetoed)))"
  using assms
  by (auto simp: rollback_response_def intro!: fold_invariant_set [where I = "\<lambda>s. bm_wf (fst s)"] apply_rebase_wf)

subsection \<open>Admission\<close>

lemma staged_previous_set:
  "set (staged_previous target (Some state)) = {d \<in> set (bodies state). d \<noteq> target}"
proof -
  have "set (fold (\<lambda>d previous. if d \<noteq> target \<and> d \<notin> set previous then previous @ [d] else previous) ds acc)
          = set acc \<union> {d \<in> set ds. d \<noteq> target}" for ds acc
    by (induction ds arbitrary: acc) auto
  from this [of "bodies state" "[]"] show ?thesis
    by (simp add: staged_previous_def)
qed

lemma admit_known: "known P admitted i \<Longrightarrow> known P (admit name target admitted) i"
  unfolding admit_def
  by (rule known_insert) (auto simp: bodies_def [of "\<lparr>ad_current = _, ad_previous = _\<rparr>"] staged_previous_set)

lemma admit_one_cases:
  "fst (admit_one P groups desired group_plans Ob movement name s) = fst s
   \<or> fst (admit_one P groups desired group_plans Ob movement name s)
        = admit name (the (bm_get desired name)) (fst s)"
  by (cases s) (auto simp: admit_one_def Let_def split: option.splits)

lemma admit_one_known:
  "known P (fst s) i \<Longrightarrow> known P (fst (admit_one P groups desired group_plans Ob movement name s)) i"
  using admit_one_cases [of P groups desired group_plans Ob movement name s] admit_known by metis

lemma admit_pending_known:
  "known P admitted i \<Longrightarrow> known P (fst (admit_pending P groups desired group_plans Ob movement (admitted, plans))) i"
  by (auto simp: admit_pending_def Let_def
      intro!: fold_invariant_set [where I = "\<lambda>s. known P (fst s) i"] admit_one_known)

subsection \<open>The whole pass\<close>

definition pass_observations ::
  "publisher \<Rightarrow> report_lib \<Rightarrow> RolloutInputs \<Rightarrow> moment \<Rightarrow> PlannerState \<Rightarrow> Observations" where
  "pass_observations P L inputs now st =
     observations_of inputs (verify_fleet P L (ri_reports inputs) (ri_public_keys inputs) (ps_verified st)) now"

lemma pass_observations_simps [simp]:
  "ob_node_groups (pass_observations P L inputs now st) = ri_node_groups inputs"
  "ob_published (pass_observations P L inputs now st) = ri_published inputs"
  "ob_cordons (pass_observations P L inputs now st) = ri_cordons inputs"
  by (simp_all add: pass_observations_def observations_of_def)

text \<open>
  The steps of a pass, named: the state after the rollback response, the set plans built on it, the
  admissions, and the generation assigned under the same blocks.
\<close>

lemma plan_rollouts_steps:
  obtains regressions blocks admitted1 vetoed0 vetoed1 plans0 group_plans plans where
    "(admitted1, vetoed1) = rollback_response P sets (desired_of (ri_groups inputs)) (ri_group_labels inputs)
       (pass_observations P L inputs now st) regressions blocks
       (pruned_admitted P (desired_of (ri_groups inputs)) (pass_observations P L inputs now st) (ps_admitted st), vetoed0)"
    and "blocks = ri_blocked_deployments inputs \<union> set (bm_keys (rs_halts regressions))"
    and "(plans0, group_plans) = build_set_plans P C sets (desired_of (ri_groups inputs)) (ri_group_labels inputs)
       admitted1 (pass_observations P L inputs now st) \<lparr>mv_proofs = rs_proofs regressions, mv_blocked = blocks\<rparr> now"
    and "(ps_admitted (snd (plan_rollouts P C L sets inputs now st)), plans) =
       admit_pending P (ri_groups inputs) (desired_of (ri_groups inputs)) group_plans
         (pass_observations P L inputs now st) \<lparr>mv_proofs = rs_proofs regressions, mv_blocked = blocks\<rparr> (admitted1, plans0)"
    and "rp_blocked (fst (plan_rollouts P C L sets inputs now st)) = blocks"
    and "rp_node_deployments (fst (plan_rollouts P C L sets inputs now st)) =
       assign_nodes P (ri_groups inputs) (ps_admitted (snd (plan_rollouts P C L sets inputs now st)))
         (ri_held inputs) (pass_observations P L inputs now st) (ri_holds inputs) blocks"
    and "ps_vetoed (snd (plan_rollouts P C L sets inputs now st)) = vetoed1"
    and "rp_groups (fst (plan_rollouts P C L sets inputs now st)) =
       bm_map (\<lambda>name _. classify P name (desired_of (ri_groups inputs))
         (ps_admitted (snd (plan_rollouts P C L sets inputs now st))) (pass_observations P L inputs now st)
         \<lparr>mv_proofs = rs_proofs regressions, mv_blocked = blocks\<rparr>) (desired_of (ri_groups inputs))"
proof -
  let ?Ob = "pass_observations P L inputs now st" and ?desired = "desired_of (ri_groups inputs)"
  let ?adm0 = "pruned_admitted P ?desired ?Ob (ps_admitted st)"
  let ?live = "live_identities P ?adm0 ?desired"
  let ?observed = "prune_identities ?live
    (note_claims ?Ob (note_reported (bm_keys (ri_reports inputs)) (ps_observed st)))"
  let ?vetoed0 = "bm_retain (\<lambda>identity _. identity \<in> ?live) (ps_vetoed st)"
  let ?reg = "regression_verdict P sets ?desired (ri_group_labels inputs) ?adm0 ?observed ?vetoed0"
  let ?blocks = "ri_blocked_deployments inputs \<union> set (bm_keys (rs_halts ?reg))"
  let ?mv = "\<lparr>mv_proofs = rs_proofs ?reg, mv_blocked = ?blocks\<rparr>"
  obtain admitted1 vetoed1 where rb: "(admitted1, vetoed1) =
      rollback_response P sets ?desired (ri_group_labels inputs) ?Ob ?reg ?blocks (?adm0, ?vetoed0)"
    by (metis surj_pair)
  obtain plans0 group_plans where bp: "(plans0, group_plans) =
      build_set_plans P C sets ?desired (ri_group_labels inputs) admitted1 ?Ob ?mv now"
    by (metis surj_pair)
  obtain admitted2 plans where ap: "(admitted2, plans) =
      admit_pending P (ri_groups inputs) ?desired group_plans ?Ob ?mv (admitted1, plans0)"
    by (metis surj_pair)
  note facts = rb [symmetric] bp [symmetric] ap [symmetric]
  show thesis
    by (rule that [of admitted1 vetoed1 ?reg ?blocks ?vetoed0 plans0 group_plans plans])
      (simp_all only: plan_rollouts_def Let_def facts pass_observations_def [symmetric] prod.case
        fst_conv snd_conv RolloutPlan.simps PlannerState.simps)
qed

lemma plan_rollouts_known:
  assumes wf: "bm_wf (ps_admitted st)" and k: "known P (ps_admitted st) i"
    and p: "placed (pass_observations P L inputs now st) i"
  shows "known P (ps_admitted (snd (plan_rollouts P C L sets inputs now st))) i"
proof -
  let ?Ob = "pass_observations P L inputs now st" and ?desired = "desired_of (ri_groups inputs)"
  obtain regressions blocks admitted1 vetoed0 vetoed1 plans0 group_plans plans where
    rb: "(admitted1, vetoed1) = rollback_response P sets ?desired (ri_group_labels inputs) ?Ob regressions blocks
       (pruned_admitted P ?desired ?Ob (ps_admitted st), vetoed0)"
    and ap: "(ps_admitted (snd (plan_rollouts P C L sets inputs now st)), plans) =
       admit_pending P (ri_groups inputs) ?desired group_plans ?Ob
         \<lparr>mv_proofs = rs_proofs regressions, mv_blocked = blocks\<rparr> (admitted1, plans0)"
    by (rule plan_rollouts_steps)
  have "known P admitted1 i"
    using rollback_known [OF pruned_wf [OF wf] pruned_known [OF wf k p]] rb by (metis fst_conv)
  then show ?thesis
    using admit_pending_known [of P admitted1 i] ap by (metis fst_conv)
qed

text \<open>Of a group that is not planned the pass keeps at most the bodies it found.\<close>

lemma pruned_absent:
  assumes "bm_wf admitted" and "\<not> bm_has desired name"
    and "bm_get (pruned_admitted P desired Ob admitted) name = Some state'"
  shows "\<exists>state. bm_get admitted name = Some state \<and> set (bodies state') \<subseteq> set (bodies state)"
proof -
  obtain state where state: "bm_get admitted name = Some state" "retire_state P Ob desired name state = Some state'"
    using assms by (auto simp: pruned_admitted_def finish_staged_rollouts_def retire_deleted_groups_def
        bm_get_filter_map finish_state_def bind_eq_Some_conv split: option.splits)
  obtain d live where live: "filter (placed_anywhere P Ob) (bodies state) = d # live"
    and state': "state' = \<lparr>ad_current = d, ad_previous = live\<rparr>"
    using state(2) assms(2) by (auto simp: retire_state_def split: list.splits)
  have "set (bodies state') = set (filter (placed_anywhere P Ob) (bodies state))"
    by (simp add: live state' bodies_def [of "\<lparr>ad_current = d, ad_previous = live\<rparr>"])
  then show ?thesis
    using state(1) by auto
qed

lemma rollback_absent:
  assumes "\<not> bm_has desired name"
  shows "bm_get (fst (rollback_response P sets desired labels Ob regressions blocks (admitted, vetoed))) name
     = bm_get admitted name"
proof -
  have "fst r \<noteq> name"
    if "r \<in> set (List.map_filter (rebase_of P sets desired labels Ob regressions blocks) admitted)" for r
    using that assms by (auto simp: map_filter_set rebase_of_def split: option.splits if_splits)
  then show ?thesis
    by (auto simp: rollback_response_def apply_rebase_other
        intro!: fold_invariant_set [where I = "\<lambda>s. bm_get (fst s) name = bm_get admitted name"])
qed

lemma admit_pending_absent:
  assumes "\<not> bm_has desired name"
  shows "bm_get (fst (admit_pending P groups desired group_plans Ob movement (admitted, plans))) name = bm_get admitted name"
proof -
  have other: "bm_get (fst (admit_one P groups desired group_plans Ob movement name' s)) name = bm_get (fst s) name"
    if "name' \<noteq> name" for name' s
    using admit_one_cases [of P groups desired group_plans Ob movement name' s] that by (auto simp: admit_def)
  have "name' \<noteq> name" if "name' \<in> set (bm_keys desired)" for name'
    using that assms by (auto simp: bm_has_iff)
  then show ?thesis
    by (auto simp: admit_pending_def Let_def pending_order_def other simp del: set_map
        intro!: fold_invariant_set [where I = "\<lambda>s. bm_get (fst s) name = bm_get admitted name"])
qed

lemma plan_rollouts_absent:
  assumes wf: "bm_wf (ps_admitted st)" and absent: "\<not> bm_has (desired_of (ri_groups inputs)) name"
    and get: "bm_get (ps_admitted (snd (plan_rollouts P C L sets inputs now st))) name = Some state'"
  shows "\<exists>state. bm_get (ps_admitted st) name = Some state \<and> set (bodies state') \<subseteq> set (bodies state)"
proof -
  let ?Ob = "pass_observations P L inputs now st" and ?desired = "desired_of (ri_groups inputs)"
  obtain regressions blocks admitted1 vetoed0 vetoed1 plans0 group_plans plans where
    rb: "(admitted1, vetoed1) = rollback_response P sets ?desired (ri_group_labels inputs) ?Ob regressions blocks
       (pruned_admitted P ?desired ?Ob (ps_admitted st), vetoed0)"
    and ap: "(ps_admitted (snd (plan_rollouts P C L sets inputs now st)), plans) =
       admit_pending P (ri_groups inputs) ?desired group_plans ?Ob
         \<lparr>mv_proofs = rs_proofs regressions, mv_blocked = blocks\<rparr> (admitted1, plans0)"
    by (rule plan_rollouts_steps)
  have "bm_get admitted1 name = Some state'"
    using admit_pending_absent [OF absent] ap get by (metis fst_conv)
  then have "bm_get (pruned_admitted P ?desired ?Ob (ps_admitted st)) name = Some state'"
    using rollback_absent [OF absent] rb by (metis fst_conv)
  then show ?thesis
    by (rule pruned_absent [OF wf absent])
qed

text \<open>
  C20.  A body someone runs is never forgotten.  If the durable state knows a deployment and some
  node of the plan was published it or reports it, the durable state a planning pass leaves still
  knows it, whatever the pass did: retire a deleted group, finish or retarget a rollout, or roll a
  group back.
\<close>

theorem placed_body_retained:
  assumes wf: "bm_wf (ps_admitted st)" and k: "known P (ps_admitted st) i"
    and p: "placed (pass_observations P L inputs now st) i"
  shows "known P (ps_admitted (snd (plan_rollouts P C L sets inputs now st))) i"
  by (rule plan_rollouts_known [OF wf k p])

theorem placed_body_retained_witness:
  "known sample_publisher (ps_admitted (snd (plan_rollouts sample_publisher sample_calendar sample_report_lib []
     sample_inputs sample_now sample_state))) ''v1''"
proof (rule placed_body_retained)
  show "bm_wf (ps_admitted sample_state)"
    by (simp add: sample_state_def sample_admitted_def bm_wf_def)
  show "known sample_publisher (ps_admitted sample_state) ''v1''"
    unfolding known_def
    by (rule exI [of _ "''edge''"]) (auto simp: sample_state_def sample_admitted_def bodies_def)
  show "placed (pass_observations sample_publisher sample_report_lib sample_inputs sample_now sample_state) ''v1''"
    by (simp add: placed_def advanced_def) (simp add: sample_inputs_def)
qed

end
