(* ===== verification/Rollout_Admission.thy ===== *)
theory Rollout_Admission
  imports Rollout_Retention
begin

text \<open>
  What \<open>admit_pending\<close> lets through, for the set plans \<open>build_set_plans\<close> made: the gates on an
  admission, the schedule, and the concurrency slots of a set.
\<close>

subsection \<open>Set plans\<close>

lemma set_members_distinct: "bm_wf desired \<Longrightarrow> distinct (set_members s desired labels)"
  by (simp add: set_members_def distinct_sort bm_wf_distinct)

lemma push_indices_get:
  assumes "distinct names"
  shows "bm_get (fold (push_index i) names gp) n =
           (if n \<in> set names then Some ((case bm_get gp n of None \<Rightarrow> [] | Some is \<Rightarrow> is) @ [i]) else bm_get gp n)"
  using assms by (induction names arbitrary: gp) (auto simp: push_index_def)

text \<open>Which of the first sets govern a group, in order.\<close>

definition governing :: "UpdateGroupSet list \<Rightarrow> DesiredDeployment bmap \<Rightarrow> string bmap bmap \<Rightarrow> string \<Rightarrow> nat list" where
  "governing sets desired labels n = filter (\<lambda>i. n \<in> set (set_members (sets ! i) desired labels)) [0..<length sets]"

lemma governing_snoc:
  "governing (sets @ [s]) desired labels n =
     governing sets desired labels n @ (if n \<in> set (set_members s desired labels) then [length sets] else [])"
  unfolding governing_def
  by (auto simp: nth_append intro!: filter_cong)

lemma sp_members_build [simp]:
  "sp_members (build_set_plan P C desired labels admitted Ob movement now s) = set_members s desired labels"
  by (simp add: build_set_plan_def Let_def)

lemma build_set_plans_spec:
  assumes wf: "bm_wf desired"
  shows "fst (build_set_plans P C sets desired labels admitted Ob movement now)
           = map (build_set_plan P C desired labels admitted Ob movement now) sets"
    and "bm_get (snd (build_set_plans P C sets desired labels admitted Ob movement now)) n
           = (if governing sets desired labels n = [] then None else Some (governing sets desired labels n))"
proof (induction sets rule: rev_induct)
  case (snoc s sets)
  {
    case 1
    then show ?case
      using snoc.IH(1) by (simp add: build_set_plans_def case_prod_beta Let_def)
  next
    case 2
    have len: "length (fst (build_set_plans P C sets desired labels admitted Ob movement now)) = length sets"
      by (simp add: snoc.IH(1))
    have "snd (build_set_plans P C (sets @ [s]) desired labels admitted Ob movement now)
            = fold (push_index (length sets)) (set_members s desired labels)
                (snd (build_set_plans P C sets desired labels admitted Ob movement now))"
      using len by (simp add: build_set_plans_def case_prod_beta Let_def)
    then show ?case
      using snoc.IH(2) by (simp add: push_indices_get [OF set_members_distinct [OF wf]] governing_snoc)
  }
qed (simp_all add: build_set_plans_def governing_def)

lemma governing_distinct: "distinct (governing sets desired labels n)"
  by (simp add: governing_def)

lemma governing_iff: "i \<in> set (governing sets desired labels n) \<longleftrightarrow> i < length sets \<and> n \<in> set (set_members (sets ! i) desired labels)"
  by (auto simp: governing_def)

subsection \<open>Running the queue\<close>

lemma pending_order_set [simp]: "set (pending_order group_plans names) = set names"
  by (simp add: pending_order_def)

lemma pending_order_distinct: "distinct names \<Longrightarrow> distinct (pending_order group_plans names)"
  by (simp add: pending_order_def)

lemma admit_get: "bm_get (admit name target admitted) m =
    (if m = name then Some \<lparr>ad_current = target, ad_previous = staged_previous target (bm_get admitted name)\<rparr>
     else bm_get admitted m)"
  by (simp add: admit_def)

lemma admit_one_other:
  "m \<noteq> name \<Longrightarrow> bm_get (fst (admit_one P groups desired group_plans Ob movement name s)) m = bm_get (fst s) m"
  using admit_one_cases [of P groups desired group_plans Ob movement name s] by (auto simp: admit_get)

lemma admit_fold_other:
  "m \<notin> set xs \<Longrightarrow> bm_get (fst (fold (admit_one P groups desired group_plans Ob movement) xs s)) m = bm_get (fst s) m"
  by (induction xs arbitrary: s) (auto simp: admit_one_other)

lemma holds_slot_cong:
  "bm_get admitted m = bm_get admitted' m \<Longrightarrow> holds_slot P admitted Ob movement m = holds_slot P admitted' Ob movement m"
  by (simp add: holds_slot_def)

lemma classify_cong:
  "bm_get admitted m = bm_get admitted' m \<Longrightarrow> classify P m desired admitted Ob movement = classify P m desired admitted' Ob movement"
  by (simp add: classify_def)

text \<open>The gates every admission passes, and the two kinds of group that need no slot.\<close>

definition admissible ::
  "publisher \<Rightarrow> ResolvedGroup bmap \<Rightarrow> DesiredDeployment bmap \<Rightarrow> AdmittedDeployment bmap \<Rightarrow> Observations
     \<Rightarrow> MovementVerdict \<Rightarrow> string \<Rightarrow> bool" where
  "admissible P groups desired admitted Ob movement name \<longleftrightarrow>
     inputs_ready (the (bm_get groups name))
     \<and> (\<forall>dependency \<in> set (rg_depends_on (the (bm_get groups name))).
          classify P dependency desired admitted Ob movement = Settled)
     \<and> (\<forall>i. deployment_identity P (the (bm_get desired name)) = Some i \<longrightarrow> i \<notin> mv_blocked movement)"

definition greenfield :: "AdmittedDeployment bmap \<Rightarrow> Observations \<Rightarrow> string \<Rightarrow> bool" where
  "greenfield admitted Ob name \<longleftrightarrow> \<not> bm_has admitted name \<and> \<not> any_node_published Ob name"

lemma admit_one_eq:
  "admit_one P groups desired group_plans Ob movement name (admitted, plans) =
     (let given = (admit name (the (bm_get desired name)) admitted, plans) in
      if \<not> admissible P groups desired admitted Ob movement name then (admitted, plans)
      else if greenfield admitted Ob name then given
      else case bm_get group_plans name of
             None \<Rightarrow> given
           | Some indices \<Rightarrow>
               if (\<exists>i \<in> set indices. sp_frozen (plans ! i)) \<and> \<not> rg_emergency_correction (the (bm_get groups name))
               then (admitted, plans)
               else if holds_slot P admitted Ob movement name then given
               else if \<forall>i \<in> set indices. 0 < sp_slots (plans ! i)
               then (fst given, fold take_slot indices plans)
               else (admitted, plans))"
  by (cases "deployment_identity P (the (bm_get desired name))"; cases "bm_get group_plans name")
    (auto simp: admit_one_def Let_def admissible_def greenfield_def satisfies_dependency_def list_all_iff list_ex_iff)

lemma admit_one_gated:
  assumes "bm_get (fst (admit_one P groups desired group_plans Ob movement name (admitted, plans))) name
             \<noteq> bm_get admitted name"
  shows "admissible P groups desired admitted Ob movement name"
    and "bm_get (fst (admit_one P groups desired group_plans Ob movement name (admitted, plans))) name
           = Some \<lparr>ad_current = the (bm_get desired name),
                   ad_previous = staged_previous (the (bm_get desired name)) (bm_get admitted name)\<rparr>"
    and "greenfield admitted Ob name \<or> (case bm_get group_plans name of None \<Rightarrow> True
           | Some indices \<Rightarrow> rg_emergency_correction (the (bm_get groups name))
                             \<or> (\<forall>i \<in> set indices. \<not> sp_frozen (plans ! i)))"
  using assms by (auto simp: admit_one_eq Let_def admit_get split: option.splits if_splits)

lemma take_slot_frozen [simp]: "sp_frozen (take_slot j plans ! i) = sp_frozen (plans ! i)"
  by (cases "j < length plans"; cases "i = j") (auto simp: take_slot_def list_update_beyond not_less)

lemma fold_take_slot_frozen [simp]: "sp_frozen (fold take_slot js plans ! i) = sp_frozen (plans ! i)"
  by (induction js arbitrary: plans) auto

lemma admit_one_frozen [simp]:
  "sp_frozen (snd (admit_one P groups desired group_plans Ob movement name s) ! i) = sp_frozen (snd s ! i)"
  by (cases s) (simp add: admit_one_eq Let_def split: option.splits)

lemma admit_fold_frozen [simp]:
  "sp_frozen (snd (fold (admit_one P groups desired group_plans Ob movement) xs s) ! i) = sp_frozen (snd s ! i)"
  by (induction xs arbitrary: s) auto

text \<open>The moment a group's turn comes: nothing before it touched its entry, nothing after it will.\<close>

lemma admit_fold_turn:
  assumes d: "distinct (ys @ m # zs)"
  shows "bm_get (fst (fold (admit_one P groups desired group_plans Ob movement) ys s)) m = bm_get (fst s) m"
    and "bm_get (fst (fold (admit_one P groups desired group_plans Ob movement) (ys @ m # zs) s)) m
           = bm_get (fst (admit_one P groups desired group_plans Ob movement m
               (fold (admit_one P groups desired group_plans Ob movement) ys s))) m"
  using d by (simp_all add: admit_fold_other)

definition pending :: "DesiredDeployment bmap \<Rightarrow> AdmittedDeployment bmap \<Rightarrow> string list" where
  "pending desired admitted =
     filter (\<lambda>name. case bm_get admitted name of
                        None \<Rightarrow> True
                      | Some state \<Rightarrow> Some (ad_current state) \<noteq> bm_get desired name)
       (bm_keys desired)"

lemma admit_pending_eq:
  "admit_pending P groups desired group_plans Ob movement (admitted, plans) =
     fold (admit_one P groups desired group_plans Ob movement)
       (pending_order group_plans (pending desired admitted)) (admitted, plans)"
  by (simp add: admit_pending_def pending_def)

lemma pending_not_settled:
  assumes "m \<in> set (pending desired admitted)" and "bm_get admitted' m = bm_get admitted m"
  shows "classify P m desired admitted' Ob movement = Held"
  using assms by (auto simp: pending_def classify_def split: option.splits)

lemma pending_desired: "m \<in> set (pending desired admitted) \<Longrightarrow> bm_get desired m = Some (the (bm_get desired m))"
  by (auto simp: pending_def) (metis map_of_eq_None_iff option.exhaust_sel image_eqI fst_conv)

lemma pending_changes:
  assumes "m \<in> set (pending desired admitted)"
  shows "Some \<lparr>ad_current = the (bm_get desired m), ad_previous = ds\<rparr> \<noteq> bm_get admitted m"
proof (cases "bm_get admitted m")
  case (Some state)
  then have "Some (ad_current state) \<noteq> Some (the (bm_get desired m))"
    using assms pending_desired [OF assms] by (simp add: pending_def)
  then show ?thesis
    using Some by auto
qed simp

text \<open>What an admission of the pass shows of the queue: where its turn was and what held then.\<close>

lemma admit_pending_turn:
  assumes wf: "bm_wf desired"
    and r: "(admitted', plans') = admit_pending P groups desired group_plans Ob movement (admitted, plans)"
    and ch: "bm_get admitted' name \<noteq> bm_get admitted name"
  obtains before where "name \<in> set (pending desired admitted)"
    and "bm_get (fst before) name = bm_get admitted name"
    and "\<And>i. sp_frozen (snd before ! i) = sp_frozen (plans ! i)"
    and "bm_get admitted' name = bm_get (fst (admit_one P groups desired group_plans Ob movement name before)) name"
    and "\<And>m. classify P m desired (fst before) Ob movement = Settled \<Longrightarrow> bm_get admitted' m = bm_get (fst before) m"
proof -
  let ?f = "admit_one P groups desired group_plans Ob movement"
  let ?xs = "pending_order group_plans (pending desired admitted)"
  have res: "admitted' = fst (fold ?f ?xs (admitted, plans))"
    using r by (metis admit_pending_eq fst_conv)
  have mem: "name \<in> set ?xs"
    using ch res admit_fold_other [of name ?xs P groups desired group_plans Ob movement "(admitted, plans)"] by auto
  have d: "distinct ?xs"
    using bm_wf_distinct [OF wf] by (simp add: pending_order_distinct pending_def)
  obtain ys zs where xs: "?xs = ys @ name # zs"
    using split_list [OF mem] by blast
  let ?before = "fold ?f ys (admitted, plans)"
  note d' = d [unfolded xs]
  have keep: "bm_get admitted' m = bm_get (fst ?before) m"
    if "classify P m desired (fst ?before) Ob movement = Settled" for m
  proof -
    have "m \<notin> set (name # zs)"
    proof
      assume "m \<in> set (name # zs)"
      then have "m \<notin> set ys" and "m \<in> set ?xs"
        using d' xs by auto
      then have "classify P m desired (fst ?before) Ob movement = Held"
        by (intro pending_not_settled [of m desired admitted]) (simp_all add: admit_fold_other)
      then show False
        using that by simp
    qed
    then show ?thesis
      by (simp add: res xs admit_fold_other admit_one_other)
  qed
  show thesis
  proof (rule that [of ?before])
    show "name \<in> set (pending desired admitted)"
      using mem by simp
    show "bm_get (fst ?before) name = bm_get admitted name"
      using admit_fold_turn(1) [OF d'] by simp
    show "sp_frozen (snd ?before ! i) = sp_frozen (plans ! i)" for i
      by simp
    show "bm_get admitted' name = bm_get (fst (?f name ?before)) name"
      using admit_fold_turn(2) [OF d'] res xs by simp
  qed (rule keep)
qed

lemma admit_pending_gated:
  assumes wf: "bm_wf desired"
    and r: "(admitted', plans') = admit_pending P groups desired group_plans Ob movement (admitted, plans)"
    and ch: "bm_get admitted' name \<noteq> bm_get admitted name"
  shows "\<exists>state. bm_get admitted' name = Some state \<and> bm_get desired name = Some (ad_current state)
           \<and> ad_previous state = staged_previous (ad_current state) (bm_get admitted name)
           \<and> admissible P groups desired admitted' Ob movement name
           \<and> (greenfield admitted Ob name \<or> (case bm_get group_plans name of None \<Rightarrow> True
                | Some indices \<Rightarrow> rg_emergency_correction (the (bm_get groups name))
                                  \<or> (\<forall>i \<in> set indices. \<not> sp_frozen (plans ! i))))"
proof -
  obtain before where b: "name \<in> set (pending desired admitted)"
    "bm_get (fst before) name = bm_get admitted name"
    "\<And>i. sp_frozen (snd before ! i) = sp_frozen (plans ! i)"
    "bm_get admitted' name = bm_get (fst (admit_one P groups desired group_plans Ob movement name before)) name"
    "\<And>m. classify P m desired (fst before) Ob movement = Settled \<Longrightarrow> bm_get admitted' m = bm_get (fst before) m"
    by (rule admit_pending_turn [OF wf r ch]) blast
  obtain adm pl where bp: "before = (adm, pl)"
    by (cases before)
  have ch': "bm_get (fst (admit_one P groups desired group_plans Ob movement name (adm, pl))) name \<noteq> bm_get adm name"
    using b bp ch by simp
  have adm: "admissible P groups desired adm Ob movement name"
    using admit_one_gated(1) [OF ch'] .
  have keep: "classify P m desired admitted' Ob movement = Settled" if "classify P m desired adm Ob movement = Settled" for m
    using that b(5) [of m] classify_cong [of admitted' m adm] by (simp add: bp)
  have "admissible P groups desired admitted' Ob movement name"
    using adm keep by (auto simp: admissible_def)
  moreover have "greenfield adm Ob name = greenfield admitted Ob name"
    using b(2) by (simp add: greenfield_def bm_has_def bp)
  ultimately show ?thesis
    using admit_one_gated(2,3) [OF ch'] b pending_desired [OF b(1)] bp
    by (auto split: option.splits)
qed

subsection \<open>Concurrency slots\<close>

lemma length_take_slot [simp]: "length (take_slot i plans) = length plans"
  by (simp add: take_slot_def)

lemma length_fold_take_slot [simp]: "length (fold take_slot js plans) = length plans"
  by (induction js arbitrary: plans) auto

lemma fold_take_slot_slots:
  assumes "distinct js" and "i < length plans"
  shows "sp_slots (fold take_slot js plans ! i) = sp_slots (plans ! i) - (if i \<in> set js then 1 else 0)"
  using assms
proof (induction js arbitrary: plans)
  case (Cons j js)
  then show ?case
    by (cases "i = j") (auto simp: take_slot_def)
qed simp

lemma length_admit_fold [simp]:
  "length (snd (fold (admit_one P groups desired group_plans Ob movement) xs s)) = length (snd s)"
proof (induction xs arbitrary: s)
  case (Cons x xs)
  have "length (snd (admit_one P groups desired group_plans Ob movement x s)) = length (snd s)"
    by (cases s) (simp add: admit_one_eq Let_def split: option.splits)
  then show ?case
    using Cons by simp
qed simp

definition governed :: "nat list bmap \<Rightarrow> nat \<Rightarrow> string \<Rightarrow> bool" where
  "governed group_plans i m \<longleftrightarrow> (case bm_get group_plans m of None \<Rightarrow> False | Some is \<Rightarrow> i \<in> set is)"

text \<open>The members a pass gave a slot of set \<open>i\<close>: admitted, and neither greenfield nor already rolling.\<close>

definition slotted ::
  "publisher \<Rightarrow> nat list bmap \<Rightarrow> Observations \<Rightarrow> MovementVerdict \<Rightarrow> AdmittedDeployment bmap
     \<Rightarrow> AdmittedDeployment bmap \<Rightarrow> nat \<Rightarrow> string \<Rightarrow> bool" where
  "slotted P group_plans Ob movement admitted admitted' i m \<longleftrightarrow>
     bm_get admitted' m \<noteq> bm_get admitted m \<and> \<not> greenfield admitted Ob m
     \<and> \<not> holds_slot P admitted Ob movement m \<and> governed group_plans i m"

lemma slots_spent:
  assumes d: "distinct xs" and x: "set xs \<subseteq> set (pending desired admitted)"
    and gp: "\<And>m is. bm_get group_plans m = Some is \<Longrightarrow> distinct is" and i: "i < length plans"
  shows "sp_slots (snd (fold (admit_one P groups desired group_plans Ob movement) xs (admitted, plans)) ! i)
           + card {m \<in> set xs. slotted P group_plans Ob movement admitted
               (fst (fold (admit_one P groups desired group_plans Ob movement) xs (admitted, plans))) i m}
         = sp_slots (plans ! i)"
  using d x
proof (induction xs rule: rev_induct)
  case (snoc m xs)
  let ?f = "admit_one P groups desired group_plans Ob movement"
  let ?sl = "\<lambda>t m. slotted P group_plans Ob movement admitted (fst t) i m"
  obtain adm pl where t: "fold ?f xs (admitted, plans) = (adm, pl)"
    by (cases "fold ?f xs (admitted, plans)")
  have m: "m \<notin> set xs" and same: "bm_get adm m = bm_get admitted m"
    using snoc.prems(1) admit_fold_other [of m xs P groups desired group_plans Ob movement "(admitted, plans)"] t by auto
  have pl: "i < length pl"
    using length_admit_fold [of P groups desired group_plans Ob movement xs "(admitted, plans)"] t i by simp
  have IH: "sp_slots (pl ! i) + card {x \<in> set xs. ?sl (adm, pl) x} = sp_slots (plans ! i)"
    using snoc t by simp
  have oth: "bm_get (fst (?f m (adm, pl))) x = bm_get adm x" if "x \<in> set xs" for x
    using that m admit_one_other [of x m P groups desired group_plans Ob movement "(adm, pl)"] by auto
  have others: "{x \<in> set xs. ?sl (?f m (adm, pl)) x} = {x \<in> set xs. ?sl (adm, pl) x}"
    by (auto simp: slotted_def oth)
  have grn: "greenfield adm Ob m = greenfield admitted Ob m"
    and hs: "holds_slot P adm Ob movement m = holds_slot P admitted Ob movement m"
    using same by (simp_all add: greenfield_def bm_has_def holds_slot_def)
  have split: "{x \<in> set (xs @ [m]). ?sl (?f m (adm, pl)) x}
      = {x \<in> set xs. ?sl (adm, pl) x} \<union> (if ?sl (?f m (adm, pl)) m then {m} else {})"
    using others by auto
  have card: "card {x \<in> set (xs @ [m]). ?sl (?f m (adm, pl)) x}
      = card {x \<in> set xs. ?sl (adm, pl) x} + (if ?sl (?f m (adm, pl)) m then 1 else 0)"
    unfolding split using m by (simp add: card_insert_if)
  have new: "bm_get (admit m (the (bm_get desired m)) adm) m \<noteq> bm_get admitted m"
    using snoc.prems(2) same by (simp add: admit_get pending_changes)
  have "sp_slots (snd (?f m (adm, pl)) ! i) + (if ?sl (?f m (adm, pl)) m then 1 else 0) = sp_slots (pl ! i)"
    using same grn hs new gp pl
    by (auto simp: admit_one_eq Let_def slotted_def governed_def fold_take_slot_slots split: option.splits)
  then show ?case
    using IH card t by simp
qed simp

lemma effective_max_concurrent_bounds:
  "1 \<le> effective_max_concurrent s n" "2 \<le> n \<Longrightarrow> effective_max_concurrent s n \<le> n - 1"
  by (auto simp: effective_max_concurrent_def Let_def)

lemma slotted_pending:
  assumes r: "(admitted', plans') = admit_pending P groups desired group_plans Ob movement (admitted, plans)"
    and m: "slotted P group_plans Ob movement admitted admitted' i m"
  shows "m \<in> set (pending desired admitted)"
proof (rule ccontr)
  assume "m \<notin> set (pending desired admitted)"
  then have "bm_get (fst (admit_pending P groups desired group_plans Ob movement (admitted, plans))) m = bm_get admitted m"
    by (simp add: admit_pending_eq admit_fold_other)
  then show False
    using m by (simp add: slotted_def flip: r)
qed

lemma admit_pending_slots:
  assumes wf: "bm_wf desired"
    and gp: "\<And>m is. bm_get group_plans m = Some is \<Longrightarrow> distinct is" and i: "i < length plans"
    and r: "(admitted', plans') = admit_pending P groups desired group_plans Ob movement (admitted, plans)"
  shows "card {m. slotted P group_plans Ob movement admitted admitted' i m} \<le> sp_slots (plans ! i)"
proof -
  let ?xs = "pending_order group_plans (pending desired admitted)"
  have res: "(admitted', plans') = fold (admit_one P groups desired group_plans Ob movement) ?xs (admitted, plans)"
    using r by (simp add: admit_pending_eq)
  have "distinct ?xs"
    using bm_wf_distinct [OF wf] by (simp add: pending_order_distinct pending_def)
  then have "card {m \<in> set ?xs. slotted P group_plans Ob movement admitted admitted' i m} \<le> sp_slots (plans ! i)"
    using slots_spent [of ?xs desired admitted group_plans i plans P groups Ob movement] gp i
    by (simp flip: res)
  moreover have "{m. slotted P group_plans Ob movement admitted admitted' i m}
      = {m \<in> set ?xs. slotted P group_plans Ob movement admitted admitted' i m}"
    using slotted_pending [OF r] by auto
  ultimately show ?thesis
    by simp
qed

lemma set_concurrency:
  assumes wf: "bm_wf desired"
    and b: "(plans, group_plans) = build_set_plans P C sets desired labels admitted Ob movement now"
    and r: "(admitted', plans') = admit_pending P groups desired group_plans Ob movement (admitted, plans)"
    and s: "i < length sets" and members: "members = set_members (sets ! i) desired labels"
  shows "card {m \<in> set members. holds_slot P admitted' Ob movement m \<and> \<not> greenfield admitted Ob m}
           \<le> max (effective_max_concurrent (sets ! i) (length members))
                 (card {m \<in> set members. holds_slot P admitted Ob movement m})"
proof -
  let ?old = "{m \<in> set members. holds_slot P admitted Ob movement m}"
  let ?new = "{m. slotted P group_plans Ob movement admitted admitted' i m}"
  let ?all = "{m \<in> set members. holds_slot P admitted' Ob movement m \<and> \<not> greenfield admitted Ob m}"
  have plans: "plans = map (build_set_plan P C desired labels admitted Ob movement now) sets"
    and gp: "bm_get group_plans m = (if governing sets desired labels m = [] then None
               else Some (governing sets desired labels m))" for m
    using build_set_plans_spec [OF wf] b by (metis fst_conv, metis snd_conv)
  have gov: "governed group_plans i m" if "m \<in> set members" for m
  proof -
    have "i \<in> set (governing sets desired labels m)"
      using that s members by (simp add: governing_iff)
    then show ?thesis
      by (cases "governing sets desired labels m = []") (simp_all add: governed_def gp)
  qed
  have "?all \<subseteq> ?old \<union> ?new"
    using gov holds_slot_cong [of admitted' _ admitted] by (auto simp: slotted_def)
  moreover have "finite ?new"
    by (rule finite_subset [of _ "set (pending desired admitted)"]) (use slotted_pending [OF r] in auto)
  ultimately have "card ?all \<le> card (?old \<union> ?new)"
    by (intro card_mono) auto
  also have "\<dots> \<le> card ?old + card ?new"
    by (rule card_Un_le)
  finally have "card ?all \<le> card ?old + card ?new" .
  moreover have "card ?new \<le> sp_slots (plans ! i)"
  proof (rule admit_pending_slots [OF wf _ _ r])
    show "distinct is" if "bm_get group_plans m = Some is" for m "is"
      using that governing_distinct [of sets desired labels m] by (auto simp: gp split: if_splits)
  qed (simp add: plans s)
  moreover have "card ?old = length (filter (holds_slot P admitted Ob movement) members)"
    using set_members_distinct [OF wf, of "sets ! i" labels] members
    by (metis distinct_card distinct_filter set_filter)
  then have "sp_slots (plans ! i) \<le> effective_max_concurrent (sets ! i) (length members) - card ?old"
    using s members by (simp add: plans build_set_plan_def Let_def)
  ultimately show ?thesis
    by linarith
qed

subsection \<open>Properties\<close>

text \<open>The admission step of a pass: the plans of the sets, then the queue run against them.\<close>

definition admission ::
  "publisher \<Rightarrow> calendar_lib \<Rightarrow> UpdateGroupSet list \<Rightarrow> ResolvedGroup bmap \<Rightarrow> string bmap bmap
     \<Rightarrow> Observations \<Rightarrow> MovementVerdict \<Rightarrow> moment \<Rightarrow> AdmittedDeployment bmap \<Rightarrow> AdmittedDeployment bmap" where
  "admission P C sets groups labels Ob movement now admitted =
     fst (admit_pending P groups (desired_of groups)
            (snd (build_set_plans P C sets (desired_of groups) labels admitted Ob movement now)) Ob movement
            (admitted, fst (build_set_plans P C sets (desired_of groups) labels admitted Ob movement now)))"

lemma desired_of_wf [simp]: "bm_wf (desired_of groups) = bm_wf groups"
  by (simp add: desired_of_def)

lemma desired_of_get [simp]: "bm_get (desired_of groups) name = map_option rg_deployment (bm_get groups name)"
  by (simp add: desired_of_def)

definition sample_movement :: MovementVerdict where
  "sample_movement = \<lparr>mv_proofs = [], mv_blocked = {}\<rparr>"

definition sample_old_admitted :: "AdmittedDeployment bmap" where
  "sample_old_admitted = [(''edge'', \<lparr>ad_current = v1, ad_previous = []\<rparr>)]"

definition sample_set :: "RolloutWindow list \<Rightarrow> UpdateGroupSet" where
  "sample_set windows =
     \<lparr>us_name = Some ''set'', us_selector = [(''tier'', ''prod'')], us_max_concurrent = None,
      us_rollout_windows = windows, us_calendar = [], us_max_regressions = None, us_on_regression = Halt\<rparr>"

definition sample_labels :: "string bmap bmap" where
  "sample_labels = [(''edge'', [(''tier'', ''prod'')])]"

lemma sample_admission:
  "bm_get (admission sample_publisher sample_calendar [] sample_groups [] (sample_observations True True)
     sample_movement sample_now sample_old_admitted) ''edge'' = Some \<lparr>ad_current = v2, ad_previous = [v1]\<rparr>"
proof -
  have "admissible sample_publisher sample_groups (desired_of sample_groups) sample_old_admitted
      (sample_observations True True) sample_movement ''edge''"
    by (simp add: admissible_def inputs_ready_def sample_group_def sample_movement_def)
  moreover have "pending (desired_of sample_groups) sample_old_admitted = [''edge'']"
    by (simp add: pending_def sample_old_admitted_def sample_group_def desired_of_def bm_map_def)
  ultimately show ?thesis
    by (simp add: admission_def admit_pending_eq build_set_plans_def pending_order_def admit_one_eq greenfield_def
        bm_has_def admit_get staged_previous_def bodies_def)
      (simp add: sample_old_admitted_def bm_has_def admit_get sample_group_def staged_previous_def bodies_def)
qed

text \<open>
  C25.  Every admission is gated.  A group's admitted entry changes only to its desired deployment,
  keeping every body it was admitted to before in the staged list; and only when its inputs are
  resolved, the new deployment's identity is not blocked, and every dependency is settled on its own
  desired deployment in the resulting state.
\<close>

theorem admission_gated:
  assumes wf: "bm_wf groups"
    and ch: "bm_get (admission P C sets groups labels Ob movement now admitted) name \<noteq> bm_get admitted name"
  shows "\<exists>state grp. bm_get (admission P C sets groups labels Ob movement now admitted) name = Some state
           \<and> bm_get groups name = Some grp \<and> ad_current state = rg_deployment grp
           \<and> ad_previous state = staged_previous (rg_deployment grp) (bm_get admitted name)
           \<and> inputs_ready grp
           \<and> (\<forall>i. deployment_identity P (ad_current state) = Some i \<longrightarrow> i \<notin> mv_blocked movement)
           \<and> (\<forall>dependency \<in> set (rg_depends_on grp).
                classify P dependency (desired_of groups)
                  (admission P C sets groups labels Ob movement now admitted) Ob movement = Settled)"
proof -
  let ?bp = "build_set_plans P C sets (desired_of groups) labels admitted Ob movement now"
  obtain plans' where r: "(admission P C sets groups labels Ob movement now admitted, plans') =
      admit_pending P groups (desired_of groups) (snd ?bp) Ob movement (admitted, fst ?bp)"
    by (metis admission_def prod.collapse)
  show ?thesis
    using admit_pending_gated [OF _ r ch] wf by (auto simp: admissible_def)
qed

theorem admission_gated_witness:
  "bm_get (admission sample_publisher sample_calendar [] sample_groups [] (sample_observations True True)
     sample_movement sample_now sample_old_admitted) ''edge'' \<noteq> bm_get sample_old_admitted ''edge''
   \<and> inputs_ready sample_group"
proof -
  have ch: "bm_get (admission sample_publisher sample_calendar [] sample_groups [] (sample_observations True True)
     sample_movement sample_now sample_old_admitted) ''edge'' \<noteq> bm_get sample_old_admitted ''edge''"
    by (simp add: sample_admission) (simp add: sample_old_admitted_def)
  show ?thesis
    using ch admission_gated [OF _ ch] by (auto simp: bm_wf_Cons)
qed

text \<open>
  C26.  A closed schedule admits nothing.  A group governed by a set that is outside its rollout
  windows or its calendar keeps its admitted entry, unless the operator declared an emergency
  correction or the group was never admitted and none of its nodes was ever published anything.
\<close>

theorem closed_schedule_admits_nothing:
  assumes wf: "bm_wf groups" and grp: "bm_get groups name = Some grp"
    and s: "s \<in> set sets" and m: "name \<in> set (set_members s (desired_of groups) labels)"
    and closed: "\<not> (is_open C (us_rollout_windows s) now \<and> calendar_open C (us_calendar s) now)"
    and e: "\<not> rg_emergency_correction grp"
    and p: "bm_has admitted name \<or> any_node_published Ob name"
  shows "bm_get (admission P C sets groups labels Ob movement now admitted) name = bm_get admitted name"
proof (rule ccontr)
  let ?bp = "build_set_plans P C sets (desired_of groups) labels admitted Ob movement now"
  assume ch: "bm_get (admission P C sets groups labels Ob movement now admitted) name \<noteq> bm_get admitted name"
  obtain plans' where r: "(admission P C sets groups labels Ob movement now admitted, plans') =
      admit_pending P groups (desired_of groups) (snd ?bp) Ob movement (admitted, fst ?bp)"
    by (metis admission_def prod.collapse)
  have wf': "bm_wf (desired_of groups)"
    using wf by simp
  obtain i where i: "i < length sets" "sets ! i = s"
    using s by (metis in_set_conv_nth)
  then have "i \<in> set (governing sets (desired_of groups) labels name)"
    using m by (simp add: governing_iff)
  then have "bm_get (snd ?bp) name = Some (governing sets (desired_of groups) labels name)"
    using build_set_plans_spec(2) [OF wf'] by auto
  moreover have "sp_frozen (fst ?bp ! i)"
    using i closed by (simp add: build_set_plans_spec(1) [OF wf'] build_set_plan_def Let_def)
  ultimately show False
    using admit_pending_gated [OF wf' r ch] e p grp \<open>i \<in> set (governing sets (desired_of groups) labels name)\<close>
    by (auto simp: greenfield_def)
qed

theorem closed_schedule_admits_nothing_witness:
  "bm_get (admission sample_publisher sample_calendar
     [sample_set [\<lparr>rw_weekdays = [], rw_interval_weeks = None, rw_anchor_week = None, rw_start = ''late'', rw_end = ''24:00''\<rparr>]]
     sample_groups sample_labels (sample_observations True True) sample_movement sample_now sample_old_admitted) ''edge''
   = Some \<lparr>ad_current = v1, ad_previous = []\<rparr>"
proof -
  let ?w = "\<lparr>rw_weekdays = [], rw_interval_weeks = None, rw_anchor_week = None, rw_start = ''late'', rw_end = ''24:00''\<rparr>"
  have m: "''edge'' \<in> set (set_members (sample_set [?w]) (desired_of sample_groups) sample_labels)"
    by (simp add: set_members_def desired_of_def bm_map_def sample_labels_def selector_matches_def sample_set_def)
  have closed: "\<not> (is_open sample_calendar (us_rollout_windows (sample_set [?w])) sample_now
      \<and> calendar_open sample_calendar (us_calendar (sample_set [?w])) sample_now)"
    by (simp add: sample_set_def is_open_def is_active_def parse_minute_def)
  have "bm_has sample_old_admitted ''edge''" and "\<not> rg_emergency_correction sample_group"
    by (simp_all add: sample_old_admitted_def bm_has_def sample_group_def)
  then show ?thesis
    using closed_schedule_admits_nothing [where sets = "[sample_set [?w]]", OF _ _ _ m closed] 
    by (simp add: bm_wf_Cons) (simp add: sample_old_admitted_def)
qed



end
