(* ===== verification/Rollout_Verdict.thy ===== *)
theory Rollout_Verdict
  imports Rollout_Admission
begin

text \<open>
  What the planner's verdicts mean: when a group is settled and when it occupies a slot, when a
  deployment is halted fleet-wide, and what the rollback response may do.
\<close>

subsection \<open>Group verdicts\<close>

definition proves_rejection :: "MovementVerdict \<Rightarrow> string \<Rightarrow> string \<Rightarrow> bool" where
  "proves_rejection movement identity n \<longleftrightarrow>
     (case bm_get (mv_proofs movement) identity of Some ns \<Rightarrow> n \<in> ns | None \<Rightarrow> False)"

definition judged :: "Observations \<Rightarrow> string \<Rightarrow> string set" where
  "judged Ob grp = {n \<in> set (nodes Ob grp). n \<notin> ob_cordons Ob}"

definition in_flight ::
  "publisher \<Rightarrow> Observations \<Rightarrow> AdmittedDeployment \<Rightarrow> MovementVerdict \<Rightarrow> string \<Rightarrow> string \<Rightarrow> bool" where
  "in_flight P Ob state movement identity n \<longleftrightarrow>
     \<not> proves_rejection movement identity n
     \<and> (if advanced Ob n identity
        then bm_has (ob_public_keys Ob) n \<and> \<not> converged P Ob n identity (ad_current state)
        else identity \<notin> mv_blocked movement)"

lemma report_key: "report Ob n = Some r \<Longrightarrow> bm_has (ob_public_keys Ob) n"
  by (auto simp: report_def bm_has_def split: option.splits)

lemma converged_healthy: "converged P Ob n identity d \<Longrightarrow> evidence Ob n identity = Healthy"
  using report_key [of Ob n]
  by (auto simp: converged_def evidence_def is_converged_to_def split: option.splits sum.splits)

lemma evidence_Blind_iff: "evidence Ob n identity = Blind \<longleftrightarrow> \<not> bm_has (ob_public_keys Ob) n"
  by (auto simp: evidence_def split: option.splits)

lemma observe_node_fields:
  fixes obs :: GroupObservation and P :: publisher and Ob :: Observations and state :: AdmittedDeployment and n :: string
  assumes "rejected = bm_get (mv_proofs movement) identity" and "go_halted obs = (identity \<in> mv_blocked movement)"
  defines "o' \<equiv> observe_node P Ob (ad_current state) identity rejected n obs"
  shows "go_halted o' = go_halted obs"
    and "go_moving o' \<longleftrightarrow> go_moving obs \<or> (n \<notin> ob_cordons Ob \<and> in_flight P Ob state movement identity n)"
    and "go_failed o' \<longleftrightarrow> go_failed obs \<or> (n \<notin> ob_cordons Ob \<and> proves_rejection movement identity n)"
    and "go_blocked o' \<longleftrightarrow> go_blocked obs \<or> (n \<notin> ob_cordons Ob \<and> \<not> proves_rejection movement identity n
           \<and> \<not> advanced Ob n identity \<and> identity \<in> mv_blocked movement)"
    and "go_observable o' \<longleftrightarrow> go_observable obs \<or> (n \<notin> ob_cordons Ob
           \<and> (proves_rejection movement identity n \<or> advanced Ob n identity \<and> bm_has (ob_public_keys Ob) n))"
  using assms converged_healthy [of P Ob n identity "ad_current state"] evidence_Blind_iff [of Ob n identity]
  by (auto simp: o'_def observe_node_def proves_rejection_def in_flight_def split: option.splits NodeEvidence.splits)

lemma observe_fold_fields:
  fixes obs :: GroupObservation
  assumes "rejected = bm_get (mv_proofs movement) identity" and "go_halted obs = (identity \<in> mv_blocked movement)"
  shows "go_halted (fold (observe_node P Ob (ad_current state) identity rejected) ns obs) = go_halted obs"
    and "go_moving (fold (observe_node P Ob (ad_current state) identity rejected) ns obs) \<longleftrightarrow>
           go_moving obs \<or> (\<exists>n \<in> set ns. n \<notin> ob_cordons Ob \<and> in_flight P Ob state movement identity n)"
    and "go_failed (fold (observe_node P Ob (ad_current state) identity rejected) ns obs) \<longleftrightarrow>
           go_failed obs \<or> (\<exists>n \<in> set ns. n \<notin> ob_cordons Ob \<and> proves_rejection movement identity n)"
    and "go_blocked (fold (observe_node P Ob (ad_current state) identity rejected) ns obs) \<longleftrightarrow>
           go_blocked obs \<or> (\<exists>n \<in> set ns. n \<notin> ob_cordons Ob \<and> \<not> proves_rejection movement identity n
             \<and> \<not> advanced Ob n identity \<and> identity \<in> mv_blocked movement)"
    and "go_observable (fold (observe_node P Ob (ad_current state) identity rejected) ns obs) \<longleftrightarrow>
           go_observable obs \<or> (\<exists>n \<in> set ns. n \<notin> ob_cordons Ob
             \<and> (proves_rejection movement identity n \<or> advanced Ob n identity \<and> bm_has (ob_public_keys Ob) n))"
  using assms(2)
proof (induction ns arbitrary: obs)
  case (Cons a ns)
  {
    case 1
    note step = observe_node_fields [OF assms(1) 1, of P Ob state a]
    then show ?case
      using Cons.IH(1) [of "observe_node P Ob (ad_current state) identity rejected a obs"] 1 by auto
  next
    case 2
    note step = observe_node_fields [OF assms(1) 2, of P Ob state a]
    then show ?case
      using Cons.IH(2) [of "observe_node P Ob (ad_current state) identity rejected a obs"] 2 by auto
  next
    case 3
    note step = observe_node_fields [OF assms(1) 3, of P Ob state a]
    then show ?case
      using Cons.IH(3) [of "observe_node P Ob (ad_current state) identity rejected a obs"] 3 by auto
  next
    case 4
    note step = observe_node_fields [OF assms(1) 4, of P Ob state a]
    then show ?case
      using Cons.IH(4) [of "observe_node P Ob (ad_current state) identity rejected a obs"] 4 by auto
  next
    case 5
    note step = observe_node_fields [OF assms(1) 5, of P Ob state a]
    then show ?case
      using Cons.IH(5) [of "observe_node P Ob (ad_current state) identity rejected a obs"] 5 by auto
  }
qed simp_all

lemma observe_group_fields:
  assumes "deployment_identity P (ad_current state) = Some identity"
  shows "go_halted (observe_group P Ob grp state movement) \<longleftrightarrow> identity \<in> mv_blocked movement"
    and "go_moving (observe_group P Ob grp state movement) \<longleftrightarrow>
           (\<exists>n \<in> judged Ob grp. in_flight P Ob state movement identity n)"
    and "go_failed (observe_group P Ob grp state movement) \<longleftrightarrow>
           (\<exists>n \<in> judged Ob grp. proves_rejection movement identity n)"
    and "go_blocked (observe_group P Ob grp state movement) \<longleftrightarrow>
           (\<exists>n \<in> judged Ob grp. \<not> proves_rejection movement identity n
             \<and> \<not> advanced Ob n identity \<and> identity \<in> mv_blocked movement)"
    and "go_observable (observe_group P Ob grp state movement) \<longleftrightarrow>
           (\<exists>n \<in> judged Ob grp. proves_rejection movement identity n
             \<or> advanced Ob n identity \<and> bm_has (ob_public_keys Ob) n)"
  using assms
  by (simp_all add: observe_group_def judged_def observe_fold_fields observation_default_def) blast+



subsection \<open>The fleet-wide halt\<close>

definition named_somewhere :: "publisher \<Rightarrow> DesiredDeployment bmap \<Rightarrow> AdmittedDeployment bmap \<Rightarrow> string \<Rightarrow> bool" where
  "named_somewhere P desired admitted i \<longleftrightarrow>
     (\<exists>t \<in> set (map ad_current (bm_values admitted) @ bm_values desired). deployment_identity P t = Some i)"

definition thresholds_on ::
  "publisher \<Rightarrow> UpdateGroupSet list \<Rightarrow> DesiredDeployment bmap \<Rightarrow> string bmap bmap \<Rightarrow> AdmittedDeployment bmap
     \<Rightarrow> string \<Rightarrow> nat set" where
  "thresholds_on P sets desired labels admitted i =
     {set_threshold s |s. s \<in> set sets \<and> (\<exists>m \<in> set (set_members s desired labels).
        i \<in> set (named_identities P m desired admitted))}"

definition tightest ::
  "publisher \<Rightarrow> UpdateGroupSet list \<Rightarrow> DesiredDeployment bmap \<Rightarrow> string bmap bmap \<Rightarrow> AdmittedDeployment bmap
     \<Rightarrow> string \<Rightarrow> nat" where
  "tightest P sets desired labels admitted i =
     (if thresholds_on P sets desired labels admitted i = {} then 1
      else Min (thresholds_on P sets desired labels admitted i))"

definition gather_step ::
  "publisher \<Rightarrow> ObservationLog \<Rightarrow> DesiredDeployment \<Rightarrow> (string \<times> string set) bmap \<Rightarrow> (string \<times> string set) bmap" where
  "gather_step P observed target ev =
     (case deployment_identity P target of
        None \<Rightarrow> ev
      | Some identity \<Rightarrow>
          if bm_has ev identity \<or> provers observed identity = {} then ev
          else bm_insert identity (as_deployment target, provers observed identity) ev)"

lemma gather_evidence_eq: "gather_evidence P observed targets = fold (gather_step P observed) targets []"
  by (simp add: gather_evidence_def gather_step_def [abs_def])

lemma gather_step_get:
  "map_option snd (bm_get (gather_step P observed t ev) i) =
     (if bm_has ev i then map_option snd (bm_get ev i)
      else if deployment_identity P t = Some i \<and> provers observed i \<noteq> {} then Some (provers observed i) else None)"
  by (cases "bm_get ev i") (auto simp: gather_step_def bm_has_def split: option.splits)

lemma gather_fold_get:
  "map_option snd (bm_get (fold (gather_step P observed) targets ev) i) =
     (if bm_has ev i then map_option snd (bm_get ev i)
      else if (\<exists>t \<in> set targets. deployment_identity P t = Some i) \<and> provers observed i \<noteq> {}
      then Some (provers observed i) else None)"
proof (induction targets arbitrary: ev)
  case (Cons t targets)
  have has: "bm_has (gather_step P observed t ev) i \<longleftrightarrow>
      bm_has ev i \<or> (deployment_identity P t = Some i \<and> provers observed i \<noteq> {})"
    by (auto simp: gather_step_def bm_has_def split: option.splits)
  show ?case
    using Cons.IH [of "gather_step P observed t ev"] gather_step_get [of P observed t ev i] has
    by (auto split: if_splits)
next
  case Nil
  then show ?case
    by (cases "bm_get ev i") (simp_all add: bm_has_def)
qed

lemma gather_evidence_get:
  "map_option snd (bm_get (gather_evidence P observed targets) i) =
     (if (\<exists>t \<in> set targets. deployment_identity P t = Some i) \<and> provers observed i \<noteq> {}
      then Some (provers observed i) else None)"
  using gather_fold_get [of P observed targets "[]" i] by (simp add: gather_evidence_eq bm_has_def)

lemma gather_evidence_wf: "bm_wf (gather_evidence P observed targets)"
  unfolding gather_evidence_eq
  by (rule fold_invariant_set [where I = bm_wf]) (auto simp: gather_step_def split: option.splits)

definition limits_on :: "(nat \<times> string) list \<Rightarrow> string \<Rightarrow> nat set" where
  "limits_on ps i = {t. (t, i) \<in> set ps}"

lemma limits_on_simps [simp]:
  "limits_on [] i = {}"
  "limits_on ((t, j) # ps) i = (if j = i then insert t (limits_on ps i) else limits_on ps i)"
  by (auto simp: limits_on_def)

lemma limits_on_finite [simp]: "finite (limits_on ps i)"
  unfolding limits_on_def by (rule finite_subset [of _ "fst ` set ps"]) force+

lemma tighten_fold:
  "bm_get (fold (\<lambda>(t, j). tighten ev t j) ps th) i =
     (if bm_has ev i
      then (let ts = limits_on ps i in
            case bm_get th i of
              None \<Rightarrow> if ts = {} then None else Some (Min ts)
            | Some t0 \<Rightarrow> Some (Min (insert t0 ts)))
      else bm_get th i)"
proof (induction ps arbitrary: th)
  case (Cons p ps)
  obtain t j where p: "p = (t, j)"
    by (cases p)
  have min: "Min (insert (min t0 t) (limits_on ps i)) = Min (insert t0 (insert t (limits_on ps i)))" for t0
    by (cases "limits_on ps i = {}") (simp_all add: min.assoc)
  have step: "bm_get (tighten ev t j th) i =
      (if bm_has ev i \<and> j = i then Some (case bm_get th i of None \<Rightarrow> t | Some t0 \<Rightarrow> min t0 t) else bm_get th i)"
    by (auto simp: tighten_def)
  show ?case
    using Cons.IH [of "tighten ev t j th"] unfolding p step
    by (cases "bm_get th i"; cases "j = i") (simp_all add: Let_def min del: Min_insert)
qed (simp add: Let_def split: option.splits)

definition threshold_pairs ::
  "publisher \<Rightarrow> UpdateGroupSet list \<Rightarrow> DesiredDeployment bmap \<Rightarrow> string bmap bmap \<Rightarrow> AdmittedDeployment bmap
     \<Rightarrow> (nat \<times> string) list" where
  "threshold_pairs P sets desired labels admitted =
     concat (map (\<lambda>s. concat (map (\<lambda>m. map (Pair (set_threshold s)) (named_identities P m desired admitted))
       (set_members s desired labels))) sets)"

lemma fold_concat_map: "fold (\<lambda>x. fold f (g x)) xs = fold f (concat (map g xs))"
  by (induction xs) simp_all

lemma gather_thresholds_eq:
  "gather_thresholds P sets desired labels admitted ev =
     fold (\<lambda>(t, j). tighten ev t j) (threshold_pairs P sets desired labels admitted) []"
proof -
  have "fold (tighten ev t) js = fold (\<lambda>(t, j). tighten ev t j) (map (Pair t) js)" for t js
    by (simp add: fold_map comp_def)
  then show ?thesis
    by (simp add: gather_thresholds_def threshold_pairs_def fold_concat_map)
qed

lemma threshold_pairs_set: "limits_on (threshold_pairs P sets desired labels admitted) i
    = thresholds_on P sets desired labels admitted i"
  by (auto simp: limits_on_def threshold_pairs_def thresholds_on_def)

lemma gather_thresholds_get:
  "bm_has ev i \<Longrightarrow>
   (case bm_get (gather_thresholds P sets desired labels admitted ev) i of None \<Rightarrow> 1 | Some t \<Rightarrow> t)
     = tightest P sets desired labels admitted i"
  by (simp add: gather_thresholds_eq tighten_fold threshold_pairs_set tightest_def Let_def)

lemma or_insert_fold_has:
  "bm_has (fold (\<lambda>(k, v). bm_or_insert k (f v)) vs m) i \<longleftrightarrow> bm_has m i \<or> bm_has vs i"
  by (induction vs arbitrary: m) (auto simp: bm_has_def bm_get_or_insert split: if_splits)

text \<open>
  C21.  The fleet-wide halt is exactly the evidence.  A deployment identity is halted when and only
  when it carries a durable veto, or some group or lineage names it and the number of distinct nodes
  on record as having durably rejected it reaches the tightest \<^verbatim>\<open>maxRegressions\<close> of the sets whose
  members name it, one if none does.
\<close>

theorem halt_is_the_evidence:
  "bm_has (rs_halts (regression_verdict P sets desired labels admitted observed vetoed)) i \<longleftrightarrow>
     bm_has vetoed i
     \<or> (named_somewhere P desired admitted i \<and> provers observed i \<noteq> {}
        \<and> tightest P sets desired labels admitted i \<le> card (provers observed i))"
proof -
  let ?targets = "map ad_current (bm_values admitted) @ bm_values desired"
  let ?ev = "gather_evidence P observed ?targets"
  have ev: "map_option snd (bm_get ?ev i) =
      (if named_somewhere P desired admitted i \<and> provers observed i \<noteq> {} then Some (provers observed i) else None)"
    by (simp add: gather_evidence_get named_somewhere_def)
  have has: "bm_has ?ev i \<longleftrightarrow> named_somewhere P desired admitted i \<and> provers observed i \<noteq> {}"
    using ev by (auto simp: bm_has_def split: if_splits)
  show ?thesis
  proof (cases "?ev = [] \<and> vetoed = []")
    case True
    then show ?thesis
      using has by (simp add: regression_verdict_def Let_def regressions_default_def bm_has_def)
  next
    case False
    let ?th = "gather_thresholds P sets desired labels admitted ?ev"
    let ?live = "bm_map (\<lambda>_ (name, ns). (name, card ns)) (bm_retain (\<lambda>identity (_, ns).
        (case bm_get ?th identity of None \<Rightarrow> 1 | Some t \<Rightarrow> t) \<le> card ns) ?ev)"
    have "rs_halts (regression_verdict P sets desired labels admitted observed vetoed)
        = fold (\<lambda>(identity, veto). bm_or_insert identity (vd_deployment veto, vd_evidence veto)) vetoed ?live"
      using False unfolding regression_verdict_def Let_def by (simp only: if_False Regressions.simps)
    then have "bm_has (rs_halts (regression_verdict P sets desired labels admitted observed vetoed)) i
        \<longleftrightarrow> bm_has ?live i \<or> bm_has vetoed i"
      using or_insert_fold_has [of "\<lambda>veto. (vd_deployment veto, vd_evidence veto)" vetoed ?live i] by simp
    moreover have "bm_has ?live i \<longleftrightarrow> bm_has ?ev i
        \<and> tightest P sets desired labels admitted i \<le> card (provers observed i)"
    proof (cases "bm_get ?ev i")
      case (Some e)
      then have "bm_has ?ev i" and "snd e = provers observed i"
        using ev by (auto simp: bm_has_def split: if_splits)
      then show ?thesis
        using Some gather_thresholds_get [of ?ev i P sets desired labels admitted] gather_evidence_wf
        by (cases e) (simp add: bm_has_def bm_get_retain)
    qed (simp add: bm_has_def bm_get_retain gather_evidence_wf)
    ultimately show ?thesis
      using has by blast
  qed
qed

subsection \<open>The automatic rollback\<close>

definition governs :: "DesiredDeployment bmap \<Rightarrow> string bmap bmap \<Rightarrow> string \<Rightarrow> UpdateGroupSet \<Rightarrow> bool" where
  "governs desired labels name s \<longleftrightarrow> name \<in> set (set_members s desired labels)"

lemma count_policy_fold:
  "distinct ms \<Longrightarrow> bm_get (fold (count_policy s) ms policies) name =
     (if name \<in> set ms
      then (let (g, r) = (case bm_get policies name of None \<Rightarrow> (0, 0) | Some p \<Rightarrow> p)
            in Some (g + 1, if us_on_regression s = RollbackOnRegression then r + 1 else r))
      else bm_get policies name)"
proof (induction ms arbitrary: policies)
  case (Cons m ms)
  have "bm_get (count_policy s m policies) name =
      (if m = name
       then (let (g, r) = (case bm_get policies name of None \<Rightarrow> (0, 0) | Some p \<Rightarrow> p)
             in Some (g + 1, if us_on_regression s = RollbackOnRegression then r + 1 else r))
       else bm_get policies name)"
    by (auto simp: count_policy_def Let_def split: prod.splits)
  then show ?case
    using Cons by (auto simp: Let_def)
qed simp

lemma policies_get:
  assumes "bm_wf desired"
  shows "bm_get (fold (\<lambda>s. fold (count_policy s) (set_members s desired labels)) sets policies) name =
     (let gs = filter (governs desired labels name) sets;
          (g, r) = (case bm_get policies name of None \<Rightarrow> (0, 0) | Some p \<Rightarrow> p)
      in if gs = [] then bm_get policies name
         else Some (g + length gs, r + length (filter (\<lambda>s. us_on_regression s = RollbackOnRegression) gs)))"
proof (induction sets arbitrary: policies)
  case (Cons s sets)
  show ?case
    using Cons.IH [of "fold (count_policy s) (set_members s desired labels) policies"] assms
    by (auto simp: Let_def count_policy_fold set_members_distinct governs_def filter_empty_conv
        split: prod.splits option.splits)
qed (simp add: Let_def split: prod.splits)

lemma policies_wf: "bm_wf (fold (\<lambda>s. fold (count_policy s) (ms s)) sets [])"
proof (rule fold_invariant_set [where I = bm_wf])
  fix s and policies :: "(nat \<times> nat) bmap"
  assume "bm_wf policies"
  then show "bm_wf (fold (count_policy s) (ms s) policies)"
    by (rule fold_invariant_set [where I = bm_wf]) (simp add: count_policy_def Let_def split: prod.splits)
qed simp

lemma filter_all_length: "length (filter Q xs) = length xs \<longleftrightarrow> (\<forall>x \<in> set xs. Q x)"
proof -
  have "length (filter Q xs) = length xs \<longleftrightarrow> filter (\<lambda>x. \<not> Q x) xs = []"
    using sum_length_filter_compl [of Q xs] by (metis add_cancel_left_right length_0_conv)
  then show ?thesis
    by (simp add: filter_empty_conv)
qed

text \<open>Automatic rollback is unanimous among the sets that govern the group.\<close>

lemma rollback_groups_unanimous:
  assumes "bm_wf desired"
  shows "name \<in> rollback_groups sets desired labels \<longleftrightarrow>
     (\<exists>s \<in> set sets. governs desired labels name s)
     \<and> (\<forall>s \<in> set sets. governs desired labels name s \<longrightarrow> us_on_regression s = RollbackOnRegression)"
proof -
  let ?ps = "fold (\<lambda>s. fold (count_policy s) (set_members s desired labels)) sets []"
  let ?gs = "filter (governs desired labels name) sets"
  have "name \<in> rollback_groups sets desired labels \<longleftrightarrow> (\<exists>g r. bm_get ?ps name = Some (g, r) \<and> 0 < g \<and> g = r)"
    unfolding rollback_groups_def bm_get_iff [OF policies_wf] image_iff set_filter by auto
  also have "\<dots> \<longleftrightarrow> ?gs \<noteq> [] \<and> length (filter (\<lambda>s. us_on_regression s = RollbackOnRegression) ?gs) = length ?gs"
    using policies_get [OF assms, of labels sets "[]" name] by (auto simp: Let_def)
  also have "\<dots> \<longleftrightarrow> (\<exists>s \<in> set sets. governs desired labels name s)
     \<and> (\<forall>s \<in> set sets. governs desired labels name s \<longrightarrow> us_on_regression s = RollbackOnRegression)"
    unfolding filter_all_length by (auto simp: filter_empty_conv)
  finally show ?thesis .
qed

definition restores :: "publisher \<Rightarrow> DesiredDeployment \<Rightarrow> string set \<Rightarrow> DesiredDeployment \<Rightarrow> DesiredDeployment \<Rightarrow> bool" where
  "restores P current blocks d restored \<longleftrightarrow>
     rollback_to P current d = Inr restored
     \<and> (\<exists>i. deployment_identity P d = Some i \<and> i \<notin> blocks)
     \<and> (\<exists>i. deployment_identity P restored = Some i \<and> i \<notin> blocks)"

lemma rollback_target_from_Cons:
  assumes "restores P current blocks d r"
  shows "rollback_target_from P current i (d # ds) blocks = Some (i, r)"
  using assms by (auto simp: restores_def)

lemma rollback_target_from_skip:
  assumes "\<And>r. \<not> restores P current blocks d r"
  shows "rollback_target_from P current i (d # ds) blocks = rollback_target_from P current (Suc i) ds blocks"
  using assms by (auto simp: restores_def Let_def split: option.splits sum.splits)

declare rollback_target_from.simps(2) [simp del]

lemma rollback_target_from_ge: "rollback_target_from P current i ds blocks = Some (k, r) \<Longrightarrow> i \<le> k"
proof (induction ds arbitrary: i)
  case (Cons d ds)
  show ?case
  proof (cases "\<exists>r. restores P current blocks d r")
    case True
    then show ?thesis
      using Cons.prems rollback_target_from_Cons [of P current blocks d _ i ds] by auto
  next
    case False
    then show ?thesis
      using Cons rollback_target_from_skip [of P current blocks d i ds] by fastforce
  qed
qed simp

lemma rollback_target_from_spec:
  "rollback_target_from P current i ds blocks = Some (i + n, restored) \<longleftrightarrow>
     n < length ds \<and> restores P current blocks (ds ! n) restored
     \<and> (\<forall>j < n. \<forall>r. \<not> restores P current blocks (ds ! j) r)"
proof (induction ds arbitrary: i n)
  case (Cons d ds)
  show ?case
  proof (cases "\<exists>r. restores P current blocks d r")
    case True
    then obtain r where r: "restores P current blocks d r" ..
    have "restored = r" if "restores P current blocks d restored"
      using that r by (simp add: restores_def)
    then show ?thesis
      using r rollback_target_from_Cons [OF r, of i ds] by (cases n) (auto simp: All_less_Suc2)
  next
    case False
    then have skip: "rollback_target_from P current i (d # ds) blocks = rollback_target_from P current (Suc i) ds blocks"
      by (blast intro: rollback_target_from_skip)
    show ?thesis
    proof (cases n)
      case 0
      then show ?thesis
        using False skip rollback_target_from_ge [of P current "Suc i" ds blocks i] by auto
    next
      case (Suc m)
      have "(\<forall>j < Suc m. \<forall>r. \<not> restores P current blocks ((d # ds) ! j) r)
          \<longleftrightarrow> (\<forall>j < m. \<forall>r. \<not> restores P current blocks (ds ! j) r)"
        using False unfolding All_less_Suc2 nth_Cons_0 nth_Cons_Suc by blast
      then show ?thesis
        unfolding Suc skip using Cons.IH [of "Suc i" m]
        by (simp only: add_Suc_right add_Suc length_Cons Suc_less_eq nth_Cons_Suc)
    qed
  qed
qed simp

lemma rollback_target_None:
  "rollback_target P current ds blocks = None \<longleftrightarrow> (\<forall>d \<in> set ds. \<forall>r. \<not> restores P current blocks d r)"
proof -
  have "rollback_target_from P current i ds blocks = None \<longleftrightarrow> (\<forall>d \<in> set ds. \<forall>r. \<not> restores P current blocks d r)" for i
  proof (induction ds arbitrary: i)
    case (Cons d ds)
    show ?case
    proof (cases "\<exists>r. restores P current blocks d r")
      case True
      then show ?thesis
        using rollback_target_from_Cons [of P current blocks d _ i ds] by auto
    next
      case False
      then show ?thesis
        using Cons.IH [of "Suc i"] rollback_target_from_skip [of P current blocks d i ds] by simp
    qed
  qed simp
  then show ?thesis
    by (simp add: rollback_target_def)
qed

text \<open>What licenses a rollback of one group: unanimous policy, a halted current body whose provers
  have all come back to health on their own.\<close>

definition may_roll_back ::
  "publisher \<Rightarrow> UpdateGroupSet list \<Rightarrow> DesiredDeployment bmap \<Rightarrow> string bmap bmap \<Rightarrow> Observations
     \<Rightarrow> Regressions \<Rightarrow> string \<Rightarrow> AdmittedDeployment \<Rightarrow> bool" where
  "may_roll_back P sets desired labels Ob regressions name state \<longleftrightarrow>
     bm_has desired name
     \<and> (\<exists>s \<in> set sets. governs desired labels name s)
     \<and> (\<forall>s \<in> set sets. governs desired labels name s \<longrightarrow> us_on_regression s = RollbackOnRegression)
     \<and> (\<exists>i. deployment_identity P (ad_current state) = Some i \<and> bm_has (rs_halts regressions) i
            \<and> provers_recovered Ob regressions name i)"

lemma rebase_of_spec:
  assumes "bm_wf desired"
  shows "rebase_of P sets desired labels Ob regressions blocks (name, state) =
     (if may_roll_back P sets desired labels Ob regressions name state
      then map_option (\<lambda>(index, restored). (name, the (deployment_identity P (ad_current state)), index, restored))
             (rollback_target P (ad_current state) (ad_previous state) blocks)
      else None)"
  using rollback_groups_unanimous [OF assms, of name sets labels]
  by (cases "rollback_target P (ad_current state) (ad_previous state) blocks")
    (auto simp: rebase_of_def may_roll_back_def split: option.splits)

definition rebased :: "AdmittedDeployment \<Rightarrow> nat \<Rightarrow> DesiredDeployment \<Rightarrow> AdmittedDeployment" where
  "rebased state index restored =
     (let others = take index (ad_previous state) @ drop (Suc index) (ad_previous state)
      in \<lparr>ad_current = restored,
          ad_previous = ad_current state
            # (if ad_previous state ! index \<noteq> restored then ad_previous state ! index # others else others)\<rparr>)"

lemma rebased_bodies:
  "index < length (ad_previous state) \<Longrightarrow>
   set (bodies (rebased state index restored)) = insert restored (set (bodies state))"
  using id_take_nth_drop [of index "ad_previous state"]
  by (auto simp: rebased_def bodies_def Let_def) (metis Un_iff insert_iff list.simps(15) set_append)+

lemma apply_rebase_get:
  "bm_get (fst (apply_rebase regressions (name, identity, index, restored) av)) =
     (bm_get (fst av))(name \<mapsto> rebased (the (bm_get (fst av) name)) index restored)"
  "bm_has (snd (apply_rebase regressions (name, identity, index, restored) av)) i \<longleftrightarrow>
     i = identity \<or> bm_has (snd av) i"
  by (cases av; auto simp: apply_rebase_def rebased_def Let_def bm_has_def bm_get_or_insert split: prod.splits)+

lemma apply_rebases_get:
  "distinct (map fst es) \<Longrightarrow>
   bm_get (fst (fold (apply_rebase regressions) es av)) name =
     (case map_of es name of
        None \<Rightarrow> bm_get (fst av) name
      | Some (_, index, restored) \<Rightarrow> Some (rebased (the (bm_get (fst av) name)) index restored))"
proof (induction es arbitrary: av)
  case (Cons e es)
  obtain n identity index restored where e: "e = (n, identity, index, restored)"
    by (cases e)
  have "map_of es n = None"
    using Cons.prems by (auto simp: e map_of_eq_None_iff)
  then show ?case
    using Cons by (simp add: e apply_rebase_get split: option.splits)
qed simp

lemma apply_rebases_veto:
  "bm_has (snd (fold (apply_rebase regressions) es av)) i \<longleftrightarrow> bm_has (snd av) i \<or> (\<exists>e \<in> set es. fst (snd e) = i)"
  by (induction es arbitrary: av) (auto simp: apply_rebase_get)

lemma map_filter_mem: "f x = Some y \<Longrightarrow> x \<in> set xs \<Longrightarrow> y \<in> set (List.map_filter f xs)"
  by (induction xs) (auto simp: List.map_filter_simps split: option.splits)

lemma map_filter_keyed:
  assumes "bm_wf m" "\<And>k v k' w. f (k, v) = Some (k', w) \<Longrightarrow> k' = k"
  shows "distinct (map fst (List.map_filter f m))"
    and "map_of (List.map_filter f m) k =
      (case bm_get m k of None \<Rightarrow> None | Some v \<Rightarrow> map_option snd (f (k, v)))"
proof -
  have sub: "fst ` set (List.map_filter f es) \<subseteq> fst ` set es" for es
    using assms(2) by (force simp: List.map_filter_def)
  have "distinct (map fst (List.map_filter f m)) \<and> (map_of (List.map_filter f m) k =
      (case bm_get m k of None \<Rightarrow> None | Some v \<Rightarrow> map_option snd (f (k, v))))"
    using bm_wf_distinct [OF assms(1)]
  proof (induction m)
    case (Cons e es)
    obtain n v where e: "e = (n, v)"
      by (cases e)
    have "n \<notin> fst ` set (List.map_filter f es)"
      using Cons.prems sub [of es] by (auto simp: e)
    moreover have "map_of (List.map_filter f es) n = None"
      using calculation by (simp add: map_of_eq_None_iff)
    moreover have "bm_get es n = None"
      using Cons.prems by (auto simp: e map_of_eq_None_iff)
    ultimately show ?case
      using Cons assms(2) [of n v]
      by (cases "f (n, v)") (auto simp: e List.map_filter_simps split: option.splits)
  qed (simp add: List.map_filter_simps)
  then show "distinct (map fst (List.map_filter f m))"
    and "map_of (List.map_filter f m) k =
      (case bm_get m k of None \<Rightarrow> None | Some v \<Rightarrow> map_option snd (f (k, v)))"
    by blast+
qed

lemma rollback_response_get:
  assumes "bm_wf desired" "bm_wf admitted" "bm_get admitted name = Some state"
  shows "bm_get (fst (rollback_response P sets desired labels Ob regressions blocks (admitted, vetoed))) name =
     Some (if may_roll_back P sets desired labels Ob regressions name state
           then case rollback_target P (ad_current state) (ad_previous state) blocks of
                  None \<Rightarrow> state
                | Some (index, restored) \<Rightarrow> rebased state index restored
           else state)"
proof (cases "rs_halts regressions = []")
  case True
  then show ?thesis
    using assms(3) by (simp add: rollback_response_def may_roll_back_def bm_has_def)
next
  case False
  let ?f = "rebase_of P sets desired labels Ob regressions blocks"
  have keyed: "k' = k" if "?f (k, v) = Some (k', w)" for k v k' w
    using that by (auto simp: rebase_of_spec [OF assms(1)] split: if_splits)
  have "bm_get (fst (rollback_response P sets desired labels Ob regressions blocks (admitted, vetoed))) name =
      (case map_option snd (?f (name, state)) of
         None \<Rightarrow> Some state
       | Some (_, index, restored) \<Rightarrow> Some (rebased state index restored))"
    using False assms(3)
    by (simp add: rollback_response_def apply_rebases_get map_filter_keyed [OF assms(2) keyed] cong: option.case_cong)
  then show ?thesis
    by (auto simp: rebase_of_spec [OF assms(1)] split: option.splits)
qed

lemma rollback_response_veto:
  assumes "bm_wf desired" "bm_wf admitted" "bm_get admitted name = Some state"
    "may_roll_back P sets desired labels Ob regressions name state"
    "rollback_target P (ad_current state) (ad_previous state) blocks = Some t"
  shows "\<exists>i. deployment_identity P (ad_current state) = Some i
      \<and> bm_has (snd (rollback_response P sets desired labels Ob regressions blocks (admitted, vetoed))) i"
proof -
  let ?f = "rebase_of P sets desired labels Ob regressions blocks"
  obtain i where i: "deployment_identity P (ad_current state) = Some i" "bm_has (rs_halts regressions) i"
    using assms(4) by (auto simp: may_roll_back_def)
  then have "rs_halts regressions \<noteq> []"
    by (auto simp: bm_has_def)
  moreover have "?f (name, state) = Some (name, i, t)"
    using assms(4,5) i(1) by (cases t) (simp add: rebase_of_spec [OF assms(1)])
  then have "(name, i, t) \<in> set (List.map_filter ?f admitted)"
    by (rule map_filter_mem [where f = ?f, OF _ map_of_SomeD [OF assms(3)]])
  then have "\<exists>e \<in> set (List.map_filter ?f admitted). fst (snd e) = i"
    by (rule bexI [rotated]) simp
  ultimately show ?thesis
    using i(1) by (simp add: rollback_response_def apply_rebases_veto)
qed

text \<open>
  C19.  Automatic rollback does exactly what its policy licenses.  A group whose governing sets do not
  all ask for rollback, whose current body is not halted, or one of whose provers has not yet shown a
  completed rollback of its own, keeps its admitted state untouched; so does one with no retained body
  left to restore.  Otherwise the group is rebased on the newest retained body that the release graph
  permits it to return to and that nothing blocks: that body becomes current, no retained body is
  dropped, the withdrawn one heads the retained list, and its identity is durably vetoed.
\<close>

theorem automatic_rollback:
  assumes "bm_wf desired" and "bm_wf admitted" and "bm_get admitted name = Some state"
    and "rollback_response P sets desired labels Ob regressions blocks (admitted, vetoed) = (admitted', vetoed')"
  shows "\<exists>state'. bm_get admitted' name = Some state' \<and>
    (if may_roll_back P sets desired labels Ob regressions name state
        \<and> (\<exists>d \<in> set (ad_previous state). \<exists>r. restores P (ad_current state) blocks d r)
     then (\<exists>n < length (ad_previous state).
             restores P (ad_current state) blocks (ad_previous state ! n) (ad_current state')
             \<and> (\<forall>j < n. \<forall>r. \<not> restores P (ad_current state) blocks (ad_previous state ! j) r))
          \<and> set (bodies state') = insert (ad_current state') (set (bodies state))
          \<and> hd (ad_previous state') = ad_current state
          \<and> (\<exists>i. deployment_identity P (ad_current state) = Some i \<and> bm_has vetoed' i)
     else state' = state)"
proof (cases "may_roll_back P sets desired labels Ob regressions name state")
  case False
  then show ?thesis
    using rollback_response_get [OF assms(1-3), of P sets labels Ob regressions blocks vetoed] assms(4) by simp
next
  case True
  note get = rollback_response_get [OF assms(1-3), of P sets labels Ob regressions blocks vetoed]
  show ?thesis
  proof (cases "rollback_target P (ad_current state) (ad_previous state) blocks")
    case None
    then have "\<not> (\<exists>d \<in> set (ad_previous state). \<exists>r. restores P (ad_current state) blocks d r)"
      by (simp add: rollback_target_None)
    then show ?thesis
      using get True None assms(4) by simp
  next
    case (Some t)
    obtain n restored where t: "t = (n, restored)"
      by (cases t)
    have n: "n < length (ad_previous state)" "restores P (ad_current state) blocks (ad_previous state ! n) restored"
      "\<forall>j < n. \<forall>r. \<not> restores P (ad_current state) blocks (ad_previous state ! j) r"
      using Some rollback_target_from_spec [of P "ad_current state" 0 "ad_previous state" blocks n restored]
      by (simp_all add: t rollback_target_def)
    have ex: "\<exists>d \<in> set (ad_previous state). \<exists>r. restores P (ad_current state) blocks d r"
      using n(1,2) nth_mem by blast
    have "bm_get admitted' name = Some (rebased state n restored)"
      using get True Some assms(4) by (simp add: t)
    moreover have "\<exists>i. deployment_identity P (ad_current state) = Some i \<and> bm_has vetoed' i"
      using rollback_response_veto [OF assms(1-3) True Some, of vetoed] assms(4) by simp
    moreover have "ad_current (rebased state n restored) = restored"
      "hd (ad_previous (rebased state n restored)) = ad_current state"
      by (simp_all add: rebased_def Let_def)
    ultimately show ?thesis
      using True ex n rebased_bodies [OF n(1), of restored] by auto
  qed
qed

text \<open>A halted deployment in a set that asks for rollback, over a predecessor with the same release.\<close>

definition v0 :: DesiredDeployment where "v0 = sample_deployment ''v0'' (CHR ''b'')"

lemma b_sha: "is_canonical_sha256 (replicate 64 (CHR ''b''))"
  by (simp add: is_canonical_sha256_def list_all_iff ascii_defs)

lemma sample_segments: "is_segment ''v0''" "is_segment ''v2''"
  by (simp_all add: ascii_defs is_segment_def segment_byte_def MAX_SEGMENT_BYTES_def is_windows_device_stem_def)

lemma sample_restores: "restores sample_publisher v2 {''v2''} v0 v0"
proof -
  let ?g = "\<lparr>graph_target = ''1.0.0'', releases = [(''1.0.0'', sample_catalog_release (CHR ''b''))]\<rparr>"
  have app: "as_application v0 = ?g" "as_application v2 = ?g"
    by (simp_all add: v0_def v2_def sample_deployment_def)
  have valid: "assignment_validate sample_publisher v0 = Inr ()"
    using sample_valid [OF b_sha sample_segments(1)] by (simp add: v0_def)
  have same: "v0\<lparr>as_application := ?g\<rparr> = v0"
    by (simp add: v0_def sample_deployment_def)
  have "route sample_publisher ?g (Some ''1.0.0'') (\<lambda>_ _. True) = Some (Inr [])"
    using sample_graph_valid [OF b_sha] by (simp add: route_def bm_has_def)
  moreover have "target_reference ?g = Inr (package (sample_catalog_release (CHR ''b'')))"
    by (simp add: target_reference_def)
  moreover have "check_source ?g ''1.0.0'' (tr_sha256 (package (sample_catalog_release (CHR ''b'')))) = Inr ()"
    using b_sha by (simp add: check_source_def sample_catalog_release_def digests_match_def)
  ultimately have "rollback_to sample_publisher v2 v0 = Inr v0"
    using valid by (simp add: rollback_to_def app map_err_def Let_def same)
  moreover have "deployment_identity sample_publisher v0 = Some ''v0''"
    using sample_identity [OF b_sha sample_segments(1)] by (simp add: v0_def)
  ultimately show ?thesis
    by (simp add: restores_def)
qed

definition sample_rollback_set :: UpdateGroupSet where
  "sample_rollback_set = (sample_set [])\<lparr>us_on_regression := RollbackOnRegression\<rparr>"

definition sample_halts :: Regressions where
  "sample_halts = \<lparr>rs_proofs = [], rs_halts = [(''v2'', ''v2'', 1)]\<rparr>"

definition sample_halted_state :: AdmittedDeployment where
  "sample_halted_state = \<lparr>ad_current = v2, ad_previous = [v0]\<rparr>"

theorem automatic_rollback_witness:
  "\<exists>state'. bm_get (fst (rollback_response sample_publisher [sample_rollback_set] [(''edge'', v2)] sample_labels
      (sample_observations True True) sample_halts {''v2''} ([(''edge'', sample_halted_state)], []))) ''edge''
      = Some state' \<and> ad_current state' = v0"
proof -
  let ?r = "rollback_response sample_publisher [sample_rollback_set] [(''edge'', v2)] sample_labels
      (sample_observations True True) sample_halts {''v2''} ([(''edge'', sample_halted_state)], [])"
  have may: "may_roll_back sample_publisher [sample_rollback_set] [(''edge'', v2)] sample_labels
      (sample_observations True True) sample_halts ''edge'' sample_halted_state"
    by (simp add: may_roll_back_def governs_def set_members_def sample_labels_def sample_rollback_set_def
        sample_set_def selector_matches_def sample_halts_def sample_halted_state_def bm_has_def provers_recovered_def)
  have prev: "ad_previous sample_halted_state = [v0]" "ad_current sample_halted_state = v2"
    by (simp_all add: sample_halted_state_def)
  have only: "r = v0" if "restores sample_publisher v2 {''v2''} v0 r" for r
    using that sample_restores by (simp add: restores_def)
  have ex: "\<exists>r. restores sample_publisher v2 {''v2''} v0 r"
    using sample_restores ..
  have "\<exists>state'. bm_get (fst ?r) ''edge'' = Some state' \<and> restores sample_publisher v2 {''v2''} v0 (ad_current state')"
    using automatic_rollback [of "[(''edge'', v2)]" "[(''edge'', sample_halted_state)]" "''edge''" sample_halted_state
        sample_publisher "[sample_rollback_set]" sample_labels "sample_observations True True" sample_halts "{''v2''}"
        "[]" "fst ?r" "snd ?r"] may ex
    by (auto simp: prev bm_wf_def)
  then show ?thesis
    using only by blast
qed

end
