(* ===== verification/Release_Route.thy ===== *)
theory Release_Route
  imports Release_Graph
begin

text \<open>
  What the searches of \<open>Release_Graph\<close> compute.  \<open>route\<close> is a breadth-first search with a parent map:
  it always returns, and what it returns is a shortest supported route, or the error exactly when
  there is none.  \<open>route_versions\<close> intersects two closures: it always returns, and what it returns is
  the set of releases on some supported route.
\<close>

subsection \<open>Supported routes\<close>

text \<open>One permitted hop: a declared, available release that names its predecessor.\<close>

definition hop :: "ReleaseGraph \<Rightarrow> Direction \<Rightarrow> string set \<Rightarrow> string \<Rightarrow> string \<Rightarrow> bool" where
  "hop g dir allowed u v \<longleftrightarrow>
     v \<in> allowed \<and> (\<exists>r. (v, r) \<in> set (releases g) \<and> u \<in> set (predecessors dir r))"

definition supported_route ::
  "'z versions_scheme \<Rightarrow> ReleaseGraph \<Rightarrow> string set \<Rightarrow> string option \<Rightarrow> string list \<Rightarrow> bool" where
  "supported_route V g allowed installed r \<longleftrightarrow>
     (case installed of
        Some v \<Rightarrow> chain (hop g (direction V g installed) allowed) (v # r) \<and> last (v # r) = graph_target g
      | None \<Rightarrow> r \<noteq> [] \<and> hd r \<in> set (route_starts g allowed None)
                \<and> chain (hop g (direction V g installed) allowed) r \<and> last r = graph_target g)"

text \<open>A walk of length \<open>n\<close> from one of the starting releases.\<close>

inductive walk :: "('a \<Rightarrow> 'a \<Rightarrow> bool) \<Rightarrow> 'a set \<Rightarrow> nat \<Rightarrow> 'a \<Rightarrow> bool" for R S where
  walk_start: "s \<in> S \<Longrightarrow> walk R S 0 s"
| walk_hop: "walk R S n u \<Longrightarrow> R u v \<Longrightarrow> walk R S (Suc n) v"

lemma chain_walk: "p \<noteq> [] \<Longrightarrow> chain R p \<Longrightarrow> hd p \<in> S \<Longrightarrow> walk R S (length p - 1) (last p)"
proof (induction p rule: rev_induct)
  case (snoc x p)
  show ?case
  proof (cases "p = []")
    case True
    then show ?thesis
      using snoc.prems by (simp add: walk_start)
  next
    case False
    then have "walk R S (length p - 1) (last p)" "R (last p) x"
      using snoc by (auto simp: chain_snoc)
    then show ?thesis
      using False walk_hop [of R S "length p - 1" "last p" x] by simp
  qed
qed simp

lemma walk_chain:
  "walk R S n v \<Longrightarrow> \<exists>p. p \<noteq> [] \<and> chain R p \<and> hd p \<in> S \<and> last p = v \<and> length p = Suc n"
proof (induction rule: walk.induct)
  case (walk_start s)
  then show ?case
    by (intro exI [of _ "[s]"]) simp
next
  case (walk_hop n u v)
  then obtain p where "p \<noteq> []" "chain R p" "hd p \<in> S" "last p = u" "length p = Suc n"
    by blast
  then show ?case
    using walk_hop.hyps(2) by (intro exI [of _ "p @ [v]"]) (simp add: chain_snoc)
qed

subsection \<open>The search\<close>

text \<open>
  The invariant of the search: \<open>d\<close> is the depth at which a release was discovered, the queue is
  ordered by depth over at most two consecutive depths, and everything already taken from the queue
  has its successors discovered.
\<close>

definition search_inv ::
  "(string \<Rightarrow> string \<Rightarrow> bool) \<Rightarrow> string set \<Rightarrow> (string \<Rightarrow> nat) \<Rightarrow> string \<Rightarrow> string option bmap \<Rightarrow> string list \<Rightarrow> bool" where
  "search_inv R S d target parents queue \<longleftrightarrow>
     (\<forall>s \<in> S. bm_get parents s = Some None)
     \<and> (\<forall>v. bm_get parents v = Some None \<longrightarrow> v \<in> S \<and> d v = 0)
     \<and> (\<forall>v u. bm_get parents v = Some (Some u) \<longrightarrow> bm_has parents u \<and> R u v \<and> d v = Suc (d u))
     \<and> (\<forall>v \<in> set queue. bm_has parents v)
     \<and> sorted (map d queue) \<and> (\<forall>v \<in> set queue. d v \<le> Suc (d (hd queue)))
     \<and> (\<forall>u. bm_has parents u \<and> u \<notin> set queue \<longrightarrow>
            u \<noteq> target \<and> (queue \<noteq> [] \<longrightarrow> d u \<le> d (hd queue))
            \<and> (\<forall>v. R u v \<longrightarrow> bm_has parents v \<and> d v \<le> Suc (d u)))"

lemma discover_fold:
  "\<exists>new. snd (fold (discover_one dir allowed u) es (ps, q)) = q @ new
     \<and> (\<forall>n. bm_get (fst (fold (discover_one dir allowed u) es (ps, q))) n
            = (if n \<in> set new then Some (Some u) else bm_get ps n))
     \<and> set new = {n. bm_get ps n = None \<and> n \<in> allowed \<and> (\<exists>r. (n, r) \<in> set es \<and> u \<in> set (predecessors dir r))}"
proof (induction es arbitrary: ps q)
  case (Cons e es)
  obtain n r where e: "e = (n, r)"
    by (cases e)
  let ?hit = "n \<in> allowed \<and> bm_get ps n = None \<and> u \<in> set (predecessors dir r)"
  have step: "discover_one dir allowed u e (ps, q) =
      (if ?hit then (bm_insert n (Some u) ps, q @ [n]) else (ps, q))"
    by (auto simp: e discover_one_def bm_has_def)
  show ?case
  proof (cases ?hit)
    case True
    obtain new where new: "snd (fold (discover_one dir allowed u) es (bm_insert n (Some u) ps, q @ [n])) = (q @ [n]) @ new"
      "\<And>k. bm_get (fst (fold (discover_one dir allowed u) es (bm_insert n (Some u) ps, q @ [n]))) k
            = (if k \<in> set new then Some (Some u) else bm_get (bm_insert n (Some u) ps) k)"
      "set new = {k. bm_get (bm_insert n (Some u) ps) k = None \<and> k \<in> allowed
                     \<and> (\<exists>r. (k, r) \<in> set es \<and> u \<in> set (predecessors dir r))}"
      using Cons.IH [of "bm_insert n (Some u) ps" "q @ [n]"] by blast
    have eq: "fold (discover_one dir allowed u) (e # es) (ps, q) =
        fold (discover_one dir allowed u) es (bm_insert n (Some u) ps, q @ [n])"
      using True by (simp add: step)
    have "set (n # new) = {k. bm_get ps k = None \<and> k \<in> allowed
        \<and> (\<exists>r. (k, r) \<in> set (e # es) \<and> u \<in> set (predecessors dir r))}"
      using True by (auto simp: new(3) e split: if_splits)
    moreover have "(if k \<in> set new then Some (Some u) else bm_get (bm_insert n (Some u) ps) k) =
        (if k \<in> set (n # new) then Some (Some u) else bm_get ps k)" for k
      by auto
    ultimately show ?thesis
      using new(1,2) unfolding eq by (intro exI [of _ "n # new"]) simp
  next
    case False
    obtain new where new: "snd (fold (discover_one dir allowed u) es (ps, q)) = q @ new"
      "\<And>k. bm_get (fst (fold (discover_one dir allowed u) es (ps, q))) k
            = (if k \<in> set new then Some (Some u) else bm_get ps k)"
      "set new = {k. bm_get ps k = None \<and> k \<in> allowed
                     \<and> (\<exists>r. (k, r) \<in> set es \<and> u \<in> set (predecessors dir r))}"
      using Cons.IH [of ps q] by blast
    have "fold (discover_one dir allowed u) (e # es) (ps, q) = fold (discover_one dir allowed u) es (ps, q)"
      using False by (auto simp: step)
    then show ?thesis
      using new(1,2) unfolding new(3) by (intro exI [of _ new]) (use False new(3) in \<open>auto simp: e\<close>)
  qed
qed simp

lemma discover_inv:
  assumes inv: "search_inv (hop g dir allowed) S d target parents (u # queue)" and "u \<noteq> target"
  shows "\<exists>d'. search_inv (hop g dir allowed) S d' target
           (fst (discover g dir allowed u (parents, queue))) (snd (discover g dir allowed u (parents, queue)))"
proof -
  let ?R = "hop g dir allowed"
  let ?ps = "fst (discover g dir allowed u (parents, queue))"
  obtain new where q: "snd (discover g dir allowed u (parents, queue)) = queue @ new"
    and ps: "\<And>n. bm_get ?ps n = (if n \<in> set new then Some (Some u) else bm_get parents n)"
    and new: "set new = {n. bm_get parents n = None \<and> ?R u n}"
    using discover_fold [of dir allowed u "releases g" parents queue] unfolding discover_def hop_def by blast
  define d' where "d' v = (if v \<in> set new then Suc (d u) else d v)" for v
  have old [simp]: "bm_has parents v \<Longrightarrow> v \<notin> set new" for v
    by (simp add: new bm_has_def)
  have has: "bm_has ?ps v \<longleftrightarrow> v \<in> set new \<or> bm_has parents v" for v
    by (simp add: bm_has_def ps)
  have I: "\<And>s. s \<in> S \<Longrightarrow> bm_get parents s = Some None"
    "\<And>v. bm_get parents v = Some None \<Longrightarrow> v \<in> S \<and> d v = 0"
    "\<And>v w. bm_get parents v = Some (Some w) \<Longrightarrow> bm_has parents w \<and> ?R w v \<and> d v = Suc (d w)"
    "\<And>v. v \<in> set (u # queue) \<Longrightarrow> bm_has parents v"
    "sorted (map d (u # queue))" "\<And>v. v \<in> set (u # queue) \<Longrightarrow> d v \<le> Suc (d u)"
    "\<And>w. bm_has parents w \<Longrightarrow> w \<notin> set (u # queue) \<Longrightarrow>
       w \<noteq> target \<and> d w \<le> d u \<and> (\<forall>v. ?R w v \<longrightarrow> bm_has parents v \<and> d v \<le> Suc (d w))"
    using inv unfolding search_inv_def by auto
  have du: "d' u = d u"
    using I(4) [of u] by (simp add: d'_def)
  have dq: "d' v = d v" if "bm_has parents v" for v
    using that by (simp add: d'_def)
  have mapd: "map d' queue = map d queue"
    using I(4) dq by auto
  have newd: "d' v = Suc (d u)" if "v \<in> set new" for v
    using that by (simp add: d'_def)
  have le: "d u \<le> d v" if "v \<in> set queue" for v
    using I(5) that by simp
  have "map d' new = replicate (length new) (Suc (d u))"
    using newd by (auto simp flip: map_replicate_const)
  then have sorted: "sorted (map d' (queue @ new))"
    using I(5,6) newd by (auto simp: mapd sorted_append)
  have hd: "queue @ new \<noteq> [] \<Longrightarrow> d u \<le> d' (hd (queue @ new)) \<and> d' (hd (queue @ new)) \<le> Suc (d u)"
    using le I(4,6) newd dq by (cases queue; cases new) auto
  have closed_u: "bm_has ?ps v \<and> d' v \<le> Suc (d u)" if "?R u v" for v
  proof (cases "v \<in> set new")
    case False
    then have "bm_has parents v"
      using that new by (auto simp: bm_has_def)
    moreover have "d v \<le> Suc (d u)"
      using I(6,7) calculation by (cases "v \<in> set (u # queue)") (auto simp: le_SucI)
    ultimately show ?thesis
      by (simp add: has dq)
  qed (simp add: has newd)
  have finished: "w \<noteq> target \<and> d' w \<le> d u \<and> (\<forall>v. ?R w v \<longrightarrow> bm_has ?ps v \<and> d' v \<le> Suc (d' w))"
    if "bm_has ?ps w" "w \<notin> set (queue @ new)" for w
  proof (cases "w = u")
    case True
    then show ?thesis
      using closed_u du \<open>u \<noteq> target\<close> by simp
  next
    case False
    then have "bm_has parents w" "w \<notin> set (u # queue)"
      using that by (auto simp: has)
    then show ?thesis
      using I(7) [of w] by (auto simp: has dq)
  qed
  have "search_inv ?R S d' target ?ps (queue @ new)"
    unfolding search_inv_def
  proof (intro conjI ballI allI impI)
    fix s assume "s \<in> S"
    then show "bm_get ?ps s = Some None"
      using I(1) by (simp add: ps new)
  next
    fix v assume "bm_get ?ps v = Some None"
    then show "v \<in> S" "d' v = 0"
      using I(2) [of v] by (auto simp: ps d'_def split: if_splits)
  next
    fix v w assume "bm_get ?ps v = Some (Some w)"
    then consider "v \<in> set new" "w = u" | "v \<notin> set new" "bm_get parents v = Some (Some w)"
      by (auto simp: ps split: if_splits)
    then have "bm_has ?ps w \<and> ?R w v \<and> d' v = Suc (d' w)"
    proof cases
      case 1
      then show ?thesis
        using I(4) [of u] new by (simp add: has du newd)
    next
      case 2
      then show ?thesis
        using I(3) [of v w] by (simp add: has dq d'_def [of v])
    qed
    then show "bm_has ?ps w" "?R w v" "d' v = Suc (d' w)"
      by blast+
  next
    fix v assume "v \<in> set (queue @ new)"
    then show "bm_has ?ps v"
      using I(4) by (auto simp: has)
    have "d' v \<le> Suc (d u)"
      using \<open>v \<in> set (queue @ new)\<close> newd I(4,6) dq by (cases "v \<in> set new") auto
    moreover have "d u \<le> d' (hd (queue @ new))"
      using \<open>v \<in> set (queue @ new)\<close> hd by force
    ultimately show "d' v \<le> Suc (d' (hd (queue @ new)))"
      by simp
  qed (use sorted finished hd order_trans in \<open>blast+\<close>)
  then show ?thesis
    unfolding q by blast
qed

text \<open>Following the parents from a discovered release gives a walk whose length is its depth.\<close>

lemma parents_path:
  assumes inv: "search_inv R S d target parents queue"
  shows "bm_has parents v \<Longrightarrow> \<exists>p. p \<noteq> [] \<and> chain R p \<and> hd p \<in> S \<and> last p = v \<and> map d p = [0..<Suc (d v)]
     \<and> (\<forall>acc. trace_back parents installed (Some v) acc = Some (filter (\<lambda>x. Some x \<noteq> installed) p @ rev acc))"
proof (induction "d v" arbitrary: v)
  case 0
  then have v: "bm_get parents v = Some None"
    using inv unfolding search_inv_def bm_has_def by (metis not_None_eq nat.distinct(1))
  moreover have "v \<in> S"
    using v inv unfolding search_inv_def by blast
  moreover have "trace_back parents installed None acc = Some (rev acc)" for acc
    by (simp add: trace_back.simps)
  ultimately show ?case
    using 0 by (intro exI [of _ "[v]"]) (auto simp: trace_back.simps [of parents installed "Some v"])
next
  case (Suc n)
  then obtain u where v: "bm_get parents v = Some (Some u)"
    using inv unfolding search_inv_def bm_has_def by (metis not_None_eq nat.distinct(1))
  then have u: "bm_has parents u" "R u v" "d v = Suc (d u)"
    using inv unfolding search_inv_def by blast+
  then obtain p where p: "p \<noteq> []" "chain R p" "hd p \<in> S" "last p = u" "map d p = [0..<Suc (d u)]"
    "\<And>acc. trace_back parents installed (Some u) acc = Some (filter (\<lambda>x. Some x \<noteq> installed) p @ rev acc)"
    using Suc.hyps(1) [of u] Suc.hyps(2) by auto
  have "trace_back parents installed (Some v) acc =
      Some (filter (\<lambda>x. Some x \<noteq> installed) (p @ [v]) @ rev acc)" for acc
    by (simp add: trace_back.simps [of parents installed "Some v"] v p(6))
  then show ?case
    using p(1-5) u by (intro exI [of _ "p @ [v]"]) (simp add: chain_snoc)
qed

lemma walk_discovered:
  assumes inv: "search_inv R S d target parents queue" and "walk R S n v"
    and "\<And>k. queue \<noteq> [] \<Longrightarrow> n \<le> d (hd queue)"
  shows "bm_has parents v \<and> d v \<le> n"
  using assms(2,3)
proof (induction rule: walk.induct)
  case (walk_start s)
  then show ?case
    using inv unfolding search_inv_def bm_has_def by force
next
  case (walk_hop n u v)
  have u: "bm_has parents u" "d u \<le> n"
    using walk_hop.IH walk_hop.prems by (auto simp: Suc_leD)
  have "u \<notin> set queue"
  proof
    assume "u \<in> set queue"
    then have "d (hd queue) \<le> d u"
      using inv unfolding search_inv_def by (cases queue) auto
    then show False
      using walk_hop.prems u(2) \<open>u \<in> set queue\<close> by (metis empty_iff list.set(1) not_less_eq_eq order_trans)
  qed
  then show ?case
    using inv u walk_hop.hyps(2) unfolding search_inv_def by (meson Suc_le_mono order_trans)
qed

lemma bfs_found:
  assumes "bfs g dir allowed parents queue = Some final"
    and "search_inv (hop g dir allowed) S d (graph_target g) parents queue"
  shows "\<exists>d' rest. search_inv (hop g dir allowed) S d' (graph_target g) final (graph_target g # rest)"
  using assms
proof (induction g dir allowed parents queue arbitrary: d rule: bfs.induct)
  case (2 g dir allowed parents version queue)
  show ?case
  proof (cases "version = graph_target g")
    case True
    then show ?thesis
      using "2.prems" by auto
  next
    case False
    then show ?thesis
      using "2.IH" "2.prems" discover_inv [OF "2.prems"(2)] by auto
  qed
qed simp

lemma bfs_none:
  assumes "bfs g dir allowed parents queue = None"
    and "search_inv (hop g dir allowed) S d (graph_target g) parents queue"
  shows "\<not> walk (hop g dir allowed) S n (graph_target g)"
  using assms
proof (induction g dir allowed parents queue arbitrary: d rule: bfs.induct)
  case (1 g dir allowed parents)
  then show ?case
    using walk_discovered [of "hop g dir allowed" S d "graph_target g" parents "[]" n "graph_target g"]
    by (auto simp: search_inv_def)
next
  case (2 g dir allowed parents version queue)
  show ?case
  proof (cases "version = graph_target g")
    case True
    then show ?thesis
      using "2.prems" by simp
  next
    case False
    then show ?thesis
      using "2.IH" "2.prems" discover_inv [OF "2.prems"(2)] by auto
  qed
qed

lemma map_of_constant: "map_of (map (\<lambda>s. (s, c)) xs) v = (if v \<in> set xs then Some c else None)"
  by (induction xs) auto

lemma search_init:
  "search_inv R (set starts) (\<lambda>_. 0) target (bm_collect (map (\<lambda>s. (s, None)) starts)) starts"
proof -
  have get: "bm_get (bm_collect (map (\<lambda>s. (s, None)) starts)) v = (if v \<in> set starts then Some None else None)" for v
    by (simp add: bm_get_collect rev_map map_of_constant)
  have "sorted (map (\<lambda>_. 0 :: nat) starts)"
    by (simp add: map_replicate_const)
  then show ?thesis
    unfolding search_inv_def bm_has_def by (simp add: get split: if_splits)
qed

subsection \<open>The route\<close>

lemma supported_route_starts:
  "supported_route V g allowed installed r \<longleftrightarrow>
     (\<exists>p. p \<noteq> [] \<and> chain (hop g (direction V g installed) allowed) p
          \<and> hd p \<in> set (route_starts g allowed installed) \<and> last p = graph_target g
          \<and> p = (case installed of None \<Rightarrow> r | Some v \<Rightarrow> v # r))"
  by (cases installed) (auto simp: supported_route_def route_starts_def)

lemma supported_route_walk:
  assumes "supported_route V g allowed installed r"
  shows "walk (hop g (direction V g installed) allowed) (set (route_starts g allowed installed))
     (length r - (if installed = None then 1 else 0)) (graph_target g)"
  using assms chain_walk [of _ "hop g (direction V g installed) allowed" "set (route_starts g allowed installed)"]
  unfolding supported_route_starts by (cases installed) fastforce+

lemma search_result:
  assumes inv: "search_inv (hop g dir allowed) (set starts) d (graph_target g) parents (graph_target g # rest)"
    and dir: "dir = direction V g installed" and starts: "starts = route_starts g allowed installed"
  shows "\<exists>r. trace_back parents installed (Some (graph_target g)) [] = Some r \<and> supported_route V g allowed installed r
     \<and> (\<forall>r'. supported_route V g allowed installed r' \<longrightarrow> length r \<le> length r')"
proof -
  let ?R = "hop g dir allowed" and ?t = "graph_target g"
  have has: "bm_has parents ?t"
    using inv by (simp add: search_inv_def)
  obtain p where p: "p \<noteq> []" "chain ?R p" "hd p \<in> set starts" "last p = ?t" "map d p = [0..<Suc (d ?t)]"
    and tb: "trace_back parents installed (Some ?t) [] = Some (filter (\<lambda>x. Some x \<noteq> installed) p)"
    using parents_path [OF inv has, of installed] by auto
  define r where "r = filter (\<lambda>x. Some x \<noteq> installed) p"
  have len: "length p = Suc (d ?t)"
    using arg_cong [OF p(5), of length] by simp
  have shape: "p = (case installed of None \<Rightarrow> r | Some v \<Rightarrow> v # r)"
  proof (cases installed)
    case (Some v)
    obtain q where q: "p = v # q"
      using p(1,3) Some starts by (cases p) (auto simp: route_starts_def)
    have "x \<noteq> v" if "x \<in> set q" for x
    proof
      assume "x = v"
      have "map d q = [1..<Suc (d ?t)]"
        using p(5) upt_conv_Cons [of 0 "Suc (d ?t)"] by (simp add: q del: upt_Suc)
      then have "d v \<in> set [1..<Suc (d ?t)]"
        using that \<open>x = v\<close> by (metis image_eqI list.set_map)
      moreover have "d v = 0"
        using p(5) upt_conv_Cons [of 0 "Suc (d ?t)"] by (simp add: q del: upt_Suc)
      ultimately show False
        by (metis atLeastLessThan_iff not_one_le_zero set_upt)
    qed
    then have "filter (\<lambda>x. x \<noteq> v) q = q"
      by (auto simp: filter_id_conv)
    then show ?thesis
      by (simp add: r_def Some q)
  qed (simp add: r_def)
  have sup: "supported_route V g allowed installed r"
    unfolding supported_route_starts using p(1-4) shape dir starts by blast
  moreover have "length r \<le> length r'" if r': "supported_route V g allowed installed r'" for r'
  proof -
    let ?n = "length r' - (if installed = None then 1 else 0)"
    have w: "walk ?R (set starts) ?n ?t"
      using supported_route_walk [OF r'] by (simp add: dir starts)
    have "d ?t \<le> ?n"
    proof (cases "?n \<le> d ?t")
      case True
      then show ?thesis
        using walk_discovered [OF inv w] by simp
    qed simp
    moreover have "r' \<noteq> []" if "installed = None"
      using r' that by (simp add: supported_route_def)
    ultimately show ?thesis
      using len shape by (cases installed; cases r') auto
  qed
  ultimately show ?thesis
    using tb by (simp add: r_def)
qed

lemma route_cases:
  assumes "graph_validate V g = Inr ()" and "\<And>v. installed = Some v \<Longrightarrow> bm_has (releases g) v"
  shows "(\<exists>r. route V g installed available = Some (Inr r)
            \<and> supported_route V g (available_set g available) installed r
            \<and> (\<forall>r'. supported_route V g (available_set g available) installed r' \<longrightarrow> length r \<le> length r'))
       \<or> (route V g installed available = Some (Inl NoSupportedRoute)
          \<and> (\<nexists>r. supported_route V g (available_set g available) installed r))"
proof (cases "installed = Some (graph_target g)")
  case True
  then have "route V g installed available = Some (Inr [])"
    using assms by (simp add: route_def)
  moreover have "supported_route V g (available_set g available) installed []"
    by (simp add: True supported_route_def)
  ultimately show ?thesis
    by auto
next
  case False
  let ?allowed = "available_set g available" and ?dir = "direction V g installed"
  let ?starts = "route_starts g ?allowed installed"
  let ?init = "bm_collect (map (\<lambda>s. (s, None)) ?starts)"
  note init = search_init [of "hop g ?dir ?allowed" ?starts "graph_target g"]
  have route: "route V g installed available =
      (case bfs g ?dir ?allowed ?init ?starts of
         None \<Rightarrow> Some (Inl NoSupportedRoute)
       | Some parents \<Rightarrow> map_option Inr (trace_back parents installed (Some (graph_target g)) []))"
    using assms False by (auto simp: route_def Let_def split: option.splits)
  show ?thesis
  proof (cases "bfs g ?dir ?allowed ?init ?starts")
    case None
    have "\<not> supported_route V g ?allowed installed r" for r
      using bfs_none [OF None init] supported_route_walk by blast
    then show ?thesis
      using None by (simp add: route)
  next
    case (Some parents)
    then obtain d rest where "search_inv (hop g ?dir ?allowed) (set ?starts) d (graph_target g) parents (graph_target g # rest)"
      using bfs_found [OF Some init] by blast
    then show ?thesis
      using search_result [OF _ refl refl] Some by (fastforce simp: route)
  qed
qed

text \<open>
  C31.  \<open>route\<close> is exact.  For a validated graph and a declared installed release the search always
  returns.  It returns a route when and only when a supported one exists, the route is supported,
  every hop along a permitted edge into an available release and ending at the target, and no
  supported route is shorter.
\<close>

theorem route_shortest:
  assumes "graph_validate V g = Inr ()" and "\<And>v. installed = Some v \<Longrightarrow> bm_has (releases g) v"
  shows "(\<exists>r. route V g installed available = Some (Inr r)
            \<and> supported_route V g (available_set g available) installed r
            \<and> (\<forall>r'. supported_route V g (available_set g available) installed r' \<longrightarrow> length r \<le> length r'))
       \<or> (route V g installed available = Some (Inl NoSupportedRoute)
          \<and> (\<nexists>r. supported_route V g (available_set g available) installed r))"
  using assms by (rule route_cases)

text \<open>Two releases, the newer upgrading from the older, with the versions ordered by their length.\<close>

definition route_versions_sample :: versions where
  "route_versions_sample = \<lparr>vs_parse = Some, vs_before = (\<lambda>a b. length a < length b)\<rparr>"

definition route_graph_sample :: ReleaseGraph where
  "route_graph_sample =
     \<lparr>graph_target = ''10.0.0'',
      releases =
        [(''1.0.0'', \<lparr>package = \<lparr>tr_path = ''app'', tr_sha256 = replicate 64 (CHR ''a'')\<rparr>,
           upgrade_from = [], rollback_from = [], installable = True\<rparr>),
         (''10.0.0'', \<lparr>package = \<lparr>tr_path = ''app'', tr_sha256 = replicate 64 (CHR ''b'')\<rparr>,
           upgrade_from = [''1.0.0''], rollback_from = [], installable = False\<rparr>)]\<rparr>"

lemma route_sample_valid: "graph_validate route_versions_sample route_graph_sample = Inr ()"
  by (simp add: graph_validate_def route_graph_sample_def MAX_RELEASES_def target_reference_def declared_edges_def
      parse_release_version_def route_versions_sample_def MAX_RELEASE_VERSION_BYTES_def target_is_valid_def
      MAX_PATH_BYTES_def is_confined_relative_iff is_safe_component_def is_canonical_sha256_def list_all_iff
      is_ascii_digit_def is_ascii_lowercase_def is_ascii_uppercase_def is_ascii_alphanumeric_def byte_in_def bm_has_def)

theorem route_shortest_witness:
  "\<exists>r. route route_versions_sample route_graph_sample (Some ''1.0.0'') (\<lambda>_ _. True) = Some (Inr r) \<and> length r \<le> 1"
proof -
  let ?sup = "supported_route route_versions_sample route_graph_sample
    (available_set route_graph_sample (\<lambda>_ _. True)) (Some ''1.0.0'')"
  have "?sup [''10.0.0'']"
    by (auto simp: supported_route_def hop_def route_graph_sample_def available_set_def direction_def
        route_versions_sample_def parse_release_version_def MAX_RELEASE_VERSION_BYTES_def is_ascii_digit_def
        is_ascii_lowercase_def is_ascii_uppercase_def is_ascii_alphanumeric_def byte_in_def)
  moreover have "bm_has (releases route_graph_sample) v" if "Some ''1.0.0'' = Some v" for v
    using that by (auto simp: route_graph_sample_def bm_has_def)
  ultimately show ?thesis
    using route_shortest [OF route_sample_valid, of "Some ''1.0.0''" "\<lambda>_ _. True"] by fastforce
qed

subsection \<open>The closure of all routes\<close>

lemma enqueue_fold:
  "\<exists>new. fold enqueue_new ns (seen, queue) = (seen \<union> set ns, queue @ new)
     \<and> set new = set ns - seen \<and> distinct new"
proof (induction ns arbitrary: seen queue)
  case (Cons n ns)
  show ?case
  proof (cases "n \<in> seen")
    case True
    then have "enqueue_new n (seen, queue) = (seen, queue)" "seen \<union> set (n # ns) = seen \<union> set ns"
      "set (n # ns) - seen = set ns - seen"
      by (auto simp: enqueue_new_def)
    then show ?thesis
      using Cons.IH [of seen queue] by simp
  next
    case False
    obtain new where new: "fold enqueue_new ns (insert n seen, queue @ [n]) = (insert n seen \<union> set ns, (queue @ [n]) @ new)"
      "set new = set ns - insert n seen" "distinct new"
      using Cons.IH [of "insert n seen" "queue @ [n]"] by blast
    have "enqueue_new n (seen, queue) = (insert n seen, queue @ [n])" "n \<notin> set new"
      "seen \<union> set (n # ns) = insert n seen \<union> set ns" "set (n # new) = set (n # ns) - seen"
      using False new(2) by (auto simp: enqueue_new_def)
    then show ?thesis
      using new(1,3) by (intro exI [of _ "n # new"]) simp
  qed
qed simp

text \<open>Over a finite universe the queue-driven loop ends, with everything reachable from what it started with.\<close>

lemma spread_closure:
  assumes fin: "finite U" and total: "\<And>v. v \<in> U \<Longrightarrow> \<exists>ns. nb v = Some ns \<and> set ns \<subseteq> U"
    and "seen \<subseteq> U" "set queue \<subseteq> seen"
    and "\<And>v. v \<in> seen - set queue \<Longrightarrow> set (the (nb v)) \<subseteq> seen"
  shows "spread nb seen queue = Some {v. \<exists>s \<in> seen. (\<lambda>a b. b \<in> set (the (nb a)))\<^sup>*\<^sup>* s v}"
  using assms(3-5)
proof (induction "card (U - seen) + length queue" arbitrary: seen queue rule: less_induct)
  case less
  let ?R = "\<lambda>a b. b \<in> set (the (nb a))"
  show ?case
  proof (cases queue)
    case Nil
    have "v \<in> seen" if "?R\<^sup>*\<^sup>* s v" "s \<in> seen" for s v
      using that less.prems(3) Nil by (induction rule: rtranclp_induct) auto
    then have "{v. \<exists>s \<in> seen. ?R\<^sup>*\<^sup>* s v} = seen"
      by blast
    then show ?thesis
      unfolding Nil by (subst spread.simps) simp
  next
    case (Cons u rest)
    have u: "u \<in> seen" "u \<in> U"
      using Cons less.prems(1,2) by auto
    obtain ns where ns: "nb u = Some ns" "set ns \<subseteq> U"
      using total [OF u(2)] by blast
    obtain new where new: "fold enqueue_new ns (seen, rest) = (seen \<union> set ns, rest @ new)"
      "set new = set ns - seen" "distinct new"
      using enqueue_fold [of ns seen rest] by blast
    have "U - seen = (U - (seen \<union> set ns)) \<union> set new"
      using ns(2) new(2) by blast
    moreover have "card ((U - (seen \<union> set ns)) \<union> set new) = card (U - (seen \<union> set ns)) + length new"
      using fin new(2) distinct_card [OF new(3)] by (subst card_Un_disjoint) auto
    ultimately have "card (U - (seen \<union> set ns)) + length (rest @ new) < card (U - seen) + length queue"
      by (simp add: Cons)
    moreover have "set (rest @ new) \<subseteq> seen \<union> set ns" "seen \<union> set ns \<subseteq> U"
      using less.prems(1,2) Cons new(2) ns(2) by auto
    moreover have "set (the (nb v)) \<subseteq> seen \<union> set ns" if "v \<in> seen \<union> set ns - set (rest @ new)" for v
    proof (cases "v = u")
      case False
      then have "v \<in> seen - set queue"
        using that new(2) Cons by auto
      then show ?thesis
        using less.prems(3) by blast
    qed (simp add: ns(1))
    ultimately have "spread nb (seen \<union> set ns) (rest @ new) = Some {v. \<exists>s \<in> seen \<union> set ns. ?R\<^sup>*\<^sup>* s v}"
      using less.hyps by blast
    moreover have "?R\<^sup>*\<^sup>* u v" if "?R\<^sup>*\<^sup>* s v" "s \<in> set ns" for s v
      using converse_rtranclp_into_rtranclp [of ?R u s v] that ns(1) by simp
    then have "{v. \<exists>s \<in> seen \<union> set ns. ?R\<^sup>*\<^sup>* s v} = {v. \<exists>s \<in> seen. ?R\<^sup>*\<^sup>* s v}"
      using u(1) by blast
    ultimately show ?thesis
      unfolding Cons by (subst spread.simps) (simp add: ns(1) new(1))
  qed
qed

lemma validated_edge: "validate_edges V g w parsed ds = Inr () \<Longrightarrow> (dir, u) \<in> set ds \<Longrightarrow> bm_has (releases g) u"
  by (induction V g w parsed ds rule: validate_edges.induct) (auto split: option.splits if_splits)

lemma validated_edges:
  assumes "validate_releases V g packages es = Inr ()" "(v, r) \<in> set es" "u \<in> set (predecessors dir r)"
  shows "bm_has (releases g) u"
proof -
  have "(dir, u) \<in> set (declared_edges r)"
    using assms(3) by (cases dir) (auto simp: declared_edges_def)
  then show ?thesis
    using assms(1,2)
  proof (induction V g packages es rule: validate_releases.induct)
    case (2 V g packages version release rest)
    obtain parsed where ok: "validate_edges V g version parsed (declared_edges release) = Inr ()"
      "validate_releases V g (insert (tr_sha256 (package release)) packages) rest = Inr ()"
      using "2.prems"(2) by (auto simp: bind_e_def split: option.splits if_splits sum.splits)
    show ?case
    proof (cases "(v, r) = (version, release)")
      case True
      then show ?thesis
        using validated_edge [OF ok(1)] "2.prems"(1) by simp
    next
      case False
      then show ?thesis
        using 2 ok by (auto split: option.splits if_splits)
    qed
  qed simp
qed

lemma on_route:
  "(\<exists>r. supported_route V g allowed installed r \<and> v \<in> set r \<and> Some v \<noteq> installed) \<longleftrightarrow>
     Some v \<noteq> installed
     \<and> (\<exists>s \<in> set (route_starts g allowed installed). (hop g (direction V g installed) allowed)\<^sup>*\<^sup>* s v)
     \<and> (hop g (direction V g installed) allowed)\<^sup>*\<^sup>* v (graph_target g)"
    (is "?L \<longleftrightarrow> ?N \<and> ?F \<and> ?B")
proof
  let ?R = "hop g (direction V g installed) allowed"
  assume ?L
  then obtain r where v: "v \<in> set r" ?N and "supported_route V g allowed installed r"
    by blast
  then obtain p where p: "p \<noteq> []" "chain ?R p" "hd p \<in> set (route_starts g allowed installed)"
    "last p = graph_target g" "p = (case installed of None \<Rightarrow> r | Some w \<Rightarrow> w # r)"
    unfolding supported_route_starts by blast
  then have "v \<in> set p"
    using v by (cases installed) auto
  then obtain a b where ab: "p = a @ v # b"
    by (auto simp: in_set_conv_decomp)
  have "?R\<^sup>*\<^sup>* (hd p) v"
  proof -
    have "chain ?R ((a @ [v]) @ b)"
      using p(2) by (simp add: ab)
    then have "chain ?R (a @ [v])"
      unfolding chain_append [of ?R "a @ [v]" b] by blast
    then show ?thesis
      using chain_rtranclp [of "a @ [v]" ?R] by (cases a) (auto simp: ab)
  qed
  moreover have "?R\<^sup>*\<^sup>* v (last p)"
    using chain_rtranclp [of "v # b" ?R] p(2) by (auto simp: ab chain_append)
  ultimately show "?N \<and> ?F \<and> ?B"
    using v(2) p(3,4) by auto
next
  let ?R = "hop g (direction V g installed) allowed"
  assume nfb: "?N \<and> ?F \<and> ?B"
  then obtain s p q where s: "s \<in> set (route_starts g allowed installed)"
    and p: "chain ?R (s # p)" "last (s # p) = v" and q: "chain ?R (v # q)" "last (v # q) = graph_target g"
    using rtranclp_chain by metis
  have c: "chain ?R (s # p @ q)"
    using p q by (cases q) (auto simp: chain_append simp flip: append_Cons)
  have l: "last (s # p @ q) = graph_target g"
    using p(2) q(2) by (auto split: if_splits)
  have "v \<in> set (s # p)"
    using p(2) by (metis last_in_set list.distinct(1))
  show ?L
  proof (cases installed)
    case None
    then show ?thesis
      using s c l \<open>v \<in> set (s # p)\<close> by (intro exI [of _ "s # p @ q"]) (auto simp: supported_route_def)
  next
    case (Some w)
    then have "w = s"
      using s by (simp add: route_starts_def)
    then show ?thesis
      using nfb c l Some \<open>v \<in> set (s # p)\<close> by (intro exI [of _ "p @ q"]) (auto simp: supported_route_def)
  qed
qed

lemma backward_reaches:
  assumes "t \<in> U" and "\<And>a b. a \<in> U \<Longrightarrow> B a b \<longleftrightarrow> R b a" and "\<And>a b. R a b \<Longrightarrow> a \<in> U \<and> b \<in> U"
  shows "B\<^sup>*\<^sup>* t v \<longleftrightarrow> R\<^sup>*\<^sup>* v t"
proof
  assume "B\<^sup>*\<^sup>* t v"
  then have "v \<in> U \<and> R\<^sup>*\<^sup>* v t"
    using assms by (induction rule: rtranclp_induct) (auto intro: converse_rtranclp_into_rtranclp)
  then show "R\<^sup>*\<^sup>* v t" ..
next
  assume "R\<^sup>*\<^sup>* v t"
  then show "B\<^sup>*\<^sup>* t v"
  proof (induction rule: converse_rtranclp_induct)
    case (step y z)
    then show ?case
      using assms(2,3) by (meson rtranclp.rtrancl_into_rtrancl)
  qed simp
qed

text \<open>
  C32.  \<open>route_versions\<close> is exactly the union of all routes.  For a validated graph and a declared
  installed release that is not already the target it always returns: the releases that lie on some
  supported route, or the search's own error when there is none.
\<close>

theorem route_versions_exact:
  fixes V :: "'z versions_scheme"
  assumes valid: "graph_validate V g = Inr ()" and wf: "bm_wf (releases g)"
    and inst: "\<And>v. installed = Some v \<Longrightarrow> bm_has (releases g) v" and "installed \<noteq> Some (graph_target g)"
  shows "route_versions V g installed =
     (if \<exists>r. supported_route V g (set (bm_keys (releases g))) installed r
      then Some (Inr {v. \<exists>r. supported_route V g (set (bm_keys (releases g))) installed r
                             \<and> v \<in> set r \<and> Some v \<noteq> installed})
      else Some (Inl NoSupportedRoute))"
proof -
  let ?U = "set (bm_keys (releases g))" and ?dir = "direction V g installed" and ?t = "graph_target g"
  let ?R = "hop g ?dir ?U" and ?starts = "route_starts g (set (bm_keys (releases g))) installed"
  have avail: "available_set g (\<lambda>_ _. True) = ?U"
    by (simp add: available_set_def case_prod_unfold)
  have "bm_get (releases g) ?t \<noteq> None"
    using valid by (auto simp: graph_validate_def target_reference_def split: if_splits option.splits)
  then have target: "?t \<in> ?U"
    by (simp add: map_of_eq_None_iff)
  have pred: "u \<in> ?U" if "(v, r) \<in> set (releases g)" "u \<in> set (predecessors ?dir r)" for u v r
    using validated_edges [of V g "{}" "releases g" v r u ?dir] valid that
    by (auto simp: graph_validate_def bind_e_def bm_has_iff split: if_splits sum.splits)
  have fwd: "v \<in> set (the (forward g ?dir u)) \<longleftrightarrow> ?R u v" for u v
    by (force simp: forward_def hop_def)
  have bwd: "u \<in> set (the (backward g ?dir v)) \<longleftrightarrow> ?R u v" if "v \<in> ?U" for u v
  proof -
    obtain r where r: "bm_get (releases g) v = Some r"
      using \<open>v \<in> ?U\<close> by (metis bm_has_def bm_has_iff not_None_eq)
    then have "(v, r') \<in> set (releases g) \<longleftrightarrow> r' = r" for r'
      using bm_get_iff [OF wf, of v r'] by auto
    then show ?thesis
      using \<open>v \<in> ?U\<close> by (simp add: backward_def hop_def r)
  qed
  have starts: "set ?starts \<subseteq> ?U"
    using inst by (auto simp: route_starts_def bm_has_iff split: option.splits)
  have forward: "spread (forward g ?dir) (set ?starts) ?starts = Some {v. \<exists>s \<in> set ?starts. ?R\<^sup>*\<^sup>* s v}"
    using spread_closure [of ?U "forward g ?dir" "set ?starts" ?starts] starts
    by (auto simp: fwd) (auto simp: forward_def)
  have "spread (backward g ?dir) {?t} [?t] = Some {v. (\<lambda>a b. b \<in> set (the (backward g ?dir a)))\<^sup>*\<^sup>* ?t v}"
  proof -
    have "\<exists>ns. backward g ?dir v = Some ns \<and> set ns \<subseteq> ?U" if v: "v \<in> ?U" for v
    proof -
      obtain r where "bm_get (releases g) v = Some r"
        using v by (metis bm_has_def bm_has_iff not_None_eq)
      then show ?thesis
        using pred bm_get_iff [OF wf] by (auto simp: backward_def)
    qed
    then show ?thesis
      using spread_closure [of ?U "backward g ?dir" "{?t}" "[?t]"] target by auto
  qed
  moreover have "(\<lambda>a b. b \<in> set (the (backward g ?dir a)))\<^sup>*\<^sup>* ?t v \<longleftrightarrow> ?R\<^sup>*\<^sup>* v ?t" for v
  proof (rule backward_reaches [of ?t ?U])
    show "a \<in> ?U \<and> b \<in> ?U" if "?R a b" for a b
      using that pred unfolding hop_def by blast
  qed (use target bwd in simp_all)
  ultimately have backward: "spread (backward g ?dir) {?t} [?t] = Some {v. ?R\<^sup>*\<^sup>* v ?t}"
    by simp
  have result: "{v \<in> {v. \<exists>s \<in> set ?starts. ?R\<^sup>*\<^sup>* s v} \<inter> {v. ?R\<^sup>*\<^sup>* v ?t}. Some v \<noteq> installed}
      = {v. \<exists>r. supported_route V g ?U installed r \<and> v \<in> set r \<and> Some v \<noteq> installed}"
    using on_route [of V g ?U installed] by blast
  from valid inst have "(\<exists>r. route V g installed (\<lambda>_ _. True) = Some (Inr r)
        \<and> supported_route V g (available_set g (\<lambda>_ _. True)) installed r)
      \<or> route V g installed (\<lambda>_ _. True) = Some (Inl NoSupportedRoute)
        \<and> (\<nexists>r. supported_route V g (available_set g (\<lambda>_ _. True)) installed r)"
    using route_cases [of V g installed "\<lambda>_ _. True"] by blast
  then show ?thesis
  proof (elim disjE exE conjE)
    fix r assume "route V g installed (\<lambda>_ _. True) = Some (Inr r)"
      and "supported_route V g (available_set g (\<lambda>_ _. True)) installed r"
    then show ?thesis
      using forward backward result assms(4) by (auto simp: route_versions_def avail Let_def)
  next
    assume "route V g installed (\<lambda>_ _. True) = Some (Inl NoSupportedRoute)"
      and "\<nexists>r. supported_route V g (available_set g (\<lambda>_ _. True)) installed r"
    then show ?thesis
      by (simp add: route_versions_def avail)
  qed
qed

theorem route_versions_exact_witness:
  "route_versions route_versions_sample route_graph_sample (Some ''1.0.0'') \<noteq> None"
proof -
  have "bm_wf (releases route_graph_sample)"
    by (simp add: route_graph_sample_def bm_wf_def)
  moreover have "bm_has (releases route_graph_sample) v" if "Some ''1.0.0'' = Some v" for v
    using that by (auto simp: route_graph_sample_def bm_has_def)
  moreover have "Some ''1.0.0'' \<noteq> Some (graph_target route_graph_sample)"
    by (simp add: route_graph_sample_def)
  ultimately show ?thesis
    using route_versions_exact [OF route_sample_valid, of "Some ''1.0.0''"] by simp
qed

end
