(* ===== verification/Dependencies.thy ===== *)
theory Dependencies
  imports Fleet_Sample
begin

text \<open>
  The group dependency graph of \<^verbatim>\<open>crates/updatec/src/lib.rs\<close>: the depth-first validation that backs
  every planning pass, the per-group reading of it that decides which groups are quarantined, the
  order in which \<^verbatim>\<open>crates/updatec/src/domain.rs\<close> resolves inputs, and the selection of a group by
  every node.

  \<open>visit\<close> recurses on groups it has not marked yet.  Its depth is bounded by a fuel argument whose
  exhaustion is \<^const>\<open>None\<close>; \<open>validate_dependency_graph\<close> gives it one more than there are groups and
  never exhausts it.  The operator-facing texts of \<open>dependency_violations\<close> are values of a datatype.
\<close>

subsection \<open>Errors\<close>

datatype PlanError =
    EmptySelector string
  | DuplicateGroup string
  | ReservedGroupName
  | RoutingLoss "string list"
  | UnknownPlacement string string
  | DuplicateNode string
  | MissingDependency string string
  | DependencyCycle "string list"
  | InvalidDependencyInput string string
  | TooManyDependencyInputs string nat
  | AmbiguousNode string "string list"
  | InvalidNodeName
  | InvalidPrefix
  | InvalidDeployment assignment_error
  | RootJsonInvalid
  | ReleasePreflight string string
  | NodeDeploymentMismatch
  | Serialize

subsection \<open>Validation\<close>

datatype mark = Visiting | Visited

type_synonym visit_state = "mark bmap \<times> string list"

definition bad_input :: "dataflow_lib \<Rightarrow> ResolvedGroup \<Rightarrow> string \<times> GroupOutputReference \<Rightarrow> bool" where
  "bad_input D grp = (\<lambda>(input, reference).
     \<not> is_output_name D input \<or> \<not> is_output_name D (gr_output reference)
     \<or> gr_group reference \<notin> set (rg_depends_on grp))"

definition check_inputs :: "dataflow_lib \<Rightarrow> string \<Rightarrow> ResolvedGroup \<Rightarrow> PlanError + unit" where
  "check_inputs D name grp =
     (if length (rg_inputs grp) > MAX_FILES then Inl (TooManyDependencyInputs name (length (rg_inputs grp)))
      else case find (bad_input D grp) (rg_inputs grp) of
             None \<Rightarrow> Inr ()
           | Some (input, _) \<Rightarrow> Inl (InvalidDependencyInput name input))"

text \<open>\<^verbatim>\<open>stack.iter().position(..).unwrap_or(0)\<close>, then the slice from there on.\<close>

definition cycle_from :: "string \<Rightarrow> string list \<Rightarrow> string list" where
  "cycle_from name stack =
     (if name \<in> set stack then dropWhile (\<lambda>entry. entry \<noteq> name) stack else stack) @ [name]"

fun visit ::
  "nat \<Rightarrow> dataflow_lib \<Rightarrow> ResolvedGroup bmap \<Rightarrow> string set \<Rightarrow> string \<Rightarrow> visit_state
     \<Rightarrow> (PlanError + visit_state) option"
and visit_deps ::
  "nat \<Rightarrow> dataflow_lib \<Rightarrow> ResolvedGroup bmap \<Rightarrow> string set \<Rightarrow> string \<Rightarrow> string list \<Rightarrow> visit_state
     \<Rightarrow> (PlanError + visit_state) option"
where
  "visit 0 D groups quarantined name st = None"
| "visit (Suc fuel) D groups quarantined name (state, stack) =
     (case bm_get state name of
        Some Visited \<Rightarrow> Some (Inr (state, stack))
      | Some Visiting \<Rightarrow> Some (Inl (DependencyCycle (cycle_from name stack)))
      | None \<Rightarrow>
          (let grp = the (bm_get groups name) in
           case visit_deps fuel D groups quarantined name (rg_depends_on grp)
                  (bm_insert name Visiting state, stack @ [name]) of
             None \<Rightarrow> None
           | Some (Inl e) \<Rightarrow> Some (Inl e)
           | Some (Inr (state, stack)) \<Rightarrow>
               Some (bind_e (check_inputs D name grp) (\<lambda>_. Inr (bm_insert name Visited state, butlast stack)))))"
| "visit_deps fuel D groups quarantined name [] st = Some (Inr st)"
| "visit_deps fuel D groups quarantined name (dependency # rest) st =
     (if dependency \<in> quarantined then visit_deps fuel D groups quarantined name rest st
      else if \<not> bm_has groups dependency then Some (Inl (MissingDependency name dependency))
      else case visit fuel D groups quarantined dependency st of
             None \<Rightarrow> None
           | Some (Inl e) \<Rightarrow> Some (Inl e)
           | Some (Inr st) \<Rightarrow> visit_deps fuel D groups quarantined name rest st)"

fun visit_all ::
  "nat \<Rightarrow> dataflow_lib \<Rightarrow> ResolvedGroup bmap \<Rightarrow> string set \<Rightarrow> string list \<Rightarrow> visit_state
     \<Rightarrow> (PlanError + visit_state) option"
where
  "visit_all fuel D groups quarantined [] st = Some (Inr st)"
| "visit_all fuel D groups quarantined (name # names) st =
     (case visit fuel D groups quarantined name st of
        None \<Rightarrow> None
      | Some (Inl e) \<Rightarrow> Some (Inl e)
      | Some (Inr st) \<Rightarrow> visit_all fuel D groups quarantined names st)"

definition validate_dependency_graph ::
  "dataflow_lib \<Rightarrow> ResolvedGroup bmap \<Rightarrow> string set \<Rightarrow> (PlanError + unit) option" where
  "validate_dependency_graph D groups quarantined =
     map_option (\<lambda>r. bind_e r (\<lambda>_. Inr ()))
       (visit_all (Suc (length groups)) D groups quarantined (bm_keys groups) ([], []))"

subsection \<open>The violations of each group\<close>

datatype violation =
    TooManyInputs nat
  | MalformedInput string string
  | DanglingDependency string
  | InCycle "string list"

definition local_violation ::
  "dataflow_lib \<Rightarrow> ResolvedGroup bmap \<Rightarrow> string set \<Rightarrow> ResolvedGroup \<Rightarrow> violation option" where
  "local_violation D groups quarantined grp =
     (if length (rg_inputs grp) > MAX_FILES then Some (TooManyInputs (length (rg_inputs grp)))
      else case find (bad_input D grp) (rg_inputs grp) of
             Some (input, reference) \<Rightarrow> Some (MalformedInput input (gr_group reference))
           | None \<Rightarrow>
               map_option DanglingDependency
                 (find (\<lambda>dependency. dependency \<notin> quarantined \<and> \<not> bm_has groups dependency)
                    (rg_depends_on grp)))"

definition local_violations :: "dataflow_lib \<Rightarrow> ResolvedGroup bmap \<Rightarrow> string set \<Rightarrow> violation bmap" where
  "local_violations D groups quarantined =
     fold (\<lambda>(name, grp) violations.
             case local_violation D groups quarantined grp of
               None \<Rightarrow> violations
             | Some v \<Rightarrow> bm_insert name v violations) groups []"

text \<open>The loop over cycles.  An error that is no cycle is the panic of \<^verbatim>\<open>unreachable!\<close>, a left value.\<close>

partial_function (option) cycle_violations ::
  "dataflow_lib \<Rightarrow> ResolvedGroup bmap \<Rightarrow> string set \<Rightarrow> violation bmap \<Rightarrow> (PlanError + violation bmap) option"
where
  "cycle_violations D groups quarantined violations =
     (case validate_dependency_graph D (bm_retain (\<lambda>name _. \<not> bm_has violations name) groups)
             (quarantined \<union> set (bm_keys violations)) of
        None \<Rightarrow> None
      | Some (Inr _) \<Rightarrow> Some (Inr violations)
      | Some (Inl e) \<Rightarrow>
          (case e of
             DependencyCycle c \<Rightarrow>
               cycle_violations D groups quarantined
                 (fold (\<lambda>member. bm_or_insert member (InCycle c)) c violations)
           | _ \<Rightarrow> Some (Inl e)))"

definition dependency_violations ::
  "dataflow_lib \<Rightarrow> ResolvedGroup bmap \<Rightarrow> string set \<Rightarrow> (PlanError + violation bmap) option" where
  "dependency_violations D groups quarantined =
     cycle_violations D groups quarantined (local_violations D groups quarantined)"

subsection \<open>The order inputs are resolved in\<close>

definition place_ready :: "ResolvedGroup bmap \<Rightarrow> string \<times> ResolvedGroup \<Rightarrow> string list \<Rightarrow> string list" where
  "place_ready groups = (\<lambda>(name, grp) ordered.
     if name \<in> set ordered then ordered
     else if list_all (\<lambda>dependency. dependency \<in> set ordered \<or> \<not> bm_has groups dependency) (rg_depends_on grp)
     then ordered @ [name] else ordered)"

definition place_round :: "ResolvedGroup bmap \<Rightarrow> string list \<Rightarrow> string list" where
  "place_round groups = fold (place_ready groups) groups"

definition dependency_order :: "ResolvedGroup bmap \<Rightarrow> string list" where
  "dependency_order groups =
     (let ordered = (place_round groups ^^ length groups) []
      in ordered @ filter (\<lambda>name. name \<notin> set ordered) (bm_keys groups))"

subsection \<open>What validation accepts\<close>

definition dep_edge :: "ResolvedGroup bmap \<Rightarrow> string set \<Rightarrow> string \<Rightarrow> string \<Rightarrow> bool" where
  "dep_edge groups quarantined n d \<longleftrightarrow>
     (\<exists>grp. bm_get groups n = Some grp \<and> d \<in> set (rg_depends_on grp) \<and> d \<notin> quarantined)"

text \<open>A group is well wired when its inputs are well formed and every dependency exists.\<close>

definition well_wired :: "dataflow_lib \<Rightarrow> ResolvedGroup bmap \<Rightarrow> string set \<Rightarrow> string \<Rightarrow> bool" where
  "well_wired D groups quarantined n \<longleftrightarrow>
     (\<forall>grp. bm_get groups n = Some grp \<longrightarrow> check_inputs D n grp = Inr ())
     \<and> (\<forall>d. dep_edge groups quarantined n d \<longrightarrow> bm_has groups d)"

definition well_formed :: "dataflow_lib \<Rightarrow> ResolvedGroup bmap \<Rightarrow> string set \<Rightarrow> bool" where
  "well_formed D groups quarantined \<longleftrightarrow>
     (\<forall>n \<in> set (bm_keys groups). well_wired D groups quarantined n)
     \<and> (\<nexists>n. (dep_edge groups quarantined)\<^sup>+\<^sup>+ n n)"

definition visit_inv :: "dataflow_lib \<Rightarrow> ResolvedGroup bmap \<Rightarrow> string set \<Rightarrow> visit_state \<Rightarrow> bool" where
  "visit_inv D groups quarantined = (\<lambda>(state, stack).
     (\<forall>n. bm_get state n = Some Visiting \<longleftrightarrow> n \<in> set stack)
     \<and> chain (dep_edge groups quarantined) stack
     \<and> set (bm_keys state) \<subseteq> set (bm_keys groups)
     \<and> (\<forall>n. bm_get state n = Some Visited \<longrightarrow>
            well_wired D groups quarantined n
            \<and> (\<forall>d. dep_edge groups quarantined n d \<longrightarrow> bm_get state d = Some Visited)
            \<and> Wellfounded.accp (\<lambda>d n. dep_edge groups quarantined n d) n))"

text \<open>What an error says of the graph.\<close>

definition error_meaning :: "dataflow_lib \<Rightarrow> ResolvedGroup bmap \<Rightarrow> string set \<Rightarrow> PlanError \<Rightarrow> bool" where
  "error_meaning D groups quarantined e \<longleftrightarrow>
     (case e of
        DependencyCycle c \<Rightarrow>
          c \<noteq> [] \<and> set c \<subseteq> set (bm_keys groups) \<and> (\<forall>m \<in> set c. (dep_edge groups quarantined)\<^sup>+\<^sup>+ m m)
      | _ \<Rightarrow> \<exists>n \<in> set (bm_keys groups). \<not> well_wired D groups quarantined n)"

lemma error_meaning_local:
  "n \<in> set (bm_keys groups) \<Longrightarrow> \<not> well_wired D groups q n \<Longrightarrow> (\<And>c. e \<noteq> DependencyCycle c)
     \<Longrightarrow> error_meaning D groups q e"
  by (cases e) (auto simp: error_meaning_def simp del: set_map)

definition visit_post ::
  "dataflow_lib \<Rightarrow> ResolvedGroup bmap \<Rightarrow> string set \<Rightarrow> string set \<Rightarrow> visit_state \<Rightarrow> (PlanError + visit_state) option \<Rightarrow> bool"
  where
  "visit_post D groups quarantined targets st r \<longleftrightarrow>
     (case r of
        None \<Rightarrow> False
      | Some (Inl e) \<Rightarrow> error_meaning D groups quarantined e
      | Some (Inr st') \<Rightarrow>
          visit_inv D groups quarantined st' \<and> snd st' = snd st
          \<and> set (bm_keys (fst st)) \<subseteq> set (bm_keys (fst st'))
          \<and> (\<forall>t \<in> targets. bm_get (fst st') t = Some Visited))"

definition unmarked :: "ResolvedGroup bmap \<Rightarrow> visit_state \<Rightarrow> nat" where
  "unmarked groups st = card (set (bm_keys groups) - set (bm_keys (fst st)))"

lemma unmarked_mono:
  "set (bm_keys (fst st)) \<subseteq> set (bm_keys (fst st')) \<Longrightarrow> unmarked groups st' \<le> unmarked groups st"
  unfolding unmarked_def by (rule card_mono) auto

lemma visited_mono:
  assumes "visit_inv D groups q st" "visit_inv D groups q st'" "snd st' = snd st"
    "set (bm_keys (fst st)) \<subseteq> set (bm_keys (fst st'))" "bm_get (fst st) t = Some Visited"
  shows "bm_get (fst st') t = Some Visited"
proof -
  have "t \<in> set (bm_keys (fst st'))"
    using assms(4,5) map_of_SomeD [OF assms(5)] by force
  then obtain m where m: "bm_get (fst st') t = Some m"
    by (metis map_of_eq_None_iff not_None_eq set_map)
  have "bm_get (fst st') t = Some Visiting \<longleftrightarrow> bm_get (fst st) t = Some Visiting"
    using assms(1-3) by (simp add: visit_inv_def case_prod_unfold)
  then show ?thesis
    using m assms(5) by (cases m) auto
qed

lemma cycle_from_chain:
  assumes "chain R stack" "name \<in> set stack" "R (last stack) name"
  shows "\<forall>m \<in> set (cycle_from name stack). R\<^sup>+\<^sup>+ m m" and "set (cycle_from name stack) \<subseteq> insert name (set stack)"
proof -
  obtain a b where ab: "stack = a @ name # b" "name \<notin> set a"
    using split_list_first [OF assms(2)] by blast
  have cyc: "cycle_from name stack = name # b @ [name]"
    by (simp add: cycle_from_def ab dropWhile_append)
  have "chain R (name # b @ [name])"
    using assms(1,3) chain_append [of R a "name # b"] chain_snoc [of "name # b" R name] by (simp add: ab)
  then have "R\<^sup>+\<^sup>+ m m" if "m \<in> set (name # b @ [name])" for m
    using chain_cycle [of R name b m] that by blast
  then show "\<forall>m \<in> set (cycle_from name stack). R\<^sup>+\<^sup>+ m m"
    by (simp add: cyc)
  show "set (cycle_from name stack) \<subseteq> insert name (set stack)"
    unfolding cyc by (auto simp: ab)
qed

lemma visit_done:
  assumes inv: "visit_inv D groups q (state, stack @ [name])"
    and grp: "bm_get groups name = Some grp" and ok: "check_inputs D name grp = Inr ()"
    and fresh: "name \<notin> set stack"
    and deps: "\<And>d. d \<in> set (rg_depends_on grp) \<Longrightarrow> d \<notin> q \<Longrightarrow> bm_get state d = Some Visited"
  shows "visit_inv D groups q (bm_insert name Visited state, stack)"
proof -
  let ?E = "dep_edge groups q"
  have I: "\<And>n. bm_get state n = Some Visiting \<longleftrightarrow> n \<in> set (stack @ [name])" "chain ?E (stack @ [name])"
    "set (bm_keys state) \<subseteq> set (bm_keys groups)"
    "\<And>n. bm_get state n = Some Visited \<Longrightarrow>
       well_wired D groups q n \<and> (\<forall>d. ?E n d \<longrightarrow> bm_get state d = Some Visited) \<and> Wellfounded.accp (\<lambda>d n. ?E n d) n"
    using inv by (simp_all add: visit_inv_def)
  have edge: "bm_get state d = Some Visited" if "?E name d" for d
    using that deps grp by (auto simp: dep_edge_def)
  have "well_wired D groups q name"
    unfolding well_wired_def
  proof (intro conjI allI impI)
    fix d assume "?E name d"
    then have "d \<in> set (bm_keys state)"
      using edge [THEN map_of_SomeD] by force
    then show "bm_has groups d"
      using I(3) by (auto simp: bm_has_iff)
  qed (use ok grp in simp)
  moreover have "Wellfounded.accp (\<lambda>d n. ?E n d) name"
    using edge I(4) by (blast intro: accp.intros)
  moreover have "chain ?E stack"
    using I(2) chain_append [of ?E stack "[name]"] by simp
  moreover have "name \<in> set (bm_keys groups)"
    using map_of_SomeD [OF grp] by force
  then have "set (bm_keys (bm_insert name Visited state)) \<subseteq> set (bm_keys groups)"
    using I(3) unfolding bm_keys_insert by simp
  moreover have "bm_get (bm_insert name Visited state) n = Some Visiting \<longleftrightarrow> n \<in> set stack" for n
    using I(1) [of n] fresh by auto
  ultimately show ?thesis
    using I(4) edge unfolding visit_inv_def prod.case by (intro conjI allI impI) (auto split: if_splits)
qed

lemma visit_deps_post:
  assumes "visit_post D groups q {d} st r" "r = Some (Inr st')" "visit_post D groups q T st' r'"
    "visit_inv D groups q st" "T' \<subseteq> insert d T"
  shows "visit_post D groups q T' st r'"
proof -
  have A: "visit_inv D groups q st'" "snd st' = snd st" "set (bm_keys (fst st)) \<subseteq> set (bm_keys (fst st'))"
    "bm_get (fst st') d = Some Visited"
    using assms(1,2) by (simp_all add: visit_post_def)
  show ?thesis
  proof (cases r')
    case (Some e)
    show ?thesis
    proof (cases e)
      case (Inr st'')
      have "bm_get (fst st'') d = Some Visited"
        using assms(3) A visited_mono [of D groups q st' st'' d] by (simp add: visit_post_def Some Inr)
      then show ?thesis
        using assms(3,5) A by (auto simp: visit_post_def Some Inr simp del: set_map)
    qed (use assms(3) Some in \<open>simp add: visit_post_def\<close>)
  qed (use assms(3) in \<open>simp add: visit_post_def\<close>)
qed

lemma visit_sound:
  "\<lbrakk>visit_inv D groups q st; name \<in> set (bm_keys groups); unmarked groups st < fuel;
    snd st \<noteq> [] \<Longrightarrow> dep_edge groups q (last (snd st)) name\<rbrakk>
   \<Longrightarrow> visit_post D groups q {name} st (visit fuel D groups q name st)"
  and visit_deps_sound:
  "\<lbrakk>visit_inv D groups q st; snd st \<noteq> []; last (snd st) = name; unmarked groups st < fuel;
    \<And>d. d \<in> set ds \<Longrightarrow> d \<notin> q \<Longrightarrow> dep_edge groups q name d\<rbrakk>
   \<Longrightarrow> visit_post D groups q (set ds - q) st (visit_deps fuel D groups q name ds st)"
proof (induction fuel D groups q name st and fuel D groups q name ds st rule: visit_visit_deps.induct)
  case (2 fuel D groups q name state stack)
  let ?E = "dep_edge groups q"
  have I: "\<And>n. bm_get state n = Some Visiting \<longleftrightarrow> n \<in> set stack" "chain ?E stack"
    "set (bm_keys state) \<subseteq> set (bm_keys groups)"
    using "2.prems"(1) by (simp_all add: visit_inv_def)
  show ?case
  proof (cases "bm_get state name")
    case (Some m)
    show ?thesis
    proof (cases m)
      case Visiting
      have name: "name \<in> set stack"
        using Some Visiting I(1) by simp
      then have e: "?E (last stack) name"
        using "2.prems"(4) by (cases stack) auto
      have "n \<in> set (bm_keys groups)" if "n \<in> set stack" for n
      proof -
        have "n \<in> set (bm_keys state)"
          using that I(1) [of n] map_of_SomeD [of state n Visiting] by force
        then show ?thesis
          using I(3) by blast
      qed
      then show ?thesis
        using cycle_from_chain [OF I(2) name e] "2.prems"(2) Some Visiting
        by (auto simp: visit_post_def error_meaning_def cycle_from_def)
    next
      case Visited
      then show ?thesis
        using Some "2.prems"(1) by (simp add: visit_post_def)
    qed
  next
    case None
    obtain grp where grp: "bm_get groups name = Some grp"
      using "2.prems"(2) by (metis map_of_eq_None_iff not_None_eq set_map)
    have fresh: "name \<notin> set stack"
      using I(1) [of name] None by simp
    let ?st = "(bm_insert name Visiting state, stack @ [name])"
    let ?r = "visit_deps fuel D groups q name (rg_depends_on grp) ?st"
    have inv: "visit_inv D groups q ?st"
      using "2.prems"(1,2,4) None fresh chain_snoc [of stack ?E name]
      by (cases "stack = []") (auto simp: visit_inv_def simp del: set_map)
    have "name \<in> set (bm_keys groups) - set (bm_keys state)"
      using "2.prems"(2) None by (simp add: map_of_eq_None_iff)
    then have "unmarked groups ?st < unmarked groups (state, stack)"
      unfolding unmarked_def fst_conv bm_keys_insert by (intro psubset_card_mono) auto
    then have post: "visit_post D groups q (set (rg_depends_on grp) - q) ?st ?r"
      using "2.IH" [OF None refl] inv "2.prems"(3) grp by (auto simp: dep_edge_def)
    have bad: "error_meaning D groups q e" if "check_inputs D name grp = Inl e" for e
    proof -
      have "\<not> well_wired D groups q name"
        using that grp by (auto simp: well_wired_def)
      moreover have "e \<noteq> DependencyCycle c" for c
        using that by (auto simp: check_inputs_def split: if_splits option.splits)
      ultimately show ?thesis
        using "2.prems"(2) by (blast intro: error_meaning_local)
    qed
    show ?thesis
    proof (cases ?r)
      case None
      then show ?thesis
        using post by (simp add: visit_post_def)
    next
      case (Some r)
      show ?thesis
      proof (cases r)
        case (Inl e)
        then show ?thesis
          using post Some grp \<open>bm_get state name = None\<close> by (simp add: visit_post_def)
      next
        case (Inr st')
        obtain state' where st': "st' = (state', stack @ [name])"
          using post Some Inr by (cases st') (simp add: visit_post_def)
        have P: "visit_inv D groups q (state', stack @ [name])"
          "set (bm_keys state) \<subseteq> set (bm_keys state')"
          "\<And>d. d \<in> set (rg_depends_on grp) \<Longrightarrow> d \<notin> q \<Longrightarrow> bm_get state' d = Some Visited"
          using post Some Inr by (auto simp: visit_post_def st' simp del: set_map)
        have v: "visit (Suc fuel) D groups q name (state, stack) =
            Some (bind_e (check_inputs D name grp) (\<lambda>_. Inr (bm_insert name Visited state', stack)))"
          using Some Inr grp \<open>bm_get state name = None\<close> by (simp add: st')
        show ?thesis
        proof (cases "check_inputs D name grp")
          case (Inl e)
          then show ?thesis
            unfolding v using bad by (simp add: visit_post_def)
        next
          case (Inr u)
          then show ?thesis
            unfolding v using visit_done [OF P(1) grp _ fresh P(3)] P(2) by (auto simp: visit_post_def simp del: set_map)
        qed
      qed
    qed
  qed
next
  case (4 fuel D groups q name d rest st)
  show ?case
  proof (cases "d \<in> q")
    case True
    then show ?thesis
      using "4.IH"(1) "4.prems" by (simp add: insert_Diff_if)
  next
    case False
    then have e: "dep_edge groups q name d"
      using "4.prems"(5) by simp
    show ?thesis
    proof (cases "bm_has groups d")
      case no: False
      have "name \<in> set (bm_keys groups)"
        using e map_of_SomeD by (force simp: dep_edge_def)
      then have "error_meaning D groups q (MissingDependency name d)"
        using e no unfolding well_wired_def by (intro error_meaning_local [of name]) (auto simp: well_wired_def)
      then show ?thesis
        using False no by (simp add: visit_post_def)
    next
      case yes: True
      have post: "visit_post D groups q {d} st (visit fuel D groups q d st)"
        using "4.IH"(2) [OF False] yes e "4.prems" by (simp add: bm_has_iff)
      show ?thesis
      proof (cases "\<exists>st'. visit fuel D groups q d st = Some (Inr st')")
        case True
        then obtain st' where st': "visit fuel D groups q d st = Some (Inr st')" ..
        then have "visit_inv D groups q st'" "snd st' = snd st" "unmarked groups st' \<le> unmarked groups st"
          using post unmarked_mono by (auto simp: visit_post_def)
        then have "visit_post D groups q (set rest - q) st' (visit_deps fuel D groups q name rest st')"
          using "4.IH"(3) [OF False _ st' refl] yes "4.prems" by auto
        then have "visit_post D groups q (set (d # rest) - q) st (visit_deps fuel D groups q name rest st')"
          by (rule visit_deps_post [OF post st' _ "4.prems"(1)]) auto
        then show ?thesis
          using False yes st' by simp
      next
        case False
        then show ?thesis
          using post yes \<open>d \<notin> q\<close> by (auto simp: visit_post_def split: option.splits sum.splits)
      qed
    qed
  qed
qed (simp_all add: visit_post_def)

lemma visit_all_sound:
  assumes "visit_inv D groups q st" "snd st = []" "unmarked groups st < fuel" "set names \<subseteq> set (bm_keys groups)"
  shows "visit_post D groups q (set names) st (visit_all fuel D groups q names st)"
  using assms
proof (induction names arbitrary: st)
  case (Cons name names)
  have post: "visit_post D groups q {name} st (visit fuel D groups q name st)"
    using visit_sound [of D groups q st name fuel] Cons.prems by auto
  show ?case
  proof (cases "\<exists>st'. visit fuel D groups q name st = Some (Inr st')")
    case True
    then obtain st' where st': "visit fuel D groups q name st = Some (Inr st')" ..
    then have "visit_inv D groups q st'" "snd st' = []" "unmarked groups st' < fuel"
      using post Cons.prems(2,3) unmarked_mono [of st st' groups] by (auto simp: visit_post_def simp del: set_map)
    then have "visit_post D groups q (set names) st' (visit_all fuel D groups q names st')"
      using Cons.IH Cons.prems(4) by simp
    then have "visit_post D groups q (set (name # names)) st (visit_all fuel D groups q names st')"
      by (rule visit_deps_post [OF post st' _ Cons.prems(1)]) auto
    then show ?thesis
      using st' by simp
  next
    case False
    then show ?thesis
      using post by (auto simp: visit_post_def split: option.splits sum.splits)
  qed
qed (simp add: visit_post_def)

lemma tranclp_subrel: "R\<^sup>+\<^sup>+ a b \<Longrightarrow> (\<And>x y. R x y \<Longrightarrow> S x y) \<Longrightarrow> S\<^sup>+\<^sup>+ a b"
  by (induction rule: tranclp_induct) (auto intro: tranclp.intros)

lemma accp_acyclic:
  assumes "\<And>n d. R n d \<Longrightarrow> Wellfounded.accp (\<lambda>d n. R n d) n"
  shows "\<not> R\<^sup>+\<^sup>+ n n"
proof -
  have "wfp (\<lambda>d n. R n d)"
    using assms by (intro accp_wfpI allI) (blast intro: accp.intros)
  then have "\<not> (\<lambda>d n. R n d)\<^sup>+\<^sup>+ n n"
    using wfp_tranclp [of "\<lambda>d n. R n d"] wfp_imp_irreflp irreflpD by metis
  moreover have "(\<lambda>d n. R n d)\<^sup>+\<^sup>+ n n \<longleftrightarrow> R\<^sup>+\<^sup>+ n n"
    using tranclp_converse [of R] by (simp add: conversep_iff [abs_def] fun_eq_iff)
  ultimately show ?thesis
    by blast
qed

lemma validate_cases:
  "validate_dependency_graph D groups q = Some (Inr ()) \<and> well_formed D groups q
   \<or> (\<exists>e. validate_dependency_graph D groups q = Some (Inl e) \<and> error_meaning D groups q e \<and> \<not> well_formed D groups q)"
proof -
  let ?r = "visit_all (Suc (length groups)) D groups q (bm_keys groups) ([], [])"
  have "card (set (bm_keys groups)) \<le> length groups"
    by (metis card_length length_map)
  then have post: "visit_post D groups q (set (bm_keys groups)) ([], []) ?r"
    by (intro visit_all_sound) (auto simp: visit_inv_def unmarked_def simp del: set_map)
  consider (bad) e where "?r = Some (Inl e)" "error_meaning D groups q e"
    | (good) st' where "?r = Some (Inr st')" "visit_inv D groups q st'"
        "\<And>t. t \<in> set (bm_keys groups) \<Longrightarrow> bm_get (fst st') t = Some Visited"
    using post by (auto simp: visit_post_def split: option.splits sum.splits simp del: set_map)
  then show ?thesis
  proof cases
    case bad
    then have "\<not> well_formed D groups q"
      unfolding error_meaning_def well_formed_def by (cases e) (auto simp: neq_Nil_conv simp del: set_map)
    then show ?thesis
      using bad by (simp add: validate_dependency_graph_def)
  next
    case good
    have all: "well_wired D groups q n \<and> Wellfounded.accp (\<lambda>d n. dep_edge groups q n d) n"
      if "n \<in> set (bm_keys groups)" for n
      using good(2,3) that unfolding visit_inv_def by (simp add: case_prod_unfold del: set_map)
    moreover have "n \<in> set (bm_keys groups)" if "dep_edge groups q n d" for n d
      using that map_of_SomeD by (force simp: dep_edge_def)
    ultimately have "well_formed D groups q"
      using accp_acyclic [of "dep_edge groups q"] unfolding well_formed_def by blast
    then show ?thesis
      using good(1) by (simp add: validate_dependency_graph_def)
  qed
qed


subsection \<open>The violations\<close>

lemma local_violation_None:
  assumes "bm_get groups n = Some grp"
  shows "local_violation D groups q grp = None \<longleftrightarrow> well_wired D groups q n"
proof -
  have "local_violation D groups q grp = None \<longleftrightarrow> check_inputs D n grp = Inr ()
      \<and> find (\<lambda>dependency. dependency \<notin> q \<and> \<not> bm_has groups dependency) (rg_depends_on grp) = None"
    by (auto simp: local_violation_def check_inputs_def split: option.splits)
  then show ?thesis
    using assms by (auto simp: well_wired_def dep_edge_def find_None_iff)
qed

lemma local_violations_has:
  assumes "bm_wf groups"
  shows "bm_has (local_violations D groups q) n \<longleftrightarrow> (bm_has groups n \<and> \<not> well_wired D groups q n)"
proof -
  let ?step = "\<lambda>(name, grp) vs. case local_violation D groups q grp of None \<Rightarrow> vs | Some v \<Rightarrow> bm_insert name v vs"
  have "bm_has (fold ?step es vs) n \<longleftrightarrow> bm_has vs n \<or> (\<exists>grp. (n, grp) \<in> set es \<and> local_violation D groups q grp \<noteq> None)"
    for es vs
    by (induction es arbitrary: vs) (auto simp: bm_has_def split: option.splits if_splits)
  then have "bm_has (local_violations D groups q) n \<longleftrightarrow> (\<exists>grp. (n, grp) \<in> set groups \<and> local_violation D groups q grp \<noteq> None)"
    by (simp add: local_violations_def bm_has_def)
  also have "\<dots> \<longleftrightarrow> (\<exists>grp. bm_get groups n = Some grp \<and> \<not> well_wired D groups q n)"
    unfolding bm_get_iff [OF assms, symmetric] using local_violation_None [of groups n _ D q] by metis
  finally show ?thesis
    by (auto simp: bm_has_def)
qed

lemma or_insert_list_has:
  "bm_has (fold (\<lambda>k. bm_or_insert k w) ks m) n \<longleftrightarrow> bm_has m n \<or> n \<in> set ks"
  by (induction ks arbitrary: m) (auto simp: bm_has_def bm_get_or_insert)

abbreviation remaining :: "ResolvedGroup bmap \<Rightarrow> violation bmap \<Rightarrow> ResolvedGroup bmap" where
  "remaining groups violations \<equiv> bm_retain (\<lambda>name _. \<not> bm_has violations name) groups"

lemma remaining_get:
  "bm_wf groups \<Longrightarrow> bm_get (remaining groups vs) n = (if bm_has vs n then None else bm_get groups n)"
  by (simp add: bm_get_retain split: option.splits)

lemma remaining_has: "bm_wf groups \<Longrightarrow> bm_has (remaining groups vs) n \<longleftrightarrow> bm_has groups n \<and> \<not> bm_has vs n"
  using remaining_get [of groups vs n] unfolding bm_has_def [of "remaining groups vs"] bm_has_def [of groups]
  by (simp split: if_splits)

lemma remaining_edge:
  "bm_wf groups \<Longrightarrow> dep_edge (remaining groups vs) (q \<union> set (bm_keys vs)) n d \<longleftrightarrow>
     dep_edge groups q n d \<and> \<not> bm_has vs n \<and> \<not> bm_has vs d"
  unfolding dep_edge_def Un_iff bm_has_iff [symmetric] by (auto simp: remaining_get)

lemma remaining_wired:
  assumes "bm_wf groups" "well_wired D groups q n" "\<not> bm_has vs n"
  shows "well_wired D (remaining groups vs) (q \<union> set (bm_keys vs)) n"
  using assms(2,3) unfolding well_wired_def remaining_edge [OF assms(1)] remaining_has [OF assms(1)]
    remaining_get [OF assms(1)] by simp

lemma cycle_violations_ok:
  assumes wf: "bm_wf groups"
    and "\<And>n. bm_has groups n \<Longrightarrow> \<not> well_wired D groups q n \<Longrightarrow> bm_has vs n"
    and "\<And>n. bm_has vs n \<Longrightarrow> bm_has groups n \<and> (\<not> well_wired D groups q n \<or> (dep_edge groups q)\<^sup>+\<^sup>+ n n)"
  shows "\<exists>v. cycle_violations D groups q vs = Some (Inr v)
     \<and> well_formed D (remaining groups v) (q \<union> set (bm_keys v))
     \<and> (\<forall>n. bm_has groups n \<longrightarrow> \<not> well_wired D groups q n \<longrightarrow> bm_has v n)
     \<and> (\<forall>n. bm_has v n \<longrightarrow> bm_has groups n \<and> (\<not> well_wired D groups q n \<or> (dep_edge groups q)\<^sup>+\<^sup>+ n n))"
  using assms(2,3)
proof (induction "card (set (bm_keys groups) - set (bm_keys vs))" arbitrary: vs rule: less_induct)
  case less
  let ?G = "remaining groups vs" and ?q = "q \<union> set (bm_keys vs)"
  have wired: "well_wired D ?G ?q n" if "n \<in> set (bm_keys ?G)" for n
  proof -
    have "bm_has groups n" "\<not> bm_has vs n"
      using that unfolding bm_has_iff [symmetric] remaining_has [OF wf] by blast+
    then show ?thesis
      using less.prems(1) remaining_wired [OF wf] by blast
  qed
  consider (ok) "validate_dependency_graph D ?G ?q = Some (Inr ())" "well_formed D ?G ?q"
    | (bad) e where "validate_dependency_graph D ?G ?q = Some (Inl e)" "error_meaning D ?G ?q e"
    using validate_cases [of D ?G ?q] by blast
  then show ?case
  proof cases
    case ok
    then show ?thesis
      using less.prems by (subst cycle_violations.simps) auto
  next
    case bad
    obtain c where e: "e = DependencyCycle c" and c: "c \<noteq> []" "set c \<subseteq> set (bm_keys ?G)"
      "\<And>m. m \<in> set c \<Longrightarrow> (dep_edge ?G ?q)\<^sup>+\<^sup>+ m m"
      using bad(2) wired unfolding error_meaning_def by (cases e) (auto simp del: set_map)
    define vs' where "vs' = fold (\<lambda>member. bm_or_insert member (InCycle c)) c vs"
    have has: "bm_has vs' n \<longleftrightarrow> bm_has vs n \<or> n \<in> set c" for n
      by (simp add: vs'_def or_insert_list_has)
    have fresh: "bm_has groups m \<and> \<not> bm_has vs m" if "m \<in> set c" for m
      using that c(2) remaining_has [OF wf, of vs m] unfolding bm_has_iff by blast
    have cyc: "(dep_edge groups q)\<^sup>+\<^sup>+ m m" if "m \<in> set c" for m
      using c(3) [OF that] by (rule tranclp_subrel) (simp add: remaining_edge [OF wf] del: set_map)
    have "set (bm_keys groups) - set (bm_keys vs') \<subset> set (bm_keys groups) - set (bm_keys vs)"
    proof -
      obtain a where "a \<in> set c"
        using c(1) by (cases c) auto
      then have "a \<in> set (bm_keys groups) - set (bm_keys vs)" "a \<in> set (bm_keys vs')"
        using has [of a] fresh [of a] unfolding bm_has_iff by blast+
      moreover have "set (bm_keys vs) \<subseteq> set (bm_keys vs')"
        using has unfolding bm_has_iff by blast
      ultimately show ?thesis
        by blast
    qed
    then have "card (set (bm_keys groups) - set (bm_keys vs')) < card (set (bm_keys groups) - set (bm_keys vs))"
      by (intro psubset_card_mono) auto
    then have "\<exists>v. cycle_violations D groups q vs' = Some (Inr v)
        \<and> well_formed D (remaining groups v) (q \<union> set (bm_keys v))
        \<and> (\<forall>n. bm_has groups n \<longrightarrow> \<not> well_wired D groups q n \<longrightarrow> bm_has v n)
        \<and> (\<forall>n. bm_has v n \<longrightarrow> bm_has groups n \<and> (\<not> well_wired D groups q n \<or> (dep_edge groups q)\<^sup>+\<^sup>+ n n))"
      using less.hyps less.prems has fresh cyc by blast
    moreover have "cycle_violations D groups q vs = cycle_violations D groups q vs'"
      by (subst cycle_violations.simps) (simp add: bad(1) e vs'_def del: set_map)
    ultimately show ?thesis
      by simp
  qed
qed

text \<open>
  C30.  The per-group classification always ends and misses nothing.  The loop over cycles returns, the
  error its source declares unreachable never occurs, and what is left once the violating groups are
  quarantined passes validation; every wrongly wired group is among the violations, and a group is
  named only if it is wired wrongly or lies on a dependency cycle.
\<close>

theorem dependency_violations_complete:
  assumes "bm_wf groups"
  shows "\<exists>violations. dependency_violations D groups quarantined = Some (Inr violations)
     \<and> validate_dependency_graph D (remaining groups violations) (quarantined \<union> set (bm_keys violations)) = Some (Inr ())
     \<and> (\<forall>n. bm_has violations n \<longrightarrow>
          bm_has groups n \<and> (\<not> well_wired D groups quarantined n \<or> (dep_edge groups quarantined)\<^sup>+\<^sup>+ n n))
     \<and> (\<forall>n. bm_has groups n \<and> \<not> well_wired D groups quarantined n \<longrightarrow> bm_has violations n)"
proof -
  obtain v where "cycle_violations D groups quarantined (local_violations D groups quarantined) = Some (Inr v)"
    "well_formed D (remaining groups v) (quarantined \<union> set (bm_keys v))"
    "\<forall>n. bm_has groups n \<longrightarrow> \<not> well_wired D groups quarantined n \<longrightarrow> bm_has v n"
    "\<forall>n. bm_has v n \<longrightarrow> bm_has groups n \<and> (\<not> well_wired D groups quarantined n \<or> (dep_edge groups quarantined)\<^sup>+\<^sup>+ n n)"
    using cycle_violations_ok [OF assms, of D quarantined "local_violations D groups quarantined"]
      local_violations_has [OF assms, of D quarantined] by blast
  then show ?thesis
    using validate_cases [of D "remaining groups v" "quarantined \<union> set (bm_keys v)"]
    unfolding dependency_violations_def by blast
qed

text \<open>Two groups that wait on each other, beside one that waits on nothing.\<close>

definition sample_waiting :: "string list \<Rightarrow> ResolvedGroup" where
  "sample_waiting ds =
     \<lparr>rg_name = [], rg_match_labels = [], rg_depends_on = ds, rg_inputs = [], rg_input_snapshot = None,
      rg_deployment = v1, rg_max_unavailable = 1, rg_emergency_correction = False\<rparr>"

definition sample_cycle :: "ResolvedGroup bmap" where
  "sample_cycle =
     [(''a'', sample_waiting [''b'']), (''b'', sample_waiting [''a'']), (''c'', sample_waiting [])]"

theorem dependency_violations_complete_witness:
  "\<exists>violations. dependency_violations sample_dataflow sample_cycle {} = Some (Inr violations) \<and> \<not> bm_has violations ''c''"
proof -
  have wf: "bm_wf sample_cycle"
    by (simp add: sample_cycle_def bm_wf_def)
  obtain violations where v: "dependency_violations sample_dataflow sample_cycle {} = Some (Inr violations)"
    "\<forall>n. bm_has violations n \<longrightarrow> bm_has sample_cycle n
       \<and> (\<not> well_wired sample_dataflow sample_cycle {} n \<or> (dep_edge sample_cycle {})\<^sup>+\<^sup>+ n n)"
    using dependency_violations_complete [OF wf, of sample_dataflow "{}"] by blast
  have "\<not> dep_edge sample_cycle {} ''c'' d" for d
    by (simp add: dep_edge_def sample_cycle_def sample_waiting_def)
  then have "\<not> (dep_edge sample_cycle {})\<^sup>+\<^sup>+ ''c'' ''c''" "well_wired sample_dataflow sample_cycle {} ''c''"
    by (auto simp: well_wired_def sample_cycle_def sample_waiting_def check_inputs_def dest: tranclpD)
  then show ?thesis
    using v by blast
qed

subsection \<open>The resolution order\<close>

definition ready :: "ResolvedGroup bmap \<Rightarrow> string list \<Rightarrow> ResolvedGroup \<Rightarrow> bool" where
  "ready groups ordered grp \<longleftrightarrow>
     (\<forall>d \<in> set (rg_depends_on grp). d \<in> set ordered \<or> \<not> bm_has groups d)"

definition topological :: "ResolvedGroup bmap \<Rightarrow> string list \<Rightarrow> bool" where
  "topological groups ordered \<longleftrightarrow>
     distinct ordered \<and> set ordered \<subseteq> set (bm_keys groups)
     \<and> (\<forall>i < length ordered. \<forall>grp. bm_get groups (ordered ! i) = Some grp \<longrightarrow> ready groups (take i ordered) grp)"

lemma place_ready_eq:
  "place_ready groups (name, grp) ordered =
     (if name \<notin> set ordered \<and> ready groups ordered grp then ordered @ [name] else ordered)"
  by (auto simp: place_ready_def ready_def list_all_iff)

lemma place_fold_mono: "set ordered \<subseteq> set (fold (place_ready groups) es ordered)"
proof (induction es arbitrary: ordered)
  case (Cons e es)
  have "set ordered \<subseteq> set (place_ready groups e ordered)"
    by (cases e) (auto simp: place_ready_eq)
  then show ?case
    using Cons.IH [of "place_ready groups e ordered"] by simp
qed simp

lemma ready_mono: "ready groups ordered grp \<Longrightarrow> set ordered \<subseteq> set ordered' \<Longrightarrow> ready groups ordered' grp"
  by (auto simp: ready_def)

lemma place_fold_ready:
  "(name, grp) \<in> set es \<Longrightarrow> ready groups ordered grp \<Longrightarrow> name \<in> set (fold (place_ready groups) es ordered)"
proof (induction es arbitrary: ordered)
  case (Cons e es)
  show ?case
  proof (cases "e = (name, grp)")
    case True
    then have "name \<in> set (place_ready groups e ordered)"
      using Cons.prems(2) by (simp add: place_ready_eq)
    then show ?thesis
      using place_fold_mono [of "place_ready groups e ordered" groups es] by auto
  next
    case False
    have "ready groups (place_ready groups e ordered) grp"
      using ready_mono [OF Cons.prems(2)] place_fold_mono [of ordered groups "[e]"] by simp
    then show ?thesis
      using Cons False by simp
  qed
qed simp

lemma place_topological:
  assumes "bm_wf groups" "(name, grp) \<in> set groups" "topological groups ordered"
  shows "topological groups (place_ready groups (name, grp) ordered)"
proof (cases "name \<notin> set ordered \<and> ready groups ordered grp")
  case True
  have get: "bm_get groups name = Some grp"
    using assms(1,2) by (simp add: bm_get_iff)
  have "ready groups (take i (ordered @ [name])) g" if "i < length (ordered @ [name])"
    "bm_get groups ((ordered @ [name]) ! i) = Some g" for i g
    using that True assms(3) get by (cases "i = length ordered") (auto simp: topological_def nth_append)
  moreover have "name \<in> set (bm_keys groups)"
    using assms(2) by force
  ultimately show ?thesis
    using True assms(3) unfolding topological_def place_ready_eq by auto
next
  case False
  then show ?thesis
    using assms(3) by (auto simp: place_ready_eq)
qed

lemma rounds_topological:
  assumes "bm_wf groups"
  shows "topological groups ((place_round groups ^^ k) [])"
proof (induction k)
  case (Suc k)
  show ?case
    unfolding funpow.simps comp_apply place_round_def
  proof (rule fold_invariant_set [where I = "topological groups"])
    show "topological groups (place_ready groups e ordered)" if "e \<in> set groups" "topological groups ordered" for e ordered
      using place_topological [OF assms] that by (cases e) blast
  qed (use Suc in \<open>simp add: place_round_def\<close>)
qed (simp add: topological_def)

lemma ready_exists:
  assumes wf: "bm_wf groups" and ok: "well_formed D groups q" and "q \<inter> set (bm_keys groups) = {}"
    and "n \<in> set (bm_keys groups) - set ordered"
  shows "\<exists>m grp. m \<notin> set ordered \<and> (m, grp) \<in> set groups \<and> ready groups ordered grp"
proof -
  define r where "r = {(d, n). dep_edge groups q n d}"
  have "r \<subseteq> set (bm_keys groups) \<times> set (bm_keys groups)"
  proof clarify
    fix d m assume "(d, m) \<in> r"
    then have e: "dep_edge groups q m d"
      by (simp add: r_def)
    then have m: "m \<in> set (bm_keys groups)"
      using map_of_SomeD by (force simp: dep_edge_def)
    then have "bm_has groups d"
      using ok e unfolding well_formed_def well_wired_def by blast
    then show "d \<in> set (bm_keys groups) \<and> m \<in> set (bm_keys groups)"
      using m unfolding bm_has_iff by blast
  qed
  then have "finite r"
    by (rule finite_subset) simp
  moreover have "acyclic r"
  proof (rule acyclicI, rule allI, rule notI)
    fix m assume "(m, m) \<in> r\<^sup>+"
    then have "(m, m) \<in> (r\<inverse>)\<^sup>+"
      by (simp add: trancl_converse)
    moreover have "r\<inverse> = {(n, d). dep_edge groups q n d}"
      by (auto simp: r_def)
    ultimately have "(dep_edge groups q)\<^sup>+\<^sup>+ m m"
      by (simp add: tranclp_unfold)
    then show False
      using ok by (simp add: well_formed_def)
  qed
  ultimately have "wf r"
    by (rule finite_acyclic_wf)
  then obtain m where m: "m \<in> set (bm_keys groups) - set ordered"
    "\<And>d. (d, m) \<in> r \<Longrightarrow> d \<notin> set (bm_keys groups) - set ordered"
    using assms(4) by (rule wfE_min) blast
  then obtain grp where grp: "(m, grp) \<in> set groups"
    by auto
  have "d \<in> set ordered \<or> \<not> bm_has groups d" if "d \<in> set (rg_depends_on grp)" for d
  proof (cases "bm_has groups d")
    case True
    then have "d \<in> set (bm_keys groups)"
      unfolding bm_has_iff .
    moreover have "d \<notin> q"
      using calculation assms(3) by blast
    then have "(d, m) \<in> r"
      using that grp wf by (auto simp: r_def dep_edge_def bm_get_iff)
    ultimately show ?thesis
      using m(2) by blast
  qed simp
  then show ?thesis
    using m(1) grp by (auto simp: ready_def)
qed

lemma dependency_order_topological:
  assumes wf: "bm_wf groups" and ok: "well_formed D groups q" and disj: "q \<inter> set (bm_keys groups) = {}"
  shows "topological groups (dependency_order groups)" and "set (dependency_order groups) = set (bm_keys groups)"
proof -
  let ?o = "\<lambda>k. (place_round groups ^^ k) []"
  have grow: "set (?o k) = set (bm_keys groups) \<or> k \<le> card (set (?o k))" for k
  proof (induction k)
    case (Suc k)
    have mono: "set (?o k) \<subseteq> set (?o (Suc k))"
      using place_fold_mono [of "?o k" groups groups] by (simp add: place_round_def)
    have sub: "set (?o (Suc k)) \<subseteq> set (bm_keys groups)"
      using rounds_topological [OF wf, of "Suc k"] by (simp add: topological_def)
    show ?case
    proof (cases "set (?o k) = set (bm_keys groups)")
      case True
      then show ?thesis
        using mono sub by blast
    next
      case False
      then obtain n where "n \<in> set (bm_keys groups) - set (?o k)"
        using rounds_topological [OF wf, of k] unfolding topological_def by blast
      then obtain m grp where "m \<notin> set (?o k)" "(m, grp) \<in> set groups" "ready groups (?o k) grp"
        using ready_exists [OF wf ok disj] by blast
      then have "m \<in> set (?o (Suc k)) - set (?o k)"
        using place_fold_ready [of m grp groups groups "?o k"] by (simp add: place_round_def)
      then have "card (set (?o k)) < card (set (?o (Suc k)))"
        using mono by (intro psubset_card_mono) auto
      then show ?thesis
        using Suc False by auto
    qed
  qed simp
  have "card (set (bm_keys groups)) = length groups"
    using distinct_card [OF bm_wf_distinct [OF wf]] by simp
  moreover have "set (?o (length groups)) \<subseteq> set (bm_keys groups)"
    using rounds_topological [OF wf, of "length groups"] by (simp add: topological_def)
  ultimately have all: "set (?o (length groups)) = set (bm_keys groups)"
    using grow [of "length groups"] card_seteq [of "set (bm_keys groups)" "set (?o (length groups))"] by auto
  then have "filter (\<lambda>name. name \<notin> set (?o (length groups))) (bm_keys groups) = []"
    unfolding filter_empty_conv by blast
  then have "dependency_order groups = ?o (length groups)"
    by (simp add: dependency_order_def Let_def)
  then show "topological groups (dependency_order groups)" "set (dependency_order groups) = set (bm_keys groups)"
    using rounds_topological [OF wf] all by simp_all
qed

end
