(* ===== verification/Inputs.thy ===== *)
theory Inputs
  imports Dependencies
begin

text \<open>
  The resolution of group inputs in \<^verbatim>\<open>crates/updatec/src/domain.rs\<close>: \<open>resolve_one\<close> reads the outputs
  of the nodes of each referenced group, \<open>resolve_group_inputs\<close> does so along the dependency order.
  A resolved snapshot carries only values every eligible producer proved, and resolving in that
  order reaches a fixed point.
\<close>

record InputResolution =
  ir_node_groups :: "string bmap"
  ir_reports :: "Envelope bmap"
  ir_outputs :: "ExactOutputPublication bmap"
  ir_public_keys :: "P256PublicKey bmap"
  ir_verified :: VerifiedReports
  ir_cordons :: "string set"
  ir_now_ms :: u64
  ir_dataflow_key :: string

definition no_inputs :: InputSelection where
  "no_inputs = \<lparr>is_generation = [], is_object_sha256 = [], is_files = []\<rparr>"

definition producers :: "InputResolution \<Rightarrow> string \<Rightarrow> string list" where
  "producers ctx name =
     filter (\<lambda>node. node \<notin> ir_cordons ctx \<and> bm_has (ir_public_keys ctx) node)
       (map fst (filter (\<lambda>(_, selected). selected = name) (ir_node_groups ctx)))"

text \<open>
  What one producer node proves: a fresh authentic report converged to the producing group's
  deployment, and an output publication whose exact bytes that report names.  A deployment with an
  identity has a validated release graph, so the \<^verbatim>\<open>expect\<close> on its target reference cannot fail there.
\<close>

definition node_output ::
  "publisher \<Rightarrow> dataflow_lib \<Rightarrow> InputResolution \<Rightarrow> DesiredDeployment \<Rightarrow> string \<Rightarrow> string \<Rightarrow> FileValue option" where
  "node_output P D ctx deployment output node =
     (case (bm_get (ir_reports ctx) node, bm_get (ir_public_keys ctx) node) of
        (Some envelope, Some key) \<Rightarrow>
          (case vr_fresh (ir_verified ctx) node envelope key (ir_now_ms ctx) of
             None \<Rightarrow> None
           | Some r \<Rightarrow>
               if \<not> (case deployment_identity P deployment of
                       None \<Rightarrow> False
                     | Some identity \<Rightarrow>
                         (case target_reference (as_application deployment) of
                            Inl _ \<Rightarrow> False
                          | Inr reference \<Rightarrow> is_converged_to P r identity (tr_sha256 reference)))
               then None
               else (case bm_get (ir_outputs ctx) node of
                       None \<Rightarrow> None
                     | Some exact \<Rightarrow>
                         let pub = eo_publication exact in
                         if output_validate D pub node \<noteq> Inr ()
                            \<or> op_deployment pub \<noteq> as_deployment deployment
                            \<or> op_assignment_sha256 pub \<noteq> nr_assignment_sha256 r
                            \<or> op_archive_sha256 pub \<noteq> nr_archive_sha256 r
                            \<or> nr_output_sha256 r \<noteq> Some (eo_sha256 exact)
                         then None
                         else bm_get (op_snapshot pub) output))
      | _ \<Rightarrow> None)"

fun unanimous :: "(string \<Rightarrow> FileValue option) \<Rightarrow> string list \<Rightarrow> FileValue option \<Rightarrow> FileValue option" where
  "unanimous f [] agreed = agreed"
| "unanimous f (node # rest) agreed =
     (case f node of
        None \<Rightarrow> None
      | Some value \<Rightarrow>
          (case agreed of
             Some a \<Rightarrow> if a \<noteq> value then None else unanimous f rest agreed
           | None \<Rightarrow> unanimous f rest (Some value)))"

definition input_value ::
  "publisher \<Rightarrow> dataflow_lib \<Rightarrow> InputResolution \<Rightarrow> ResolvedGroup bmap \<Rightarrow> GroupOutputReference \<Rightarrow> FileValue option" where
  "input_value P D ctx resolved reference =
     (if producers ctx (gr_group reference) = [] then None
      else case bm_get resolved (gr_group reference) of
             None \<Rightarrow> None
           | Some producer \<Rightarrow>
               unanimous (node_output P D ctx (rg_deployment producer) (gr_output reference))
                 (producers ctx (gr_group reference)) None)"

fun input_values ::
  "publisher \<Rightarrow> dataflow_lib \<Rightarrow> InputResolution \<Rightarrow> ResolvedGroup bmap \<Rightarrow> (string \<times> GroupOutputReference) list
     \<Rightarrow> FileSnapshot \<Rightarrow> FileSnapshot option" where
  "input_values P D ctx resolved [] vals = Some vals"
| "input_values P D ctx resolved ((input, reference) # inputs) vals =
     (case input_value P D ctx resolved reference of
        None \<Rightarrow> None
      | Some value \<Rightarrow> input_values P D ctx resolved inputs (bm_insert input value vals))"

definition with_inputs :: "ResolvedGroup \<Rightarrow> FileSnapshot option \<Rightarrow> InputSelection \<Rightarrow> ResolvedGroup" where
  "with_inputs grp snapshot sel =
     grp\<lparr>rg_input_snapshot := snapshot,
         rg_deployment := (rg_deployment grp)\<lparr>as_runtime := (as_runtime (rg_deployment grp))\<lparr>rt_inputs := sel\<rparr>\<rparr>\<rparr>"

definition resolve_one ::
  "publisher \<Rightarrow> dataflow_lib \<Rightarrow> InputResolution \<Rightarrow> ResolvedGroup bmap \<Rightarrow> ResolvedGroup \<Rightarrow> ResolvedGroup" where
  "resolve_one P D ctx resolved grp =
     (if rg_inputs grp = [] then with_inputs grp None no_inputs
      else case input_values P D ctx resolved (rg_inputs grp) [] of
             None \<Rightarrow> with_inputs grp None no_inputs
           | Some snapshot \<Rightarrow>
               (case from_snapshot D snapshot (ir_dataflow_key ctx) of
                  Inl _ \<Rightarrow> with_inputs grp None no_inputs
                | Inr pub \<Rightarrow>
                    (case selection D pub of
                       Inl _ \<Rightarrow> with_inputs grp None no_inputs
                     | Inr sel \<Rightarrow> with_inputs grp (Some snapshot) sel)))"

definition resolve_group_inputs ::
  "publisher \<Rightarrow> dataflow_lib \<Rightarrow> InputResolution \<Rightarrow> ResolvedGroup bmap \<Rightarrow> ResolvedGroup bmap" where
  "resolve_group_inputs P D ctx groups =
     fold (\<lambda>name resolved. bm_insert name (resolve_one P D ctx resolved (the (bm_get groups name))) resolved)
       (dependency_order groups) []"

subsection \<open>The fixed point\<close>

lemma input_value_cong:
  "bm_get r (gr_group reference) = bm_get r' (gr_group reference) \<Longrightarrow>
   input_value P D ctx r reference = input_value P D ctx r' reference"
  by (simp add: input_value_def)

lemma input_values_cong:
  "(\<And>i reference. (i, reference) \<in> set inputs \<Longrightarrow> bm_get r (gr_group reference) = bm_get r' (gr_group reference)) \<Longrightarrow>
   input_values P D ctx r inputs vals = input_values P D ctx r' inputs vals"
proof (induction inputs arbitrary: vals)
  case (Cons x xs)
  obtain i reference where x: "x = (i, reference)"
    by (cases x)
  have "input_value P D ctx r reference = input_value P D ctx r' reference"
    using Cons.prems [of i reference] by (intro input_value_cong) (simp add: x)
  moreover have "input_values P D ctx r xs vals' = input_values P D ctx r' xs vals'" for vals'
    using Cons.prems by (intro Cons.IH) auto
  ultimately show ?case
    by (simp add: x cong: option.case_cong)
qed simp

lemma resolve_one_cong:
  "(\<And>i reference. (i, reference) \<in> set (rg_inputs grp) \<Longrightarrow> bm_get r (gr_group reference) = bm_get r' (gr_group reference)) \<Longrightarrow>
   resolve_one P D ctx r grp = resolve_one P D ctx r' grp"
  using input_values_cong [of "rg_inputs grp" r r' P D ctx "[]"] by (simp add: resolve_one_def)

definition resolve_step ::
  "publisher \<Rightarrow> dataflow_lib \<Rightarrow> InputResolution \<Rightarrow> ResolvedGroup bmap \<Rightarrow> string \<Rightarrow> ResolvedGroup bmap \<Rightarrow> ResolvedGroup bmap" where
  "resolve_step P D ctx groups name resolved =
     bm_insert name (resolve_one P D ctx resolved (the (bm_get groups name))) resolved"

lemma resolve_fold_other:
  "n \<notin> set names \<Longrightarrow> bm_get (fold (resolve_step P D ctx groups) names r) n = bm_get r n"
  by (induction names arbitrary: r) (auto simp: resolve_step_def)

lemma resolve_fold_at:
  assumes "distinct names" "i < length names"
  shows "bm_get (fold (resolve_step P D ctx groups) names r) (names ! i) =
     Some (resolve_one P D ctx (fold (resolve_step P D ctx groups) (take i names) r) (the (bm_get groups (names ! i))))"
proof -
  have names: "names = take i names @ names ! i # drop (Suc i) names"
    using assms(2) by (simp add: id_take_nth_drop)
  have "names ! i \<notin> set (drop (Suc i) names)"
    using assms by (metis distinct.simps(2) distinct_append names)
  then show ?thesis
    by (subst names) (simp add: resolve_fold_other, simp add: resolve_step_def)
qed

lemma bad_input_group:
  assumes "check_inputs D n grp = Inr ()" "(i, reference) \<in> set (rg_inputs grp)"
  shows "gr_group reference \<in> set (rg_depends_on grp)"
  using assms by (auto simp: check_inputs_def bad_input_def find_None_iff split: if_splits option.splits)

lemma resolve_fixed_point:
  assumes wf: "bm_wf groups" and ok: "well_formed D groups q" and disj: "q \<inter> set (bm_keys groups) = {}"
  shows "bm_get (resolve_group_inputs P D ctx groups) n =
     map_option (resolve_one P D ctx (resolve_group_inputs P D ctx groups)) (bm_get groups n)"
proof -
  let ?names = "dependency_order groups"
  let ?res = "\<lambda>names. fold (resolve_step P D ctx groups) names []"
  have res: "resolve_group_inputs P D ctx groups = ?res ?names"
    by (simp add: resolve_group_inputs_def resolve_step_def [abs_def])
  have top: "topological groups ?names" and all: "set ?names = set (bm_keys groups)"
    using dependency_order_topological [OF wf ok disj] by blast+
  show ?thesis
  proof (cases "bm_get groups n")
    case None
    then have "n \<notin> set ?names"
      unfolding all by (simp add: map_of_eq_None_iff)
    then show ?thesis
      using None by (simp add: res resolve_fold_other)
  next
    case (Some grp)
    then have "n \<in> set ?names"
      unfolding all using map_of_SomeD by force
    then obtain i where i: "i < length ?names" "?names ! i = n"
      by (metis in_set_conv_nth)
    have dist: "distinct ?names"
      using top by (simp add: topological_def)
    have "bm_get (?res (take i ?names)) (gr_group reference) = bm_get (?res ?names) (gr_group reference)"
      if "(input, reference) \<in> set (rg_inputs grp)" for input reference
    proof -
      have "n \<in> set (bm_keys groups)"
        using map_of_SomeD [OF Some] by force
      then have "check_inputs D n grp = Inr ()"
        using ok Some unfolding well_formed_def well_wired_def by blast
      then have dep: "gr_group reference \<in> set (rg_depends_on grp)"
        using bad_input_group that by blast
      have "ready groups (take i ?names) grp"
        using top i Some by (auto simp: topological_def)
      then consider "gr_group reference \<in> set (take i ?names)" | "gr_group reference \<notin> set ?names"
        using dep unfolding ready_def all bm_has_iff by blast
      then show ?thesis
      proof cases
        case 1
        then have "gr_group reference \<notin> set (drop i ?names)"
          using dist by (metis append_take_drop_id distinct_append disjoint_iff)
        then show ?thesis
          using fold_append [of "resolve_step P D ctx groups" "take i ?names" "drop i ?names"]
          by (metis append_take_drop_id comp_apply resolve_fold_other)
      next
        case 2
        then show ?thesis
          using in_set_takeD by (metis resolve_fold_other)
      qed
    qed
    then have "resolve_one P D ctx (?res (take i ?names)) grp = resolve_one P D ctx (?res ?names) grp"
      by (rule resolve_one_cong)
    then show ?thesis
      using resolve_fold_at [OF dist i(1), of P D ctx groups "[]"] i(2) Some by (simp add: res)
  qed
qed

subsection \<open>What a resolved snapshot carries\<close>

lemma unanimous_agreed: "unanimous f ns (Some a) = Some v \<Longrightarrow> v = a \<and> (\<forall>n \<in> set ns. f n = Some a)"
  by (induction ns) (auto split: option.splits if_splits)

lemma unanimous_sound:
  assumes "unanimous f ns None = Some v" "ns \<noteq> []"
  shows "\<forall>n \<in> set ns. f n = Some v"
  using assms by (cases ns) (auto split: option.splits dest: unanimous_agreed)

lemma input_values_other:
  "input_values P D ctx r inputs vals = Some snap \<Longrightarrow> i \<notin> set (bm_keys inputs) \<Longrightarrow> bm_get snap i = bm_get vals i"
  by (induction inputs arbitrary: vals) (auto split: option.splits)

lemma input_values_get:
  assumes "input_values P D ctx r inputs vals = Some snap" "distinct (bm_keys inputs)" "(i, reference) \<in> set inputs"
  shows "\<exists>v. bm_get snap i = Some v \<and> input_value P D ctx r reference = Some v"
  using assms
proof (induction inputs arbitrary: vals)
  case (Cons x xs)
  obtain j ref where x: "x = (j, ref)"
    by (cases x)
  obtain v where v: "input_value P D ctx r ref = Some v" "input_values P D ctx r xs (bm_insert j v vals) = Some snap"
    using Cons.prems(1) by (auto simp: x split: option.splits)
  show ?case
  proof (cases "(i, reference) = x")
    case True
    then have "bm_get snap i = Some v"
      using input_values_other [OF v(2), of i] Cons.prems(2) by (simp add: x)
    then show ?thesis
      using True v(1) by (simp add: x)
  next
    case False
    then show ?thesis
      using Cons v(2) by (auto simp: x)
  qed
qed simp

text \<open>The proof one node gives: a fresh authentic report converged to the deployment, naming the
  exact bytes of an output publication that carries the value.\<close>

definition proven_output ::
  "publisher \<Rightarrow> InputResolution \<Rightarrow> DesiredDeployment \<Rightarrow> string \<Rightarrow> string \<Rightarrow> FileValue \<Rightarrow> bool" where
  "proven_output P ctx deployment output node v \<longleftrightarrow>
     (\<exists>envelope key r identity reference exact.
        bm_get (ir_reports ctx) node = Some envelope \<and> bm_get (ir_public_keys ctx) node = Some key
        \<and> vr_fresh (ir_verified ctx) node envelope key (ir_now_ms ctx) = Some r
        \<and> deployment_identity P deployment = Some identity
        \<and> target_reference (as_application deployment) = Inr reference
        \<and> is_converged_to P r identity (tr_sha256 reference)
        \<and> bm_get (ir_outputs ctx) node = Some exact \<and> nr_output_sha256 r = Some (eo_sha256 exact)
        \<and> op_node (eo_publication exact) = node \<and> op_assignment_sha256 (eo_publication exact) = identity
        \<and> bm_get (op_snapshot (eo_publication exact)) output = Some v)"

lemma node_output_Some:
  assumes "node_output P D ctx deployment output node = Some v"
  shows "proven_output P ctx deployment output node v"
  using assms unfolding proven_output_def
  by (auto simp: node_output_def Let_def output_validate_def is_converged_to_def
      split: option.splits sum.splits if_splits prod.splits)

lemma resolve_one_ready:
  assumes "rg_input_snapshot (resolve_one P D ctx r grp) = Some snap"
  obtains p sel where "input_values P D ctx r (rg_inputs grp) [] = Some snap"
    "from_snapshot D snap (ir_dataflow_key ctx) = Inr p" "selection D p = Inr sel"
    "resolve_one P D ctx r grp = with_inputs grp (Some snap) sel"
proof -
  have none: "rg_input_snapshot (with_inputs grp m sel) = m" for m sel
    by (simp add: with_inputs_def)
  have "rg_inputs grp \<noteq> []"
    using assms by (auto simp: resolve_one_def none)
  moreover obtain s where s: "input_values P D ctx r (rg_inputs grp) [] = Some s"
    using assms calculation by (cases "input_values P D ctx r (rg_inputs grp) []") (simp_all add: resolve_one_def none)
  moreover obtain p where p: "from_snapshot D s (ir_dataflow_key ctx) = Inr p"
    using assms calculation by (cases "from_snapshot D s (ir_dataflow_key ctx)") (simp_all add: resolve_one_def none)
  moreover obtain sel where sel: "selection D p = Inr sel"
    using assms calculation by (cases "selection D p") (simp_all add: resolve_one_def none)
  ultimately have one: "resolve_one P D ctx r grp = with_inputs grp (Some s) sel"
    by (simp add: resolve_one_def)
  then have "s = snap"
    using assms none by simp
  then show thesis
    using that s p sel one by blast
qed

lemma input_value_Some:
  assumes "input_value P D ctx r reference = Some v"
  shows "\<exists>producer. bm_get r (gr_group reference) = Some producer \<and> producers ctx (gr_group reference) \<noteq> []
     \<and> (\<forall>node \<in> set (producers ctx (gr_group reference)).
          proven_output P ctx (rg_deployment producer) (gr_output reference) node v)"
proof -
  obtain producer where producer: "bm_get r (gr_group reference) = Some producer"
    "producers ctx (gr_group reference) \<noteq> []"
    "unanimous (node_output P D ctx (rg_deployment producer) (gr_output reference)) (producers ctx (gr_group reference)) None = Some v"
    using assms by (auto simp: input_value_def split: if_splits option.splits)
  then show ?thesis
    using unanimous_sound [OF producer(3,2)] node_output_Some by blast
qed

text \<open>
  C28.  A group receives only inputs its producers proved.  In a well-formed graph, a group that comes
  out of input resolution with a snapshot carries for every declared input one value, and every node
  of the producing group that is neither cordoned nor without a key, of which there is at least one,
  has a fresh authentic report converged to the producer's own resolved deployment and an output
  publication, named by digest in that report, with exactly that value.  The assignment is then bound
  to the snapshot through the selection of its private publication.
\<close>

theorem resolved_inputs_proven:
  assumes wf: "bm_wf groups" and ok: "well_formed D groups quarantined"
    and disj: "quarantined \<inter> set (bm_keys groups) = {}"
    and grp: "bm_get groups n = Some grp" and inputs: "bm_wf (rg_inputs grp)"
    and res: "bm_get (resolve_group_inputs P D ctx groups) n = Some grp'"
    and snap: "rg_input_snapshot grp' = Some snap"
  shows "(\<forall>input reference. bm_get (rg_inputs grp) input = Some reference \<longrightarrow>
       (\<exists>producer v. bm_get (resolve_group_inputs P D ctx groups) (gr_group reference) = Some producer
          \<and> bm_get snap input = Some v \<and> producers ctx (gr_group reference) \<noteq> []
          \<and> (\<forall>node \<in> set (producers ctx (gr_group reference)).
               proven_output P ctx (rg_deployment producer) (gr_output reference) node v)))
     \<and> (\<exists>p. from_snapshot D snap (ir_dataflow_key ctx) = Inr p
          \<and> selection D p = Inr (rt_inputs (as_runtime (rg_deployment grp'))))"
proof -
  let ?res = "resolve_group_inputs P D ctx groups"
  have one: "grp' = resolve_one P D ctx ?res grp"
    using resolve_fixed_point [OF wf ok disj, of P ctx n] grp res by simp
  obtain p sel where vals: "input_values P D ctx ?res (rg_inputs grp) [] = Some snap"
    and p: "from_snapshot D snap (ir_dataflow_key ctx) = Inr p" "selection D p = Inr sel"
    and grp': "grp' = with_inputs grp (Some snap) sel"
    using resolve_one_ready [of P D ctx ?res grp snap] snap one by metis
  have "rt_inputs (as_runtime (rg_deployment grp')) = sel"
    by (simp add: grp' with_inputs_def)
  moreover have "\<exists>v. bm_get snap input = Some v \<and> input_value P D ctx ?res reference = Some v"
    if "bm_get (rg_inputs grp) input = Some reference" for input reference
    using input_values_get [OF vals bm_wf_distinct [OF inputs] map_of_SomeD [OF that]] .
  ultimately show ?thesis
    using p input_value_Some by metis
qed

subsection \<open>A resolved input\<close>

abbreviation hex :: "char \<Rightarrow> string" where
  "hex c \<equiv> replicate 64 c"

definition sample_producer :: ResolvedGroup where
  "sample_producer =
     \<lparr>rg_name = ''db'', rg_match_labels = [(''role'', ''db'')], rg_depends_on = [], rg_inputs = [],
      rg_input_snapshot = None, rg_deployment = sample_deployment (hex (CHR ''c'')) (CHR ''a''),
      rg_max_unavailable = 1, rg_emergency_correction = False\<rparr>"

definition sample_consumer :: ResolvedGroup where
  "sample_consumer =
     \<lparr>rg_name = ''edge'', rg_match_labels = [(''role'', ''edge'')], rg_depends_on = [''db''],
      rg_inputs = [(''host'', \<lparr>gr_group = ''db'', gr_output = ''host''\<rparr>)],
      rg_input_snapshot = None, rg_deployment = v1, rg_max_unavailable = 1, rg_emergency_correction = False\<rparr>"

definition sample_dataflow_groups :: "ResolvedGroup bmap" where
  "sample_dataflow_groups = [(''db'', sample_producer), (''edge'', sample_consumer)]"

definition sample_producer_report :: NodeReport where
  "sample_producer_report = (sample_report ''n1'' (hex (CHR ''c'')) True)
     \<lparr>nr_output_sha256 := Some (hex (CHR ''a'')),
      nr_reconciliation := Some \<lparr>lr_version = ''1.0.0'', lr_archive_sha256 = hex (CHR ''a''),
        lr_definition_sha256 = hex (CHR ''a'')\<rparr>\<rparr>"

definition sample_output :: ExactOutputPublication where
  "sample_output =
     \<lparr>eo_sha256 = hex (CHR ''a''),
      eo_publication = \<lparr>op_schema = 2, op_node = ''n1'', op_deployment = hex (CHR ''c''),
        op_assignment_sha256 = hex (CHR ''c''), op_archive_sha256 = hex (CHR ''a''),
        op_snapshot = [(''host'', ''db'')]\<rparr>\<rparr>"

definition sample_resolution :: InputResolution where
  "sample_resolution =
     \<lparr>ir_node_groups = [(''n1'', ''db'')], ir_reports = [(''n1'', sample_envelope)],
      ir_outputs = [(''n1'', sample_output)], ir_public_keys = [(''n1'', ''key'')],
      ir_verified = \<lparr>vr_entries = [(''n1'', sample_entry sample_producer_report)], vr_verifications = 1\<rparr>,
      ir_cordons = {}, ir_now_ms = 2000, ir_dataflow_key = replicate 32 (CHR ''k'')\<rparr>"

lemma hex_canonical: "is_canonical_sha256 (hex (CHR ''a''))" "is_canonical_sha256 (hex (CHR ''c''))"
  by (simp_all add: is_canonical_sha256_def list_all_iff ascii_defs)

lemma hex_segment: "is_segment (hex (CHR ''c''))"
  by (simp add: is_segment_def segment_byte_def MAX_SEGMENT_BYTES_def is_windows_device_stem_def ascii_defs list_all_iff
      numeral_eq_Suc)

lemma sample_producer_identity:
  "deployment_identity sample_publisher (sample_deployment (hex (CHR ''c'')) (CHR ''a'')) = Some (hex (CHR ''c''))"
  using sample_identity [OF hex_canonical(1) hex_segment] .

lemma sample_producer_converged:
  "is_converged_to sample_publisher sample_producer_report (hex (CHR ''c'')) (hex (CHR ''a''))"
proof -
  have "is_segment ''app''"
    by (simp add: is_segment_def segment_byte_def MAX_SEGMENT_BYTES_def is_windows_device_stem_def ascii_defs)
  moreover have "parse_release_version sample_publisher ''1.0.0'' \<noteq> None"
    by (simp add: parse_release_version_def sample_publisher_def MAX_RELEASE_VERSION_BYTES_def ascii_defs)
  ultimately show ?thesis
    using hex_canonical
    by (simp add: is_converged_to_def is_wellformed_def shape_error_def sample_producer_report_def sample_report_def
        REPORT_SCHEMA_def)
qed

lemma host_segment: "is_segment ''host''"
  by (simp add: is_segment_def segment_byte_def MAX_SEGMENT_BYTES_def is_windows_device_stem_def ascii_defs)

lemma sample_snapshot_valid:
  "length value \<le> MAX_BYTES \<Longrightarrow> snapshot_validate sample_dataflow [(''host'', value)] = Inr ()"
  by (simp add: snapshot_validate_def MAX_FILES_def valid_name_def host_segment file_bytes_def sample_dataflow_def
      bounded_encode_def bounded_check_def check_e_def)

lemma sample_dataflow_fields:
  "dl_snapshot_json sample_dataflow = (\<lambda>_. Some [])" "dl_input_json sample_dataflow = (\<lambda>_. Some [])"
  "dl_output_json sample_dataflow = (\<lambda>_. Some [])" "dl_hmac sample_dataflow = (\<lambda>_ _. hex (CHR ''a''))"
  "dl_b64_encode sample_dataflow = (\<lambda>b. b)"
  by (simp_all add: sample_dataflow_def)

lemma sample_groups_wf: "bm_wf sample_dataflow_groups"
  by (simp add: sample_dataflow_groups_def bm_wf_def)

lemma sample_groups_well_formed: "well_formed sample_dataflow sample_dataflow_groups {}"
proof -
  have name: "is_output_name sample_dataflow ''host''"
    by (simp add: is_output_name_def from_bytes_def sample_dataflow_fields sample_snapshot_valid)
  have edge: "dep_edge sample_dataflow_groups {} n d \<longleftrightarrow> n = ''edge'' \<and> d = ''db''" for n d
    by (auto simp: dep_edge_def sample_dataflow_groups_def sample_producer_def sample_consumer_def)
  have db: "check_inputs sample_dataflow ''db'' sample_producer = Inr ()"
    by (simp add: check_inputs_def sample_producer_def)
  have consumer: "check_inputs sample_dataflow ''edge'' sample_consumer = Inr ()"
    using name by (simp add: check_inputs_def sample_consumer_def bad_input_def MAX_FILES_def)
  have has: "bm_has sample_dataflow_groups ''db''"
    by (simp add: sample_dataflow_groups_def bm_has_def)
  have get: "bm_get sample_dataflow_groups ''db'' = Some sample_producer"
    "bm_get sample_dataflow_groups ''edge'' = Some sample_consumer"
    by (simp_all add: sample_dataflow_groups_def)
  have wired: "well_wired sample_dataflow sample_dataflow_groups {} ''db''"
    "well_wired sample_dataflow sample_dataflow_groups {} ''edge''"
    using db consumer has get by (simp_all add: well_wired_def edge)
  have "n = ''db'' \<or> n = ''edge''" if "n \<in> set (bm_keys sample_dataflow_groups)" for n
    using that by (auto simp: sample_dataflow_groups_def)
  then have "\<forall>n \<in> set (bm_keys sample_dataflow_groups). well_wired sample_dataflow sample_dataflow_groups {} n"
    using wired by blast
  moreover have "\<not> (dep_edge sample_dataflow_groups {})\<^sup>+\<^sup>+ n n" for n
  proof
    assume cyc: "(dep_edge sample_dataflow_groups {})\<^sup>+\<^sup>+ n n"
    obtain d where "dep_edge sample_dataflow_groups {} n d"
      using tranclpD [OF cyc] by blast
    moreover obtain e where "dep_edge sample_dataflow_groups {} e n"
      using cyc by (cases rule: tranclp.cases) blast+
    ultimately show False
      by (simp add: edge)
  qed
  ultimately show ?thesis
    unfolding well_formed_def by blast
qed

lemma sample_node_output:
  "node_output sample_publisher sample_dataflow sample_resolution (rg_deployment sample_producer) ''host'' ''n1'' = Some ''db''"
proof -
  have fresh: "vr_fresh (ir_verified sample_resolution) ''n1'' sample_envelope ''key'' 2000 = Some sample_producer_report"
    by (simp add: vr_fresh_def authentic_def sample_resolution_def sample_entry_def fresh_report_def is_fresh_def
        sample_producer_report_def sample_report_def saturating_add_def saturating_sub_def REPORT_MAX_SKEW_def
        REPORT_FRESHNESS_def)
  have target: "target_reference (as_application (rg_deployment sample_producer)) =
      Inr (package (sample_catalog_release (CHR ''a'')))"
    by (simp add: sample_producer_def sample_deployment_def target_reference_def)
  have identity: "deployment_identity sample_publisher (rg_deployment sample_producer) = Some (hex (CHR ''c''))"
    using sample_producer_identity by (simp add: sample_producer_def)
  have valid: "output_validate sample_dataflow (eo_publication sample_output) ''n1'' = Inr ()"
    by (simp add: output_validate_def sample_output_def OUTPUT_SCHEMA_def hex_segment hex_canonical
        sample_snapshot_valid MAX_BYTES_def sample_dataflow_fields)
  have "bm_get (ir_reports sample_resolution) ''n1'' = Some sample_envelope"
    "bm_get (ir_public_keys sample_resolution) ''n1'' = Some ''key''" "ir_now_ms sample_resolution = 2000"
    "bm_get (ir_outputs sample_resolution) ''n1'' = Some sample_output"
    by (simp_all add: sample_resolution_def)
  then show ?thesis
    using sample_producer_converged
    by (simp add: node_output_def fresh identity target valid Let_def)
      (simp add: sample_catalog_release_def sample_output_def sample_producer_report_def sample_report_def
        sample_producer_def sample_deployment_def)
qed

lemma sample_resolved:
  "bm_get (resolve_group_inputs sample_publisher sample_dataflow sample_resolution sample_dataflow_groups) ''edge''
     = Some (with_inputs sample_consumer (Some [(''host'', ''db'')])
         \<lparr>is_generation = hex (CHR ''a''), is_object_sha256 = hex (CHR ''a''), is_files = [''host'']\<rparr>)"
proof -
  let ?res = "resolve_group_inputs sample_publisher sample_dataflow sample_resolution sample_dataflow_groups"
  have fp: "bm_get ?res n = map_option (resolve_one sample_publisher sample_dataflow sample_resolution ?res)
      (bm_get sample_dataflow_groups n)" for n
    by (rule resolve_fixed_point [OF sample_groups_wf sample_groups_well_formed]) simp
  have db: "bm_get ?res ''db'' = Some sample_producer"
    using fp [of "''db''"]
    by (simp add: sample_dataflow_groups_def resolve_one_def)
      (simp add: sample_producer_def with_inputs_def sample_deployment_def sample_runtime_def no_inputs_def)
  have prod: "producers sample_resolution ''db'' = [''n1'']"
    by (simp add: producers_def sample_resolution_def bm_has_def)
  have vals: "input_values sample_publisher sample_dataflow sample_resolution ?res (rg_inputs sample_consumer) []
      = Some [(''host'', ''db'')]"
    using sample_node_output by (simp add: sample_consumer_def input_value_def prod db)
  have s: "snapshot_validate sample_dataflow [(''host'', ''db'')] = Inr ()"
    by (simp add: sample_snapshot_valid MAX_BYTES_def)
  have valid: "input_validate sample_dataflow sample_publication = Inr ()"
    by (simp add: input_validate_def sample_publication_def INPUT_SCHEMA_def s hex_canonical sample_dataflow_fields)
  have "from_snapshot sample_dataflow [(''host'', ''db'')] (ir_dataflow_key sample_resolution) = Inr sample_publication"
    using valid
    by (simp add: from_snapshot_def opaque_generation_def s sample_dataflow_fields Let_def INPUT_SCHEMA_def
        sample_publication_def sample_resolution_def)
  moreover have "selection sample_dataflow sample_publication =
      Inr \<lparr>is_generation = hex (CHR ''a''), is_object_sha256 = hex (CHR ''a''), is_files = [''host'']\<rparr>"
    by (simp add: selection_def input_body_def valid sample_dataflow_fields)
      (simp add: sample_publication_def sample_dataflow_def)
  ultimately show ?thesis
    using fp [of "''edge''"] vals
    by (simp add: sample_dataflow_groups_def resolve_one_def) (simp add: sample_consumer_def)
qed

theorem resolved_inputs_proven_witness:
  "\<exists>producer. proven_output sample_publisher sample_resolution producer ''host'' ''n1'' ''db''"
proof -
  let ?res = "resolve_group_inputs sample_publisher sample_dataflow sample_resolution sample_dataflow_groups"
  let ?snap = "[(''host'', ''db'')]"
  have grp: "bm_get sample_dataflow_groups ''edge'' = Some sample_consumer"
    by (simp add: sample_dataflow_groups_def)
  have inputs: "bm_wf (rg_inputs sample_consumer)"
    by (simp add: sample_consumer_def bm_wf_def)
  have snap: "rg_input_snapshot (with_inputs sample_consumer (Some ?snap) sel) = Some ?snap" for sel
    by (simp add: with_inputs_def)
  have input: "bm_get (rg_inputs sample_consumer) ''host'' = Some \<lparr>gr_group = ''db'', gr_output = ''host''\<rparr>"
    by (simp add: sample_consumer_def)
  have "''n1'' \<in> set (producers sample_resolution ''db'')"
    by (simp add: producers_def sample_resolution_def bm_has_def)
  then show ?thesis
    using resolved_inputs_proven [OF sample_groups_wf sample_groups_well_formed _ grp inputs sample_resolved snap] input
    by fastforce
qed

end
