(* ===== verification/Publication.thy ===== *)
theory Publication
  imports Inputs
begin

text \<open>
  The publication a generation is signed as (\<^verbatim>\<open>crates/updatec/src/lib.rs\<close>): which group selects each
  node, and the content-addressed targets compiled from the deployment every node is handed.  The
  layout of object keys is that of \<^verbatim>\<open>crates/updated-contracts/src/telemetry.rs\<close>, the routing document
  that of \<^verbatim>\<open>artifact.rs\<close>.

  Parameters, the record \<open>document_lib\<close>: the JSON encoder and parser of the routing document, and the
  parser of a pinned root given as text.
\<close>

subsection \<open>Object keys\<close>

definition trim_slashes :: "string \<Rightarrow> string" where
  "trim_slashes s = rev (dropWhile (\<lambda>c. c = CHR ''/'') (rev (dropWhile (\<lambda>c. c = CHR ''/'') s)))"

definition ASSIGNMENT_AGENTS_SEGMENT :: string where
  "ASSIGNMENT_AGENTS_SEGMENT = ''/agents/''"

definition ASSIGNMENT_CONFIGS_SEGMENT :: string where
  "ASSIGNMENT_CONFIGS_SEGMENT = ''/configs/''"

definition assignment_object_key :: "string \<Rightarrow> string \<Rightarrow> string" where
  "assignment_object_key prefix node = trim_slashes prefix @ ASSIGNMENT_AGENTS_SEGMENT @ node @ ''.json''"

definition config_object_key :: "string \<Rightarrow> string \<Rightarrow> string" where
  "config_object_key prefix identity = trim_slashes prefix @ ASSIGNMENT_CONFIGS_SEGMENT @ identity @ ''.json''"

text \<open>\<^verbatim>\<open>str::strip_suffix\<close> and \<^verbatim>\<open>str::rsplit_once\<close>, which splits at the last occurrence.\<close>

definition strip_suffix :: "string \<Rightarrow> string \<Rightarrow> string option" where
  "strip_suffix suffix s = map_option rev (strip_prefix (rev suffix) (rev s))"

fun rsplit_once :: "string \<Rightarrow> string \<Rightarrow> (string \<times> string) option" where
  "rsplit_once pat [] = (if pat = [] then Some ([], []) else None)"
| "rsplit_once pat (x # xs) =
     (case rsplit_once pat xs of
        Some (before, after) \<Rightarrow> Some (x # before, after)
      | None \<Rightarrow> map_option (\<lambda>after. ([], after)) (strip_prefix pat (x # xs)))"

definition split_assignment_path :: "string \<Rightarrow> (string \<times> string) option" where
  "split_assignment_path assignment =
     (case strip_suffix ''.json'' assignment of
        None \<Rightarrow> None
      | Some stem \<Rightarrow>
          (case rsplit_once ASSIGNMENT_AGENTS_SEGMENT stem of
             None \<Rightarrow> None
           | Some (prefix, node) \<Rightarrow>
               if prefix \<noteq> [] \<and> is_dns_subdomain node then Some (prefix, node) else None))"

subsection \<open>The routing document\<close>

record AgentDocument =
  ag_schema :: u32
  ag_config :: TargetReference

record document_lib =
  xl_agent_json :: "AgentDocument \<Rightarrow> string option"
  xl_agent_parse :: "string \<Rightarrow> AgentDocument option"
  xl_root_parse :: "string \<Rightarrow> string option"

definition MAX_AGENT_DOCUMENT_BYTES :: nat where
  "MAX_AGENT_DOCUMENT_BYTES = 4 * 1024"

definition agent_validate :: "AgentDocument \<Rightarrow> bool" where
  "agent_validate a \<longleftrightarrow> ag_schema a = 1 \<and> target_is_valid (ag_config a)"

definition agent_to_bounded_json :: "document_lib \<Rightarrow> AgentDocument \<Rightarrow> PlanError + string" where
  "agent_to_bounded_json X a =
     (if \<not> agent_validate a then Inl Serialize
      else map_err (\<lambda>_. Serialize) (bounded_encode (xl_agent_json X) MAX_AGENT_DOCUMENT_BYTES a))"

definition agent_from_bounded_json :: "document_lib \<Rightarrow> string \<Rightarrow> PlanError + AgentDocument" where
  "agent_from_bounded_json X bytes =
     bind_e (map_err (\<lambda>_. Serialize) (bounded_decode (xl_agent_parse X) MAX_AGENT_DOCUMENT_BYTES bytes)) (\<lambda>document.
     bind_e (check_e (agent_validate document) Serialize) (\<lambda>_. Inr document))"

subsection \<open>Selecting a group for every node\<close>

record ResolvedNode =
  rn_name :: string
  rn_labels :: "string bmap"

fun index_groups :: "ResolvedGroup list \<Rightarrow> ResolvedGroup bmap \<Rightarrow> PlanError + ResolvedGroup bmap" where
  "index_groups [] indexed = Inr indexed"
| "index_groups (grp # groups) indexed =
     (let name = rg_name grp in
      if rg_match_labels grp = [] then Inl (EmptySelector name)
      else if name = DEFAULT_GROUP then Inl ReservedGroupName
      else if bm_has indexed name then Inl (DuplicateGroup name)
      else index_groups groups (bm_insert name grp indexed))"

definition matching :: "ResolvedGroup bmap \<Rightarrow> ResolvedNode \<Rightarrow> string list" where
  "matching indexed node =
     map fst (filter (\<lambda>(_, grp). selector_matches (rg_match_labels grp) (rn_labels node)) indexed)"

fun select_groups :: "ResolvedGroup bmap \<Rightarrow> ResolvedNode list \<Rightarrow> string bmap \<Rightarrow> PlanError + string bmap" where
  "select_groups indexed [] node_groups = Inr node_groups"
| "select_groups indexed (node # rest) node_groups =
     (let name = rn_name node in
      if \<not> is_dns_subdomain name \<or> bm_has node_groups name
      then Inl (if bm_has node_groups name then DuplicateNode name else InvalidNodeName)
      else (case matching indexed node of
              [] \<Rightarrow> select_groups indexed rest (bm_insert name DEFAULT_GROUP node_groups)
            | [only] \<Rightarrow> select_groups indexed rest (bm_insert name only node_groups)
            | groups \<Rightarrow> Inl (AmbiguousNode name groups)))"

definition resolve_node_groups :: "ResolvedGroup list \<Rightarrow> ResolvedNode list \<Rightarrow> PlanError + string bmap" where
  "resolve_node_groups groups ns =
     bind_e (index_groups groups []) (\<lambda>indexed. select_groups indexed ns [])"

subsection \<open>Compiling the targets\<close>

record PublicationTarget =
  pt_path :: string
  pt_bytes :: string
  pt_sha256 :: string

record PublicationPlan =
  pp_targets :: "PublicationTarget list"
  pp_node_groups :: "string bmap"
  pp_node_assignments :: "string bmap"
  pp_digest :: string

definition publication_target :: "publisher \<Rightarrow> string \<Rightarrow> string \<Rightarrow> PublicationTarget" where
  "publication_target P path bytes = \<lparr>pt_path = path, pt_bytes = bytes, pt_sha256 = pb_sha256 P bytes\<rparr>"

definition publication_digest :: "publisher \<Rightarrow> PublicationTarget list \<Rightarrow> string" where
  "publication_digest P targets =
     pb_sha256 P (concat (map (\<lambda>t. pt_path t @ [CHR 0x00] @ pt_bytes t @ [CHR 0x00]) targets))"

text \<open>The targets written so far, the configuration each identity is published at, and the identity of every node.\<close>

type_synonym compiled = "PublicationTarget list \<times> TargetReference bmap \<times> string bmap"

definition reference_config ::
  "publisher \<Rightarrow> string \<Rightarrow> string \<Rightarrow> string \<Rightarrow> PublicationTarget list \<times> TargetReference bmap
     \<Rightarrow> PublicationTarget list \<times> TargetReference bmap" where
  "reference_config P prefix identity bytes = (\<lambda>(targets, references).
     if bm_has references identity then (targets, references)
     else (let config = publication_target P (config_object_key prefix identity) bytes in
           (targets @ [config],
            bm_insert identity \<lparr>tr_path = pt_path config, tr_sha256 = pt_sha256 config\<rparr> references)))"

fun compile_nodes ::
  "publisher \<Rightarrow> document_lib \<Rightarrow> string \<Rightarrow> (string \<times> DesiredDeployment) list \<Rightarrow> compiled \<Rightarrow> PlanError + compiled" where
  "compile_nodes P X prefix [] acc = Inr acc"
| "compile_nodes P X prefix ((node, deployment) # rest) (targets, references, assignments) =
     bind_e (map_err InvalidDeployment (publication P deployment)) (\<lambda>(bytes, identity).
     let (targets, references) = reference_config P prefix identity bytes (targets, references) in
     bind_e (agent_to_bounded_json X \<lparr>ag_schema = 1, ag_config = the (bm_get references identity)\<rparr>) (\<lambda>bytes.
     compile_nodes P X prefix rest
       (targets @ [publication_target P (assignment_object_key prefix node) bytes], references,
        bm_insert node identity assignments)))"

definition build_publication_plan ::
  "publisher \<Rightarrow> document_lib \<Rightarrow> string \<Rightarrow> string bmap \<Rightarrow> DesiredDeployment bmap \<Rightarrow> PlanError + PublicationPlan" where
  "build_publication_plan P X assignment_prefix node_groups node_deployments =
     (let prefix = trim_slashes assignment_prefix in
      if \<not> is_confined_relative prefix then Inl InvalidPrefix
      else if bm_keys node_groups \<noteq> bm_keys node_deployments then Inl NodeDeploymentMismatch
      else bind_e (compile_nodes P X prefix node_deployments ([], [], [])) (\<lambda>(targets, _, assignments).
           let targets = sort_key pt_path targets in
           Inr \<lparr>pp_targets = targets, pp_node_groups = node_groups, pp_node_assignments = assignments,
                pp_digest = publication_digest P targets\<rparr>))"

subsection \<open>Lemmas on object keys\<close>

lemma strip_prefix_append [simp]: "strip_prefix p (p @ s) = Some s"
  by (induction p) auto

lemma strip_prefix_Some: "strip_prefix p s = Some r \<Longrightarrow> s = p @ r"
  by (induction p s rule: strip_prefix.induct) (auto split: if_splits)

lemma strip_suffix_append [simp]: "strip_suffix p (s @ p) = Some s"
  by (simp add: strip_suffix_def)

lemma rsplit_once_few:
  assumes "count_list s c < count_list pat c"
  shows "rsplit_once pat s = None"
  using assms
proof (induction s)
  case (Cons x xs)
  have "count_list (x # xs) c = count_list pat c + count_list r c" if "strip_prefix pat (x # xs) = Some r" for r
    using strip_prefix_Some [OF that] by (metis count_list_append)
  then have "strip_prefix pat (x # xs) = None"
    using Cons.prems by (metis leD le_add1 not_None_eq)
  moreover have "count_list xs c < count_list pat c"
    using Cons.prems by (auto split: if_splits)
  ultimately show ?case
    using Cons.IH by simp
qed auto

lemma rsplit_once_extend: "rsplit_once pat s = Some (a, b) \<Longrightarrow> rsplit_once pat (p @ s) = Some (p @ a, b)"
  by (induction p) auto

lemma count_list_notin: "c \<notin> set s \<Longrightarrow> count_list s c = 0"
  by (induction s) auto

lemma dns_no_slash:
  assumes "is_dns_subdomain node"
  shows "CHR ''/'' \<notin> set node"
proof
  assume "CHR ''/'' \<in> set node"
  then obtain label where "label \<in> set (split_on (CHR ''.'') node)" "CHR ''/'' \<in> set label"
    using set_split_on [of "CHR ''/''" node "CHR ''.''"] by auto
  moreover have "is_dns_label label"
    using assms calculation(1) by (simp add: is_dns_subdomain_def list_all_iff)
  ultimately have "is_ascii_lowercase (CHR ''/'') \<or> is_ascii_digit (CHR ''/'')"
    unfolding is_dns_label_def list_all_iff by fastforce
  then show False
    by (simp add: ascii_defs)
qed

lemma rsplit_agents:
  assumes "is_dns_subdomain node"
  shows "rsplit_once ASSIGNMENT_AGENTS_SEGMENT (prefix @ ASSIGNMENT_AGENTS_SEGMENT @ node) = Some (prefix, node)"
proof -
  have "rsplit_once ''/agents/'' (''agents/'' @ node) = None"
    by (rule rsplit_once_few [of _ "CHR ''/''"]) (simp add: count_list_notin [OF dns_no_slash [OF assms]])
  then have "rsplit_once ''/agents/'' (''/agents/'' @ node) = Some ([], node)"
    by simp
  then show ?thesis
    using rsplit_once_extend [of "''/agents/''" "''/agents/'' @ node" "[]" node prefix]
    by (simp add: ASSIGNMENT_AGENTS_SEGMENT_def)
qed

text \<open>The reader of a routing path recovers what the writer put in.\<close>

lemma split_assignment_roundtrip:
  assumes "trim_slashes prefix \<noteq> []" and "is_dns_subdomain node"
  shows "split_assignment_path (assignment_object_key prefix node) = Some (trim_slashes prefix, node)"
proof -
  have "assignment_object_key prefix node = (trim_slashes prefix @ ASSIGNMENT_AGENTS_SEGMENT @ node) @ ''.json''"
    by (simp add: assignment_object_key_def)
  then show ?thesis
    using assms by (simp only: split_assignment_path_def strip_suffix_append option.case rsplit_agents prod.case) simp
qed

lemma object_key_inject [simp]:
  "assignment_object_key prefix n = assignment_object_key prefix m \<longleftrightarrow> n = m"
  "config_object_key prefix i = config_object_key prefix j \<longleftrightarrow> i = j"
  "assignment_object_key prefix n \<noteq> config_object_key prefix i"
  "config_object_key prefix i \<noteq> assignment_object_key prefix n"
  by (simp_all add: assignment_object_key_def config_object_key_def ASSIGNMENT_AGENTS_SEGMENT_def
      ASSIGNMENT_CONFIGS_SEGMENT_def)

subsection \<open>What a compiled publication holds\<close>

text \<open>
  A configuration target stands where the identity of its own bytes says; a routing target names
  such a configuration by path and digest.
\<close>

definition config_target :: "publisher \<Rightarrow> string \<Rightarrow> string \<Rightarrow> PublicationTarget \<Rightarrow> bool" where
  "config_target P prefix identity t \<longleftrightarrow>
     pt_path t = config_object_key prefix identity \<and> pt_sha256 t = identity \<and> pb_sha256 P (pt_bytes t) = identity"

definition routing_target :: "document_lib \<Rightarrow> string \<Rightarrow> string \<Rightarrow> string \<Rightarrow> PublicationTarget \<Rightarrow> bool" where
  "routing_target X prefix node identity t \<longleftrightarrow>
     pt_path t = assignment_object_key prefix node
     \<and> agent_to_bounded_json X \<lparr>ag_schema = 1,
         ag_config = \<lparr>tr_path = config_object_key prefix identity, tr_sha256 = identity\<rparr>\<rparr> = Inr (pt_bytes t)"

definition compiled_ok :: "publisher \<Rightarrow> document_lib \<Rightarrow> string \<Rightarrow> compiled \<Rightarrow> bool" where
  "compiled_ok P X prefix = (\<lambda>(targets, references, assignments).
     distinct (map pt_path targets) \<and> bm_wf assignments
     \<and> (\<forall>identity r. bm_get references identity = Some r \<longrightarrow>
          r = \<lparr>tr_path = config_object_key prefix identity, tr_sha256 = identity\<rparr>
          \<and> (\<exists>t \<in> set targets. config_target P prefix identity t))
     \<and> (\<forall>node identity. bm_get assignments node = Some identity \<longrightarrow>
          bm_has references identity \<and> (\<exists>t \<in> set targets. routing_target X prefix node identity t))
     \<and> (\<forall>t \<in> set targets.
          (\<exists>identity. bm_has references identity \<and> config_target P prefix identity t)
          \<or> (\<exists>node identity. bm_get assignments node = Some identity \<and> routing_target X prefix node identity t)))"

lemma bm_has_insert: "bm_has (bm_insert k v m) x \<longleftrightarrow> x = k \<or> bm_has m x"
  by (simp add: bm_has_def)

lemma compiled_ok_empty [simp]: "compiled_ok P X prefix ([], [], [])"
  by (simp add: compiled_ok_def)

lemma compiled_paths:
  assumes ok: "compiled_ok P X prefix (targets, references, assignments)" and t: "t \<in> set targets"
  shows "pt_path t = config_object_key prefix i \<Longrightarrow> bm_has references i"
    and "pt_path t = assignment_object_key prefix n \<Longrightarrow> bm_has assignments n"
proof -
  have cases: "(\<exists>j. bm_has references j \<and> pt_path t = config_object_key prefix j)
      \<or> (\<exists>m. bm_has assignments m \<and> pt_path t = assignment_object_key prefix m)"
    using ok t unfolding compiled_ok_def prod.case config_target_def routing_target_def bm_has_def by fastforce
  then show "pt_path t = config_object_key prefix i \<Longrightarrow> bm_has references i"
    and "pt_path t = assignment_object_key prefix n \<Longrightarrow> bm_has assignments n"
    by auto
qed

lemma reference_config_ok:
  assumes ok: "compiled_ok P X prefix (targets, references, assignments)"
    and pub: "publication P d = Inr (bytes, i)"
    and step: "reference_config P prefix i bytes (targets, references) = (targets', references')"
  shows "compiled_ok P X prefix (targets', references', assignments)
     \<and> bm_get references' i = Some \<lparr>tr_path = config_object_key prefix i, tr_sha256 = i\<rparr>"
proof (cases "bm_has references i")
  case True
  then obtain r where "bm_get references i = Some r"
    by (auto simp: bm_has_def)
  then have "bm_get references i = Some \<lparr>tr_path = config_object_key prefix i, tr_sha256 = i\<rparr>"
    using ok unfolding compiled_ok_def prod.case by blast
  then show ?thesis
    using ok step True by (simp add: reference_config_def)
next
  case False
  have i: "pb_sha256 P bytes = i"
    using pub by (auto simp: publication_def)
  let ?t = "publication_target P (config_object_key prefix i) bytes"
  have target: "config_target P prefix i ?t"
    by (simp add: config_target_def publication_target_def i)
  have "pt_path ?t \<notin> pt_path ` set targets"
    using compiled_paths(1) [OF ok] False by (auto simp: publication_target_def)
  moreover have "targets' = targets @ [?t]"
    "references' = bm_insert i \<lparr>tr_path = config_object_key prefix i, tr_sha256 = i\<rparr> references"
    using step False by (simp_all add: reference_config_def publication_target_def i)
  ultimately show ?thesis
    using ok target unfolding compiled_ok_def prod.case by (auto simp: bm_has_insert split: if_splits)
qed

lemma route_node_ok:
  assumes ok: "compiled_ok P X prefix (targets, references, assignments)" and new: "\<not> bm_has assignments node"
    and ref: "bm_get references i = Some \<lparr>tr_path = config_object_key prefix i, tr_sha256 = i\<rparr>"
    and bytes: "agent_to_bounded_json X \<lparr>ag_schema = 1, ag_config = the (bm_get references i)\<rparr> = Inr bytes"
  shows "compiled_ok P X prefix (targets @ [publication_target P (assignment_object_key prefix node) bytes],
     references, bm_insert node i assignments)"
proof -
  let ?t = "publication_target P (assignment_object_key prefix node) bytes"
  have target: "routing_target X prefix node i ?t"
    using bytes ref by (simp add: routing_target_def publication_target_def)
  have "pt_path ?t \<notin> pt_path ` set targets"
    using compiled_paths(2) [OF ok] new by (auto simp: publication_target_def)
  moreover have "bm_has references i"
    using ref by (simp add: bm_has_def)
  moreover have "bm_get assignments node = None"
    using new by (simp add: bm_has_def)
  ultimately show ?thesis
    using ok target unfolding compiled_ok_def prod.case by (auto split: if_splits) (metis option.distinct(1))+
qed

lemma compile_nodes_ok:
  assumes "compile_nodes P X prefix entries acc = Inr acc'" and "compiled_ok P X prefix acc"
    and "distinct (map fst entries)" and "\<forall>n \<in> fst ` set entries. \<not> bm_has (snd (snd acc)) n"
  shows "compiled_ok P X prefix acc' \<and>
     bm_get (snd (snd acc')) = (\<lambda>n. case map_of entries n of
        Some d \<Rightarrow> deployment_identity P d | None \<Rightarrow> bm_get (snd (snd acc)) n)
     \<and> (\<forall>d \<in> snd ` set entries. deployment_identity P d \<noteq> None)"
  using assms
proof (induction entries arbitrary: acc)
  case (Cons entry rest)
  obtain node deployment targets references assignments where
    shape [simp]: "entry = (node, deployment)" "acc = (targets, references, assignments)"
    by (metis surj_pair)
  obtain bytes i targets' references' agent where
    pub: "publication P deployment = Inr (bytes, i)"
    and step: "reference_config P prefix i bytes (targets, references) = (targets', references')"
    and agent: "agent_to_bounded_json X \<lparr>ag_schema = 1, ag_config = the (bm_get references' i)\<rparr> = Inr agent"
    and rest: "compile_nodes P X prefix rest
      (targets' @ [publication_target P (assignment_object_key prefix node) agent], references',
       bm_insert node i assignments) = Inr acc'"
    using Cons.prems(1) by (auto split: prod.splits) (metis surj_pair)
  have ref: "compiled_ok P X prefix (targets', references', assignments)"
    "bm_get references' i = Some \<lparr>tr_path = config_object_key prefix i, tr_sha256 = i\<rparr>"
    using reference_config_ok [OF Cons.prems(2) [unfolded shape] pub step] by auto
  have ok: "compiled_ok P X prefix (targets' @ [publication_target P (assignment_object_key prefix node) agent],
      references', bm_insert node i assignments)"
    using route_node_ok [OF ref(1) _ ref(2) agent] Cons.prems(4) by simp
  have identity: "deployment_identity P deployment = Some i"
    by (simp add: deployment_identity_def pub)
  have fresh: "\<forall>n \<in> fst ` set rest. \<not> bm_has (bm_insert node i assignments) n"
    using Cons.prems(3,4) by (auto simp: bm_has_insert)
  have tail: "map_of rest node = None"
    using Cons.prems(3) by (simp add: map_of_eq_None_iff)
  show ?case
    using Cons.IH [OF rest ok] Cons.prems(3) fresh identity tail
    by (auto simp: fun_eq_iff split: option.splits)
qed auto

lemma compile_references:
  assumes "compile_nodes P X prefix entries acc = Inr acc'" and "bm_has (fst (snd acc')) i"
  shows "bm_has (fst (snd acc)) i \<or> (\<exists>d \<in> snd ` set entries. deployment_identity P d = Some i)"
  using assms
proof (induction entries arbitrary: acc)
  case (Cons entry rest)
  obtain node deployment targets references assignments where
    shape [simp]: "entry = (node, deployment)" "acc = (targets, references, assignments)"
    by (metis surj_pair)
  obtain bytes j targets' references' agent where
    pub: "publication P deployment = Inr (bytes, j)"
    and step: "reference_config P prefix j bytes (targets, references) = (targets', references')"
    and rest: "compile_nodes P X prefix rest
      (targets' @ [publication_target P (assignment_object_key prefix node) agent], references',
       bm_insert node j assignments) = Inr acc'"
    using Cons.prems(1) by (auto split: prod.splits) (metis surj_pair)
  have "bm_has references' i \<Longrightarrow> i = j \<or> bm_has references i"
    using step by (auto simp: reference_config_def Let_def bm_has_insert split: if_splits)
  moreover have "deployment_identity P deployment = Some j"
    by (simp add: deployment_identity_def pub)
  ultimately show ?case
    using Cons.IH [OF rest Cons.prems(2)] by auto
qed simp

lemma build_publication_Inr:
  assumes build: "build_publication_plan P X prefix node_groups deployments = Inr plan" and wf: "bm_wf deployments"
  shows "pp_node_groups plan = node_groups" and "bm_keys node_groups = bm_keys deployments"
    and "bm_wf (pp_node_assignments plan)"
    and "bm_get deployments node = Some d \<Longrightarrow>
      \<exists>i. deployment_identity P d = Some i \<and> bm_get (pp_node_assignments plan) node = Some i"
    and "bm_get (pp_node_assignments plan) node = Some i \<Longrightarrow>
      \<exists>d. bm_get deployments node = Some d \<and> deployment_identity P d = Some i"
    and "\<exists>references. compiled_ok P X (trim_slashes prefix) (pp_targets plan, references, pp_node_assignments plan)
      \<and> (\<forall>i. bm_has references i \<longrightarrow> (\<exists>n. bm_get (pp_node_assignments plan) n = Some i))"
    and "sorted (map pt_path (pp_targets plan))"
proof -
  obtain targets references assignments where
    keys: "bm_keys node_groups = bm_keys deployments"
    and comp: "compile_nodes P X (trim_slashes prefix) deployments ([], [], []) = Inr (targets, references, assignments)"
    and plan: "pp_targets plan = sort_key pt_path targets" "pp_node_groups plan = node_groups"
      "pp_node_assignments plan = assignments"
    using build by (auto simp: build_publication_plan_def Let_def split: if_splits prod.splits)
  have ok: "compiled_ok P X (trim_slashes prefix) (targets, references, assignments)"
    and get: "bm_get assignments = (\<lambda>n. case bm_get deployments n of Some d \<Rightarrow> deployment_identity P d | None \<Rightarrow> None)"
    and ids: "\<forall>d \<in> snd ` set deployments. deployment_identity P d \<noteq> None"
    using compile_nodes_ok [OF comp] bm_wf_distinct [OF wf]
    by (simp_all add: bm_has_def cong: option.case_cong)
  show "pp_node_groups plan = node_groups" "bm_keys node_groups = bm_keys deployments"
    "sorted (map pt_path (pp_targets plan))"
    by (simp_all add: plan keys)
  show "bm_wf (pp_node_assignments plan)"
    using ok by (simp add: plan compiled_ok_def)
  show some: "\<exists>i. deployment_identity P d = Some i \<and> bm_get (pp_node_assignments plan) node = Some i"
    if "bm_get deployments node = Some d" for node d
    using that ids map_of_SomeD [OF that] get by (force simp: plan)
  show "bm_get (pp_node_assignments plan) node = Some i \<Longrightarrow>
      \<exists>d. bm_get deployments node = Some d \<and> deployment_identity P d = Some i"
    by (auto simp: plan get split: option.splits)
  have "\<exists>n. bm_get (pp_node_assignments plan) n = Some i" if has: "bm_has references i" for i
  proof -
    obtain n d where "(n, d) \<in> set deployments" "deployment_identity P d = Some i"
      using compile_references [OF comp, of i] has by (auto simp: bm_has_def)
    then show ?thesis
      using some bm_get_iff [OF wf] by fastforce
  qed
  moreover have "distinct (map pt_path (sort_key pt_path targets)) = distinct (map pt_path targets)"
    by (simp add: distinct_map)
  ultimately show "\<exists>references. compiled_ok P X (trim_slashes prefix) (pp_targets plan, references, pp_node_assignments plan)
      \<and> (\<forall>i. bm_has references i \<longrightarrow> (\<exists>n. bm_get (pp_node_assignments plan) n = Some i))"
    using ok by (intro exI [of _ references]) (simp add: plan compiled_ok_def)
qed

lemma routing_read_back:
  assumes "\<And>a s. xl_agent_json X a = Some s \<Longrightarrow> xl_agent_parse X s = Some a" and "routing_target X prefix node i t"
  shows "agent_from_bounded_json X (pt_bytes t) =
     Inr \<lparr>ag_schema = 1, ag_config = \<lparr>tr_path = config_object_key prefix i, tr_sha256 = i\<rparr>\<rparr>"
  using assms
  by (auto simp: routing_target_def agent_to_bounded_json_def agent_from_bounded_json_def bounded_decode_def
      bounded_check_def check_e_def split: if_splits)

text \<open>
  C34.  A publication is closed and content addressed.  Whenever compiling the targets succeeds, their
  paths are sorted and all distinct; every node that is handed a deployment is assigned the
  deployment's identity and has a routing target of its own, and the document in it, read back the
  way an agent reads it, names a configuration target of the same publication by its path and the
  digest of its bytes, which is that identity; and nothing else is published: every target routes
  some assigned node or is the configuration some node is assigned.
\<close>

theorem publication_closed:
  assumes build: "build_publication_plan P X prefix node_groups deployments = Inr plan" and wf: "bm_wf deployments"
    and parse: "\<And>a s. xl_agent_json X a = Some s \<Longrightarrow> xl_agent_parse X s = Some a"
  shows "sorted (map pt_path (pp_targets plan)) \<and> distinct (map pt_path (pp_targets plan))
     \<and> (\<forall>node d. bm_get deployments node = Some d \<longrightarrow>
          (\<exists>identity. deployment_identity P d = Some identity
             \<and> bm_get (pp_node_assignments plan) node = Some identity
             \<and> (\<exists>agent \<in> set (pp_targets plan). \<exists>config \<in> set (pp_targets plan).
                  pt_path agent = assignment_object_key (trim_slashes prefix) node
                  \<and> agent_from_bounded_json X (pt_bytes agent)
                      = Inr \<lparr>ag_schema = 1, ag_config = \<lparr>tr_path = pt_path config, tr_sha256 = identity\<rparr>\<rparr>
                  \<and> pb_sha256 P (pt_bytes config) = identity)))
     \<and> (\<forall>t \<in> set (pp_targets plan). \<exists>node identity. bm_get (pp_node_assignments plan) node = Some identity
          \<and> (pt_path t = assignment_object_key (trim_slashes prefix) node
             \<or> pt_path t = config_object_key (trim_slashes prefix) identity))"
proof -
  note facts = build_publication_Inr [OF build wf]
  obtain references where ok: "compiled_ok P X (trim_slashes prefix) (pp_targets plan, references, pp_node_assignments plan)"
    and used: "\<And>i. bm_has references i \<Longrightarrow> \<exists>n. bm_get (pp_node_assignments plan) n = Some i"
    using facts(6) by blast
  have "\<exists>agent \<in> set (pp_targets plan). \<exists>config \<in> set (pp_targets plan).
      pt_path agent = assignment_object_key (trim_slashes prefix) node
      \<and> agent_from_bounded_json X (pt_bytes agent)
          = Inr \<lparr>ag_schema = 1, ag_config = \<lparr>tr_path = pt_path config, tr_sha256 = i\<rparr>\<rparr>
      \<and> pb_sha256 P (pt_bytes config) = i"
    if node: "bm_get (pp_node_assignments plan) node = Some i" for node i
  proof -
    obtain agent config where agent: "agent \<in> set (pp_targets plan)" "routing_target X (trim_slashes prefix) node i agent"
      and config: "config \<in> set (pp_targets plan)" "config_target P (trim_slashes prefix) i config"
      using ok node unfolding compiled_ok_def prod.case bm_has_def by (metis not_None_eq)
    moreover have "agent_from_bounded_json X (pt_bytes agent) =
        Inr \<lparr>ag_schema = 1, ag_config = \<lparr>tr_path = pt_path config, tr_sha256 = i\<rparr>\<rparr>"
      using routing_read_back [OF parse agent(2)] config(2) by (simp add: config_target_def)
    ultimately show ?thesis
      unfolding config_target_def routing_target_def by blast
  qed
  moreover have "\<exists>node i. bm_get (pp_node_assignments plan) node = Some i
      \<and> (pt_path t = assignment_object_key (trim_slashes prefix) node
         \<or> pt_path t = config_object_key (trim_slashes prefix) i)" if "t \<in> set (pp_targets plan)" for t
    using ok used that unfolding compiled_ok_def prod.case config_target_def routing_target_def by metis
  moreover have "distinct (map pt_path (pp_targets plan))"
    using ok by (simp add: compiled_ok_def)
  ultimately show ?thesis
    using facts(4,7) by blast
qed

definition sample_document :: AgentDocument where
  "sample_document = \<lparr>ag_schema = 1,
     ag_config = \<lparr>tr_path = config_object_key ''assignments'' (hex (CHR ''c'')), tr_sha256 = hex (CHR ''c'')\<rparr>\<rparr>"

definition sample_documents :: document_lib where
  "sample_documents =
     \<lparr>xl_agent_json = (\<lambda>a. if a = sample_document then Some ''{}'' else None),
      xl_agent_parse = (\<lambda>_. Some sample_document), xl_root_parse = Some\<rparr>"

definition sample_handed :: "DesiredDeployment bmap" where
  "sample_handed = [(''n1'', rg_deployment sample_producer), (''n2'', rg_deployment sample_producer)]"

lemma sample_prefix: "trim_slashes ''assignments'' = ''assignments''" "is_confined_relative ''assignments''"
  by code_simp+

lemma sample_config_key: "is_confined_relative (config_object_key ''assignments'' (hex (CHR ''c'')))"
  "length (config_object_key ''assignments'' (hex (CHR ''c''))) \<le> MAX_PATH_BYTES"
  by code_simp+

lemma sample_handed_publication:
  "publication sample_publisher (rg_deployment sample_producer) = Inr (hex (CHR ''c''), hex (CHR ''c''))"
proof -
  obtain bytes where b: "publication sample_publisher (rg_deployment sample_producer) = Inr (bytes, hex (CHR ''c''))"
    using sample_producer_identity
    by (auto simp: sample_producer_def deployment_identity_def split: sum.splits prod.splits)
  then have "pb_sha256 sample_publisher bytes = hex (CHR ''c'')"
    by (auto simp: publication_def)
  then show ?thesis
    using b by (simp add: sample_publisher_def)
qed

lemma sample_document_written: "agent_to_bounded_json sample_documents sample_document = Inr ''{}''"
proof -
  have "agent_validate sample_document"
    using sample_config_key hex_canonical(2) by (simp add: agent_validate_def sample_document_def target_is_valid_def)
  then show ?thesis
    by (simp add: agent_to_bounded_json_def)
      (simp add: bounded_encode_def bounded_check_def sample_documents_def MAX_AGENT_DOCUMENT_BYTES_def check_e_def)
qed

theorem publication_closed_witness:
  "\<exists>plan. build_publication_plan sample_publisher sample_documents ''/assignments/''
       [(''n1'', ''db''), (''n2'', ''db'')] sample_handed = Inr plan
     \<and> length (pp_targets plan) = 3 \<and> distinct (map pt_path (pp_targets plan))
     \<and> bm_get (pp_node_assignments plan) ''n2'' = Some (hex (CHR ''c''))"
proof -
  let ?P = sample_publisher and ?X = sample_documents and ?i = "hex (CHR ''c'')"
  have trim: "trim_slashes ''/assignments/'' = ''assignments''"
    by code_simp
  have doc: "agent_to_bounded_json ?X \<lparr>ag_schema = 1, ag_config = \<lparr>tr_path = config_object_key ''assignments'' ?i, tr_sha256 = ?i\<rparr>\<rparr>
      = Inr ''{}''"
    using sample_document_written by (simp add: sample_document_def)
  have sha: "pb_sha256 ?P = (\<lambda>bytes. bytes)"
    by (simp add: sample_publisher_def)
  obtain plan where plan: "build_publication_plan ?P ?X ''/assignments/'' [(''n1'', ''db''), (''n2'', ''db'')] sample_handed = Inr plan"
    and n: "length (pp_targets plan) = 3"
    by (simp add: build_publication_plan_def trim sample_prefix(2) sample_handed_def sample_handed_publication
        reference_config_def publication_target_def bm_has_def sha doc map_err_def Let_def)
  have wf: "bm_wf sample_handed"
    by (simp add: sample_handed_def bm_wf_def)
  have parse: "xl_agent_json ?X a = Some s \<Longrightarrow> xl_agent_parse ?X s = Some a" for a s
    by (simp add: sample_documents_def split: if_splits)
  have get: "bm_get sample_handed ''n2'' = Some (rg_deployment sample_producer)"
    by (simp add: sample_handed_def)
  have "deployment_identity ?P (rg_deployment sample_producer) = Some ?i"
    by (simp add: deployment_identity_def sample_handed_publication)
  then have "distinct (map pt_path (pp_targets plan)) \<and> bm_get (pp_node_assignments plan) ''n2'' = Some ?i"
    using publication_closed [OF plan wf parse] get by (metis option.inject)
  then show ?thesis
    using plan n by blast
qed

end
