(* ===== verification/Reconcile.thy ===== *)
theory Reconcile
  imports Publication Rollout_Verdict
begin

text \<open>
  One reconcile pass of the control plane (\<^verbatim>\<open>crates/updatec/src/domain.rs\<close>): from the desired
  inventory and the observed telemetry to a publication and a new durable admission state.  The
  definitions follow \<^verbatim>\<open>plan_reconcile\<close> top to bottom; the two memories it borrows mutably, the
  observation log and the verified reports, are returned beside its result, also when it fails.
\<close>

subsection \<open>Desired and observed state\<close>

record ReleaseRepositorySpec =
  rs_metadata_url :: string
  rs_targets_url :: string
  rs_root_json :: string

record RuntimeSpec =
  sp_product :: string
  sp_channel :: string
  sp_install_root :: string
  sp_repository :: ManagedRepositoryLimits
  sp_storage :: ManagedStorage
  sp_timeouts :: ManagedTimeouts

record DeploymentSpec =
  dp_name :: string
  dp_release_repository :: ReleaseRepositorySpec
  dp_application :: ReleaseGraph
  dp_runtime :: RuntimeSpec

text \<open>The two fields of the repository resource a pass reads.\<close>

record UpdateRepositorySpec =
  ur_default_deployment :: DeploymentSpec
  ur_assignment_prefix :: string

record DesiredState =
  de_repository :: UpdateRepositorySpec
  de_groups :: "ResolvedGroup bmap"
  de_group_labels :: "string bmap bmap"
  de_sets :: "UpdateGroupSet list"
  de_nodes :: "ResolvedNode list"
  de_quarantined :: "string bmap bmap"
  de_holds :: "string set"
  de_cordons :: "string set"
  de_blocked_deployments :: "string set"
  de_held :: "AdmittedDeployment bmap"

record ObservedState =
  os_reports :: "Envelope bmap"
  os_outputs :: "ExactOutputPublication bmap"
  os_dataflow_key :: string
  os_public_keys :: "P256PublicKey bmap"
  os_admitted :: "AdmittedDeployment bmap"
  os_vetoed :: "VetoedDeployment bmap"
  os_routing :: "string bmap"
  os_assignments :: "string bmap"
  os_now :: moment

record ReconcilePlan =
  rc_publication :: PublicationPlan
  rc_desired_deployments :: "DesiredDeployment bmap"
  rc_blocked :: "string set"
  rc_input_snapshots :: "FileSnapshot bmap"
  rc_admitted :: "AdmittedDeployment bmap"
  rc_vetoed :: "VetoedDeployment bmap"
  rc_routing :: "string bmap"
  rc_assignments :: "string bmap"
  rc_set_statuses :: "SetStatus list"
  rc_groups :: "GroupProgress bmap"
  rc_node_counts :: "GroupNodes bmap"
  rc_halted_groups :: "HaltedDeployment bmap"

definition try_from :: "publisher \<Rightarrow> document_lib \<Rightarrow> DeploymentSpec \<Rightarrow> PlanError + DesiredDeployment" where
  "try_from P X spec =
     (case xl_root_parse X (rs_root_json (dp_release_repository spec)) of
        None \<Rightarrow> Inl RootJsonInvalid
      | Some release_root \<Rightarrow>
          let runtime = dp_runtime spec;
              desired = \<lparr>as_schema = SCHEMA, as_deployment = dp_name spec,
                as_metadata_url = rs_metadata_url (dp_release_repository spec),
                as_targets_url = rs_targets_url (dp_release_repository spec),
                as_application = dp_application spec, as_release_root = release_root,
                as_runtime = \<lparr>rt_product = sp_product runtime, rt_channel = sp_channel runtime,
                  rt_install_root = sp_install_root runtime, rt_inputs = no_inputs,
                  rt_repository = sp_repository runtime, rt_storage = sp_storage runtime,
                  rt_timeouts = sp_timeouts runtime\<rparr>\<rparr>
          in bind_e (map_err InvalidDeployment (assignment_validate P desired)) (\<lambda>_. Inr desired))"

subsection \<open>Quarantine and the default cohort\<close>

definition quarantined_group :: "DesiredState \<Rightarrow> ResolvedNode \<Rightarrow> string \<Rightarrow> string option" where
  "quarantined_group desired node selected_group =
     (if selected_group \<noteq> DEFAULT_GROUP then None
      else map_option fst
        (find (\<lambda>(_, selector). selector \<noteq> [] \<and> selector_matches selector (rn_labels node)) (de_quarantined desired)))"

definition quarantined_nodes :: "DesiredState \<Rightarrow> string bmap \<Rightarrow> string bmap" where
  "quarantined_nodes desired node_groups =
     bm_collect (List.map_filter (\<lambda>node.
       map_option (Pair (rn_name node)) (quarantined_group desired node (the (bm_get node_groups (rn_name node)))))
       (de_nodes desired))"

definition hand_default ::
  "DesiredDeployment \<Rightarrow> bool \<Rightarrow> string bmap \<Rightarrow> string set \<Rightarrow> string bmap \<Rightarrow> DesiredDeployment bmap
     \<Rightarrow> DesiredDeployment bmap" where
  "hand_default dflt default_blocked quarantined holds node_groups deployments =
     fold (\<lambda>(node, selected) deployments.
             if selected = DEFAULT_GROUP \<and> \<not> bm_has quarantined node \<and> node \<notin> holds \<and> \<not> default_blocked
             then bm_insert node dflt deployments else deployments) node_groups deployments"

definition restore_held :: "AdmittedDeployment bmap \<Rightarrow> AdmittedDeployment bmap \<Rightarrow> AdmittedDeployment bmap" where
  "restore_held held admitted =
     fold (\<lambda>(name, state) admitted. if name = DEFAULT_GROUP then admitted else bm_insert name state admitted)
       held admitted"

definition record_default ::
  "publisher \<Rightarrow> DesiredDeployment \<Rightarrow> AdmittedDeployment bmap \<Rightarrow> AdmittedDeployment bmap" where
  "record_default P dflt admitted =
     (case deployment_identity P dflt of
        None \<Rightarrow> admitted
      | Some identity \<Rightarrow>
          (case bm_get admitted DEFAULT_GROUP of
             None \<Rightarrow> bm_insert DEFAULT_GROUP \<lparr>ad_current = dflt, ad_previous = []\<rparr> admitted
           | Some state \<Rightarrow>
               if deployment_identity P (ad_current state) \<noteq> Some identity
               then (let superseded = ad_current state;
                         previous = (if superseded \<in> set (ad_previous state) then ad_previous state
                                     else superseded # ad_previous state)
                     in bm_insert DEFAULT_GROUP \<lparr>ad_current = dflt, ad_previous = previous\<rparr> admitted)
               else admitted))"

subsection \<open>Carrying routing forward\<close>

definition placed_deployment :: "string option \<Rightarrow> DesiredDeployment bmap \<Rightarrow> DesiredDeployment option" where
  "placed_deployment assigned by_identity = Option.bind assigned (bm_get by_identity)"

record carry_context =
  cc_desired :: DesiredState
  cc_observed :: ObservedState
  cc_quarantined :: "string bmap"
  cc_default :: DesiredDeployment
  cc_default_blocked :: bool
  cc_admitted :: "AdmittedDeployment bmap"
  cc_bodies :: "DesiredDeployment bmap"

definition last_routing :: "carry_context \<Rightarrow> DesiredDeployment bmap \<Rightarrow> string \<Rightarrow> string \<Rightarrow> string option" where
  "last_routing c deployments node grp =
     (case bm_get (os_routing (cc_observed c)) node of
        None \<Rightarrow> None
      | Some last_group \<Rightarrow>
          if \<not> bm_has deployments node
             \<or> (grp = DEFAULT_GROUP \<and> bm_get (de_quarantined (cc_desired c)) last_group = Some [])
          then Some last_group else None)"

definition carried ::
  "carry_context \<Rightarrow> DesiredDeployment bmap \<Rightarrow> string \<Rightarrow> string \<Rightarrow> PlanError + (string \<times> DesiredDeployment) option" where
  "carried c deployments node grp =
     (case last_routing c deployments node grp of
        None \<Rightarrow> Inr None
      | Some last_group \<Rightarrow>
          if bm_has (cc_quarantined c) node \<or> node \<in> de_holds (cc_desired c)
             \<or> (cc_default_blocked c \<and> last_group = DEFAULT_GROUP)
             \<or> (last_group \<noteq> DEFAULT_GROUP \<and> bm_has (cc_admitted c) last_group)
          then (case placed_deployment (bm_get (os_assignments (cc_observed c)) node) (cc_bodies c) of
                  None \<Rightarrow> Inl (UnknownPlacement node last_group)
                | Some deployment \<Rightarrow> Inr (Some (last_group, deployment)))
          else if last_group = DEFAULT_GROUP then Inr (Some (last_group, cc_default c))
          else Inr None)"

fun publish_nodes ::
  "carry_context \<Rightarrow> (string \<times> string) list \<Rightarrow> DesiredDeployment bmap \<times> string bmap
     \<Rightarrow> PlanError + DesiredDeployment bmap \<times> string bmap" where
  "publish_nodes c [] st = Inr st"
| "publish_nodes c ((node, grp) # rest) (deployments, published) =
     bind_e (carried c deployments node grp) (\<lambda>r.
       case r of
         Some (last_group, deployment) \<Rightarrow>
           publish_nodes c rest (bm_insert node deployment deployments, bm_insert node last_group published)
       | None \<Rightarrow>
           if bm_has deployments node then publish_nodes c rest (deployments, bm_insert node grp published)
           else publish_nodes c rest (deployments, published))"

definition dropped_nodes :: "ObservedState \<Rightarrow> string bmap \<Rightarrow> string bmap \<Rightarrow> string list" where
  "dropped_nodes observed node_groups published =
     filter (\<lambda>node. bm_has node_groups node \<and> \<not> bm_has published node) (bm_keys (os_routing observed))"

subsection \<open>The pass\<close>

definition input_snapshots_of :: "ResolvedGroup bmap \<Rightarrow> FileSnapshot bmap" where
  "input_snapshots_of groups =
     bm_collect (List.map_filter (\<lambda>grp.
       map_option (Pair (is_generation (rt_inputs (as_runtime (rg_deployment grp))))) (rg_input_snapshot grp))
       (bm_values groups))"

definition resolution_of :: "DesiredState \<Rightarrow> ObservedState \<Rightarrow> string bmap \<Rightarrow> VerifiedReports \<Rightarrow> InputResolution" where
  "resolution_of desired observed node_groups verified =
     \<lparr>ir_node_groups = node_groups, ir_reports = os_reports observed, ir_outputs = os_outputs observed,
      ir_public_keys = os_public_keys observed, ir_verified = verified, ir_cordons = de_cordons desired,
      ir_now_ms = word_of_int (timestamp_millis (os_now observed)), ir_dataflow_key = os_dataflow_key observed\<rparr>"

definition rollout_inputs_of ::
  "DesiredState \<Rightarrow> ObservedState \<Rightarrow> string bmap \<Rightarrow> ResolvedGroup bmap \<Rightarrow> DesiredDeployment \<Rightarrow> RolloutInputs" where
  "rollout_inputs_of desired observed node_groups groups dflt =
     \<lparr>ri_groups = groups, ri_group_labels = de_group_labels desired, ri_node_groups = node_groups,
      ri_reports = os_reports observed, ri_public_keys = os_public_keys observed,
      ri_published = os_assignments observed, ri_held = de_held desired, ri_holds = de_holds desired,
      ri_cordons = de_cordons desired, ri_blocked_deployments = de_blocked_deployments desired,
      ri_default_deployment = dflt\<rparr>"

text \<open>What follows the rollout planner: default cohort, restored pins, carried routing, publication.\<close>

definition default_blocked_of :: "publisher \<Rightarrow> DesiredDeployment \<Rightarrow> RolloutPlan \<Rightarrow> bool" where
  "default_blocked_of P dflt rollout =
     (case deployment_identity P dflt of None \<Rightarrow> False | Some identity \<Rightarrow> identity \<in> rp_blocked rollout)"

definition handed_of ::
  "publisher \<Rightarrow> DesiredState \<Rightarrow> string bmap \<Rightarrow> DesiredDeployment \<Rightarrow> RolloutPlan \<Rightarrow> DesiredDeployment bmap" where
  "handed_of P desired node_groups dflt rollout =
     hand_default dflt (default_blocked_of P dflt rollout) (quarantined_nodes desired node_groups) (de_holds desired)
       node_groups (rp_node_deployments rollout)"

definition admitted_of ::
  "publisher \<Rightarrow> DesiredState \<Rightarrow> DesiredDeployment \<Rightarrow> RolloutPlan \<Rightarrow> PlannerState \<Rightarrow> AdmittedDeployment bmap" where
  "admitted_of P desired dflt rollout st =
     (let restored = restore_held (de_held desired) (ps_admitted st)
      in if default_blocked_of P dflt rollout then restored else record_default P dflt restored)"

definition context_of ::
  "publisher \<Rightarrow> DesiredState \<Rightarrow> ObservedState \<Rightarrow> string bmap \<Rightarrow> DesiredDeployment \<Rightarrow> RolloutPlan \<Rightarrow> PlannerState
     \<Rightarrow> carry_context" where
  "context_of P desired observed node_groups dflt rollout st =
     \<lparr>cc_desired = desired, cc_observed = observed, cc_quarantined = quarantined_nodes desired node_groups,
      cc_default = dflt, cc_default_blocked = default_blocked_of P dflt rollout,
      cc_admitted = admitted_of P desired dflt rollout st,
      cc_bodies = bodies_by_identity P (bm_values (admitted_of P desired dflt rollout st))\<rparr>"

definition settle_pass ::
  "publisher \<Rightarrow> document_lib \<Rightarrow> DesiredState \<Rightarrow> ObservedState \<Rightarrow> string bmap \<Rightarrow> ResolvedGroup bmap
     \<Rightarrow> DesiredDeployment \<Rightarrow> RolloutPlan \<Rightarrow> PlannerState \<Rightarrow> PlanError + ReconcilePlan" where
  "settle_pass P X desired observed node_groups groups dflt rollout st =
     bind_e (publish_nodes (context_of P desired observed node_groups dflt rollout st) node_groups
               (handed_of P desired node_groups dflt rollout, [])) (\<lambda>(deployments, published).
         let dropped = dropped_nodes observed node_groups published in
         if dropped \<noteq> [] then Inl (RoutingLoss dropped)
         else bind_e (build_publication_plan P X (ur_assignment_prefix (de_repository desired)) published deployments)
           (\<lambda>publication.
              Inr \<lparr>rc_publication = publication,
                   rc_desired_deployments = desired_of groups, rc_blocked = rp_blocked rollout,
                   rc_input_snapshots = input_snapshots_of groups,
                   rc_admitted = admitted_of P desired dflt rollout st,
                   rc_vetoed = ps_vetoed st, rc_routing = pp_node_groups publication,
                   rc_assignments = pp_node_assignments publication, rc_set_statuses = rp_sets rollout,
                   rc_groups = rp_groups rollout, rc_node_counts = rp_node_counts rollout,
                   rc_halted_groups = rp_halted_groups rollout\<rparr>))"

definition plan_reconcile ::
  "publisher \<Rightarrow> calendar_lib \<Rightarrow> report_lib \<Rightarrow> dataflow_lib \<Rightarrow> document_lib \<Rightarrow> DesiredState \<Rightarrow> ObservedState
     \<Rightarrow> ObservationLog \<times> VerifiedReports
     \<Rightarrow> ((PlanError + ReconcilePlan) \<times> ObservationLog \<times> VerifiedReports) option" where
  "plan_reconcile P C L D X desired observed memory =
     (let (attempts, verified) = memory in
      case validate_dependency_graph D (de_groups desired) (set (bm_keys (de_quarantined desired))) of
        None \<Rightarrow> None
      | Some (Inl e) \<Rightarrow> Some (Inl e, attempts, verified)
      | Some (Inr _) \<Rightarrow>
          (case resolve_node_groups (bm_values (de_groups desired)) (de_nodes desired) of
             Inl e \<Rightarrow> Some (Inl e, attempts, verified)
           | Inr node_groups \<Rightarrow>
               let verified = verify_fleet P L (os_reports observed) (os_public_keys observed) verified;
                   groups = resolve_group_inputs P D (resolution_of desired observed node_groups verified)
                              (de_groups desired)
               in (case try_from P X (ur_default_deployment (de_repository desired)) of
                     Inl e \<Rightarrow> Some (Inl e, attempts, verified)
                   | Inr dflt \<Rightarrow>
                       let (rollout, st) =
                             plan_rollouts P C L (de_sets desired)
                               (rollout_inputs_of desired observed node_groups groups dflt) (os_now observed)
                               \<lparr>ps_admitted = os_admitted observed, ps_vetoed = os_vetoed observed,
                                ps_observed = attempts, ps_verified = verified\<rparr>
                       in Some (settle_pass P X desired observed node_groups groups dflt rollout st,
                                ps_observed st, ps_verified st))))"

subsection \<open>Selecting groups\<close>

lemma index_groups_Inr:
  assumes "index_groups gs indexed = Inr indexed'"
  shows "\<forall>grp \<in> set gs. rg_name grp \<noteq> DEFAULT_GROUP \<and> rg_match_labels grp \<noteq> []"
  using assms by (induction gs arbitrary: indexed) (auto simp: Let_def split: if_splits)

lemma select_groups_Inr:
  assumes "select_groups indexed ns acc = Inr node_groups" and "bm_wf acc"
  shows "bm_wf node_groups \<and> set (bm_keys node_groups) = set (bm_keys acc) \<union> rn_name ` set ns"
  using assms
  by (induction indexed ns acc rule: select_groups.induct)
    (auto simp: Let_def simp del: set_map split: if_splits list.splits)

lemma resolve_node_groups_Inr:
  assumes "resolve_node_groups gs ns = Inr node_groups"
  shows "bm_wf node_groups" and "set (bm_keys node_groups) = rn_name ` set ns"
    and "\<forall>grp \<in> set gs. rg_name grp \<noteq> DEFAULT_GROUP"
proof -
  obtain indexed where indexed: "index_groups gs [] = Inr indexed" "select_groups indexed ns [] = Inr node_groups"
    using assms by (auto simp: resolve_node_groups_def)
  show "\<forall>grp \<in> set gs. rg_name grp \<noteq> DEFAULT_GROUP"
    using index_groups_Inr [OF indexed(1)] by blast
  show "bm_wf node_groups" "set (bm_keys node_groups) = rn_name ` set ns"
    using select_groups_Inr [OF indexed(2)] by simp_all
qed

subsection \<open>Carrying and publishing\<close>

lemma carried_cong: "bm_has ds n = bm_has ds' n \<Longrightarrow> carried c ds n grp = carried c ds' n grp"
  by (simp add: carried_def last_routing_def cong: option.case_cong)

definition settled_as ::
  "carry_context \<Rightarrow> DesiredDeployment bmap \<Rightarrow> DesiredDeployment bmap \<times> string bmap \<Rightarrow> string \<Rightarrow> string \<Rightarrow> bool" where
  "settled_as c ds = (\<lambda>(ds', published) n grp. \<exists>r. carried c ds n grp = Inr r \<and>
     (case r of
        Some (last_group, d) \<Rightarrow> bm_get ds' n = Some d \<and> bm_get published n = Some last_group
      | None \<Rightarrow> bm_get ds' n = bm_get ds n \<and> bm_get published n = (if bm_has ds n then Some grp else None)))"

lemma publish_nodes_Inr:
  assumes "publish_nodes c entries (ds, pub) = Inr (ds', pub')" and "distinct (map fst entries)"
    and "\<forall>n \<in> fst ` set entries. bm_get pub n = None"
  shows "(\<forall>(n, grp) \<in> set entries. settled_as c ds (ds', pub') n grp)
     \<and> (\<forall>n. n \<notin> fst ` set entries \<longrightarrow> bm_get ds' n = bm_get ds n \<and> bm_get pub' n = bm_get pub n)
     \<and> (bm_wf ds \<longrightarrow> bm_wf ds') \<and> (bm_wf pub \<longrightarrow> bm_wf pub')"
  using assms
proof (induction entries arbitrary: ds pub)
  case (Cons entry rest)
  obtain node grp where entry: "entry = (node, grp)"
    by (cases entry)
  have fresh: "node \<notin> fst ` set rest" "distinct (map fst rest)" "bm_get pub node = None"
    using Cons.prems(2,3) by (auto simp: entry)
  obtain r where r: "carried c ds node grp = Inr r"
    using Cons.prems(1) by (auto simp: entry)
  define ds1 where "ds1 = (case r of Some (_, d) \<Rightarrow> bm_insert node d ds | None \<Rightarrow> ds)"
  define pub1 where "pub1 = (case r of Some (l, _) \<Rightarrow> bm_insert node l pub
     | None \<Rightarrow> if bm_has ds node then bm_insert node grp pub else pub)"
  have rest: "publish_nodes c rest (ds1, pub1) = Inr (ds', pub')"
    using Cons.prems(1) by (auto simp: entry r ds1_def pub1_def split: option.splits if_splits)
  have other: "bm_get ds1 n = bm_get ds n" "bm_get pub1 n = bm_get pub n" if "n \<noteq> node" for n
    using that by (auto simp: ds1_def pub1_def split: option.splits)
  have pub1: "\<forall>n \<in> fst ` set rest. bm_get pub1 n = None"
    using Cons.prems(3) other(2) fresh(1) by (metis (no_types, opaque_lifting) entry image_eqI list.set_intros(2) image_iff)
  note IH = Cons.IH [OF rest fresh(2) pub1]
  have "settled_as c ds (ds', pub') node grp"
    using IH fresh r by (auto simp: settled_as_def ds1_def pub1_def split: option.splits)
  moreover have "settled_as c ds (ds', pub') n g" if "(n, g) \<in> set rest" for n g
  proof -
    have n: "n \<noteq> node"
      using that fresh(1) by force
    have has: "bm_has ds1 n = bm_has ds n"
      using other(1) [OF n] by (simp add: bm_has_def)
    have "settled_as c ds1 (ds', pub') n g"
      using IH that by auto
    then show ?thesis
      unfolding settled_as_def prod.case has other(1) [OF n] carried_cong [OF has] .
  qed
  moreover have "(bm_wf ds \<longrightarrow> bm_wf ds1) \<and> (bm_wf pub \<longrightarrow> bm_wf pub1)"
    by (auto simp: ds1_def pub1_def split: option.splits)
  ultimately show ?case
    using IH other by (auto simp: entry)
qed auto

lemma publish_nodes_Inl:
  assumes "publish_nodes c entries (ds, pub) = Inl e" and "distinct (map fst entries)"
  shows "\<exists>(n, grp) \<in> set entries. carried c ds n grp = Inl e"
  using assms
proof (induction entries arbitrary: ds pub)
  case (Cons entry rest)
  obtain node grp where entry: "entry = (node, grp)"
    by (cases entry)
  show ?case
  proof (cases "carried c ds node grp")
    case (Inl e')
    then show ?thesis
      using Cons.prems(1) by (simp add: entry)
  next
    case (Inr r)
    obtain ds1 pub1 where rest: "publish_nodes c rest (ds1, pub1) = Inl e" and ds1: "\<forall>n. n \<noteq> node \<longrightarrow> bm_has ds1 n = bm_has ds n"
      using Cons.prems(1) Inr by (cases r) (auto simp: entry bm_has_insert split: if_splits)
    then obtain n g where "(n, g) \<in> set rest" "carried c ds1 n g = Inl e"
      using Cons.IH [OF rest] Cons.prems(2) by (auto simp: entry)
    moreover have "n \<noteq> node"
      using calculation(1) Cons.prems(2) by (force simp: entry)
    ultimately show ?thesis
      using ds1 carried_cong [of ds1 n ds c g] by (auto simp: entry)
  qed
qed simp

lemma hand_default_get:
  assumes "bm_wf node_groups"
  shows "bm_get (hand_default d blocked quarantined holds node_groups ds) n =
     (if bm_get node_groups n = Some DEFAULT_GROUP \<and> \<not> bm_has quarantined n \<and> n \<notin> holds \<and> \<not> blocked
      then Some d else bm_get ds n)"
proof -
  let ?f = "\<lambda>(node, selected) ds. if selected = DEFAULT_GROUP \<and> \<not> bm_has quarantined node \<and> node \<notin> holds \<and> \<not> blocked
     then bm_insert node d ds else ds"
  have "bm_get (fold ?f es ds) n =
      (if (n, DEFAULT_GROUP) \<in> set es \<and> \<not> bm_has quarantined n \<and> n \<notin> holds \<and> \<not> blocked then Some d else bm_get ds n)" for es ds
    by (induction es arbitrary: ds) (auto split: if_splits)
  then show ?thesis
    by (simp add: hand_default_def bm_get_iff [OF assms])
qed

subsection \<open>The parts of a successful pass\<close>

lemma settle_pass_Inr:
  assumes "settle_pass P X desired observed node_groups groups dflt rollout st = Inr plan"
  obtains ds published where
    "publish_nodes (context_of P desired observed node_groups dflt rollout st) node_groups
       (handed_of P desired node_groups dflt rollout, []) = Inr (ds, published)"
    and "dropped_nodes observed node_groups published = []"
    and "build_publication_plan P X (ur_assignment_prefix (de_repository desired)) published ds = Inr (rc_publication plan)"
    and "rc_admitted plan = admitted_of P desired dflt rollout st" and "rc_blocked plan = rp_blocked rollout"
    and "rc_routing plan = pp_node_groups (rc_publication plan)"
    and "rc_assignments plan = pp_node_assignments (rc_publication plan)"
proof -
  obtain ds published where ds: "publish_nodes (context_of P desired observed node_groups dflt rollout st) node_groups
       (handed_of P desired node_groups dflt rollout, []) = Inr (ds, published)"
    using assms by (auto simp: settle_pass_def)
  moreover have drop: "dropped_nodes observed node_groups published = []"
    using assms ds by (auto simp: settle_pass_def Let_def split: if_splits)
  moreover obtain pub where
    "build_publication_plan P X (ur_assignment_prefix (de_repository desired)) published ds = Inr pub"
    using assms ds drop by (auto simp: settle_pass_def Let_def)
  ultimately show thesis
    using assms that by (simp add: settle_pass_def Let_def) fastforce
qed

text \<open>The planner's inputs and the state it starts from, as one pass builds them.\<close>

definition pass_groups ::
  "publisher \<Rightarrow> report_lib \<Rightarrow> dataflow_lib \<Rightarrow> DesiredState \<Rightarrow> ObservedState \<Rightarrow> string bmap \<Rightarrow> VerifiedReports
     \<Rightarrow> ResolvedGroup bmap" where
  "pass_groups P L D desired observed node_groups verified =
     resolve_group_inputs P D (resolution_of desired observed node_groups
       (verify_fleet P L (os_reports observed) (os_public_keys observed) verified)) (de_groups desired)"

definition pass_state :: "publisher \<Rightarrow> report_lib \<Rightarrow> ObservedState \<Rightarrow> ObservationLog \<times> VerifiedReports \<Rightarrow> PlannerState" where
  "pass_state P L observed memory =
     \<lparr>ps_admitted = os_admitted observed, ps_vetoed = os_vetoed observed, ps_observed = fst memory,
      ps_verified = verify_fleet P L (os_reports observed) (os_public_keys observed) (snd memory)\<rparr>"

definition pass_inputs ::
  "publisher \<Rightarrow> report_lib \<Rightarrow> dataflow_lib \<Rightarrow> DesiredState \<Rightarrow> ObservedState \<Rightarrow> string bmap \<Rightarrow> DesiredDeployment
     \<Rightarrow> VerifiedReports \<Rightarrow> RolloutInputs" where
  "pass_inputs P L D desired observed node_groups dflt verified =
     rollout_inputs_of desired observed node_groups (pass_groups P L D desired observed node_groups verified) dflt"

lemma plan_reconcile_settled:
  assumes "plan_reconcile P C L D X desired observed memory = Some (result, memory')"
  obtains e where "result = Inl e"
      "validate_dependency_graph D (de_groups desired) (set (bm_keys (de_quarantined desired))) = Some (Inl e)
       \<or> resolve_node_groups (bm_values (de_groups desired)) (de_nodes desired) = Inl e
       \<or> try_from P X (ur_default_deployment (de_repository desired)) = Inl e"
    | node_groups dflt rollout st where
      "validate_dependency_graph D (de_groups desired) (set (bm_keys (de_quarantined desired))) = Some (Inr ())"
      "resolve_node_groups (bm_values (de_groups desired)) (de_nodes desired) = Inr node_groups"
      "try_from P X (ur_default_deployment (de_repository desired)) = Inr dflt"
      "plan_rollouts P C L (de_sets desired) (pass_inputs P L D desired observed node_groups dflt (snd memory))
         (os_now observed) (pass_state P L observed memory) = (rollout, st)"
      "result = settle_pass P X desired observed node_groups
         (pass_groups P L D desired observed node_groups (snd memory)) dflt rollout st"
  using assms
  by (cases memory)
    (auto simp: plan_reconcile_def Let_def pass_groups_def pass_state_def pass_inputs_def split: option.splits sum.splits prod.splits)

text \<open>
  What the runtime hands a pass: groups filed under their own names, quarantined groups kept out of
  the plan, and for the quarantined groups with a durable pin that very pin.
\<close>

definition inventory_wf :: "DesiredState \<Rightarrow> ObservedState \<Rightarrow> bool" where
  "inventory_wf desired observed \<longleftrightarrow>
     bm_wf (de_groups desired) \<and> bm_wf (de_held desired) \<and> bm_wf (os_admitted observed)
     \<and> (\<forall>name grp. bm_get (de_groups desired) name = Some grp \<longrightarrow> rg_name grp = name)
     \<and> set (bm_keys (de_quarantined desired)) \<inter> set (bm_keys (de_groups desired)) = {}
     \<and> set (bm_keys (de_held desired)) \<subseteq> set (bm_keys (de_quarantined desired))
     \<and> (\<forall>name state. bm_get (de_held desired) name = Some state \<longrightarrow> bm_get (os_admitted observed) name = Some state)"

lemma resolve_group_inputs_wf: "bm_wf (resolve_group_inputs P D ctx groups)"
  unfolding resolve_group_inputs_def by (rule fold_invariant_set [where I = bm_wf]) auto

lemma pass_groups_facts:
  assumes inv: "inventory_wf desired observed"
    and valid: "validate_dependency_graph D (de_groups desired) (set (bm_keys (de_quarantined desired))) = Some (Inr ())"
    and ng: "resolve_node_groups (bm_values (de_groups desired)) (de_nodes desired) = Inr node_groups"
  shows "bm_wf (pass_groups P L D desired observed node_groups verified)"
    and "bm_has (pass_groups P L D desired observed node_groups verified) name = bm_has (de_groups desired) name"
    and "\<not> bm_has (de_groups desired) DEFAULT_GROUP"
proof -
  have wf: "bm_wf (de_groups desired)" and disj: "set (bm_keys (de_quarantined desired)) \<inter> set (bm_keys (de_groups desired)) = {}"
    using inv by (simp_all add: inventory_wf_def)
  have ok: "well_formed D (de_groups desired) (set (bm_keys (de_quarantined desired)))"
    using validate_cases [of D "de_groups desired" "set (bm_keys (de_quarantined desired))"] valid by auto
  show "bm_wf (pass_groups P L D desired observed node_groups verified)"
    by (simp add: pass_groups_def resolve_group_inputs_wf)
  show "bm_has (pass_groups P L D desired observed node_groups verified) name = bm_has (de_groups desired) name"
    by (simp add: pass_groups_def bm_has_def resolve_fixed_point [OF wf ok disj])
  show "\<not> bm_has (de_groups desired) DEFAULT_GROUP"
  proof
    assume "bm_has (de_groups desired) DEFAULT_GROUP"
    then obtain grp where grp: "bm_get (de_groups desired) DEFAULT_GROUP = Some grp"
      by (auto simp: bm_has_def)
    have "grp \<in> set (bm_values (de_groups desired))"
      using map_of_SomeD [OF grp] by force
    moreover have "rg_name grp = DEFAULT_GROUP"
      using inv grp unfolding inventory_wf_def by blast
    ultimately show False
      using resolve_node_groups_Inr(3) [OF ng] by blast
  qed
qed

lemma assign_nodes_held:
  assumes "n \<in> holds"
  shows "bm_get (assign_nodes P groups admitted held Ob holds blocks) n = None"
proof (rule ccontr)
  assume "\<not> ?thesis"
  then obtain d where d: "bm_get (assign_nodes P groups admitted held Ob holds blocks) n = Some d"
    by auto
  have "n \<notin> holds"
    by (rule assign_nodes_all [where Q = "\<lambda>n _. n \<notin> holds", OF _ _ d]) simp_all
  then show False
    using assms by simp
qed

lemma assign_nodes_unplanned:
  assumes "bm_wf (ob_node_groups Ob)" and "bm_get (ob_node_groups Ob) n = Some name" and "\<not> bm_has groups name"
  shows "bm_get (assign_nodes P groups admitted held Ob holds blocks) n = None"
proof -
  have "n \<notin> set (nodes Ob name')" if "(name', grp) \<in> set groups" for name' grp
    using that assms nodes_iff [OF assms(1)] by (force simp: bm_has_iff)
  then have "bm_get (assign_nodes P groups admitted held Ob holds blocks) n = bm_get ([] :: DesiredDeployment bmap) n"
    unfolding assign_nodes_def by (rule assign_fold_other)
  then show ?thesis
    by simp
qed

lemma stage_node_wf:
  "bm_wf (sg_deployments sg) \<Longrightarrow>
     bm_wf (sg_deployments (stage_node Ob running holds current current_id previous blocked_now node sg))"
  by (simp add: stage_node_def hand_def charge_def stage_def split: option.split prod.split)

lemma move_node_wf: "bm_wf (snd s) \<Longrightarrow> bm_wf (snd (move_node current blocked_now budget rescue x s))"
  by (cases s, cases x) (simp add: move_node_def Let_def split: option.split)

lemma assign_group_wf: "bm_wf ds \<Longrightarrow> bm_wf (assign_group P admitted Ob running holds blocks entry ds)"
proof -
  assume wf: "bm_wf ds"
  have "bm_wf (sg_deployments (stage_group P Ob running holds blocks name state cid ds))" for name state cid
    unfolding stage_group_def
    by (rule fold_invariant_set [where I = "\<lambda>sg. bm_wf (sg_deployments sg)"]) (simp_all add: wf stage_node_wf)
  then have "bm_wf (snd (move_staged current blocked mu (stage_group P Ob running holds blocks name state cid ds)))"
    for current blocked mu name state cid
    unfolding move_staged_def Let_def
    by (intro fold_invariant_set [where I = "\<lambda>s. bm_wf (snd s)"] move_node_wf) simp_all
  then show ?thesis
    using wf by (cases entry) (simp add: assign_group_def split: option.split)
qed

lemma assign_nodes_wf: "bm_wf (assign_nodes P groups admitted held Ob holds blocks)"
  unfolding assign_nodes_def by (rule fold_invariant_set [where I = bm_wf]) (simp_all add: assign_group_wf)

lemma hand_default_wf: "bm_wf ds \<Longrightarrow> bm_wf (hand_default d blocked quarantined holds node_groups ds)"
  unfolding hand_default_def by (rule fold_invariant_set [where I = bm_wf]) (auto split: prod.splits)

subsection \<open>What the durable state knows after the pass\<close>

lemma restore_held_get:
  assumes "bm_wf held"
  shows "bm_get (restore_held held admitted) name =
     (if name \<noteq> DEFAULT_GROUP \<and> bm_has held name then bm_get held name else bm_get admitted name)"
proof -
  let ?f = "\<lambda>(name, state) admitted. if name = DEFAULT_GROUP then admitted else bm_insert name state admitted"
  have "distinct (map fst es) \<Longrightarrow> bm_get (fold ?f es adm) name =
      (if name \<noteq> DEFAULT_GROUP \<and> name \<in> fst ` set es then map_of es name else bm_get adm name)"
    for es :: "AdmittedDeployment bmap" and adm :: "AdmittedDeployment bmap"
    by (induction es arbitrary: adm) auto
  then show ?thesis
    using bm_wf_distinct [OF assms] by (simp add: restore_held_def bm_has_iff)
qed

lemma restore_held_known:
  assumes wf: "bm_wf held" and k: "known P admitted i"
    and sub: "\<And>name state state'. bm_get held name = Some state \<Longrightarrow> bm_get admitted name = Some state' \<Longrightarrow>
      set (bodies state') \<subseteq> set (bodies state)"
  shows "known P (restore_held held admitted) i"
proof -
  obtain name state' d where d: "bm_get admitted name = Some state'" "d \<in> set (bodies state')" "deployment_identity P d = Some i"
    using k by (auto simp: known_def)
  show ?thesis
  proof (cases "name \<noteq> DEFAULT_GROUP \<and> bm_has held name")
    case True
    then obtain state where "bm_get held name = Some state"
      by (auto simp: bm_has_def)
    then show ?thesis
      using True d sub [of name state state'] unfolding known_def
      by (intro exI [of _ name] exI [of _ state] exI [of _ d]) (auto simp: restore_held_get [OF wf])
  next
    case False
    then show ?thesis
      using d unfolding known_def
      by (intro exI [of _ name] exI [of _ state'] exI [of _ d]) (auto simp: restore_held_get [OF wf])
  qed
qed

lemma record_default_known: "known P admitted i \<Longrightarrow> known P (record_default P dflt admitted) i"
  by (auto simp: record_default_def Let_def bodies_def split: option.splits intro!: known_insert)

lemma record_default_current:
  assumes "deployment_identity P dflt = Some i"
  shows "known P (record_default P dflt admitted) i"
proof (cases "bm_get admitted DEFAULT_GROUP")
  case None
  then show ?thesis
    using assms unfolding known_def
    by (intro exI [of _ DEFAULT_GROUP]) (simp add: record_default_def bodies_def)
next
  case (Some state)
  then show ?thesis
    using assms unfolding known_def
    by (intro exI [of _ DEFAULT_GROUP]) (auto simp: record_default_def bodies_def Let_def)
qed

lemma known_body:
  assumes "d \<in> set (concat (map bodies (bm_values admitted)))" and "bm_wf admitted" and "deployment_identity P d = Some i"
  shows "known P admitted i"
  using assms unfolding known_def by (force simp: bm_get_iff)

lemma known_indexed:
  assumes "known P admitted i"
  shows "\<exists>d. bm_get (bodies_by_identity P (bm_values admitted)) i = Some d"
proof -
  obtain name state d where d: "bm_get admitted name = Some state" "d \<in> set (bodies state)" "deployment_identity P d = Some i"
    using assms by (auto simp: known_def)
  have "(i, d) \<in> set (identified P (concat (map bodies (bm_values admitted))))"
    using d map_of_SomeD [OF d(1)] by (force simp: identified_def map_filter_set)
  then have "i \<in> fst ` set (rev (identified P (concat (map bodies (bm_values admitted)))))"
    by force
  then have "map_of (rev (identified P (concat (map bodies (bm_values admitted))))) i \<noteq> None"
    unfolding map_of_eq_None_iff by blast
  then show ?thesis
    unfolding bodies_by_identity_def bm_get_collect by blast
qed

subsection \<open>One node in a successful pass\<close>

text \<open>The values a successful pass computes on the way, by name.\<close>

record pass_parts =
  pa_node_groups :: "string bmap"
  pa_default :: DesiredDeployment
  pa_rollout :: RolloutPlan
  pa_state :: PlannerState
  pa_deployments :: "DesiredDeployment bmap"

abbreviation pass_context :: "publisher \<Rightarrow> DesiredState \<Rightarrow> ObservedState \<Rightarrow> pass_parts \<Rightarrow> carry_context" where
  "pass_context P desired observed w \<equiv>
     context_of P desired observed (pa_node_groups w) (pa_default w) (pa_rollout w) (pa_state w)"

abbreviation pass_handed :: "publisher \<Rightarrow> DesiredState \<Rightarrow> pass_parts \<Rightarrow> DesiredDeployment bmap" where
  "pass_handed P desired w \<equiv> handed_of P desired (pa_node_groups w) (pa_default w) (pa_rollout w)"

definition succeeds ::
  "publisher \<Rightarrow> calendar_lib \<Rightarrow> report_lib \<Rightarrow> dataflow_lib \<Rightarrow> document_lib \<Rightarrow> DesiredState \<Rightarrow> ObservedState
     \<Rightarrow> ObservationLog \<times> VerifiedReports \<Rightarrow> ReconcilePlan \<Rightarrow> pass_parts \<Rightarrow> bool" where
  "succeeds P C L D X desired observed memory plan w \<longleftrightarrow>
     validate_dependency_graph D (de_groups desired) (set (bm_keys (de_quarantined desired))) = Some (Inr ())
     \<and> resolve_node_groups (bm_values (de_groups desired)) (de_nodes desired) = Inr (pa_node_groups w)
     \<and> try_from P X (ur_default_deployment (de_repository desired)) = Inr (pa_default w)
     \<and> plan_rollouts P C L (de_sets desired)
         (pass_inputs P L D desired observed (pa_node_groups w) (pa_default w) (snd memory))
         (os_now observed) (pass_state P L observed memory) = (pa_rollout w, pa_state w)
     \<and> publish_nodes (pass_context P desired observed w) (pa_node_groups w) (pass_handed P desired w, [])
         = Inr (pa_deployments w, rc_routing plan)
     \<and> dropped_nodes observed (pa_node_groups w) (rc_routing plan) = []
     \<and> build_publication_plan P X (ur_assignment_prefix (de_repository desired)) (rc_routing plan) (pa_deployments w)
         = Inr (rc_publication plan)
     \<and> rc_assignments plan = pp_node_assignments (rc_publication plan)
     \<and> rc_admitted plan = cc_admitted (pass_context P desired observed w)
     \<and> rc_blocked plan = rp_blocked (pa_rollout w)"

lemma build_publication_groups:
  "build_publication_plan P X prefix node_groups ds = Inr plan \<Longrightarrow> pp_node_groups plan = node_groups"
  by (auto simp: build_publication_plan_def Let_def split: if_splits prod.splits)

lemma plan_reconcile_Inr:
  assumes "plan_reconcile P C L D X desired observed memory = Some (Inr plan, memory')"
  obtains w where "succeeds P C L D X desired observed memory plan w"
  using assms
proof (cases rule: plan_reconcile_settled)
  case (2 node_groups dflt rollout st)
  have "settle_pass P X desired observed node_groups
      (pass_groups P L D desired observed node_groups (snd memory)) dflt rollout st = Inr plan"
    using 2(5) by simp
  then show thesis
  proof (rule settle_pass_Inr)
    fix ds published
    assume parts: "publish_nodes (context_of P desired observed node_groups dflt rollout st) node_groups
         (handed_of P desired node_groups dflt rollout, []) = Inr (ds, published)"
      "dropped_nodes observed node_groups published = []"
      "build_publication_plan P X (ur_assignment_prefix (de_repository desired)) published ds = Inr (rc_publication plan)"
      "rc_admitted plan = admitted_of P desired dflt rollout st" "rc_blocked plan = rp_blocked rollout"
      "rc_routing plan = pp_node_groups (rc_publication plan)"
      "rc_assignments plan = pp_node_assignments (rc_publication plan)"
    let ?w = "\<lparr>pa_node_groups = node_groups, pa_default = dflt, pa_rollout = rollout, pa_state = st, pa_deployments = ds\<rparr>"
    have "rc_routing plan = published"
      using parts(6) build_publication_groups [OF parts(3)] by simp
    then have "succeeds P C L D X desired observed memory plan ?w"
      using 2 parts by (simp add: succeeds_def context_of_def)
    then show thesis
      by (rule that)
  qed
qed auto

lemma pass_observed:
  assumes "succeeds P C L D X desired observed memory plan w"
  obtains Ob where "ob_node_groups Ob = pa_node_groups w" and "ob_published Ob = os_assignments observed"
    and "Ob = pass_observations P L (pass_inputs P L D desired observed (pa_node_groups w) (pa_default w) (snd memory))
       (os_now observed) (pass_state P L observed memory)"
    and "rp_node_deployments (pa_rollout w) =
       assign_nodes P (pass_groups P L D desired observed (pa_node_groups w) (snd memory)) (ps_admitted (pa_state w))
         (de_held desired) Ob (de_holds desired) (rc_blocked plan)"
proof -
  let ?in = "pass_inputs P L D desired observed (pa_node_groups w) (pa_default w) (snd memory)"
  let ?Ob = "pass_observations P L ?in (os_now observed) (pass_state P L observed memory)"
  have run: "plan_rollouts P C L (de_sets desired) ?in (os_now observed) (pass_state P L observed memory)
      = (pa_rollout w, pa_state w)" and blocked: "rc_blocked plan = rp_blocked (pa_rollout w)"
    using assms by (simp_all add: succeeds_def)
  have fields: "ri_groups ?in = pass_groups P L D desired observed (pa_node_groups w) (snd memory)"
    "ri_held ?in = de_held desired" "ri_holds ?in = de_holds desired" "ri_node_groups ?in = pa_node_groups w"
    "ri_published ?in = os_assignments observed"
    by (simp_all add: pass_inputs_def rollout_inputs_of_def)
  obtain blocks where "rp_blocked (pa_rollout w) = blocks" "rp_node_deployments (pa_rollout w) =
      assign_nodes P (ri_groups ?in) (ps_admitted (pa_state w)) (ri_held ?in) ?Ob (ri_holds ?in) blocks"
    by (rule plan_rollouts_steps [of P "de_sets desired" ?in L "os_now observed" "pass_state P L observed memory" C])
      (simp add: run)
  then show thesis
    using that [of ?Ob] by (simp add: fields blocked)
qed

lemma pass_node:
  assumes s: "succeeds P C L D X desired observed memory plan w"
    and n: "bm_get (pa_node_groups w) n = Some grp"
  shows "settled_as (pass_context P desired observed w) (pass_handed P desired w) (pa_deployments w, rc_routing plan) n grp"
proof -
  have pub: "publish_nodes (pass_context P desired observed w) (pa_node_groups w) (pass_handed P desired w, [])
      = Inr (pa_deployments w, rc_routing plan)"
    and ng: "resolve_node_groups (bm_values (de_groups desired)) (de_nodes desired) = Inr (pa_node_groups w)"
    using s by (simp_all add: succeeds_def)
  have "distinct (map fst (pa_node_groups w))"
    using bm_wf_distinct [OF resolve_node_groups_Inr(1) [OF ng]] .
  then show ?thesis
    using publish_nodes_Inr [OF pub] map_of_SomeD [OF n] by fastforce
qed

lemma pass_published:
  assumes s: "succeeds P C L D X desired observed memory plan w"
  shows "bm_wf (pa_deployments w)" and "bm_wf (rc_routing plan)" and "bm_wf (rc_assignments plan)"
    and "bm_has (rc_routing plan) n = bm_has (pa_deployments w) n"
    and "bm_has (rc_routing plan) n \<Longrightarrow> bm_has (pa_node_groups w) n"
    and "bm_get (rc_assignments plan) n = Some i \<longleftrightarrow>
      (\<exists>d. bm_get (pa_deployments w) n = Some d \<and> deployment_identity P d = Some i)"
    and "bm_has (rc_assignments plan) n = bm_has (rc_routing plan) n"
proof -
  have pub: "publish_nodes (pass_context P desired observed w) (pa_node_groups w) (pass_handed P desired w, [])
      = Inr (pa_deployments w, rc_routing plan)"
    and ng: "resolve_node_groups (bm_values (de_groups desired)) (de_nodes desired) = Inr (pa_node_groups w)"
    and build: "build_publication_plan P X (ur_assignment_prefix (de_repository desired)) (rc_routing plan) (pa_deployments w)
      = Inr (rc_publication plan)" and asg: "rc_assignments plan = pp_node_assignments (rc_publication plan)"
    using s by (simp_all add: succeeds_def)
  have "bm_wf (pass_handed P desired w)"
    by (rule pass_observed [OF s]) (simp add: handed_of_def hand_default_wf assign_nodes_wf)
  note facts = publish_nodes_Inr [OF pub bm_wf_distinct [OF resolve_node_groups_Inr(1) [OF ng]]]
  show wf: "bm_wf (pa_deployments w)" "bm_wf (rc_routing plan)"
    using facts \<open>bm_wf (pass_handed P desired w)\<close> by simp_all
  note built = build_publication_Inr [OF build wf(1)]
  show "bm_wf (rc_assignments plan)"
    using built(3) by (simp add: asg)
  show has: "bm_has (rc_routing plan) n = bm_has (pa_deployments w) n"
    unfolding bm_has_iff built(2) ..
  show "bm_has (rc_routing plan) n \<Longrightarrow> bm_has (pa_node_groups w) n"
    using facts unfolding bm_has_iff bm_has_def by (metis bm_has_def bm_has_iff list.set_map map_of.simps(1) option.distinct(1))
  show iff: "bm_get (rc_assignments plan) n = Some i \<longleftrightarrow>
      (\<exists>d. bm_get (pa_deployments w) n = Some d \<and> deployment_identity P d = Some i)" for i
    unfolding asg using built(4,5) by (metis option.inject)
  show "bm_has (rc_assignments plan) n = bm_has (rc_routing plan) n"
  proof (cases "bm_get (pa_deployments w) n")
    case None
    then have "bm_get (rc_assignments plan) n = None"
      using iff [of "the (bm_get (rc_assignments plan) n)"] by (cases "bm_get (rc_assignments plan) n") simp_all
    then show ?thesis
      using None has by (simp add: bm_has_def)
  next
    case (Some d)
    then show ?thesis
      using built(4) [OF Some] has by (auto simp: asg bm_has_def)
  qed
qed

end
