(* ===== verification/Reconcile_Safety.thy ===== *)
theory Reconcile_Safety
  imports Reconcile
begin

text \<open>
  What a reconcile pass guarantees to the nodes already published: a frozen node stays exactly where
  its last generation put it, no node is moved onto a blocked deployment, and the control plane never
  loses track of where a node stands.
\<close>

subsection \<open>Where a published deployment comes from\<close>

lemma carried_Some:
  assumes "carried c ds n grp = Inr (Some (l, d))"
  shows "bm_get (os_routing (cc_observed c)) n = Some l
     \<and> ((\<exists>i. bm_get (os_assignments (cc_observed c)) n = Some i \<and> bm_get (cc_bodies c) i = Some d)
        \<or> (l = DEFAULT_GROUP \<and> d = cc_default c \<and> \<not> bm_has (cc_quarantined c) n
           \<and> n \<notin> de_holds (cc_desired c) \<and> \<not> cc_default_blocked c))"
  using assms
  by (auto simp: carried_def last_routing_def placed_deployment_def bind_eq_Some_conv split: option.splits if_splits)

lemma context_of_simps [simp]:
  "cc_desired (context_of P desired observed ng dflt rollout st) = desired"
  "cc_observed (context_of P desired observed ng dflt rollout st) = observed"
  "cc_quarantined (context_of P desired observed ng dflt rollout st) = quarantined_nodes desired ng"
  "cc_default (context_of P desired observed ng dflt rollout st) = dflt"
  "cc_default_blocked (context_of P desired observed ng dflt rollout st) = default_blocked_of P dflt rollout"
  "cc_admitted (context_of P desired observed ng dflt rollout st) = admitted_of P desired dflt rollout st"
  "cc_bodies (context_of P desired observed ng dflt rollout st) =
     bodies_by_identity P (bm_values (admitted_of P desired dflt rollout st))"
  by (simp_all add: context_of_def)

lemma pass_handed_get:
  assumes "succeeds P C L D X desired observed memory plan w"
  shows "bm_get (pass_handed P desired w) n =
     (if bm_get (pa_node_groups w) n = Some DEFAULT_GROUP \<and> \<not> bm_has (quarantined_nodes desired (pa_node_groups w)) n
         \<and> n \<notin> de_holds desired \<and> \<not> default_blocked_of P (pa_default w) (pa_rollout w)
      then Some (pa_default w) else bm_get (rp_node_deployments (pa_rollout w)) n)"
proof -
  have "resolve_node_groups (bm_values (de_groups desired)) (de_nodes desired) = Inr (pa_node_groups w)"
    using assms by (simp add: succeeds_def)
  then show ?thesis
    by (simp add: handed_of_def hand_default_get [OF resolve_node_groups_Inr(1)])
qed

text \<open>
  The three sources of a published deployment: the body the node's recorded assignment names, the
  repository default while nothing blocks it, and the rollout planner's own generation.
\<close>

lemma published_cases:
  assumes s: "succeeds P C L D X desired observed memory plan w"
    and i: "bm_get (rc_assignments plan) n = Some i"
  obtains (placed) d where "bm_get (os_assignments observed) n = Some i"
      "bm_get (bodies_by_identity P (bm_values (rc_admitted plan))) i = Some d"
    | (default) "deployment_identity P (pa_default w) = Some i" "\<not> default_blocked_of P (pa_default w) (pa_rollout w)"
    | (planned) d where "bm_get (rp_node_deployments (pa_rollout w)) n = Some d" "deployment_identity P d = Some i"
proof -
  obtain d where d: "bm_get (pa_deployments w) n = Some d" "deployment_identity P d = Some i"
    using i pass_published(6) [OF s] by blast
  have "bm_has (pa_node_groups w) n"
    using pass_published(4,5) [OF s, of n] d(1) by (simp add: bm_has_def)
  then obtain grp where grp: "bm_get (pa_node_groups w) n = Some grp"
    by (auto simp: bm_has_def)
  obtain r where r: "carried (pass_context P desired observed w) (pass_handed P desired w) n grp = Inr r"
    and out: "case r of Some (l, d') \<Rightarrow> d' = d | None \<Rightarrow> bm_get (pass_handed P desired w) n = Some d"
    using pass_node [OF s grp] d(1) unfolding settled_as_def prod.case by (fastforce split: option.splits)
  have adm: "rc_admitted plan = admitted_of P desired (pa_default w) (pa_rollout w) (pa_state w)"
    using s by (simp add: succeeds_def)
  show thesis
  proof (cases r)
    case None
    then have "bm_get (pass_handed P desired w) n = Some d"
      using out by simp
    then show thesis
      using d(2) default planned by (auto simp: pass_handed_get [OF s] split: if_splits)
  next
    case (Some p)
    then obtain l where "carried (pass_context P desired observed w) (pass_handed P desired w) n grp = Inr (Some (l, d))"
      using r out by (cases p) auto
    from carried_Some [OF this] show thesis
      using d(2) default placed bodies_by_identity_sound [of P] by (auto simp: adm)
  qed
qed

text \<open>
  C38.  No pass moves a node onto a blocked deployment.  Over the whole reconcile pass, default cohort
  and carried routing included: if the published generation assigns a node a deployment that the
  pass's movement verdict blocks (an external block, a regression halt or a veto), the node was
  already assigned it by the last generation, or reports acting on it.
\<close>

theorem pass_never_moves_onto_blocked:
  assumes pass: "plan_reconcile P C L D X desired observed memory = Some (Inr plan, memory')"
    and ng: "resolve_node_groups (bm_values (de_groups desired)) (de_nodes desired) = Inr node_groups"
    and dflt: "try_from P X (ur_default_deployment (de_repository desired)) = Inr dflt"
    and i: "bm_get (rc_assignments plan) n = Some i" "i \<in> rc_blocked plan"
  shows "advanced (pass_observations P L (pass_inputs P L D desired observed node_groups dflt (snd memory))
     (os_now observed) (pass_state P L observed memory)) n i"
proof -
  obtain w where s: "succeeds P C L D X desired observed memory plan w"
    by (rule plan_reconcile_Inr [OF pass])
  have w: "pa_node_groups w = node_groups" "pa_default w = dflt" and blocked: "rc_blocked plan = rp_blocked (pa_rollout w)"
    using s ng dflt by (simp_all add: succeeds_def)
  obtain Ob where Ob: "ob_published Ob = os_assignments observed"
    "Ob = pass_observations P L (pass_inputs P L D desired observed node_groups dflt (snd memory))
       (os_now observed) (pass_state P L observed memory)"
    and assign: "rp_node_deployments (pa_rollout w) =
       assign_nodes P (pass_groups P L D desired observed node_groups (snd memory)) (ps_admitted (pa_state w))
         (de_held desired) Ob (de_holds desired) (rc_blocked plan)"
    using pass_observed [OF s] unfolding w by metis
  show ?thesis
    unfolding Ob(2) [symmetric]
  proof (cases rule: published_cases [OF s i(1)])
    case (1 d)
    then show "advanced Ob n i"
      by (simp add: advanced_def Ob(1))
  next
    case 2
    then show "advanced Ob n i"
      using i(2) by (simp add: default_blocked_of_def blocked)
  next
    case (3 d)
    have "\<forall>j. deployment_identity P d = Some j \<longrightarrow> j \<in> rc_blocked plan \<longrightarrow> advanced Ob n j"
      by (rule assign_nodes_all [OF _ _ 3(1) [unfolded assign]]) auto
    then show "advanced Ob n i"
      using 3(2) i(2) by blast
  qed
qed

subsection \<open>Frozen nodes\<close>

text \<open>
  A node is frozen when the operator holds it, or when it selects no planned group and either selects
  a quarantined one or the repository default is blocked.
\<close>

definition frozen :: "DesiredState \<Rightarrow> string bmap \<Rightarrow> bool \<Rightarrow> string \<Rightarrow> bool" where
  "frozen desired node_groups default_blocked n \<longleftrightarrow>
     n \<in> de_holds desired
     \<or> bm_get node_groups n = Some DEFAULT_GROUP
       \<and> (bm_has (quarantined_nodes desired node_groups) n \<or> default_blocked)"

lemma frozen_not_handed:
  assumes s: "succeeds P C L D X desired observed memory plan w" and inv: "inventory_wf desired observed"
    and frozen: "frozen desired (pa_node_groups w) (default_blocked_of P (pa_default w) (pa_rollout w)) n"
  shows "bm_get (pass_handed P desired w) n = None"
proof -
  obtain Ob where Ob: "ob_node_groups Ob = pa_node_groups w"
    and assign: "rp_node_deployments (pa_rollout w) =
       assign_nodes P (pass_groups P L D desired observed (pa_node_groups w) (snd memory)) (ps_admitted (pa_state w))
         (de_held desired) Ob (de_holds desired) (rc_blocked plan)"
    using pass_observed [OF s] by metis
  have valid: "validate_dependency_graph D (de_groups desired) (set (bm_keys (de_quarantined desired))) = Some (Inr ())"
    and ng: "resolve_node_groups (bm_values (de_groups desired)) (de_nodes desired) = Inr (pa_node_groups w)"
    using s by (simp_all add: succeeds_def)
  have none: "\<not> bm_has (pass_groups P L D desired observed (pa_node_groups w) (snd memory)) DEFAULT_GROUP"
    using pass_groups_facts(2,3) [OF inv valid ng] by simp
  have wf: "bm_wf (ob_node_groups Ob)"
    using resolve_node_groups_Inr(1) [OF ng] Ob by simp
  have "bm_get (rp_node_deployments (pa_rollout w)) n = None"
  proof (cases "n \<in> de_holds desired")
    case True
    then show ?thesis
      unfolding assign by (rule assign_nodes_held)
  next
    case False
    then have "bm_get (ob_node_groups Ob) n = Some DEFAULT_GROUP"
      using frozen by (simp add: frozen_def Ob)
    then show ?thesis
      unfolding assign by (rule assign_nodes_unplanned [OF wf _ none])
  qed
  then show ?thesis
    using frozen by (auto simp: pass_handed_get [OF s] frozen_def)
qed

lemma routed_stays:
  assumes s: "succeeds P C L D X desired observed memory plan w"
    and "bm_has (os_routing observed) n" and "bm_has (pa_node_groups w) n"
  shows "bm_has (rc_routing plan) n"
proof (rule ccontr)
  assume "\<not> bm_has (rc_routing plan) n"
  then have "n \<in> set (dropped_nodes observed (pa_node_groups w) (rc_routing plan))"
    using assms(2,3) by (simp add: dropped_nodes_def bm_has_iff)
  then show False
    using s by (simp add: succeeds_def)
qed

lemma frozen_stays:
  assumes s: "succeeds P C L D X desired observed memory plan w" and inv: "inventory_wf desired observed"
    and n: "bm_has (pa_node_groups w) n"
    and frozen: "frozen desired (pa_node_groups w) (default_blocked_of P (pa_default w) (pa_rollout w)) n"
  shows "case bm_get (os_routing observed) n of
       None \<Rightarrow> bm_get (rc_routing plan) n = None
     | Some l \<Rightarrow> bm_get (rc_routing plan) n = Some l
         \<and> (\<exists>i. bm_get (os_assignments observed) n = Some i \<and> bm_get (rc_assignments plan) n = Some i)"
proof -
  note handed = frozen_not_handed [OF s inv frozen]
  obtain grp where grp: "bm_get (pa_node_groups w) n = Some grp"
    using n by (auto simp: bm_has_def)
  let ?carried = "carried (pass_context P desired observed w) (pass_handed P desired w) n grp"
  obtain r where r: "?carried = Inr r" and out: "case r of
      Some (l, d) \<Rightarrow> bm_get (pa_deployments w) n = Some d \<and> bm_get (rc_routing plan) n = Some l
    | None \<Rightarrow> bm_get (rc_routing plan) n = None"
    using pass_node [OF s grp] handed unfolding settled_as_def prod.case by (fastforce simp: bm_has_def split: option.splits)
  show ?thesis
  proof (cases "bm_get (os_routing observed) n")
    case None
    then have "?carried = Inr None"
      by (simp add: carried_def last_routing_def)
    then show ?thesis
      using r out None by simp
  next
    case (Some l)
    then have "bm_has (rc_routing plan) n"
      using routed_stays [OF s _ n] by (simp add: bm_has_def)
    then obtain l' d where rd: "r = Some (l', d)"
      using out by (cases r) (auto simp: bm_has_def)
    have "l' = l" and "\<exists>i. bm_get (os_assignments observed) n = Some i
        \<and> bm_get (bodies_by_identity P (bm_values (admitted_of P desired (pa_default w) (pa_rollout w) (pa_state w)))) i = Some d"
      using carried_Some [OF r [unfolded rd]] Some frozen grp
      by (auto simp: frozen_def)
    then obtain i where i: "bm_get (os_assignments observed) n = Some i" "deployment_identity P d = Some i"
      using bodies_by_identity_sound by blast
    then have "bm_get (rc_assignments plan) n = Some i"
      using out rd pass_published(6) [OF s] by auto
    then show ?thesis
      using Some out rd i(1) \<open>l' = l\<close> by simp
  qed
qed

text \<open>
  C39.  A frozen node stays exactly where it stands.  A node the operator holds, a node that selects
  only a quarantined group, and an unmatched node while the repository default is blocked are
  republished by a successful pass under the same group and with the very assignment the last
  generation recorded; one that was never published is left out of the generation.
\<close>

theorem frozen_node_unmoved:
  assumes pass: "plan_reconcile P C L D X desired observed memory = Some (Inr plan, memory')"
    and inv: "inventory_wf desired observed"
    and ng: "resolve_node_groups (bm_values (de_groups desired)) (de_nodes desired) = Inr node_groups"
    and dflt: "try_from P X (ur_default_deployment (de_repository desired)) = Inr dflt"
    and n: "bm_has node_groups n"
    and frozen: "frozen desired node_groups
      (case deployment_identity P dflt of None \<Rightarrow> False | Some i \<Rightarrow> i \<in> rc_blocked plan) n"
  shows "case bm_get (os_routing observed) n of
       None \<Rightarrow> bm_get (rc_routing plan) n = None
     | Some l \<Rightarrow> bm_get (rc_routing plan) n = Some l
         \<and> (\<exists>i. bm_get (os_assignments observed) n = Some i \<and> bm_get (rc_assignments plan) n = Some i)"
proof -
  obtain w where s: "succeeds P C L D X desired observed memory plan w"
    by (rule plan_reconcile_Inr [OF pass])
  have w: "pa_node_groups w = node_groups" "pa_default w = dflt" "rc_blocked plan = rp_blocked (pa_rollout w)"
    using s ng dflt by (simp_all add: succeeds_def)
  have "frozen desired (pa_node_groups w) (default_blocked_of P (pa_default w) (pa_rollout w)) n"
    using frozen unfolding w default_blocked_of_def .
  then show ?thesis
    using frozen_stays [OF s inv] n by (simp add: w)
qed

subsection \<open>Keeping track of every node\<close>

text \<open>The control plane's memory tracks the fleet when every routed node has an assignment whose body it still has.\<close>

definition tracked :: "publisher \<Rightarrow> string bmap \<Rightarrow> string bmap \<Rightarrow> AdmittedDeployment bmap \<Rightarrow> bool" where
  "tracked P routing assignments admitted \<longleftrightarrow>
     (\<forall>n. bm_has routing n \<longrightarrow> (\<exists>i. bm_get assignments n = Some i \<and> known P admitted i))"

lemma admit_pending_wf:
  "bm_wf admitted \<Longrightarrow> bm_wf (fst (admit_pending P groups desired group_plans Ob movement (admitted, plans)))"
proof -
  assume wf: "bm_wf admitted"
  have "bm_wf (fst (admit_one P groups desired group_plans Ob movement name s))" if "bm_wf (fst s)" for name s
    using admit_one_cases [of P groups desired group_plans Ob movement name s] that by (auto simp: admit_def)
  then show ?thesis
    using wf by (auto simp: admit_pending_def Let_def intro!: fold_invariant_set [where I = "\<lambda>s. bm_wf (fst s)"])
qed

lemma plan_rollouts_admitted_wf:
  assumes "bm_wf (ps_admitted st)"
  shows "bm_wf (ps_admitted (snd (plan_rollouts P C L sets inputs now st)))"
  by (rule plan_rollouts_steps [of P sets inputs L now st C])
    (metis assms admit_pending_wf rollback_wf pruned_wf fst_conv)

lemma restore_held_wf: "bm_wf admitted \<Longrightarrow> bm_wf (restore_held held admitted)"
  unfolding restore_held_def by (rule fold_invariant_set [where I = bm_wf]) (auto split: prod.splits)

lemma admitted_of_wf: "bm_wf (ps_admitted st) \<Longrightarrow> bm_wf (admitted_of P desired dflt rollout st)"
  by (simp add: admitted_of_def Let_def record_default_def restore_held_wf split: option.split)

lemma admitted_of_known:
  assumes inv: "inventory_wf desired observed"
    and valid: "validate_dependency_graph D (de_groups desired) (set (bm_keys (de_quarantined desired))) = Some (Inr ())"
    and ng: "resolve_node_groups (bm_values (de_groups desired)) (de_nodes desired) = Inr node_groups"
    and run: "plan_rollouts P C L (de_sets desired) (pass_inputs P L D desired observed node_groups dflt (snd memory))
       (os_now observed) (pass_state P L observed memory) = (rollout, st)"
    and k: "known P (ps_admitted st) i"
  shows "known P (admitted_of P desired dflt rollout st) i"
proof -
  let ?in = "pass_inputs P L D desired observed node_groups dflt (snd memory)"
  have groups: "ri_groups ?in = pass_groups P L D desired observed node_groups (snd memory)"
    by (simp add: pass_inputs_def rollout_inputs_of_def)
  have "set (bodies state') \<subseteq> set (bodies state)"
    if held: "bm_get (de_held desired) name = Some state" and now: "bm_get (ps_admitted st) name = Some state'"
    for name state state'
  proof -
    have "name \<in> set (bm_keys (de_held desired))"
      using held by (metis bm_has_def bm_has_iff option.distinct(1))
    then have "name \<notin> set (bm_keys (de_groups desired))"
      using inv unfolding inventory_wf_def by blast
    then have "\<not> bm_has (de_groups desired) name"
      unfolding bm_has_iff .
    then have "\<not> bm_has (pass_groups P L D desired observed node_groups (snd memory)) name"
      by (simp add: pass_groups_facts(2) [OF inv valid ng])
    then have "\<not> bm_has (desired_of (ri_groups ?in)) name"
      by (simp add: desired_of_def groups bm_has_def)
    then obtain before where "bm_get (os_admitted observed) name = Some before" "set (bodies state') \<subseteq> set (bodies before)"
      using plan_rollouts_absent [of "pass_state P L observed memory" ?in name P C L "de_sets desired" "os_now observed" state']
        inv now run by (auto simp: pass_state_def inventory_wf_def)
    moreover have "bm_get (os_admitted observed) name = Some state"
      using inv held unfolding inventory_wf_def by blast
    ultimately show ?thesis
      by simp
  qed
  moreover have "bm_wf (de_held desired)"
    using inv by (simp add: inventory_wf_def)
  ultimately have "known P (restore_held (de_held desired) (ps_admitted st)) i"
    using restore_held_known [OF _ k] by blast
  then show ?thesis
    by (simp add: admitted_of_def Let_def record_default_known)
qed

lemma placed_body_survives:
  assumes inv: "inventory_wf desired observed"
    and valid: "validate_dependency_graph D (de_groups desired) (set (bm_keys (de_quarantined desired))) = Some (Inr ())"
    and ng: "resolve_node_groups (bm_values (de_groups desired)) (de_nodes desired) = Inr node_groups"
    and run: "plan_rollouts P C L (de_sets desired) (pass_inputs P L D desired observed node_groups dflt (snd memory))
       (os_now observed) (pass_state P L observed memory) = (rollout, st)"
    and k: "known P (os_admitted observed) i" and n: "bm_has node_groups n"
    and adv: "advanced (pass_observations P L (pass_inputs P L D desired observed node_groups dflt (snd memory))
       (os_now observed) (pass_state P L observed memory)) n i"
  shows "known P (admitted_of P desired dflt rollout st) i"
proof -
  let ?in = "pass_inputs P L D desired observed node_groups dflt (snd memory)"
  have nodes: "ri_node_groups ?in = node_groups"
    by (simp add: pass_inputs_def rollout_inputs_of_def)
  have "n \<in> set (bm_keys node_groups)"
    using n unfolding bm_has_iff .
  then have "placed (pass_observations P L ?in (os_now observed) (pass_state P L observed memory)) i"
    using adv unfolding placed_def pass_observations_simps nodes by blast
  moreover have "bm_wf (ps_admitted (pass_state P L observed memory))" "known P (ps_admitted (pass_state P L observed memory)) i"
    using inv k by (simp_all add: pass_state_def inventory_wf_def)
  ultimately have "known P (ps_admitted (snd (plan_rollouts P C L (de_sets desired) ?in (os_now observed)
      (pass_state P L observed memory)))) i"
    by (intro plan_rollouts_known)
  then show ?thesis
    using admitted_of_known [OF inv valid ng run] by (simp add: run)
qed

lemma published_known:
  assumes s: "succeeds P C L D X desired observed memory plan w" and inv: "inventory_wf desired observed"
    and i: "bm_get (rc_assignments plan) n = Some i"
  shows "known P (rc_admitted plan) i"
proof -
  let ?in = "pass_inputs P L D desired observed (pa_node_groups w) (pa_default w) (snd memory)"
  have valid: "validate_dependency_graph D (de_groups desired) (set (bm_keys (de_quarantined desired))) = Some (Inr ())"
    and ng: "resolve_node_groups (bm_values (de_groups desired)) (de_nodes desired) = Inr (pa_node_groups w)"
    and run: "plan_rollouts P C L (de_sets desired) ?in (os_now observed) (pass_state P L observed memory)
      = (pa_rollout w, pa_state w)"
    and adm: "rc_admitted plan = admitted_of P desired (pa_default w) (pa_rollout w) (pa_state w)"
    using s by (simp_all add: succeeds_def)
  have wf0: "bm_wf (ps_admitted (pa_state w))"
    using plan_rollouts_admitted_wf [of "pass_state P L observed memory" P C L "de_sets desired" ?in "os_now observed"] inv run
    by (simp add: pass_state_def inventory_wf_def)
  have wf: "bm_wf (rc_admitted plan)"
    unfolding adm by (rule admitted_of_wf [OF wf0])
  have n: "bm_has (pa_node_groups w) n"
    using pass_published(5,7) [OF s, of n] i by (simp add: bm_has_def)
  note survives = placed_body_survives [OF inv valid ng run _ n]
  show ?thesis
  proof (cases rule: published_cases [OF s i])
    case (1 d)
    show ?thesis
      using bodies_by_identity_entry [OF 1(2)] known_body [OF _ wf] by blast
  next
    case 2
    then show ?thesis
      by (simp add: adm admitted_of_def Let_def record_default_current)
  next
    case (3 d)
    obtain Ob where Ob: "Ob = pass_observations P L ?in (os_now observed) (pass_state P L observed memory)"
      and assign: "rp_node_deployments (pa_rollout w) =
         assign_nodes P (pass_groups P L D desired observed (pa_node_groups w) (snd memory)) (ps_admitted (pa_state w))
           (de_held desired) Ob (de_holds desired) (rc_blocked plan)"
      using pass_observed [OF s] by metis
    have "\<forall>j. deployment_identity P d = Some j \<longrightarrow> n = n \<longrightarrow> known P (rc_admitted plan) j"
    proof (rule assign_nodes_all [where Q = "\<lambda>m d. \<forall>j. deployment_identity P d = Some j \<longrightarrow> m = n \<longrightarrow> known P (rc_admitted plan) j",
          OF _ _ 3(1) [unfolded assign]], goal_cases)
      case (1 name state cid m)
      then have "known P (ps_admitted (pa_state w)) cid"
        unfolding known_def by (intro exI [of _ name] exI [of _ state] exI [of _ "ad_current state"]) (simp add: bodies_def)
      then show ?case
        using admitted_of_known [OF inv valid ng run] 1(2) by (simp add: adm)
    next
      case (2 m d' j)
      consider "d' \<in> set (concat (map bodies (bm_values (ps_admitted (pa_state w)))))"
        | name state where "(name, state) \<in> set (de_held desired)" "d' \<in> set (bodies state)"
        using 2(4) by auto
      then show ?case
      proof cases
        case 1
        then show ?thesis
          using known_body [OF 1 wf0 2(2)] admitted_of_known [OF inv valid ng run] 2(2) by (simp add: adm)
      next
        case (2 name state)
        then have "bm_get (de_held desired) name = Some state"
          using inv by (simp add: inventory_wf_def bm_get_iff)
        then have "bm_get (os_admitted observed) name = Some state"
          using inv unfolding inventory_wf_def by blast
        then have "known P (os_admitted observed) j"
          using \<open>deployment_identity P d' = Some j\<close> 2(2) unfolding known_def by blast
        then show ?thesis
          using survives \<open>advanced Ob m j\<close> \<open>deployment_identity P d' = Some j\<close> unfolding Ob adm by auto
      qed
    qed
    then show ?thesis
      using 3(2) by blast
  qed
qed

subsection \<open>No error loses a node\<close>

lemma validate_keeps_placement: "validate_dependency_graph D groups q \<noteq> Some (Inl (UnknownPlacement m l))"
proof -
  have check: "check_inputs D' name grp \<noteq> Inl (UnknownPlacement m l)" for D' name grp
    by (auto simp: check_inputs_def split: option.splits)
  have "visit fuel D groups q name st \<noteq> Some (Inl (UnknownPlacement m l))"
    and "visit_deps fuel D groups q name deps st \<noteq> Some (Inl (UnknownPlacement m l))" for fuel name deps st
    by (induction fuel D groups q name st and fuel D groups q name deps st rule: visit_visit_deps.induct)
      (auto simp: Let_def check bind_e_def split: option.splits mark.splits sum.splits)
  then have "visit_all fuel D groups q names st \<noteq> Some (Inl (UnknownPlacement m l))" for fuel names st
    by (induction names arbitrary: st) (auto split: option.splits sum.splits)
  then show ?thesis
    by (auto simp: validate_dependency_graph_def bind_e_def split: sum.splits)
qed

lemma resolve_keeps_placement: "resolve_node_groups gs ns \<noteq> Inl (UnknownPlacement m l)"
proof -
  have "index_groups gs acc \<noteq> Inl (UnknownPlacement m l)" for gs acc
    by (induction gs arbitrary: acc) (auto simp: Let_def)
  moreover have "select_groups indexed ns acc \<noteq> Inl (UnknownPlacement m l)" for indexed ns acc
    by (induction indexed ns acc rule: select_groups.induct) (auto simp: Let_def split: list.splits)
  ultimately show ?thesis
    by (auto simp: resolve_node_groups_def bind_e_def split: sum.splits)
qed

lemma bind_e_Inl_iff: "bind_e r f = Inl e \<longleftrightarrow> r = Inl e \<or> (\<exists>x. r = Inr x \<and> f x = Inl e)"
  by (cases r) (simp_all add: bind_e_def)

lemma map_err_Inl_iff: "map_err g r = Inl e \<longleftrightarrow> (\<exists>e'. r = Inl e' \<and> e = g e')"
  by (cases r) (auto simp: map_err_def)

lemma try_from_keeps_placement: "try_from P X spec \<noteq> Inl (UnknownPlacement m l)"
  by (auto simp: try_from_def Let_def bind_e_Inl_iff map_err_Inl_iff split: option.splits)

lemma agent_keeps_placement: "agent_to_bounded_json X a \<noteq> Inl (UnknownPlacement m l)"
  by (auto simp: agent_to_bounded_json_def map_err_Inl_iff)

lemma build_keeps_placement: "build_publication_plan P X prefix ng ds \<noteq> Inl (UnknownPlacement m l)"
proof -
  have "compile_nodes P X prefix entries acc \<noteq> Inl (UnknownPlacement m l)" for prefix entries acc
  proof (induction entries arbitrary: acc)
    case (Cons entry rest)
    then show ?case
      by (cases entry, cases acc)
        (auto simp: bind_e_Inl_iff map_err_Inl_iff Let_def agent_keeps_placement split: prod.splits)
  qed simp
  then show ?thesis
    by (auto simp: build_publication_plan_def Let_def bind_e_Inl_iff)
qed

lemma settle_keeps_placement:
  assumes "settle_pass P X desired observed ng groups dflt rollout st = Inl (UnknownPlacement m l)" and wf: "bm_wf ng"
  obtains grp where "bm_get ng m = Some grp" "bm_get (os_routing observed) m = Some l"
    "placed_deployment (bm_get (os_assignments observed) m)
       (bodies_by_identity P (bm_values (admitted_of P desired dflt rollout st))) = None"
proof -
  let ?c = "context_of P desired observed ng dflt rollout st" and ?h = "handed_of P desired ng dflt rollout"
  have "publish_nodes ?c ng (?h, []) = Inl (UnknownPlacement m l)"
    using assms(1) build_keeps_placement [of P X]
    by (auto simp: settle_pass_def Let_def bind_e_def split: sum.splits if_splits)
  then obtain n grp where n: "(n, grp) \<in> set ng" "carried ?c ?h n grp = Inl (UnknownPlacement m l)"
    using publish_nodes_Inl bm_wf_distinct [OF wf] by blast
  then have "n = m \<and> bm_get (os_routing observed) m = Some l \<and> placed_deployment (bm_get (os_assignments observed) m)
      (bodies_by_identity P (bm_values (admitted_of P desired dflt rollout st))) = None"
    by (auto simp: carried_def last_routing_def split: option.splits if_splits)
  then show thesis
    using that n(1) bm_get_iff [OF wf] by blast
qed

text \<open>
  C37.  The control plane never loses track of a node.  As long as every routed node has a recorded
  assignment whose body the durable state still has, a pass never fails for an unknown placement; and
  a pass that succeeds leaves routing, assignments and durable state in that same relation, keeps
  every routed node that is still in the inventory routed, and assigns exactly the nodes it routes.
  So the relation holds through every sequence of passes, whatever is held, quarantined, blocked,
  deleted, rolled back or relabelled in between.
\<close>

theorem pass_keeps_track:
  assumes pass: "plan_reconcile P C L D X desired observed memory = Some (result, memory')"
    and inv: "inventory_wf desired observed"
    and tracked: "tracked P (os_routing observed) (os_assignments observed) (os_admitted observed)"
  shows "(\<forall>n l. result \<noteq> Inl (UnknownPlacement n l))
     \<and> (\<forall>plan. result = Inr plan \<longrightarrow>
          tracked P (rc_routing plan) (rc_assignments plan) (rc_admitted plan)
          \<and> set (bm_keys (rc_assignments plan)) = set (bm_keys (rc_routing plan))
          \<and> (\<forall>n \<in> rn_name ` set (de_nodes desired). bm_has (os_routing observed) n \<longrightarrow> bm_has (rc_routing plan) n))"
proof (intro conjI allI impI)
  fix m l
  show "result \<noteq> Inl (UnknownPlacement m l)"
  proof
    assume bad: "result = Inl (UnknownPlacement m l)"
    show False
      using pass
    proof (cases rule: plan_reconcile_settled)
      case (1 e)
      then show False
        using bad validate_keeps_placement resolve_keeps_placement try_from_keeps_placement by blast
    next
      case (2 node_groups dflt rollout st)
      obtain grp where m: "bm_get node_groups m = Some grp" "bm_get (os_routing observed) m = Some l"
        "placed_deployment (bm_get (os_assignments observed) m)
           (bodies_by_identity P (bm_values (admitted_of P desired dflt rollout st))) = None"
        using settle_keeps_placement [OF _ resolve_node_groups_Inr(1) [OF 2(2)]] 2(5) bad by metis
      obtain i where i: "bm_get (os_assignments observed) m = Some i" "known P (os_admitted observed) i"
        using tracked m(2) by (auto simp: tracked_def bm_has_def)
      have "known P (admitted_of P desired dflt rollout st) i"
      proof (rule placed_body_survives [OF inv 2(1-2,4) i(2)])
        show "bm_has node_groups m"
          using m(1) by (simp add: bm_has_def)
        show "advanced (pass_observations P L (pass_inputs P L D desired observed node_groups dflt (snd memory))
            (os_now observed) (pass_state P L observed memory)) m i"
          unfolding advanced_def pass_observations_simps by (simp add: pass_inputs_def rollout_inputs_of_def i(1))
      qed
      then show False
        using known_indexed m(3) i(1) by (fastforce simp: placed_deployment_def)
    qed
  qed
next
  fix plan
  assume "result = Inr plan"
  then obtain w where s: "succeeds P C L D X desired observed memory plan w"
    using plan_reconcile_Inr pass by metis
  have "\<exists>i. bm_get (rc_assignments plan) n = Some i \<and> known P (rc_admitted plan) i" if "bm_has (rc_routing plan) n" for n
    using that pass_published(7) [OF s, of n] published_known [OF s inv] by (auto simp: bm_has_def)
  then show "tracked P (rc_routing plan) (rc_assignments plan) (rc_admitted plan)"
    by (simp add: tracked_def)
  show "set (bm_keys (rc_assignments plan)) = set (bm_keys (rc_routing plan))"
    using pass_published(7) [OF s] unfolding bm_has_iff by blast
  have "set (bm_keys (pa_node_groups w)) = rn_name ` set (de_nodes desired)"
    using s resolve_node_groups_Inr(2) unfolding succeeds_def by blast
  then show "\<forall>n \<in> rn_name ` set (de_nodes desired). bm_has (os_routing observed) n \<longrightarrow> bm_has (rc_routing plan) n"
    using routed_stays [OF s] unfolding bm_has_iff [of "pa_node_groups w"] by blast
qed

subsection \<open>A pass over a blocked default and a quarantined group\<close>

definition sample_default :: DesiredDeployment where
  "sample_default = sample_deployment (hex (CHR ''c'')) (CHR ''a'')"

definition sample_repository :: UpdateRepositorySpec where
  "sample_repository =
     \<lparr>ur_default_deployment =
        \<lparr>dp_name = as_deployment sample_default,
         dp_release_repository = \<lparr>rs_metadata_url = as_metadata_url sample_default,
           rs_targets_url = as_targets_url sample_default, rs_root_json = as_release_root sample_default\<rparr>,
         dp_application = as_application sample_default,
         dp_runtime = \<lparr>sp_product = rt_product sample_runtime, sp_channel = rt_channel sample_runtime,
           sp_install_root = rt_install_root sample_runtime, sp_repository = rt_repository sample_runtime,
           sp_storage = rt_storage sample_runtime, sp_timeouts = rt_timeouts sample_runtime\<rparr>\<rparr>,
      ur_assignment_prefix = ''/assignments/''\<rparr>"

text \<open>The node \<open>n1\<close> selects the quarantined group \<open>edge\<close>, \<open>n2\<close> nothing; both run the default, which is blocked.\<close>

definition sample_desired :: DesiredState where
  "sample_desired =
     \<lparr>de_repository = sample_repository, de_groups = [], de_group_labels = [], de_sets = [],
      de_nodes = [\<lparr>rn_name = ''n1'', rn_labels = [(''role'', ''edge'')]\<rparr>, \<lparr>rn_name = ''n2'', rn_labels = []\<rparr>],
      de_quarantined = [(''edge'', [(''role'', ''edge'')])], de_holds = {}, de_cordons = {},
      de_blocked_deployments = {hex (CHR ''c'')}, de_held = []\<rparr>"

definition sample_observed :: ObservedState where
  "sample_observed =
     \<lparr>os_reports = [], os_outputs = [], os_dataflow_key = replicate 32 (CHR ''k''), os_public_keys = [],
      os_admitted = [(DEFAULT_GROUP, \<lparr>ad_current = sample_default, ad_previous = []\<rparr>)], os_vetoed = [],
      os_routing = [(''n1'', DEFAULT_GROUP), (''n2'', DEFAULT_GROUP)],
      os_assignments = [(''n1'', hex (CHR ''c'')), (''n2'', hex (CHR ''c''))], os_now = sample_now\<rparr>"

abbreviation sample_routes :: "string bmap" where
  "sample_routes \<equiv> [(''n1'', DEFAULT_GROUP), (''n2'', DEFAULT_GROUP)]"

lemma sample_desired_valid:
  "validate_dependency_graph sample_dataflow (de_groups sample_desired) (set (bm_keys (de_quarantined sample_desired)))
     = Some (Inr ())"
  by (simp add: validate_dependency_graph_def sample_desired_def)

lemma sample_desired_nodes:
  "resolve_node_groups (bm_values (de_groups sample_desired)) (de_nodes sample_desired) = Inr sample_routes"
proof -
  have "is_dns_subdomain ''n1''" "is_dns_subdomain ''n2''"
    by code_simp+
  then show ?thesis
    by (simp add: resolve_node_groups_def sample_desired_def matching_def bm_has_def)
qed

lemma sample_default_identity: "deployment_identity sample_publisher sample_default = Some (hex (CHR ''c''))"
  using sample_producer_identity by (simp add: sample_default_def)

lemma sample_default_converted:
  "try_from sample_publisher sample_documents (ur_default_deployment (de_repository sample_desired)) = Inr sample_default"
proof -
  have valid: "assignment_validate sample_publisher sample_default = Inr ()"
    unfolding sample_default_def by (rule sample_valid [OF hex_canonical(1) hex_segment])
  have root: "xl_root_parse sample_documents = Some"
    by (simp add: sample_documents_def)
  have "sample_default = \<lparr>as_schema = SCHEMA, as_deployment = as_deployment sample_default,
      as_metadata_url = as_metadata_url sample_default, as_targets_url = as_targets_url sample_default,
      as_application = as_application sample_default, as_release_root = as_release_root sample_default,
      as_runtime = \<lparr>rt_product = rt_product sample_runtime, rt_channel = rt_channel sample_runtime,
        rt_install_root = rt_install_root sample_runtime, rt_inputs = no_inputs,
        rt_repository = rt_repository sample_runtime, rt_storage = rt_storage sample_runtime,
        rt_timeouts = rt_timeouts sample_runtime\<rparr>\<rparr>"
    by (simp add: sample_default_def sample_deployment_def SCHEMA_def sample_runtime_def no_inputs_def)
  then show ?thesis
    using valid by (simp add: try_from_def root sample_desired_def sample_repository_def Let_def map_err_def)
qed

lemma sample_inventory: "inventory_wf sample_desired sample_observed"
  by (simp add: inventory_wf_def sample_desired_def sample_observed_def bm_wf_def)

lemma sample_known: "known sample_publisher (os_admitted sample_observed) (hex (CHR ''c''))"
  unfolding known_def using sample_default_identity
  by (intro exI [of _ DEFAULT_GROUP]) (auto simp: sample_observed_def bodies_def)

lemma sample_tracked:
  "tracked sample_publisher (os_routing sample_observed) (os_assignments sample_observed) (os_admitted sample_observed)"
  using sample_known unfolding tracked_def by (auto simp: sample_observed_def bm_has_def split: if_splits)

abbreviation sample_memory :: "ObservationLog \<times> VerifiedReports" where
  "sample_memory \<equiv> (ol_new, vr_default)"

abbreviation sample_pass :: "((PlanError + ReconcilePlan) \<times> ObservationLog \<times> VerifiedReports) option" where
  "sample_pass \<equiv> plan_reconcile sample_publisher sample_calendar sample_report_lib sample_dataflow sample_documents
     sample_desired sample_observed sample_memory"

text \<open>Any body with the default's identity is published the same way.\<close>

lemma sample_published:
  assumes d: "deployment_identity sample_publisher d = Some (hex (CHR ''c''))"
  shows "\<exists>plan. build_publication_plan sample_publisher sample_documents ''/assignments/'' sample_routes
     [(''n1'', d), (''n2'', d)] = Inr plan"
proof -
  let ?i = "hex (CHR ''c'')"
  have trim: "trim_slashes ''/assignments/'' = ''assignments''"
    by code_simp
  have sha: "pb_sha256 sample_publisher = (\<lambda>bytes. bytes)"
    by (simp add: sample_publisher_def)
  obtain bytes where b: "publication sample_publisher d = Inr (bytes, ?i)"
    using d by (auto simp: deployment_identity_def split: sum.splits prod.splits)
  then have "bytes = ?i"
    by (auto simp: publication_def sha)
  moreover have "agent_to_bounded_json sample_documents \<lparr>ag_schema = 1,
      ag_config = \<lparr>tr_path = config_object_key ''assignments'' ?i, tr_sha256 = ?i\<rparr>\<rparr> = Inr ''{}''"
    using sample_document_written by (simp add: sample_document_def)
  ultimately show ?thesis
    using b
    by (simp add: build_publication_plan_def trim sample_prefix(2) reference_config_def publication_target_def
        bm_has_def sha map_err_def Let_def)
qed

lemma sample_pass_succeeds:
  obtains plan memory' where "sample_pass = Some (Inr plan, memory')" and "rc_blocked plan \<supseteq> {hex (CHR ''c'')}"
proof -
  let ?P = sample_publisher and ?L = sample_report_lib and ?i = "hex (CHR ''c'')"
  let ?in = "pass_inputs ?P ?L sample_dataflow sample_desired sample_observed sample_routes sample_default vr_default"
  let ?st = "pass_state ?P ?L sample_observed sample_memory"
  obtain rollout st where run: "plan_rollouts ?P sample_calendar ?L (de_sets sample_desired) ?in
      (os_now sample_observed) ?st = (rollout, st)"
    by (metis surj_pair)
  have groups: "ri_groups ?in = []" "ri_blocked_deployments ?in = {?i}"
    by (simp_all add: pass_inputs_def rollout_inputs_of_def pass_groups_def sample_desired_def resolve_group_inputs_def
        dependency_order_def)
  have "?i \<in> rp_blocked rollout" and none: "rp_node_deployments rollout = []"
    by (rule plan_rollouts_steps [of ?P "de_sets sample_desired" ?in ?L "os_now sample_observed" ?st sample_calendar];
        simp add: run groups assign_nodes_def)+
  then have blocked: "default_blocked_of ?P sample_default rollout"
    by (simp add: default_blocked_of_def sample_default_identity)
  let ?c = "context_of ?P sample_desired sample_observed sample_routes sample_default rollout st"
  have handed: "handed_of ?P sample_desired sample_routes sample_default rollout = []"
    by (simp add: handed_of_def hand_default_def blocked none)
  have n1: "bm_get (os_assignments sample_observed) ''n1'' = Some ?i" "bm_has sample_routes ''n1''"
    by (simp_all add: sample_observed_def bm_has_def)
  have "known ?P (admitted_of ?P sample_desired sample_default rollout st) ?i"
  proof (rule placed_body_survives [OF sample_inventory sample_desired_valid sample_desired_nodes _ sample_known n1(2)])
    show "plan_rollouts ?P sample_calendar ?L (de_sets sample_desired)
        (pass_inputs ?P ?L sample_dataflow sample_desired sample_observed sample_routes sample_default (snd sample_memory))
        (os_now sample_observed) ?st = (rollout, st)"
      using run by simp
    show "advanced (pass_observations ?P ?L (pass_inputs ?P ?L sample_dataflow sample_desired sample_observed sample_routes
        sample_default (snd sample_memory)) (os_now sample_observed) ?st) ''n1'' ?i"
      unfolding advanced_def pass_observations_simps by (simp add: pass_inputs_def rollout_inputs_of_def n1)
  qed
  then obtain d where body: "bm_get (cc_bodies ?c) ?i = Some d" and d: "deployment_identity ?P d = Some ?i"
    using known_indexed bodies_by_identity_sound by (metis context_of_simps(7))
  have "carried ?c ds n DEFAULT_GROUP = Inr (Some (DEFAULT_GROUP, d))"
    if "n = ''n1'' \<or> n = ''n2''" "\<not> bm_has ds n" for n ds
    using that blocked body by (auto simp: carried_def last_routing_def placed_deployment_def sample_observed_def)
  then have nodes: "publish_nodes ?c sample_routes ([], []) = Inr ([(''n1'', d), (''n2'', d)], sample_routes)"
    by (simp add: bm_has_def)
  have drop: "dropped_nodes sample_observed sample_routes sample_routes = []"
    by (simp add: dropped_nodes_def sample_observed_def bm_has_def)
  have prefix: "ur_assignment_prefix (de_repository sample_desired) = ''/assignments/''"
    by (simp add: sample_desired_def sample_repository_def)
  obtain plan where "settle_pass ?P sample_documents sample_desired sample_observed sample_routes
      (pass_groups ?P ?L sample_dataflow sample_desired sample_observed sample_routes vr_default) sample_default rollout st = Inr plan"
    and "rc_blocked plan = rp_blocked rollout"
    using sample_published [OF d] by (auto simp: settle_pass_def handed nodes drop prefix simp del: publish_nodes.simps)
  moreover have "sample_pass = Some (settle_pass ?P sample_documents sample_desired sample_observed sample_routes
      (pass_groups ?P ?L sample_dataflow sample_desired sample_observed sample_routes vr_default) sample_default rollout st,
      ps_observed st, ps_verified st)"
    using run sample_desired_valid sample_desired_nodes sample_default_converted
    by (simp add: plan_reconcile_def Let_def pass_inputs_def pass_groups_def pass_state_def)
  ultimately show thesis
    using that \<open>?i \<in> rp_blocked rollout\<close> by auto
qed

lemma sample_frozen: "frozen sample_desired sample_routes b ''n1''"
proof -
  have "quarantined_nodes sample_desired sample_routes = [(''n1'', ''edge'')]"
    by (simp add: quarantined_nodes_def sample_desired_def quarantined_group_def selector_matches_def
        List.map_filter_def bm_collect_def)
  then show ?thesis
    by (simp add: frozen_def bm_has_def)
qed

lemma sample_pass_assigns:
  assumes pass: "sample_pass = Some (Inr plan, memory')"
  shows "bm_get (rc_assignments plan) ''n1'' = Some (hex (CHR ''c''))"
proof -
  obtain w where s: "succeeds sample_publisher sample_calendar sample_report_lib sample_dataflow sample_documents
      sample_desired sample_observed sample_memory plan w"
    by (rule plan_reconcile_Inr [OF pass])
  have w: "pa_node_groups w = sample_routes"
    using s sample_desired_nodes by (simp add: succeeds_def)
  have "bm_has (pa_node_groups w) ''n1''"
    by (simp add: w bm_has_def)
  then show ?thesis
    using frozen_stays [OF s sample_inventory, of "''n1''"] sample_frozen by (simp add: w sample_observed_def)
qed

theorem pass_never_moves_onto_blocked_witness:
  "\<exists>plan memory'. sample_pass = Some (Inr plan, memory') \<and> hex (CHR ''c'') \<in> rc_blocked plan
     \<and> advanced (pass_observations sample_publisher sample_report_lib
         (pass_inputs sample_publisher sample_report_lib sample_dataflow sample_desired sample_observed sample_routes
            sample_default (snd sample_memory))
         (os_now sample_observed) (pass_state sample_publisher sample_report_lib sample_observed sample_memory))
         ''n1'' (hex (CHR ''c''))"
proof -
  obtain plan memory' where pass: "sample_pass = Some (Inr plan, memory')" and blocked: "{hex (CHR ''c'')} \<subseteq> rc_blocked plan"
    by (rule sample_pass_succeeds)
  then show ?thesis
    using pass_never_moves_onto_blocked [OF pass sample_desired_nodes sample_default_converted sample_pass_assigns [OF pass]]
    by blast
qed

theorem frozen_node_unmoved_witness:
  "\<exists>plan memory'. sample_pass = Some (Inr plan, memory')
     \<and> bm_get (rc_routing plan) ''n1'' = Some DEFAULT_GROUP
     \<and> bm_get (rc_assignments plan) ''n1'' = bm_get (os_assignments sample_observed) ''n1''"
proof -
  obtain plan memory' where pass: "sample_pass = Some (Inr plan, memory')"
    by (rule sample_pass_succeeds)
  have "bm_has sample_routes ''n1''" and "bm_get (os_routing sample_observed) ''n1'' = Some DEFAULT_GROUP"
    by (simp_all add: bm_has_def sample_observed_def)
  then show ?thesis
    using frozen_node_unmoved [OF pass sample_inventory sample_desired_nodes sample_default_converted _ sample_frozen] pass
    by auto
qed

theorem pass_keeps_track_witness:
  "\<exists>plan memory'. sample_pass = Some (Inr plan, memory')
     \<and> tracked sample_publisher (rc_routing plan) (rc_assignments plan) (rc_admitted plan)
     \<and> bm_has (rc_routing plan) ''n2''"
proof -
  obtain plan memory' where pass: "sample_pass = Some (Inr plan, memory')"
    by (rule sample_pass_succeeds)
  have "''n2'' \<in> rn_name ` set (de_nodes sample_desired)" "bm_has (os_routing sample_observed) ''n2''"
    by (simp_all add: sample_desired_def sample_observed_def bm_has_def)
  then show ?thesis
    using pass_keeps_track [OF pass sample_inventory sample_tracked] pass by blast
qed

end
