(* ===== verification/Reconcile_Types.thy ===== *)
theory Reconcile_Types
  imports Reconcile_Safety
begin

text \<open>
  The shape of what a reconcile pass returns (\<^verbatim>\<open>ReconcilePlan\<close> of \<^verbatim>\<open>crates/updatec/src/domain.rs\<close>):
  its maps are ordered maps, they are filed under the names they should be, and the routing and the
  assignments it persists hold valid node names and canonical identities.
\<close>

subsection \<open>The typing of a plan\<close>

definition plan_maps_wf :: "ReconcilePlan \<Rightarrow> bool" where
  "plan_maps_wf plan \<longleftrightarrow>
     bm_wf (rc_desired_deployments plan) \<and> bm_wf (rc_input_snapshots plan) \<and> bm_wf (rc_admitted plan)
     \<and> bm_wf (rc_vetoed plan) \<and> bm_wf (rc_routing plan) \<and> bm_wf (rc_assignments plan)
     \<and> bm_wf (rc_groups plan) \<and> bm_wf (rc_node_counts plan) \<and> bm_wf (rc_halted_groups plan)"

definition plan_keys_typed :: "DesiredState \<Rightarrow> ReconcilePlan \<Rightarrow> bool" where
  "plan_keys_typed desired plan \<longleftrightarrow>
     (let groups = set (bm_keys (de_groups desired)) in
      set (bm_keys (rc_desired_deployments plan)) = groups
      \<and> set (bm_keys (rc_groups plan)) = groups
      \<and> set (bm_keys (rc_node_counts plan)) = insert DEFAULT_GROUP groups
      \<and> set (bm_keys (rc_halted_groups plan)) \<subseteq> insert DEFAULT_GROUP groups)"

definition plan_nodes_typed :: "DesiredState \<Rightarrow> ReconcilePlan \<Rightarrow> bool" where
  "plan_nodes_typed desired plan \<longleftrightarrow>
     bm_keys (rc_routing plan) = bm_keys (rc_assignments plan)
     \<and> (\<forall>(node, identity) \<in> set (rc_assignments plan).
          node \<in> rn_name ` set (de_nodes desired) \<and> is_dns_subdomain node \<and> is_canonical_sha256 identity)"

subsection \<open>The planner's maps\<close>

lemma bm_keys_collect: "set (bm_keys (bm_collect entries)) = fst ` set entries"
proof -
  have "set (bm_keys (fold (\<lambda>(k, v). bm_insert k v) es m)) = fst ` set es \<union> set (bm_keys m)" for es and m :: "'a bmap"
    by (induction es arbitrary: m) (auto simp del: set_map)
  then show ?thesis
    by (simp add: bm_collect_def)
qed

lemma rollback_vetoed_wf:
  assumes "bm_wf vetoed"
  shows "bm_wf (snd (rollback_response P sets desired labels Ob regressions blocks (admitted, vetoed)))"
proof -
  have "bm_wf (snd (apply_rebase regressions r s))" if "bm_wf (snd s)" for r s
    using that by (auto simp: apply_rebase_def Let_def split: prod.splits)
  then show ?thesis
    using assms by (auto simp: rollback_response_def intro!: fold_invariant_set [where I = "\<lambda>s. bm_wf (snd s)"])
qed

lemma halted_groups_keys:
  "set (bm_keys (halted_groups_of P desired admitted d regressions vetoed)) \<subseteq> insert DEFAULT_GROUP (set (bm_keys desired))"
  unfolding halted_groups_of_def bm_keys_collect by (auto simp: map_filter_set)

lemma plan_rollouts_maps:
  assumes run: "plan_rollouts P C L sets inputs now st = (rollout, st')"
  shows "bm_wf (ps_vetoed st) \<Longrightarrow> bm_wf (ps_vetoed st')"
    and "bm_wf (ri_groups inputs) \<Longrightarrow> bm_wf (rp_groups rollout)"
    and "bm_wf (rp_node_counts rollout)" and "bm_wf (rp_halted_groups rollout)" and "bm_wf (rp_node_deployments rollout)"
    and "bm_keys (rp_groups rollout) = bm_keys (ri_groups inputs)"
    and "set (bm_keys (rp_node_counts rollout)) = insert DEFAULT_GROUP (set (bm_keys (ri_groups inputs)))"
    and "set (bm_keys (rp_halted_groups rollout)) \<subseteq> insert DEFAULT_GROUP (set (bm_keys (ri_groups inputs)))"
proof -
  have keys: "bm_keys (desired_of (ri_groups inputs)) = bm_keys (ri_groups inputs)"
    by (simp add: desired_of_def)
  have parts: "rollout = fst (plan_rollouts P C L sets inputs now st)" "st' = snd (plan_rollouts P C L sets inputs now st)"
    by (simp_all add: run)
  note unfold = parts plan_rollouts_def Let_def split_beta
  show "bm_wf (ps_vetoed st')" if "bm_wf (ps_vetoed st)"
    using that by (simp add: unfold rollback_vetoed_wf)
  show "bm_wf (rp_groups rollout)" if "bm_wf (ri_groups inputs)"
    using that by (simp add: unfold)
  show "bm_wf (rp_node_counts rollout)" "bm_wf (rp_halted_groups rollout)" "bm_wf (rp_node_deployments rollout)"
    by (simp_all add: unfold halted_groups_of_def assign_nodes_wf)
  show "bm_keys (rp_groups rollout) = bm_keys (ri_groups inputs)"
    by (simp add: unfold keys del: map_map)
  show "set (bm_keys (rp_node_counts rollout)) = insert DEFAULT_GROUP (set (bm_keys (ri_groups inputs)))"
    by (simp add: unfold bm_keys_collect [simplified] desired_of_def bm_map_def image_image split_beta)
  show "set (bm_keys (rp_halted_groups rollout)) \<subseteq> insert DEFAULT_GROUP (set (bm_keys (ri_groups inputs)))"
    using halted_groups_keys [where desired = "desired_of (ri_groups inputs)", unfolded keys]
    by (simp add: unfold)
qed

subsection \<open>Nodes and identities\<close>

lemma select_groups_dns:
  "\<lbrakk>select_groups indexed ns acc = Inr node_groups; node \<in> rn_name ` set ns\<rbrakk> \<Longrightarrow> is_dns_subdomain node"
  by (induction indexed ns acc rule: select_groups.induct) (auto simp: Let_def split: if_splits list.splits)

lemma resolve_node_groups_dns:
  assumes "resolve_node_groups gs ns = Inr node_groups" and "node \<in> rn_name ` set ns"
  shows "is_dns_subdomain node"
proof -
  obtain indexed where "select_groups indexed ns [] = Inr node_groups"
    using assms(1) by (auto simp: resolve_node_groups_def)
  then show ?thesis
    using assms(2) by (rule select_groups_dns)
qed

text \<open>An identity is signed into a routing document, and writing that document checks it.\<close>

lemma published_identity_canonical:
  assumes build: "build_publication_plan P X prefix node_groups ds = Inr plan" and wf: "bm_wf ds"
    and a: "bm_get (pp_node_assignments plan) node = Some identity"
  shows "is_canonical_sha256 identity"
proof -
  obtain references where "compiled_ok P X (trim_slashes prefix) (pp_targets plan, references, pp_node_assignments plan)"
    using build_publication_Inr(6) [OF build wf] by blast
  then obtain t where "routing_target X (trim_slashes prefix) node identity t"
    using a unfolding compiled_ok_def prod.case by blast
  then show ?thesis
    by (auto simp: routing_target_def agent_to_bounded_json_def agent_validate_def target_is_valid_def split: if_splits)
qed

lemma published_nodes_typed:
  assumes s: "succeeds P C L D X desired observed memory plan w"
  shows "bm_wf (rc_routing plan)" and "bm_wf (rc_assignments plan)" and "plan_nodes_typed desired plan"
proof -
  have ng: "resolve_node_groups (bm_values (de_groups desired)) (de_nodes desired) = Inr (pa_node_groups w)"
    and pub: "publish_nodes (pass_context P desired observed w) (pa_node_groups w) (pass_handed P desired w, [])
         = Inr (pa_deployments w, rc_routing plan)"
    and build: "build_publication_plan P X (ur_assignment_prefix (de_repository desired)) (rc_routing plan)
         (pa_deployments w) = Inr (rc_publication plan)"
    and assigned: "rc_assignments plan = pp_node_assignments (rc_publication plan)"
    using s by (simp_all add: succeeds_def)
  have "bm_wf (pass_handed P desired w)"
    using plan_rollouts_maps(5) s by (auto simp: succeeds_def handed_of_def intro!: hand_default_wf)
  then have wf: "bm_wf (pa_deployments w)" "bm_wf (rc_routing plan)"
    and out: "n \<notin> set (bm_keys (pa_node_groups w)) \<Longrightarrow> bm_get (rc_routing plan) n = None" for n
    using publish_nodes_Inr [OF pub bm_wf_distinct] resolve_node_groups_Inr(1) [OF ng] by auto
  note facts = build_publication_Inr [OF build wf(1), folded assigned]
  show "bm_wf (rc_routing plan)" "bm_wf (rc_assignments plan)"
    by (fact wf facts)+
  have "n \<in> set (bm_keys (pa_deployments w)) \<longleftrightarrow> n \<in> set (bm_keys (rc_assignments plan))" for n
    using facts(4,5) [of n] unfolding bm_has_iff [symmetric] bm_has_def by fastforce
  then have same: "bm_keys (rc_routing plan) = bm_keys (rc_assignments plan)"
    unfolding facts(2) using wf(1) facts(3)
    by (intro sorted_distinct_set_unique bm_wf_sorted bm_wf_distinct) auto
  have "node \<in> rn_name ` set (de_nodes desired) \<and> is_canonical_sha256 identity"
    if entry: "(node, identity) \<in> set (rc_assignments plan)" for node identity
  proof
    have "node \<in> set (bm_keys (rc_routing plan))"
      using entry unfolding same by force
    then show "node \<in> rn_name ` set (de_nodes desired)"
      using out [of node] unfolding resolve_node_groups_Inr(2) [OF ng, symmetric] by (metis map_of_eq_None_iff set_map)
    show "is_canonical_sha256 identity"
      using entry published_identity_canonical [OF build wf(1)] bm_get_iff [OF facts(3)] assigned by auto
  qed
  then show "plan_nodes_typed desired plan"
    using resolve_node_groups_dns [OF ng] same unfolding plan_nodes_typed_def by blast
qed

lemma settle_pass_fields:
  assumes "settle_pass P X desired observed node_groups groups dflt rollout st = Inr plan"
  shows "rc_desired_deployments plan = desired_of groups" and "rc_input_snapshots plan = input_snapshots_of groups"
    and "rc_admitted plan = admitted_of P desired dflt rollout st" and "rc_vetoed plan = ps_vetoed st"
    and "rc_groups plan = rp_groups rollout" and "rc_node_counts plan = rp_node_counts rollout"
    and "rc_halted_groups plan = rp_halted_groups rollout"
  using assms by (auto simp: settle_pass_def Let_def split: if_splits prod.splits)

text \<open>
  C40. The result of a successful reconcile pass is well typed: every map of the plan is an ordered
  map; the desired deployments and the progress are filed under exactly the planned groups, the node
  counts under these and the default group, and halts under no other name; the routing and the
  assignments have the same nodes, each a node of the inventory with a DNS name, and every assigned
  identity is a canonical SHA-256.
\<close>

theorem pass_result_typed:
  assumes pass: "plan_reconcile P C L D X desired observed memory = Some (Inr plan, memory')"
    and inv: "inventory_wf desired observed" and vetoed: "bm_wf (os_vetoed observed)"
  shows "plan_maps_wf plan \<and> plan_keys_typed desired plan \<and> plan_nodes_typed desired plan"
proof -
  obtain w where "succeeds P C L D X desired observed memory plan w"
    using pass by (rule plan_reconcile_Inr)
  note ns = published_nodes_typed [OF this]
  show ?thesis
    using pass
  proof (cases rule: plan_reconcile_settled)
    case (2 node_groups dflt rollout st)
    let ?inputs = "pass_inputs P L D desired observed node_groups dflt (snd memory)"
    note fields = settle_pass_fields [OF 2(5) [symmetric]] and maps = plan_rollouts_maps [OF 2(4)]
    note groups = pass_groups_facts [OF inv 2(1,2)]
    have ri: "ri_groups ?inputs = pass_groups P L D desired observed node_groups (snd memory)"
      by (simp add: pass_inputs_def rollout_inputs_of_def)
    have start: "bm_wf (ps_admitted (pass_state P L observed memory))" "bm_wf (ps_vetoed (pass_state P L observed memory))"
      using inv vetoed by (simp_all add: pass_state_def inventory_wf_def)
    have "bm_wf (ps_admitted st)"
      using plan_rollouts_admitted_wf [OF start(1)] 2(4) by (metis snd_conv)
    then have "plan_maps_wf plan"
      using maps(1-4) start(2) groups(1) ns(1,2)
      by (simp add: plan_maps_wf_def fields ri admitted_of_wf input_snapshots_of_def)
    moreover have "set (bm_keys (ri_groups ?inputs)) = set (bm_keys (de_groups desired))"
      using groups(2) unfolding ri bm_has_iff by blast
    then have "plan_keys_typed desired plan"
      using maps(6-8) unfolding plan_keys_typed_def Let_def fields ri
      by (simp add: desired_of_def del: set_map)
    ultimately show ?thesis
      using ns(3) by simp
  qed simp
qed

theorem pass_result_typed_witness:
  "\<exists>plan memory'. sample_pass = Some (Inr plan, memory') \<and> plan_nodes_typed sample_desired plan
     \<and> bm_has (rc_assignments plan) ''n1''"
proof -
  obtain plan memory' where pass: "sample_pass = Some (Inr plan, memory')"
    by (rule sample_pass_succeeds)
  have "bm_wf (os_vetoed sample_observed)"
    by (simp add: sample_observed_def)
  then show ?thesis
    using pass_result_typed [OF pass sample_inventory] pass sample_pass_assigns [OF pass] by (auto simp: bm_has_def)
qed

end
