(* ===== verification/Remote_Calls.thy ===== *)
theory Remote_Calls
  imports Release_Graph
begin

text \<open>
  Sequences of calls to services outside the controller, as its asynchronous code writes them with
  \<^verbatim>\<open>.await?\<close>: a call transforms an abstract state of the world and returns a value or an error, and
  the first error ends the sequence.  A service answers, finds nothing, or fails; a process that
  dies at a call is a failure of that call.  \<open>wp\<close> is the weakest precondition the client proofs use.
\<close>

datatype 'a reply = Answered 'a | Missing | Refused

type_synonym ('e, 's, 'a) io = "'s \<Rightarrow> ('e + 'a) \<times> 's"

definition done_io :: "'a \<Rightarrow> ('e, 's, 'a) io" where
  "done_io x = (\<lambda>s. (Inr x, s))"

definition bind_io :: "('e, 's, 'a) io \<Rightarrow> ('a \<Rightarrow> ('e, 's, 'b) io) \<Rightarrow> ('e, 's, 'b) io" where
  "bind_io m f = (\<lambda>s. case m s of (Inl e, t) \<Rightarrow> (Inl e, t) | (Inr x, t) \<Rightarrow> f x t)"

definition pure_io :: "'e + 'a \<Rightarrow> ('e, 's, 'a) io" where
  "pure_io r = (\<lambda>s. (r, s))"

definition call_io :: "'e \<Rightarrow> ('s \<Rightarrow> 'a reply \<times> 's) \<Rightarrow> ('e, 's, 'a) io" where
  "call_io e m = (\<lambda>s. case m s of (Answered x, t) \<Rightarrow> (Inr x, t) | (_, t) \<Rightarrow> (Inl e, t))"

primrec each_e :: "('a \<Rightarrow> 'e + unit) \<Rightarrow> 'a list \<Rightarrow> 'e + unit" where
  "each_e f [] = Inr ()"
| "each_e f (x # xs) = bind_e (f x) (\<lambda>_. each_e f xs)"

primrec each_io :: "('a \<Rightarrow> ('e, 's, unit) io) \<Rightarrow> 'a list \<Rightarrow> ('e, 's, unit) io" where
  "each_io f [] = done_io ()"
| "each_io f (x # xs) = bind_io (f x) (\<lambda>_. each_io f xs)"

definition some_or :: "'e \<Rightarrow> 'a option \<Rightarrow> 'e + 'a" where
  "some_or e r = (case r of None \<Rightarrow> Inl e | Some x \<Rightarrow> Inr x)"

lemma each_e_Inr: "each_e f xs = Inr () \<longleftrightarrow> (\<forall>x\<in>set xs. f x = Inr ())"
  by (induction xs) (auto simp: bind_e_Inr_iff)

lemma some_or_Inr_iff [simp]: "some_or e r = Inr x \<longleftrightarrow> r = Some x"
  by (auto simp: some_or_def split: option.splits)

subsection \<open>Reasoning about sequences of calls\<close>

text \<open>
  \<open>wp m Q E s\<close>: the call \<open>m\<close> started in \<open>s\<close> ends with a value and a state in \<open>Q\<close>, or with an error and
  a state in \<open>E\<close>.
\<close>

definition wp :: "('e, 's, 'a) io \<Rightarrow> ('a \<Rightarrow> 's \<Rightarrow> bool) \<Rightarrow> ('e \<Rightarrow> 's \<Rightarrow> bool) \<Rightarrow> 's \<Rightarrow> bool" where
  "wp m Q E s = (case m s of (Inr x, t) \<Rightarrow> Q x t | (Inl e, t) \<Rightarrow> E e t)"

named_theorems wp_simps

lemma wp_bind [wp_simps]: "wp (bind_io m f) Q E = wp m (\<lambda>x. wp (f x) Q E) E"
  by (rule ext) (auto simp: wp_def bind_io_def split: prod.splits sum.splits)

lemma wp_done [wp_simps]: "wp (done_io x) Q E = Q x"
  by (rule ext) (simp add: wp_def done_io_def)

lemma wp_pure [wp_simps]: "wp (pure_io (Inr x)) Q E = Q x" "wp (pure_io (Inl e)) Q E = E e"
  by (rule ext, simp add: wp_def pure_io_def)+

lemma wp_mono:
  "wp m Q E s \<Longrightarrow> (\<And>x t. Q x t \<Longrightarrow> Q' x t) \<Longrightarrow> (\<And>e t. E e t \<Longrightarrow> E' e t) \<Longrightarrow> wp m Q' E' s"
  by (auto simp: wp_def split: prod.splits sum.splits)

lemma wpD: "wp m Q E s \<Longrightarrow> m s = (r, t) \<Longrightarrow> (case r of Inr x \<Rightarrow> Q x t | Inl e \<Rightarrow> E e t)"
  by (simp add: wp_def)

text \<open>A loop over a list, with an invariant indexed by the elements already handled.\<close>

lemma wp_each:
  assumes "\<And>x done_xs t. x \<in> set xs \<Longrightarrow> I done_xs t \<Longrightarrow> wp (f x) (\<lambda>_. I (done_xs @ [x])) E t"
    and "I [] s" and "\<And>t. I xs t \<Longrightarrow> Q () t"
  shows "wp (each_io f xs) Q E s"
proof -
  have "wp (each_io f ys) Q E t" if "xs = zs @ ys" "I zs t" for zs ys t
    using that
  proof (induction ys arbitrary: zs t)
    case Nil
    then show ?case using assms(3) by (simp add: wp_simps)
  next
    case (Cons y ys)
    have "wp (f y) (\<lambda>_. I (zs @ [y])) E t" using assms(1) Cons.prems by simp
    then have "wp (f y) (\<lambda>_. wp (each_io f ys) Q E) E t"
      by (rule wp_mono) (use Cons in auto)
    then show ?case by (simp add: wp_simps)
  qed
  then show ?thesis using assms(2) by simp
qed

end
