(* ===== verification/Admitted_State.thy ===== *)
theory Admitted_State
  imports Fleet_Sample Remote_Calls "HOL-Library.Multiset"
begin

text \<open>
  The durable rollout state of the controller, \<^verbatim>\<open>crates/updatec/src/runtime/admitted.rs\<close>: one
  document, kept in Kubernetes ConfigMaps.  An index object names the active one of two slots; a
  slot is a fixed number of shard objects that hold the document's bytes in order.

  The Kubernetes client is the parameter \<open>A\<close>, a record of calls on an abstract server state; what
  they are documented to do is the predicate \<open>documented_api\<close> below, which lets any call fail before
  or after it took effect.  A caller stops at the first failure, so a process that dies at a call is
  one of these failures.  The JSON codecs and SHA-256 are the parameter \<open>S\<close>, and \<open>P\<close> is the publisher
  library of the deployments' own validation.
\<close>

subsection \<open>Objects and calls\<close>

type_synonym u8 = "8 word"

record OwnerReference =
  or_uid :: string
  or_controller :: "bool option"

record ConfigMap =
  cm_name :: string
  cm_namespace :: "string option"
  cm_resource_version :: "string option"
  cm_owner_references :: "OwnerReference list option"
  cm_labels :: "string bmap"
  cm_data :: "string bmap option"
  cm_binary_data :: "string bmap option"

record 's configmap_api =
  api_get_opt :: "string \<Rightarrow> 's \<Rightarrow> ConfigMap option reply \<times> 's"
  api_get :: "string \<Rightarrow> 's \<Rightarrow> ConfigMap reply \<times> 's"
  api_create :: "ConfigMap \<Rightarrow> 's \<Rightarrow> ConfigMap reply \<times> 's"
  api_replace :: "string \<Rightarrow> ConfigMap \<Rightarrow> 's \<Rightarrow> ConfigMap reply \<times> 's"
  api_delete :: "string \<Rightarrow> 's \<Rightarrow> unit reply \<times> 's"

datatype index_error =
    UnsupportedFormat | SlotOverLimit | InvalidMaxShards | WidthMismatch | NoRevision | EmptyDeclaresRevision

datatype shard_error = NoShardData | ShardField string | NoStateBin | StateBinTooLarge

datatype durable_error =
    AdmittedGroupName string | CurrentInvalid string assignment_error
  | PreviousInvalid string assignment_error | VetoInvalid string
  | RouteInvalid string string | AssignmentIdentity string
  | StoredIdentity string | StoredNode string | StoredTwice string

datatype state_error =
    ApiFailed | StateMaxShards | NoResourceVersion | NoIndexDocument | IndexUnreadable
  | IndexInvalid index_error | NoNamespace | ShardUnreadable | ShardInvalid shard_error
  | RevisionMismatch | DocumentUnreadable | DocumentInvalid durable_error | EncodeFailed
  | StateInvalid durable_error | StateCapacityExceeded | ShardTooLarge

type_synonym ('s, 'a) state_io = "(state_error, 's, 'a) io"

subsection \<open>The index\<close>

definition MAX_ADMITTED_STATE_SHARDS :: nat where
  "MAX_ADMITTED_STATE_SHARDS = 64"

definition ADMITTED_STATE_SHARD_MAX_BYTES :: nat where
  "ADMITTED_STATE_SHARD_MAX_BYTES = 768 * 1024"

definition ADMITTED_STATE_FORMAT :: u8 where
  "ADMITTED_STATE_FORMAT = 1"

datatype AdmittedShardLimit = AdmittedShardLimit (stored: u8)

definition shard_limit_new :: "u8 \<Rightarrow> state_error + AdmittedShardLimit" where
  "shard_limit_new configured =
     (if \<not> (1 \<le> unat configured \<and> unat configured \<le> MAX_ADMITTED_STATE_SHARDS) then Inl StateMaxShards
      else Inr (AdmittedShardLimit configured))"

definition shard_count :: "AdmittedShardLimit \<Rightarrow> nat" where
  "shard_count limit = unat (stored limit)"

definition CHILD_NAME_DIGEST_CHARS :: nat where
  "CHILD_NAME_DIGEST_CHARS = 12"

definition bounded_child_name :: "(string \<Rightarrow> string) \<Rightarrow> string \<Rightarrow> string \<Rightarrow> nat \<Rightarrow> string" where
  "bounded_child_name sha256 prefix name max_bytes =
     (if length prefix + length name \<le> max_bytes then prefix @ name
      else prefix @ take (max_bytes - length prefix - 1 - CHILD_NAME_DIGEST_CHARS) name
             @ ''-'' @ take CHILD_NAME_DIGEST_CHARS (sha256 name))"

definition admitted_configmap_name :: "(string \<Rightarrow> string) \<Rightarrow> string \<Rightarrow> string" where
  "admitted_configmap_name sha256 repository_name =
     bounded_child_name sha256 ''updatec-admitted-'' repository_name 248"

datatype AdmittedStateSlot = SlotA | SlotB

fun slot_other :: "AdmittedStateSlot \<Rightarrow> AdmittedStateSlot" where
  "slot_other SlotA = SlotB"
| "slot_other SlotB = SlotA"

fun slot_name :: "AdmittedStateSlot \<Rightarrow> string" where
  "slot_name SlotA = ''a''"
| "slot_name SlotB = ''b''"

definition two_digits :: "nat \<Rightarrow> string" where
  "two_digits n = (if n < 10 then ''0'' @ show_nat n else show_nat n)"

definition admitted_state_shard_name :: "string \<Rightarrow> AdmittedStateSlot \<Rightarrow> nat \<Rightarrow> string" where
  "admitted_state_shard_name base slot index = base @ ''-'' @ slot_name slot @ ''-'' @ two_digits index"

record AdmittedStateIndex =
  ix_format :: u8
  ix_active :: "AdmittedStateSlot option"
  ix_revision_sha256 :: "string option"
  ix_max_shards :: u8
  ix_a_shards :: u8
  ix_b_shards :: u8

definition index_default :: AdmittedStateIndex where
  "index_default =
     \<lparr>ix_format = ADMITTED_STATE_FORMAT, ix_active = None, ix_revision_sha256 = None,
      ix_max_shards = 0, ix_a_shards = 0, ix_b_shards = 0\<rparr>"

fun index_shards :: "AdmittedStateIndex \<Rightarrow> AdmittedStateSlot \<Rightarrow> u8" where
  "index_shards index SlotA = ix_a_shards index"
| "index_shards index SlotB = ix_b_shards index"

fun set_shards :: "AdmittedStateSlot \<Rightarrow> u8 \<Rightarrow> AdmittedStateIndex \<Rightarrow> AdmittedStateIndex" where
  "set_shards SlotA shards index = index\<lparr>ix_a_shards := shards\<rparr>"
| "set_shards SlotB shards index = index\<lparr>ix_b_shards := shards\<rparr>"

definition index_validate :: "AdmittedStateIndex \<Rightarrow> index_error + unit" where
  "index_validate index =
     (if ix_format index \<noteq> ADMITTED_STATE_FORMAT then Inl UnsupportedFormat
      else if list_ex (\<lambda>count. unat count > MAX_ADMITTED_STATE_SHARDS) [ix_a_shards index, ix_b_shards index]
      then Inl SlotOverLimit
      else (case ix_active index of
          Some active \<Rightarrow>
            if \<not> (1 \<le> unat (ix_max_shards index) \<and> unat (ix_max_shards index) \<le> MAX_ADMITTED_STATE_SHARDS)
            then Inl InvalidMaxShards
            else if index_shards index active \<noteq> ix_max_shards index then Inl WidthMismatch
            else if \<not> (case ix_revision_sha256 index of None \<Rightarrow> False | Some r \<Rightarrow> is_canonical_sha256 r)
            then Inl NoRevision
            else Inr ()
        | None \<Rightarrow>
            if ix_revision_sha256 index \<noteq> None \<or> ix_max_shards index \<noteq> 0 then Inl EmptyDeclaresRevision
            else Inr ()))"

record AdmittedStateVersion =
  av_resource_version :: string
  av_index :: AdmittedStateIndex

subsection \<open>The document\<close>

record DurableRolloutState =
  du_admitted :: "AdmittedDeployment bmap"
  du_vetoed :: "VetoedDeployment bmap"
  du_routing :: "string bmap"
  du_assignments :: "string bmap"

record StoredDurableRolloutState =
  st_admitted :: "AdmittedDeployment bmap"
  st_vetoed :: "VetoedDeployment bmap"
  st_routing :: "string bmap"
  st_assignments :: "string list bmap"

definition durable_default :: DurableRolloutState where
  "durable_default = \<lparr>du_admitted = [], du_vetoed = [], du_routing = [], du_assignments = []\<rparr>"

definition durable_validate :: "publisher \<Rightarrow> DurableRolloutState \<Rightarrow> durable_error + unit" where
  "durable_validate P state =
     bind_e (each_e (\<lambda>(name, admitted).
         bind_e (check_e (is_dns_subdomain name) (AdmittedGroupName name)) (\<lambda>_.
         bind_e (map_err (CurrentInvalid name) (assignment_validate P (ad_current admitted))) (\<lambda>_.
         each_e (\<lambda>previous. map_err (PreviousInvalid name) (assignment_validate P previous)) (ad_previous admitted))))
       (du_admitted state)) (\<lambda>_.
     bind_e (each_e (\<lambda>(identity, veto).
         check_e (\<not> (\<not> is_canonical_sha256 identity \<or> \<not> is_segment (vd_deployment veto) \<or> vd_evidence veto = 0))
           (VetoInvalid identity)) (du_vetoed state)) (\<lambda>_.
     bind_e (each_e (\<lambda>(node, name).
         check_e (\<not> (\<not> is_dns_subdomain node \<or> \<not> is_dns_subdomain name)) (RouteInvalid node name))
       (du_routing state)) (\<lambda>_.
     each_e (\<lambda>(node, identity).
         check_e (\<not> (\<not> is_dns_subdomain node \<or> \<not> is_canonical_sha256 identity)) (AssignmentIdentity node))
       (du_assignments state))))"

definition encode_assignment :: "string \<times> string \<Rightarrow> string list bmap \<Rightarrow> string list bmap" where
  "encode_assignment = (\<lambda>(node, identity) inverted.
     bm_insert identity ((case bm_get inverted identity of None \<Rightarrow> [] | Some ns \<Rightarrow> ns) @ [node]) inverted)"

definition encode_assignments :: "string bmap \<Rightarrow> string list bmap" where
  "encode_assignments assignments = fold encode_assignment assignments []"

fun decode_nodes :: "string \<Rightarrow> string list \<Rightarrow> string bmap \<Rightarrow> durable_error + string bmap" where
  "decode_nodes identity [] assignments = Inr assignments"
| "decode_nodes identity (node # rest) assignments =
     bind_e (check_e (is_dns_subdomain node) (StoredNode node)) (\<lambda>_.
     if bm_has assignments node then Inl (StoredTwice node)
     else decode_nodes identity rest (bm_insert node identity assignments))"

fun decode_entries :: "string list bmap \<Rightarrow> string bmap \<Rightarrow> durable_error + string bmap" where
  "decode_entries [] assignments = Inr assignments"
| "decode_entries ((identity, ns) # rest) assignments =
     bind_e (check_e (is_canonical_sha256 identity) (StoredIdentity identity)) (\<lambda>_.
     bind_e (decode_nodes identity ns assignments) (\<lambda>assignments'. decode_entries rest assignments'))"

definition decode_assignments :: "string list bmap \<Rightarrow> durable_error + string bmap" where
  "decode_assignments stored_map = decode_entries stored_map []"

definition stored_from :: "DurableRolloutState \<Rightarrow> StoredDurableRolloutState" where
  "stored_from state =
     \<lparr>st_admitted = du_admitted state, st_vetoed = du_vetoed state, st_routing = du_routing state,
      st_assignments = encode_assignments (du_assignments state)\<rparr>"

definition durable_try_from :: "publisher \<Rightarrow> StoredDurableRolloutState \<Rightarrow> durable_error + DurableRolloutState" where
  "durable_try_from P st =
     bind_e (decode_assignments (st_assignments st)) (\<lambda>assignments.
       let state = \<lparr>du_admitted = st_admitted st, du_vetoed = st_vetoed st, du_routing = st_routing st,
                    du_assignments = assignments\<rparr>
       in bind_e (durable_validate P state) (\<lambda>_. Inr state))"

record state_lib =
  sl_index_to_string :: "AdmittedStateIndex \<Rightarrow> string option"
  sl_index_from_str :: "string \<Rightarrow> AdmittedStateIndex option"
  sl_state_to_vec :: "StoredDurableRolloutState \<Rightarrow> string option"
  sl_state_from_slice :: "string \<Rightarrow> StoredDurableRolloutState option"
  sl_sha256 :: "string \<Rightarrow> string"

record PreparedAdmittedState =
  pr_encoded :: string
  pr_revision_sha256 :: string
  pr_max_shards :: AdmittedShardLimit

definition prepare_admitted_state ::
    "publisher \<Rightarrow> state_lib \<Rightarrow> DurableRolloutState \<Rightarrow> AdmittedShardLimit \<Rightarrow> state_error + PreparedAdmittedState" where
  "prepare_admitted_state P S state max_shards =
     bind_e (map_err StateInvalid (durable_validate P state)) (\<lambda>_.
     bind_e (some_or EncodeFailed (sl_state_to_vec S (stored_from state))) (\<lambda>encoded.
     if length encoded > shard_count max_shards * ADMITTED_STATE_SHARD_MAX_BYTES then Inl StateCapacityExceeded
     else Inr \<lparr>pr_encoded = encoded, pr_revision_sha256 = sl_sha256 S encoded, pr_max_shards = max_shards\<rparr>))"

subsection \<open>Writing and removing objects\<close>

definition admitted_state_labels :: "string bmap" where
  "admitted_state_labels =
     bm_collect [(''app.kubernetes.io/component'', ''controller-state''),
                 (''app.kubernetes.io/managed-by'', ''updatec'')]"

definition write_admitted_state_index ::
    "'s configmap_api \<Rightarrow> state_lib \<Rightarrow> string \<Rightarrow> string \<Rightarrow> AdmittedStateIndex \<Rightarrow> string option
     \<Rightarrow> OwnerReference option \<Rightarrow> ('s, AdmittedStateVersion) state_io" where
  "write_admitted_state_index A S name namespace index resource_version owner =
     bind_io (pure_io (map_err IndexInvalid (index_validate index))) (\<lambda>_.
     bind_io (pure_io (some_or EncodeFailed (sl_index_to_string S index))) (\<lambda>json.
     let configmap =
           \<lparr>cm_name = name, cm_namespace = Some namespace, cm_resource_version = resource_version,
            cm_owner_references = map_option (\<lambda>o'. [o']) owner, cm_labels = admitted_state_labels,
            cm_data = Some (bm_collect [(''index.json'', json)]), cm_binary_data = None\<rparr>
     in bind_io (if resource_version \<noteq> None then call_io ApiFailed (api_replace A name configmap)
                 else call_io ApiFailed (api_create A configmap)) (\<lambda>written.
        bind_io (pure_io (some_or NoResourceVersion (cm_resource_version written))) (\<lambda>rv.
        done_io \<lparr>av_resource_version = rv, av_index = index\<rparr>))))"

definition shard_fields :: "string \<Rightarrow> AdmittedStateSlot \<Rightarrow> nat \<Rightarrow> nat \<Rightarrow> string bmap" where
  "shard_fields revision slot index total_shards =
     [(''format'', show_nat (unat ADMITTED_STATE_FORMAT)), (''revisionSha256'', revision),
      (''slot'', slot_name slot), (''index'', show_nat index), (''total'', show_nat total_shards)]"

definition write_shard ::
    "'s configmap_api \<Rightarrow> string \<Rightarrow> string \<Rightarrow> OwnerReference option \<Rightarrow> AdmittedStateSlot \<Rightarrow> nat \<Rightarrow> nat
     \<Rightarrow> string \<Rightarrow> string \<Rightarrow> ('s, unit) state_io" where
  "write_shard A base namespace owner slot index total_shards revision bytes =
     bind_io (pure_io (check_e (\<not> length bytes > ADMITTED_STATE_SHARD_MAX_BYTES) ShardTooLarge)) (\<lambda>_.
     let name = admitted_state_shard_name base slot index
     in bind_io (call_io ApiFailed (api_get_opt A name)) (\<lambda>current.
        let configmap =
              \<lparr>cm_name = name, cm_namespace = Some namespace,
               cm_resource_version = Option.bind current cm_resource_version,
               cm_owner_references = map_option (\<lambda>o'. [o']) owner, cm_labels = admitted_state_labels,
               cm_data = Some (bm_collect (shard_fields revision slot index total_shards)),
               cm_binary_data = Some (bm_collect [(''state.bin'', bytes)])\<rparr>
        in bind_io (if current \<noteq> None then call_io ApiFailed (api_replace A name configmap)
                    else call_io ApiFailed (api_create A configmap)) (\<lambda>_. done_io ())))"

definition validate_admitted_state_shard ::
    "ConfigMap \<Rightarrow> string \<Rightarrow> AdmittedStateSlot \<Rightarrow> nat \<Rightarrow> nat \<Rightarrow> shard_error + unit" where
  "validate_admitted_state_shard shard revision slot index total_shards =
     bind_e (some_or NoShardData (cm_data shard)) (\<lambda>data.
     bind_e (each_e (\<lambda>(key, v). check_e (bm_get data key = Some v) (ShardField key))
               (shard_fields revision slot index total_shards)) (\<lambda>_.
     bind_e (some_or NoStateBin (Option.bind (cm_binary_data shard) (\<lambda>data. bm_get data ''state.bin''))) (\<lambda>bytes.
     check_e (\<not> length bytes > ADMITTED_STATE_SHARD_MAX_BYTES) StateBinTooLarge)))"

fun delete_shards :: "'s configmap_api \<Rightarrow> string \<Rightarrow> AdmittedStateSlot \<Rightarrow> nat list \<Rightarrow> ('s, unit) state_io" where
  "delete_shards A base slot [] s = (Inr (), s)"
| "delete_shards A base slot (index # rest) s =
     (case api_delete A (admitted_state_shard_name base slot index) s of
        (Answered _, t) \<Rightarrow> delete_shards A base slot rest t
      | (Missing, t) \<Rightarrow> delete_shards A base slot rest t
      | (Refused, t) \<Rightarrow> (Inl ApiFailed, t))"

definition delete_admitted_state_shards ::
    "'s configmap_api \<Rightarrow> string \<Rightarrow> AdmittedStateSlot \<Rightarrow> nat \<Rightarrow> nat \<Rightarrow> ('s, unit) state_io" where
  "delete_admitted_state_shards A base slot start end_index =
     delete_shards A base slot [start..<end_index]"

subsection \<open>Storing and loading\<close>

definition shard_slice :: "string \<Rightarrow> nat \<Rightarrow> nat \<Rightarrow> string" where
  "shard_slice encoded total_shards index =
     (let start = length encoded * index div total_shards;
          stop = length encoded * (index + 1) div total_shards
      in take (stop - start) (drop start encoded))"

fun write_shards ::
    "'s configmap_api \<Rightarrow> string \<Rightarrow> string \<Rightarrow> OwnerReference option \<Rightarrow> AdmittedStateSlot \<Rightarrow> nat
     \<Rightarrow> string \<Rightarrow> string \<Rightarrow> nat list \<Rightarrow> ('s, unit) state_io" where
  "write_shards A base namespace owner slot total_shards revision encoded [] = done_io ()"
| "write_shards A base namespace owner slot total_shards revision encoded (index # rest) =
     bind_io (write_shard A base namespace owner slot index total_shards revision (shard_slice encoded total_shards index)) (\<lambda>_.
     write_shards A base namespace owner slot total_shards revision encoded rest)"

definition reclaim_slot ::
    "'s configmap_api \<Rightarrow> state_lib \<Rightarrow> string \<Rightarrow> string \<Rightarrow> OwnerReference option \<Rightarrow> AdmittedStateSlot
     \<Rightarrow> AdmittedStateVersion \<Rightarrow> ('s, AdmittedStateVersion) state_io" where
  "reclaim_slot A S name namespace owner old_active version =
     bind_io (delete_admitted_state_shards A name old_active 0 (unat (index_shards (av_index version) old_active))) (\<lambda>_.
     write_admitted_state_index A S name namespace (set_shards old_active 0 (av_index version))
       (Some (av_resource_version version)) owner)"

definition swap_slot ::
    "'s configmap_api \<Rightarrow> state_lib \<Rightarrow> string \<Rightarrow> string \<Rightarrow> OwnerReference option \<Rightarrow> AdmittedStateSlot \<Rightarrow> u8 \<Rightarrow> string
     \<Rightarrow> AdmittedStateVersion \<Rightarrow> ('s, AdmittedStateVersion option) state_io" where
  "swap_slot A S name namespace owner target max_shards revision version =
     (let old_active = ix_active (av_index version);
          flipped = (av_index version)\<lparr>ix_active := Some target, ix_revision_sha256 := Some revision,
                                       ix_max_shards := max_shards\<rparr>
      in bind_io (write_admitted_state_index A S name namespace flipped
                    (Some (av_resource_version version)) owner) (\<lambda>version.
         bind_io (case old_active of
             None \<Rightarrow> done_io version
           | Some slot \<Rightarrow> reclaim_slot A S name namespace owner slot version) (\<lambda>version.
         done_io (Some version))))"

definition store_admitted_state ::
    "'s configmap_api \<Rightarrow> state_lib \<Rightarrow> string \<Rightarrow> string \<Rightarrow> PreparedAdmittedState
     \<Rightarrow> AdmittedStateVersion option \<Rightarrow> OwnerReference option \<Rightarrow> ('s, AdmittedStateVersion option) state_io" where
  "store_admitted_state A S name namespace prepared version owner =
     (let encoded = pr_encoded prepared;
          revision = pr_revision_sha256 prepared;
          max_shards = pr_max_shards prepared;
          old_index = (case version of None \<Rightarrow> index_default | Some v \<Rightarrow> av_index v);
          target = (case ix_active old_index of None \<Rightarrow> SlotA | Some slot \<Rightarrow> slot_other slot);
          count = shard_count max_shards;
          target_previous = unat (index_shards old_index target)
      in bind_io (if target_previous > count
                  then delete_admitted_state_shards A name target count target_previous
                  else done_io ()) (\<lambda>_.
         let allocating = set_shards target (stored max_shards) old_index
         in bind_io (write_admitted_state_index A S name namespace allocating
                       (map_option av_resource_version version) owner) (\<lambda>version.
            bind_io (write_shards A name namespace owner target count revision encoded [0..<count]) (\<lambda>_.
            swap_slot A S name namespace owner target (stored max_shards) revision version))))"

fun clean_slots ::
    "'s configmap_api \<Rightarrow> string \<Rightarrow> AdmittedStateSlot list \<Rightarrow> AdmittedStateIndex \<Rightarrow> bool
     \<Rightarrow> ('s, AdmittedStateIndex \<times> bool) state_io" where
  "clean_slots A name [] index cleaned = done_io (index, cleaned)"
| "clean_slots A name (slot # rest) index cleaned =
     (let count = unat (index_shards index slot)
      in if count = 0 then clean_slots A name rest index cleaned
         else bind_io (delete_admitted_state_shards A name slot 0 count) (\<lambda>_.
              clean_slots A name rest (set_shards slot 0 index) True))"

fun read_shards ::
    "'s configmap_api \<Rightarrow> string \<Rightarrow> AdmittedStateSlot \<Rightarrow> string \<Rightarrow> nat \<Rightarrow> nat list \<Rightarrow> string \<Rightarrow> ('s, string) state_io" where
  "read_shards A name active revision total_shards [] encoded = done_io encoded"
| "read_shards A name active revision total_shards (index # rest) encoded =
     bind_io (call_io ShardUnreadable (api_get A (admitted_state_shard_name name active index))) (\<lambda>shard.
     bind_io (pure_io (map_err ShardInvalid (validate_admitted_state_shard shard revision active index total_shards))) (\<lambda>_.
     read_shards A name active revision total_shards rest
       (encoded @ the (bm_get (the (cm_binary_data shard)) ''state.bin''))))"

definition read_index :: "state_lib \<Rightarrow> ConfigMap \<Rightarrow> state_error + AdmittedStateVersion" where
  "read_index S configmap =
     bind_e (some_or NoResourceVersion (cm_resource_version configmap)) (\<lambda>rv.
     bind_e (some_or NoIndexDocument (Option.bind (cm_data configmap) (\<lambda>data. bm_get data ''index.json''))) (\<lambda>json.
     bind_e (some_or IndexUnreadable (sl_index_from_str S json)) (\<lambda>index.
     bind_e (map_err IndexInvalid (index_validate index)) (\<lambda>_.
     Inr \<lparr>av_resource_version = rv, av_index = index\<rparr>))))"

definition clean_index ::
    "'s configmap_api \<Rightarrow> state_lib \<Rightarrow> string \<Rightarrow> ConfigMap \<Rightarrow> AdmittedStateVersion \<Rightarrow> ('s, AdmittedStateVersion) state_io" where
  "clean_index A S name configmap version =
     bind_io (clean_slots A name
                (case ix_active (av_index version) of Some active \<Rightarrow> [slot_other active] | None \<Rightarrow> [SlotA, SlotB])
                (av_index version) False) (\<lambda>(index, cleaned).
     if \<not> cleaned then done_io (version\<lparr>av_index := index\<rparr>)
     else bind_io (pure_io (some_or NoNamespace (cm_namespace configmap))) (\<lambda>namespace.
          write_admitted_state_index A S name namespace index (Some (av_resource_version version))
            (Option.bind (cm_owner_references configmap) (List.find (\<lambda>o'. or_controller o' = Some True)))))"

definition parse_document :: "publisher \<Rightarrow> state_lib \<Rightarrow> string \<Rightarrow> string \<Rightarrow> state_error + DurableRolloutState" where
  "parse_document P S revision encoded =
     (if \<not> digests_match (sl_sha256 S encoded) revision then Inl RevisionMismatch
      else bind_e (some_or DocumentUnreadable (sl_state_from_slice S encoded)) (\<lambda>st.
           map_err DocumentInvalid (durable_try_from P st)))"

definition read_document ::
    "'s configmap_api \<Rightarrow> publisher \<Rightarrow> state_lib \<Rightarrow> string \<Rightarrow> AdmittedStateVersion
     \<Rightarrow> ('s, DurableRolloutState \<times> AdmittedStateVersion option) state_io" where
  "read_document A P S name version =
     (case ix_active (av_index version) of
        None \<Rightarrow> done_io (durable_default, Some version)
      | Some active \<Rightarrow>
          let total_shards = unat (index_shards (av_index version) active);
              revision = the (ix_revision_sha256 (av_index version))
          in bind_io (read_shards A name active revision total_shards [0..<total_shards] []) (\<lambda>encoded.
             bind_io (pure_io (parse_document P S revision encoded)) (\<lambda>state.
             done_io (state, Some version))))"

definition load_admitted_state ::
    "'s configmap_api \<Rightarrow> publisher \<Rightarrow> state_lib \<Rightarrow> string
     \<Rightarrow> ('s, DurableRolloutState \<times> AdmittedStateVersion option) state_io" where
  "load_admitted_state A P S name =
     bind_io (call_io ApiFailed (api_get_opt A name)) (\<lambda>found. case found of
         None \<Rightarrow> done_io (durable_default, None)
       | Some configmap \<Rightarrow>
           bind_io (pure_io (read_index S configmap)) (\<lambda>version.
           bind_io (clean_index A S name configmap version) (\<lambda>version.
           read_document A P S name version)))"

subsection \<open>What the client documents\<close>

text \<open>
  \<open>objects\<close> reads the server's objects off its state.  A read returns what is there.  A write that is
  answered has taken effect, under the conditions the server enforces; one that is not answered may
  or may not have.  The server keeps a submitted object as it is, except that it assigns the
  resource version.  A removal answered with a 404 found nothing.
\<close>

definition stored_as :: "ConfigMap \<Rightarrow> ConfigMap \<Rightarrow> bool" where
  "stored_as kept submitted \<longleftrightarrow>
     (\<exists>rv. kept = submitted\<lparr>cm_resource_version := Some rv\<rparr>)"

definition documented_reads :: "'s configmap_api \<Rightarrow> ('s \<Rightarrow> string \<Rightarrow> ConfigMap option) \<Rightarrow> bool" where
  "documented_reads A objects \<longleftrightarrow>
     (\<forall>n s r t. api_get_opt A n s = (r, t) \<longrightarrow>
        objects t = objects s \<and> (\<forall>x. r = Answered x \<longrightarrow> x = objects s n))
   \<and> (\<forall>n s r t. api_get A n s = (r, t) \<longrightarrow>
        objects t = objects s \<and> (\<forall>x. r = Answered x \<longrightarrow> objects s n = Some x))"

definition documented_create :: "'s configmap_api \<Rightarrow> ('s \<Rightarrow> string \<Rightarrow> ConfigMap option) \<Rightarrow> bool" where
  "documented_create A objects \<longleftrightarrow>
     (\<forall>c s r t. api_create A c s = (r, t) \<longrightarrow>
        (objects t = objects s \<and> (\<forall>x. r \<noteq> Answered x))
      \<or> (\<exists>kept. stored_as kept c \<and> objects s (cm_name c) = None \<and> objects t = (objects s)(cm_name c \<mapsto> kept)
                \<and> (\<forall>x. r = Answered x \<longrightarrow> x = kept)))"

definition documented_replace :: "'s configmap_api \<Rightarrow> ('s \<Rightarrow> string \<Rightarrow> ConfigMap option) \<Rightarrow> bool" where
  "documented_replace A objects \<longleftrightarrow>
     (\<forall>n c s r t. api_replace A n c s = (r, t) \<longrightarrow>
        (objects t = objects s \<and> (\<forall>x. r \<noteq> Answered x))
      \<or> (\<exists>kept old. stored_as kept c \<and> objects s n = Some old
                \<and> (cm_resource_version c = None \<or> cm_resource_version c = cm_resource_version old)
                \<and> objects t = (objects s)(n \<mapsto> kept) \<and> (\<forall>x. r = Answered x \<longrightarrow> x = kept)))"

definition documented_delete :: "'s configmap_api \<Rightarrow> ('s \<Rightarrow> string \<Rightarrow> ConfigMap option) \<Rightarrow> bool" where
  "documented_delete A objects \<longleftrightarrow>
     (\<forall>n s r t. api_delete A n s = (r, t) \<longrightarrow>
        (objects t = objects s \<and> r = Refused) \<or> (objects t = objects s \<and> objects s n = None \<and> r = Missing)
      \<or> (objects t = (objects s)(n := None) \<and> r \<noteq> Missing))"

definition documented_api :: "'s configmap_api \<Rightarrow> ('s \<Rightarrow> string \<Rightarrow> ConfigMap option) \<Rightarrow> bool" where
  "documented_api A objects \<longleftrightarrow>
     documented_reads A objects \<and> documented_create A objects
   \<and> documented_replace A objects \<and> documented_delete A objects"

text \<open>The JSON codec reads back the indexes and the document it wrote, and SHA-256 is canonical.\<close>

definition documented_codec :: "state_lib \<Rightarrow> bool" where
  "documented_codec S \<longleftrightarrow>
     (\<forall>index. \<exists>json. sl_index_to_string S index = Some json \<and> sl_index_from_str S json = Some index)
   \<and> (\<forall>st json. sl_state_to_vec S st = Some json \<longrightarrow> sl_state_from_slice S json = Some st)
   \<and> (\<forall>bytes. is_canonical_sha256 (sl_sha256 S bytes))"

subsection \<open>The state the objects record\<close>

text \<open>
  The specification of the objects: the document that an uninterrupted reader finds, as a function
  of the objects alone.
\<close>

definition shard_bytes ::
    "(string \<Rightarrow> ConfigMap option) \<Rightarrow> string \<Rightarrow> AdmittedStateSlot \<Rightarrow> string \<Rightarrow> nat \<Rightarrow> nat \<Rightarrow> string option" where
  "shard_bytes objs base slot revision total_shards index =
     Option.bind (objs (admitted_state_shard_name base slot index)) (\<lambda>shard.
       if validate_admitted_state_shard shard revision slot index total_shards = Inr ()
       then Option.bind (cm_binary_data shard) (\<lambda>data. bm_get data ''state.bin'') else None)"

definition slot_document ::
    "publisher \<Rightarrow> state_lib \<Rightarrow> (string \<Rightarrow> ConfigMap option) \<Rightarrow> string \<Rightarrow> AdmittedStateSlot \<Rightarrow> string \<Rightarrow> nat
     \<Rightarrow> DurableRolloutState option" where
  "slot_document P S objs base slot revision total_shards =
     Option.bind (those (map (shard_bytes objs base slot revision total_shards) [0..<total_shards])) (\<lambda>parts.
       case parse_document P S revision (concat parts) of Inl _ \<Rightarrow> None | Inr state \<Rightarrow> Some state)"

definition indexed_state ::
    "publisher \<Rightarrow> state_lib \<Rightarrow> (string \<Rightarrow> ConfigMap option) \<Rightarrow> string \<Rightarrow> AdmittedStateIndex
     \<Rightarrow> DurableRolloutState option" where
  "indexed_state P S objs base index =
     (case ix_active index of
        None \<Rightarrow> Some durable_default
      | Some slot \<Rightarrow> slot_document P S objs base slot (the (ix_revision_sha256 index)) (unat (index_shards index slot)))"

definition version_current :: "state_lib \<Rightarrow> (string \<Rightarrow> ConfigMap option) \<Rightarrow> string \<Rightarrow> AdmittedStateVersion option \<Rightarrow> bool" where
  "version_current S objs base version =
     (case version of
        None \<Rightarrow> objs base = None
      | Some v \<Rightarrow> (case objs base of
            None \<Rightarrow> False
          | Some configmap \<Rightarrow> read_index S configmap = Inr v \<and> cm_namespace configmap \<noteq> None))"

definition recorded_state ::
    "publisher \<Rightarrow> state_lib \<Rightarrow> (string \<Rightarrow> ConfigMap option) \<Rightarrow> string \<Rightarrow> DurableRolloutState option" where
  "recorded_state P S objs base =
     (case objs base of
        None \<Rightarrow> Some durable_default
      | Some configmap \<Rightarrow> (case read_index S configmap of
            Inl _ \<Rightarrow> None
          | Inr v \<Rightarrow> if cm_namespace configmap = None then None else indexed_state P S objs base (av_index v)))"

subsection \<open>Reasoning about the calls\<close>

lemma wp_get_opt:
  assumes "documented_api A objects"
    and "\<And>t. objects t = objects s \<Longrightarrow> Q (objects s n) t" and "\<And>t. objects t = objects s \<Longrightarrow> E e t"
  shows "wp (call_io e (api_get_opt A n)) Q E s"
proof -
  obtain r t where call: "api_get_opt A n s = (r, t)" by fastforce
  then have "objects t = objects s \<and> (\<forall>x. r = Answered x \<longrightarrow> x = objects s n)"
    using assms(1) unfolding documented_api_def documented_reads_def by metis
  then show ?thesis using assms(2)[of t] assms(3)[of t] call by (cases r) (auto simp: wp_def call_io_def)
qed

lemma wp_get:
  assumes "documented_api A objects"
    and "\<And>t x. objects t = objects s \<Longrightarrow> objects s n = Some x \<Longrightarrow> Q x t"
    and "\<And>t. objects t = objects s \<Longrightarrow> E e t"
  shows "wp (call_io e (api_get A n)) Q E s"
proof -
  obtain r t where call: "api_get A n s = (r, t)" by fastforce
  then have "objects t = objects s \<and> (\<forall>x. r = Answered x \<longrightarrow> objects s n = Some x)"
    using assms(1) unfolding documented_api_def documented_reads_def by metis
  then show ?thesis using assms(2)[of t] assms(3)[of t] call by (cases r) (auto simp: wp_def call_io_def)
qed

lemma wp_create:
  assumes "documented_api A objects"
    and "\<And>t. objects t = objects s \<Longrightarrow> E e t"
    and "\<And>t kept. stored_as kept c \<Longrightarrow> objects t = (objects s)(cm_name c \<mapsto> kept) \<Longrightarrow> Q kept t \<and> E e t"
  shows "wp (call_io e (api_create A c)) Q E s"
proof -
  obtain r t where call: "api_create A c s = (r, t)" by fastforce
  then have "(objects t = objects s \<and> (\<forall>x. r \<noteq> Answered x))
      \<or> (\<exists>kept. stored_as kept c \<and> objects t = (objects s)(cm_name c \<mapsto> kept) \<and> (\<forall>x. r = Answered x \<longrightarrow> x = kept))"
    using documented_create_def[THEN iffD1, rule_format, OF _ call] assms(1) unfolding documented_api_def by blast
  then show ?thesis using assms(2)[of t] assms(3)[of _ t] call by (cases r) (auto simp: wp_def call_io_def)
qed

lemma wp_replace:
  assumes "documented_api A objects"
    and "\<And>t. objects t = objects s \<Longrightarrow> E e t"
    and "\<And>t kept. stored_as kept c \<Longrightarrow> objects t = (objects s)(n \<mapsto> kept) \<Longrightarrow> Q kept t \<and> E e t"
  shows "wp (call_io e (api_replace A n c)) Q E s"
proof -
  obtain r t where call: "api_replace A n c s = (r, t)" by fastforce
  then have "(objects t = objects s \<and> (\<forall>x. r \<noteq> Answered x))
      \<or> (\<exists>kept. stored_as kept c \<and> objects t = (objects s)(n \<mapsto> kept) \<and> (\<forall>x. r = Answered x \<longrightarrow> x = kept))"
    using documented_replace_def[THEN iffD1, rule_format, OF _ call] assms(1) unfolding documented_api_def by blast
  then show ?thesis using assms(2)[of t] assms(3)[of _ t] call by (cases r) (auto simp: wp_def call_io_def)
qed

definition same_off :: "string set \<Rightarrow> (string \<Rightarrow> ConfigMap option) \<Rightarrow> (string \<Rightarrow> ConfigMap option) \<Rightarrow> bool" where
  "same_off N o1 o2 \<longleftrightarrow> (\<forall>n. n \<notin> N \<longrightarrow> o2 n = o1 n)"

definition slot_names :: "string \<Rightarrow> AdmittedStateSlot \<Rightarrow> string set" where
  "slot_names base slot = range (admitted_state_shard_name base slot)"

lemma slot_names_disjoint: "slot \<noteq> slot' \<Longrightarrow> admitted_state_shard_name base slot i \<notin> slot_names base slot'"
  by (cases slot; cases slot') (auto simp: slot_names_def admitted_state_shard_name_def)

lemma base_not_shard [simp]: "base \<notin> slot_names base slot"
  by (auto simp: slot_names_def admitted_state_shard_name_def)

lemma shard_in_slot [simp]: "admitted_state_shard_name base slot i \<in> slot_names base slot"
  by (simp add: slot_names_def)

lemma wp_delete_shards:
  assumes api: "documented_api A objects"
    and ok: "\<And>t. same_off (slot_names base slot) (objects s) (objects t) \<Longrightarrow> Q () t \<and> E ApiFailed t"
  shows "wp (delete_shards A base slot is) Q E s"
  using ok
proof (induction "is" arbitrary: s)
  case Nil
  then show ?case by (simp add: wp_def same_off_def)
next
  case (Cons i rest)
  let ?n = "admitted_state_shard_name base slot i"
  obtain r u where call: "api_delete A ?n s = (r, u)" by fastforce
  have eff: "objects u = objects s \<or> objects u = (objects s)(?n := None)"
    using documented_delete_def[THEN iffD1, rule_format, OF _ call] api unfolding documented_api_def by blast
  have step: "same_off (slot_names base slot) (objects s) (objects t)"
    if "same_off (slot_names base slot) (objects u) (objects t)" for t
    using that eff by (auto simp: same_off_def)
  have "wp (delete_shards A base slot rest) Q E u"
    by (rule Cons.IH) (use Cons.prems step in blast)
  moreover have "same_off (slot_names base slot) (objects s) (objects u)" using eff by (auto simp: same_off_def)
  ultimately show ?case using Cons.prems by (cases r) (auto simp: wp_def call)
qed

lemma wp_delete:
  assumes "documented_api A objects"
    and "\<And>t. same_off (slot_names base slot) (objects s) (objects t) \<Longrightarrow> Q () t \<and> E ApiFailed t"
  shows "wp (delete_admitted_state_shards A base slot i j) Q E s"
  unfolding delete_admitted_state_shards_def by (rule wp_delete_shards[OF assms(1)]) (rule assms(2))

subsection \<open>Writing the index and the shards\<close>

lemma wp_write_index:
  assumes api: "documented_api A objects" and codec: "documented_codec S"
    and valid: "index_validate index = Inr ()"
    and failed: "\<And>t. objects t = objects s \<Longrightarrow> E ApiFailed t"
    and written: "\<And>t v kept. objects t = (objects s)(name \<mapsto> kept) \<Longrightarrow> read_index S kept = Inr v
      \<Longrightarrow> cm_namespace kept = Some namespace \<Longrightarrow> av_index v = index \<Longrightarrow> Q v t \<and> E ApiFailed t"
  shows "wp (write_admitted_state_index A S name namespace index rv owner) Q E s"
proof -
  obtain json where json: "sl_index_to_string S index = Some json" "sl_index_from_str S json = Some index"
    using codec unfolding documented_codec_def by blast
  let ?c = "\<lparr>cm_name = name, cm_namespace = Some namespace, cm_resource_version = rv,
            cm_owner_references = map_option (\<lambda>o'. [o']) owner, cm_labels = admitted_state_labels,
            cm_data = Some (bm_collect [(''index.json'', json)]), cm_binary_data = None\<rparr>"
  let ?Q = "\<lambda>written. wp (bind_io (pure_io (some_or NoResourceVersion (cm_resource_version written))) (\<lambda>rv.
              done_io \<lparr>av_resource_version = rv, av_index = index\<rparr>)) Q E"
  have after: "?Q kept t \<and> E ApiFailed t" if keeps: "stored_as kept ?c" and eff: "objects t = (objects s)(name \<mapsto> kept)" for kept t
  proof -
    obtain v where kept: "kept = ?c\<lparr>cm_resource_version := Some v\<rparr>" using keeps unfolding stored_as_def by blast
    have read: "read_index S kept = Inr \<lparr>av_resource_version = v, av_index = index\<rparr>"
      by (simp add: read_index_def kept some_or_def json valid map_err_def bm_get_collect)
    have "Q \<lparr>av_resource_version = v, av_index = index\<rparr> t \<and> E ApiFailed t"
      by (rule written[OF eff read]) (simp_all add: kept)
    then show ?thesis by (simp add: wp_simps kept some_or_def)
  qed
  have "wp (if rv \<noteq> None then call_io ApiFailed (api_replace A name ?c) else call_io ApiFailed (api_create A ?c)) ?Q E s"
    using after failed by (auto intro!: wp_replace[OF api] wp_create[OF api])
  then show ?thesis
    by (simp add: write_admitted_state_index_def wp_simps valid map_err_def some_or_def json Let_def)
qed

lemma bm_get_shard_fields:
  "(key, v) \<in> set (shard_fields revision slot index total_shards) \<Longrightarrow>
     bm_get (rev (shard_fields revision slot index total_shards)) key = Some v"
  by (auto simp: shard_fields_def)

lemma wp_write_shard:
  assumes api: "documented_api A objects"
    and small: "length bytes \<le> ADMITTED_STATE_SHARD_MAX_BYTES"
    and failed: "\<And>t. objects t = objects s \<Longrightarrow> E ApiFailed t"
    and written: "\<And>t kept. objects t = (objects s)(admitted_state_shard_name base slot index \<mapsto> kept)
      \<Longrightarrow> shard_bytes (objects t) base slot revision total_shards index = Some bytes \<Longrightarrow> Q () t \<and> E ApiFailed t"
  shows "wp (write_shard A base namespace owner slot index total_shards revision bytes) Q E s"
proof -
  let ?n = "admitted_state_shard_name base slot index"
  let ?c = "\<lambda>current. \<lparr>cm_name = ?n, cm_namespace = Some namespace,
               cm_resource_version = Option.bind current cm_resource_version,
               cm_owner_references = map_option (\<lambda>o'. [o']) owner, cm_labels = admitted_state_labels,
               cm_data = Some (bm_collect (shard_fields revision slot index total_shards)),
               cm_binary_data = Some (bm_collect [(''state.bin'', bytes)])\<rparr>"
  have after: "Q () t \<and> E ApiFailed t"
    if "stored_as kept (?c current)" "objects u = objects s" "objects t = (objects u)(?n \<mapsto> kept)" for kept t u current
  proof (rule written[of _ kept])
    show "objects t = (objects s)(?n \<mapsto> kept)" using that by simp
    have fields: "cm_data kept = Some (bm_collect (shard_fields revision slot index total_shards))"
      "cm_binary_data kept = Some (bm_collect [(''state.bin'', bytes)])"
      using that(1) by (auto simp: stored_as_def)
    then have "validate_admitted_state_shard kept revision slot index total_shards = Inr ()"
      using small by (auto simp: validate_admitted_state_shard_def some_or_def bm_get_collect check_e_def each_e_Inr
          bind_e_Inr_iff bm_get_shard_fields)
    then show "shard_bytes (objects t) base slot revision total_shards index = Some bytes"
      using that fields by (simp add: shard_bytes_def bm_get_collect)
  qed
  have put: "wp (if current \<noteq> None then call_io ApiFailed (api_replace A ?n (?c current))
                 else call_io ApiFailed (api_create A (?c current))) (\<lambda>_. Q ()) E u"
    if "objects u = objects s" for u current
  proof -
    have "wp (call_io ApiFailed (api_replace A ?n (?c current))) (\<lambda>_. Q ()) E u"
      by (rule wp_replace[OF api]) (use failed that in simp, rule after[OF _ that])
    moreover have "wp (call_io ApiFailed (api_create A (?c current))) (\<lambda>_. Q ()) E u"
      by (rule wp_create[OF api]) (use failed that in simp, rule after[OF _ that], assumption, simp)
    ultimately show ?thesis by (simp only: simp_thms split: if_split)
  qed
  have "wp (call_io ApiFailed (api_get_opt A ?n)) (\<lambda>current.
      wp (if current \<noteq> None then call_io ApiFailed (api_replace A ?n (?c current))
          else call_io ApiFailed (api_create A (?c current))) (\<lambda>_. Q ()) E) E s"
    by (rule wp_get_opt[OF api]) (rule put, assumption, rule failed)
  moreover have "check_e (\<not> length bytes > ADMITTED_STATE_SHARD_MAX_BYTES) ShardTooLarge = Inr ()"
    using small by (simp add: check_e_def)
  ultimately show ?thesis
    by (simp only: write_shard_def wp_simps Let_def)
qed

lemma shard_bytes_same:
  "objs' (admitted_state_shard_name base slot i) = objs (admitted_state_shard_name base slot i) \<Longrightarrow>
     shard_bytes objs' base slot revision n i = shard_bytes objs base slot revision n i"
  by (simp add: shard_bytes_def)

text \<open>A shard index below a hundred has its own two digits, so the shards of a slot are distinct objects.\<close>

lemma digit_char_inj: "i < 10 \<Longrightarrow> j < 10 \<Longrightarrow> digit_char i = digit_char j \<longleftrightarrow> i = j"
  by (auto simp: digit_char_def dest!: arg_cong[where f = "of_char :: char \<Rightarrow> nat"])

lemma digit_char_zero: "digit_char 0 = CHR ''0''"
  by code_simp

lemma two_digits_eq: "n < 100 \<Longrightarrow> two_digits n = [digit_char (n div 10), digit_char (n mod 10)]"
  by (auto simp: two_digits_def show_nat.simps[of n] show_nat.simps[of "n div 10"] digit_char_zero)

lemma two_digits_inj: "i < 100 \<Longrightarrow> j < 100 \<Longrightarrow> two_digits i = two_digits j \<longleftrightarrow> i = j"
  by (auto simp: two_digits_eq digit_char_inj) (metis div_mult_mod_eq)

lemma shard_name_inj:
  "i < 100 \<Longrightarrow> j < 100 \<Longrightarrow> admitted_state_shard_name base slot i = admitted_state_shard_name base slot j \<longleftrightarrow> i = j"
  using two_digits_inj by (auto simp: admitted_state_shard_name_def)

lemma wp_write_shards:
  assumes api: "documented_api A objects"
    and small: "\<And>i. i \<in> set is \<Longrightarrow> length (shard_slice encoded n i) \<le> ADMITTED_STATE_SHARD_MAX_BYTES"
    and range: "\<And>i. i \<in> set is \<Longrightarrow> i < 100" and dist: "distinct is"
    and failed: "\<And>t. same_off (slot_names base slot) (objects s) (objects t) \<Longrightarrow> E ApiFailed t"
    and written: "\<And>t. same_off (slot_names base slot) (objects s) (objects t) \<Longrightarrow>
       (\<And>i. i < 100 \<Longrightarrow> i \<notin> set is \<Longrightarrow> objects t (admitted_state_shard_name base slot i) = objects s (admitted_state_shard_name base slot i)) \<Longrightarrow>
       (\<And>i. i \<in> set is \<Longrightarrow> shard_bytes (objects t) base slot revision n i = Some (shard_slice encoded n i)) \<Longrightarrow> Q () t"
  shows "wp (write_shards A base namespace owner slot n revision encoded is) Q E s"
  using small range dist failed written
proof (induction "is" arbitrary: s)
  case Nil
  then show ?case by (simp add: wp_simps same_off_def)
next
  case (Cons i rest)
  let ?n = "admitted_state_shard_name base slot i"
  have i: "i < 100" "i \<notin> set rest" using Cons.prems by auto
  have "wp (write_shards A base namespace owner slot n revision encoded rest) Q E u \<and> E ApiFailed u"
    if eff: "objects u = (objects s)(?n \<mapsto> kept)"
      and bytes: "shard_bytes (objects u) base slot revision n i = Some (shard_slice encoded n i)" for u kept
  proof
    have step: "same_off (slot_names base slot) (objects s) (objects t)"
      if "same_off (slot_names base slot) (objects u) (objects t)" for t
      using that eff by (auto simp: same_off_def)
    show "E ApiFailed u" by (rule Cons.prems(4)) (rule step, simp add: same_off_def)
    show "wp (write_shards A base namespace owner slot n revision encoded rest) Q E u"
    proof (rule Cons.IH)
      fix t
      assume off: "same_off (slot_names base slot) (objects u) (objects t)"
        and frame: "\<And>j. j < 100 \<Longrightarrow> j \<notin> set rest \<Longrightarrow>
          objects t (admitted_state_shard_name base slot j) = objects u (admitted_state_shard_name base slot j)"
        and done': "\<And>j. j \<in> set rest \<Longrightarrow> shard_bytes (objects t) base slot revision n j = Some (shard_slice encoded n j)"
      have here: "shard_bytes (objects t) base slot revision n i = Some (shard_slice encoded n i)"
        using shard_bytes_same[where objs = "objects u" and objs' = "objects t", OF frame[OF i]] bytes by simp
      show "Q () t"
      proof (rule Cons.prems(5)[OF step[OF off]])
        show "objects t (admitted_state_shard_name base slot j) = objects s (admitted_state_shard_name base slot j)"
          if "j < 100" "j \<notin> set (i # rest)" for j
          using that frame[of j] eff i shard_name_inj[of j i base slot] by simp
        show "shard_bytes (objects t) base slot revision n j = Some (shard_slice encoded n j)"
          if "j \<in> set (i # rest)" for j
          using that here done' by auto
      qed
    qed (use Cons.prems step in auto)
  qed
  moreover have "E ApiFailed t" if "objects t = objects s" for t
    using that Cons.prems(4) by (simp add: same_off_def)
  ultimately show ?case
    using Cons.prems(1)[of i] by (auto simp: wp_simps intro!: wp_write_shard[OF api])
qed

subsection \<open>Slices\<close>

lemma slices_take: "concat (map (shard_slice encoded n) [0..<k]) = take (length encoded * k div n) encoded"
proof (induction k)
  case (Suc k)
  let ?a = "length encoded * k div n" and ?b = "length encoded * (k + 1) div n"
  have "?a \<le> ?b" by (intro div_le_mono mult_le_mono2) simp
  then have "take ?b encoded = take ?a encoded @ take (?b - ?a) (drop ?a encoded)"
    by (metis le_add_diff_inverse take_add)
  then show ?case using Suc by (simp add: shard_slice_def Let_def)
qed simp

lemma slices_concat: "0 < n \<Longrightarrow> concat (map (shard_slice encoded n) [0..<n]) = encoded"
  by (simp add: slices_take)

lemma slice_bounded:
  assumes "length encoded \<le> n * m"
  shows "length (shard_slice encoded n i) \<le> m"
proof (cases "n = 0")
  case False
  have "length encoded * (i + 1) div n \<le> (length encoded * i + m * n) div n"
    using assms by (intro div_le_mono) (simp add: mult.commute)
  also have "\<dots> = length encoded * i div n + m" using False by simp
  finally show ?thesis by (simp add: shard_slice_def Let_def)
qed (simp add: shard_slice_def)

subsection \<open>The document round trip\<close>

abbreviation pairs_of :: "string list bmap \<Rightarrow> (string \<times> string) list" where
  "pairs_of stored_map \<equiv> concat (map (\<lambda>(identity, ns). map (\<lambda>n. (n, identity)) ns) stored_map)"

lemma pairs_insert:
  "bm_wf m \<Longrightarrow> mset (pairs_of (bm_insert identity ((case bm_get m identity of None \<Rightarrow> [] | Some ns \<Rightarrow> ns) @ [node]) m))
     = add_mset (node, identity) (mset (pairs_of m))"
proof (induction m)
  case (Cons e m)
  obtain k ns where e: "e = (k, ns)" by (cases e)
  have wf: "bm_wf m" and below: "\<forall>k'\<in>set (bm_keys m). k < k'" using Cons.prems by (auto simp: e bm_wf_Cons)
  have "bm_get m identity = None" if "identity < k"
    using that below by (auto simp: map_of_eq_None_iff)
  then show ?case using Cons.IH[OF wf] by (auto simp: e)
qed simp

lemma pairs_encode_assignment:
  "bm_wf inverted \<Longrightarrow> mset (pairs_of (encode_assignment (node, identity) inverted)) = add_mset (node, identity) (mset (pairs_of inverted))"
  using pairs_insert by (simp add: encode_assignment_def)

lemma pairs_encode: 
  "mset (pairs_of (encode_assignments assignments)) = mset assignments \<and> bm_wf (encode_assignments assignments)"
proof -
  have "mset (pairs_of (fold encode_assignment m inverted)) = mset m + mset (pairs_of inverted)
      \<and> bm_wf (fold encode_assignment m inverted)" if "bm_wf inverted" for m inverted
    using that
  proof (induction m arbitrary: inverted)
    case (Cons e m)
    obtain node identity where e: "e = (node, identity)" by (cases e)
    have wf: "bm_wf (encode_assignment e inverted)"
      using Cons.prems by (simp add: e encode_assignment_def)
    show ?case using Cons.IH[OF wf] pairs_encode_assignment[OF Cons.prems] by (simp add: e)
  qed simp
  from this[of "[]" assignments] show ?thesis by (simp add: encode_assignments_def)
qed

lemma decode_nodes_ok:
  "\<forall>n\<in>set ns. is_dns_subdomain n \<and> n \<notin> set (bm_keys assignments) \<Longrightarrow> distinct ns \<Longrightarrow>
     decode_nodes identity ns assignments = Inr (fold (\<lambda>(k, v). bm_insert k v) (map (\<lambda>n. (n, identity)) ns) assignments)"
proof (induction ns arbitrary: assignments)
  case (Cons a ns)
  have "\<forall>n\<in>set ns. is_dns_subdomain n \<and> n \<notin> set (bm_keys (bm_insert a identity assignments))"
    using Cons.prems by (auto simp: bm_keys_insert simp del: set_map)
  from Cons.IH[OF this] show ?case using Cons.prems by (simp add: check_e_def bm_has_iff)
qed simp

lemma keys_fold_insert:
  "set (bm_keys (fold (\<lambda>(k, v). bm_insert k v) entries m)) = set (map fst entries) \<union> set (bm_keys m)"
  by (induction entries arbitrary: m) (auto simp: bm_keys_insert simp del: set_map)

lemma decode_entries_ok:
  "\<forall>(identity, ns)\<in>set stored_map. is_canonical_sha256 identity \<and> list_all is_dns_subdomain ns \<Longrightarrow>
     distinct (map fst (pairs_of stored_map)) \<Longrightarrow>
     set (map fst (pairs_of stored_map)) \<inter> set (bm_keys assignments) = {} \<Longrightarrow>
     decode_entries stored_map assignments = Inr (fold (\<lambda>(k, v). bm_insert k v) (pairs_of stored_map) assignments)"
proof (induction stored_map arbitrary: assignments)
  case (Cons e rest)
  obtain k ns where e: "e = (k, ns)" by (cases e)
  let ?here = "map (\<lambda>n. (n, k)) ns"
  have here: "map fst ?here = ns" by (simp add: comp_def)
  let ?next = "fold (\<lambda>(k, v). bm_insert k v) ?here assignments"
  have keys: "map fst (pairs_of (e # rest)) = ns @ map fst (pairs_of rest)"
    using here by (simp add: e)
  have dist: "distinct ns" "distinct (map fst (pairs_of rest))" "set ns \<inter> set (map fst (pairs_of rest)) = {}"
    using Cons.prems(2) unfolding keys distinct_append by blast+
  have apart: "set ns \<inter> set (bm_keys assignments) = {}" "set (map fst (pairs_of rest)) \<inter> set (bm_keys assignments) = {}"
    using Cons.prems(3) unfolding keys set_append by blast+
  have nodes: "decode_nodes k ns assignments = Inr ?next"
    using Cons.prems(1) apart(1) dist(1) by (intro decode_nodes_ok) (auto simp: e list_all_iff)
  have "set (map fst (pairs_of rest)) \<inter> set (bm_keys ?next) = {}"
    using apart(2) dist(3) unfolding keys_fold_insert here by blast
  then have "decode_entries rest ?next = Inr (fold (\<lambda>(k, v). bm_insert k v) (pairs_of rest) ?next)"
    using Cons.prems(1) dist(2) by (intro Cons.IH) auto
  then show ?case using Cons.prems(1) nodes by (simp add: e check_e_def)
qed simp

lemma encoded_entries:
  assumes "(identity, ns) \<in> set (encode_assignments assignments)"
  shows "ns \<noteq> []" and "n \<in> set ns \<Longrightarrow> (n, identity) \<in> set assignments"
proof -
  have "\<forall>e\<in>set (fold encode_assignment m inverted). snd e \<noteq> []" if "\<forall>e\<in>set inverted. snd e \<noteq> []" for m inverted
    using that
  proof (induction m arbitrary: inverted)
    case (Cons e m)
    have "\<forall>e\<in>set (bm_insert k (v @ [x]) inverted). snd e \<noteq> []" for k v x
      using Cons.prems by (induction inverted) (fastforce split: if_splits)+
    then have "\<forall>e\<in>set (encode_assignment e inverted). snd e \<noteq> []"
      by (simp add: encode_assignment_def split: prod.split)
    then show ?case using Cons.IH by simp
  qed simp
  from this[of "[]" assignments] show "ns \<noteq> []" using assms by (auto simp: encode_assignments_def)
  show "(n, identity) \<in> set assignments" if "n \<in> set ns"
  proof -
    have "(n, identity) \<in> set (pairs_of (encode_assignments assignments))" using that assms by auto
    then show ?thesis using pairs_encode[of assignments] by (metis mset_eq_setD)
  qed
qed

lemma assignments_roundtrip:
  assumes wf: "bm_wf assignments"
    and valid: "\<And>n i. (n, i) \<in> set assignments \<Longrightarrow> is_dns_subdomain n \<and> is_canonical_sha256 i"
  shows "decode_assignments (encode_assignments assignments) = Inr assignments"
proof -
  let ?m = "encode_assignments assignments"
  let ?p = "pairs_of ?m"
  have perm: "mset ?p = mset assignments" using pairs_encode by simp
  then have "mset (map fst ?p) = mset (bm_keys assignments)" by (metis mset_map)
  then have dist: "distinct (map fst ?p)" using bm_wf_distinct[OF wf] mset_eq_imp_distinct_iff by blast
  have entries: "\<forall>(identity, ns)\<in>set ?m. is_canonical_sha256 identity \<and> list_all is_dns_subdomain ns"
  proof (clarify, rule conjI)
    fix identity ns
    assume e: "(identity, ns) \<in> set ?m"
    show "is_canonical_sha256 identity"
      using valid[OF encoded_entries(2)[OF e, of "hd ns"]] encoded_entries(1)[OF e] by simp
    show "list_all is_dns_subdomain ns" using valid encoded_entries(2)[OF e] by (simp add: list_all_iff) blast
  qed
  have decoded: "decode_assignments ?m = Inr (fold (\<lambda>(k, v). bm_insert k v) ?p [])"
    unfolding decode_assignments_def using dist by (intro decode_entries_ok[OF entries]) auto
  have "fold (\<lambda>(k, v). bm_insert k v) ?p [] = assignments"
  proof (rule bm_ext[OF _ wf])
    show "bm_wf (fold (\<lambda>(k, v). bm_insert k v) ?p [])" by (rule bm_wf_fold_insert) simp
    fix k
    have "map_of (rev ?p) = map_of assignments"
      using dist bm_wf_distinct[OF wf] mset_eq_setD[OF perm]
      by (intro map_of_inject_set[THEN iffD2]) (simp_all add: rev_map[symmetric])
    then show "bm_get (fold (\<lambda>(k, v). bm_insert k v) ?p []) k = bm_get assignments k"
      by (simp add: bm_get_fold_insert)
  qed
  then show ?thesis using decoded by simp
qed

lemma prepared_document:
  assumes codec: "documented_codec S" and prep: "prepare_admitted_state P S state limit = Inr prepared"
    and wf: "bm_wf (du_assignments state)"
  shows "parse_document P S (pr_revision_sha256 prepared) (pr_encoded prepared) = Inr state"
    and "length (pr_encoded prepared) \<le> shard_count (pr_max_shards prepared) * ADMITTED_STATE_SHARD_MAX_BYTES"
    and "is_canonical_sha256 (pr_revision_sha256 prepared)"
    and "pr_max_shards prepared = limit"
proof -
  obtain encoded where valid: "durable_validate P state = Inr ()"
    and encoded: "sl_state_to_vec S (stored_from state) = Some encoded"
    and p: "prepared = \<lparr>pr_encoded = encoded, pr_revision_sha256 = sl_sha256 S encoded, pr_max_shards = limit\<rparr>"
    and fits: "length encoded \<le> shard_count limit * ADMITTED_STATE_SHARD_MAX_BYTES"
    using prep by (auto simp: prepare_admitted_state_def bind_e_Inr_iff map_err_def some_or_def map_sum_def
        split: if_splits option.splits sum.splits)
  have "is_dns_subdomain n \<and> is_canonical_sha256 i" if "(n, i) \<in> set (du_assignments state)" for n i
    using valid that by (auto simp: durable_validate_def bind_e_Inr_iff each_e_Inr check_e_def split: if_splits)
  then have "decode_assignments (encode_assignments (du_assignments state)) = Inr (du_assignments state)"
    by (rule assignments_roundtrip[OF wf])
  then have "durable_try_from P (stored_from state) = Inr state"
    using valid by (cases state) (simp add: durable_try_from_def stored_from_def Let_def)
  moreover have "sl_state_from_slice S encoded = Some (stored_from state)" "is_canonical_sha256 (sl_sha256 S encoded)"
    using codec encoded unfolding documented_codec_def by blast+
  ultimately show "parse_document P S (pr_revision_sha256 prepared) (pr_encoded prepared) = Inr state"
    and "is_canonical_sha256 (pr_revision_sha256 prepared)"
    by (simp_all add: p parse_document_def digests_match_iff some_or_def map_err_def)
  show "length (pr_encoded prepared) \<le> shard_count (pr_max_shards prepared) * ADMITTED_STATE_SHARD_MAX_BYTES"
    and "pr_max_shards prepared = limit"
    using fits by (simp_all add: p)
qed

subsection \<open>Indexes\<close>

definition index_ok :: "AdmittedStateIndex \<Rightarrow> bool" where
  "index_ok index \<longleftrightarrow> index_validate index = Inr ()"

lemma index_ok_iff:
  "index_ok index \<longleftrightarrow>
     ix_format index = ADMITTED_STATE_FORMAT
   \<and> unat (ix_a_shards index) \<le> MAX_ADMITTED_STATE_SHARDS \<and> unat (ix_b_shards index) \<le> MAX_ADMITTED_STATE_SHARDS
   \<and> (case ix_active index of
        None \<Rightarrow> ix_revision_sha256 index = None \<and> ix_max_shards index = 0
      | Some active \<Rightarrow> 1 \<le> unat (ix_max_shards index) \<and> index_shards index active = ix_max_shards index
          \<and> (\<exists>r. ix_revision_sha256 index = Some r \<and> is_canonical_sha256 r))"
proof -
  have "unat (index_shards index active) \<le> MAX_ADMITTED_STATE_SHARDS"
    if "unat (ix_a_shards index) \<le> MAX_ADMITTED_STATE_SHARDS" "unat (ix_b_shards index) \<le> MAX_ADMITTED_STATE_SHARDS" for active
    using that by (cases active) auto
  then show ?thesis
    by (auto simp: index_ok_def index_validate_def split: option.splits if_splits) metis+
qed

lemma set_shards_simps [simp]:
  "ix_active (set_shards slot n index) = ix_active index"
  "ix_revision_sha256 (set_shards slot n index) = ix_revision_sha256 index"
  "ix_max_shards (set_shards slot n index) = ix_max_shards index"
  "ix_format (set_shards slot n index) = ix_format index"
  "index_shards (set_shards slot n index) slot' = (if slot' = slot then n else index_shards index slot')"
  by (cases slot; cases slot'; simp)+

lemma slot_other_neq [simp]: "slot_other slot \<noteq> slot" "slot \<noteq> slot_other slot"
  by (cases slot; simp)+

lemma index_ok_set_shards:
  "index_ok index \<Longrightarrow> ix_active index \<noteq> Some slot \<Longrightarrow> unat n \<le> MAX_ADMITTED_STATE_SHARDS \<Longrightarrow> index_ok (set_shards slot n index)"
  by (cases slot; cases "the (ix_active index)") (auto simp: index_ok_iff split: option.splits)

lemma index_ok_flip:
  "index_ok index \<Longrightarrow> index_shards index slot = n \<Longrightarrow> 1 \<le> unat n \<Longrightarrow> is_canonical_sha256 revision \<Longrightarrow>
     index_ok (index\<lparr>ix_active := Some slot, ix_revision_sha256 := Some revision, ix_max_shards := n\<rparr>)"
  by (cases slot) (auto simp: index_ok_iff)

lemma index_ok_default [simp]: "index_ok index_default"
  by (simp add: index_ok_iff index_default_def)

lemma read_index_ok: "read_index S configmap = Inr v \<Longrightarrow> index_ok (av_index v)"
  by (auto simp: read_index_def bind_e_Inr_iff index_ok_def map_err_Inr_iff)

lemma recorded_index:
  "objs base = Some configmap \<Longrightarrow> read_index S configmap = Inr v \<Longrightarrow> cm_namespace configmap = Some namespace \<Longrightarrow>
     recorded_state P S objs base = indexed_state P S objs base (av_index v)"
  by (simp add: recorded_state_def)

lemma slot_document_same:
  assumes "\<And>i. objs' (admitted_state_shard_name base slot i) = objs (admitted_state_shard_name base slot i)"
  shows "slot_document P S objs' base slot revision n = slot_document P S objs base slot revision n"
proof -
  have "shard_bytes objs' base slot revision n = shard_bytes objs base slot revision n"
    by (rule ext) (rule shard_bytes_same, rule assms)
  then show ?thesis by (simp add: slot_document_def)
qed

lemma indexed_same:
  assumes "same_off (slot_names base slot) objs objs'" and "ix_active index \<noteq> Some slot"
    and "ix_active index' = ix_active index" and "ix_revision_sha256 index' = ix_revision_sha256 index"
    and "\<And>active. active \<noteq> slot \<Longrightarrow> index_shards index' active = index_shards index active"
  shows "indexed_state P S objs' base index' = indexed_state P S objs base index"
proof (cases "ix_active index")
  case (Some active)
  then have "active \<noteq> slot" using assms(2) by auto
  then have "objs' (admitted_state_shard_name base active i) = objs (admitted_state_shard_name base active i)" for i
    using assms(1) slot_names_disjoint[of active slot base i] by (simp add: same_off_def)
  then show ?thesis
    using Some \<open>active \<noteq> slot\<close> assms(3-5) slot_document_same[of objs' base active objs] by (simp add: indexed_state_def)
qed (simp add: indexed_state_def assms)

lemma indexed_update: "indexed_state P S (objs(base \<mapsto> kept)) base index = indexed_state P S objs base index"
proof (cases "ix_active index")
  case (Some active)
  have "admitted_state_shard_name base active i \<noteq> base" for i
    by (simp add: admitted_state_shard_name_def)
  then show ?thesis
    using Some slot_document_same[of "objs(base \<mapsto> kept)" base active objs] by (simp add: indexed_state_def)
qed (simp add: indexed_state_def)

lemma recorded_written:
  assumes "objs' = objs(base \<mapsto> kept)" "read_index S kept = Inr v" "cm_namespace kept = Some namespace"
  shows "recorded_state P S objs' base = indexed_state P S objs base (av_index v)"
    and "version_current S objs' base (Some v)"
  using assms recorded_index[of objs' base kept S v namespace P] indexed_update[of P S objs base kept]
  by (simp_all add: version_current_def)

lemma recorded_same:
  assumes "same_off (slot_names base slot) objs objs'" "objs base = Some configmap" "read_index S configmap = Inr v"
    and "cm_namespace configmap = Some namespace" "ix_active (av_index v) \<noteq> Some slot"
  shows "recorded_state P S objs' base = recorded_state P S objs base"
proof -
  have "objs' base = Some configmap" using assms(1,2) by (simp add: same_off_def)
  then show ?thesis
    using assms recorded_index[OF _ assms(3,4)] indexed_same[OF assms(1,5), of "av_index v"] by simp
qed

subsection \<open>The store is atomic\<close>

lemma wp_reclaim:
  assumes api: "documented_api A objects" and codec: "documented_codec S"
    and here: "objects s base = Some configmap" "read_index S configmap = Inr v" "cm_namespace configmap = Some namespace'"
    and active: "ix_active (av_index v) \<noteq> Some slot"
    and state: "recorded_state P S (objects s) base = Some state"
  shows "wp (reclaim_slot A S base namespace owner slot v)
           (\<lambda>v t. recorded_state P S (objects t) base = Some state \<and> version_current S (objects t) base (Some v))
           (\<lambda>e t. e = ApiFailed \<and> recorded_state P S (objects t) base = Some state) s"
proof -
  let ?index = "set_shards slot 0 (av_index v)"
  have valid: "index_validate ?index = Inr ()"
    using index_ok_set_shards[OF read_index_ok[OF here(2)] active, of 0] by (simp add: index_ok_def)
  have indexed: "indexed_state P S (objects s) base (av_index v) = Some state"
    using recorded_index[where objs = "objects s", OF here] state by simp
  show ?thesis
    unfolding reclaim_slot_def wp_simps
  proof (rule wp_delete[OF api])
    fix t
    assume off: "same_off (slot_names base slot) (objects s) (objects t)"
    have kept: "recorded_state P S (objects t) base = Some state"
      using recorded_same[OF off here active] state by simp
    have same: "indexed_state P S (objects t) base ?index = Some state"
      using indexed_same[OF off active, of ?index] indexed by simp
    have "wp (write_admitted_state_index A S base namespace ?index (Some (av_resource_version v)) owner)
            (\<lambda>v t. recorded_state P S (objects t) base = Some state \<and> version_current S (objects t) base (Some v))
            (\<lambda>e t. e = ApiFailed \<and> recorded_state P S (objects t) base = Some state) t"
      by (rule wp_write_index[OF api codec valid]) (use kept same recorded_written in auto)
    then show "wp (write_admitted_state_index A S base namespace ?index (Some (av_resource_version v)) owner)
            (\<lambda>v t. recorded_state P S (objects t) base = Some state \<and> version_current S (objects t) base (Some v))
            (\<lambda>e t. e = ApiFailed \<and> recorded_state P S (objects t) base = Some state) t
          \<and> (ApiFailed = ApiFailed \<and> recorded_state P S (objects t) base = Some state)"
      using kept by simp
  qed
qed

lemma those_map_Some: "(\<And>i. i \<in> set is \<Longrightarrow> f i = Some (g i)) \<Longrightarrow> those (map f is) = Some (map g is)"
  by (induction "is") auto

lemma slot_document_written:
  assumes "\<And>i. i < n \<Longrightarrow> shard_bytes objs base slot revision n i = Some (shard_slice encoded n i)"
    and "0 < n" and "parse_document P S revision encoded = Inr state"
  shows "slot_document P S objs base slot revision n = Some state"
proof -
  have "those (map (shard_bytes objs base slot revision n) [0..<n]) = Some (map (shard_slice encoded n) [0..<n])"
    by (rule those_map_Some) (simp add: assms(1))
  then show ?thesis using assms(2,3) by (simp add: slot_document_def slices_concat)
qed

text \<open>The half of a store before the swap: it fills the other slot and leaves the recorded state.\<close>

definition store_target :: "AdmittedStateIndex \<Rightarrow> AdmittedStateSlot" where
  "store_target index = (case ix_active index of None \<Rightarrow> SlotA | Some slot \<Rightarrow> slot_other slot)"

lemma store_target_inactive: "ix_active index \<noteq> Some (store_target index)"
  by (cases "ix_active index") (auto simp: store_target_def)

lemma wp_allocate:
  assumes api: "documented_api A objects" and codec: "documented_codec S"
    and ok: "index_ok index" and slot: "ix_active index \<noteq> Some slot" and width: "unat n \<le> MAX_ADMITTED_STATE_SHARDS"
    and state: "recorded_state P S (objects s) base = Some state"
    and indexed: "indexed_state P S (objects s) base index = Some state"
    and Q: "\<And>v t kept. objects t base = Some kept \<Longrightarrow> read_index S kept = Inr v \<Longrightarrow> cm_namespace kept = Some namespace \<Longrightarrow>
       av_index v = set_shards slot n index \<Longrightarrow> indexed_state P S (objects t) base (set_shards slot n index) = Some state \<Longrightarrow> Q v t"
    and E: "\<And>t. recorded_state P S (objects t) base = Some state \<Longrightarrow> E ApiFailed t"
  shows "wp (write_admitted_state_index A S base namespace (set_shards slot n index) rv owner) Q E s"
proof (rule wp_write_index[OF api codec])
  show "index_validate (set_shards slot n index) = Inr ()"
    using index_ok_set_shards[OF ok slot width] by (simp add: index_ok_def)
  show "E ApiFailed t" if "objects t = objects s" for t using that state E by simp
  fix t v kept
  assume w: "objects t = (objects s)(base \<mapsto> kept)" "read_index S kept = Inr v" "cm_namespace kept = Some namespace"
    "av_index v = set_shards slot n index"
  have "same_off (slot_names base slot) (objects s) (objects s)" by (simp add: same_off_def)
  from indexed_same[OF this slot, of "set_shards slot n index"]
  have same: "indexed_state P S (objects s) base (set_shards slot n index) = Some state" using indexed by simp
  have "recorded_state P S (objects t) base = Some state" using recorded_written(1)[OF w(1-3)] w(4) same by simp
  moreover have "indexed_state P S (objects t) base (set_shards slot n index) = Some state"
    using same indexed_update w(1) by simp
  ultimately show "Q v t \<and> E ApiFailed t" using Q[OF _ w(2-4)] E w(1) by simp
qed

lemma current_indexed:
  assumes "version_current S objs base version" "recorded_state P S objs base = Some state"
  defines "index \<equiv> (case version of None \<Rightarrow> index_default | Some v \<Rightarrow> av_index v)"
  shows "index_ok index" and "indexed_state P S objs base index = Some state"
proof (atomize (full), cases version)
  case None
  then show "index_ok index \<and> indexed_state P S objs base index = Some state"
    using assms by (simp add: version_current_def recorded_state_def indexed_state_def index_default_def
        index_ok_default[unfolded index_default_def])
next
  case (Some v)
  then obtain configmap namespace where c: "objs base = Some configmap" "read_index S configmap = Inr v"
      "cm_namespace configmap = Some namespace"
    using assms(1) by (auto simp: version_current_def split: option.splits)
  show "index_ok index \<and> indexed_state P S objs base index = Some state"
    using Some read_index_ok[OF c(2)] recorded_index[where objs = objs, OF c] assms(2) by (simp add: index_def)
qed

lemma recorded_off:
  assumes "version_current S objs base version" "recorded_state P S objs base = Some state"
    and "same_off (slot_names base slot) objs objs'"
    and "ix_active (case version of None \<Rightarrow> index_default | Some v \<Rightarrow> av_index v) \<noteq> Some slot"
  shows "recorded_state P S objs' base = Some state"
proof (cases version)
  case None
  then have "objs' base = None" using assms(1,3) by (simp add: version_current_def same_off_def)
  then show ?thesis using None assms(1,2) by (simp add: recorded_state_def version_current_def)
next
  case (Some v)
  then obtain configmap namespace where c: "objs base = Some configmap" "read_index S configmap = Inr v"
      "cm_namespace configmap = Some namespace"
    using assms(1) by (auto simp: version_current_def split: option.splits)
  show ?thesis using recorded_same[OF assms(3) c] assms(2,4) Some by simp
qed

lemma wp_swap:
  assumes api: "documented_api A objects" and codec: "documented_codec S"
    and here: "objects s base = Some configmap" "read_index S configmap = Inr v" "cm_namespace configmap = Some namespace'"
    and slot: "ix_active (av_index v) \<noteq> Some slot" and width: "index_shards (av_index v) slot = n" "1 \<le> unat n"
    and revision: "is_canonical_sha256 revision"
    and document: "slot_document P S (objects s) base slot revision (unat n) = Some state"
    and old: "recorded_state P S (objects s) base = Some old"
  shows "wp (swap_slot A S base namespace owner slot n revision v)
           (\<lambda>v t. recorded_state P S (objects t) base = Some state \<and> version_current S (objects t) base v)
           (\<lambda>e t. e = ApiFailed \<and> recorded_state P S (objects t) base \<in> {Some old, Some state}) s"
proof -
  define flipped where "flipped = (av_index v)\<lparr>ix_active := Some slot, ix_revision_sha256 := Some revision, ix_max_shards := n\<rparr>"
  show ?thesis
    unfolding swap_slot_def Let_def wp_simps flipped_def[symmetric]
  proof (rule wp_write_index[OF api codec])
    show "index_validate flipped = Inr ()"
      using index_ok_flip[OF read_index_ok[OF here(2)] width(1,2) revision] by (simp add: index_ok_def flipped_def)
    show "ApiFailed = ApiFailed \<and> recorded_state P S (objects t) base \<in> {Some old, Some state}"
      if "objects t = objects s" for t using that old by simp
    fix t w kept
    assume w: "objects t = (objects s)(base \<mapsto> kept)" "read_index S kept = Inr w" "cm_namespace kept = Some namespace"
      "av_index w = flipped"
    have shards: "index_shards flipped slot = n" using width(1) by (cases slot) (simp_all add: flipped_def)
    have "indexed_state P S (objects s) base flipped = Some state"
      using document shards by (simp add: indexed_state_def flipped_def)
    then have state: "recorded_state P S (objects t) base = Some state" "version_current S (objects t) base (Some w)"
      using recorded_written[OF w(1-3)] w(4) by simp_all
    have "wp (reclaim_slot A S base namespace owner old_slot w)
            (\<lambda>v t. recorded_state P S (objects t) base = Some state \<and> version_current S (objects t) base (Some v))
            (\<lambda>e t. e = ApiFailed \<and> recorded_state P S (objects t) base \<in> {Some old, Some state}) t"
      if "ix_active (av_index v) = Some old_slot" for old_slot
      by (rule wp_mono[OF wp_reclaim[OF api codec _ w(2,3) _ state(1)]])
        (use that slot w(1,4) in \<open>auto simp: flipped_def\<close>)
    then show "wp (case ix_active (av_index v) of None \<Rightarrow> done_io w | Some slot \<Rightarrow> reclaim_slot A S base namespace owner slot w)
        (\<lambda>x t. recorded_state P S (objects t) base = Some state \<and> version_current S (objects t) base (Some x))
        (\<lambda>e t. e = ApiFailed \<and> recorded_state P S (objects t) base \<in> {Some old, Some state}) t
      \<and> (ApiFailed = ApiFailed \<and> recorded_state P S (objects t) base \<in> {Some old, Some state})"
      using state by (simp add: wp_simps split: option.split)
  qed
qed

lemma wp_fill:
  assumes api: "documented_api A objects" and codec: "documented_codec S"
    and prep: "prepare_admitted_state P S state limit = Inr prepared" and wf: "bm_wf (du_assignments state)"
    and width: "1 \<le> unat (stored limit)" "unat (stored limit) \<le> MAX_ADMITTED_STATE_SHARDS"
    and here: "objects s base = Some kept" "read_index S kept = Inr v" "cm_namespace kept = Some namespace'"
    and slot: "ix_active (av_index v) \<noteq> Some slot" "index_shards (av_index v) slot = stored limit"
    and old: "recorded_state P S (objects s) base = Some old"
  shows "wp (bind_io (write_shards A base namespace owner slot (shard_count limit) (pr_revision_sha256 prepared)
                        (pr_encoded prepared) [0..<shard_count limit])
               (\<lambda>_. swap_slot A S base namespace owner slot (stored limit) (pr_revision_sha256 prepared) v))
           (\<lambda>v t. recorded_state P S (objects t) base = Some state \<and> version_current S (objects t) base v)
           (\<lambda>e t. e = ApiFailed \<and> recorded_state P S (objects t) base \<in> {Some old, Some state}) s"
  unfolding wp_simps
proof (rule wp_write_shards[OF api])
  note p = prepared_document[OF codec prep wf]
  let ?R = "recorded_state P S" and ?n = "shard_count limit"
  have stays: "?R (objects u) base = Some old" if "same_off (slot_names base slot) (objects s) (objects u)" for u
    using recorded_same[OF that here slot(1)] old by simp
  show "length (shard_slice (pr_encoded prepared) ?n i) \<le> ADMITTED_STATE_SHARD_MAX_BYTES" for i
    by (rule slice_bounded) (use p(2,4) in simp)
  show "i < 100" if "i \<in> set [0..<?n]" for i
    using that width(2) by (simp add: shard_count_def MAX_ADMITTED_STATE_SHARDS_def)
  show "distinct [0..<?n]" by simp
  fix u
  assume off: "same_off (slot_names base slot) (objects s) (objects u)"
  show "ApiFailed = ApiFailed \<and> ?R (objects u) base \<in> {Some old, Some state}" using stays[OF off] by simp
  assume bytes: "\<And>i. i \<in> set [0..<?n] \<Longrightarrow> shard_bytes (objects u) base slot (pr_revision_sha256 prepared) ?n i
        = Some (shard_slice (pr_encoded prepared) ?n i)"
  have document: "slot_document P S (objects u) base slot (pr_revision_sha256 prepared) (unat (stored limit)) = Some state"
    unfolding shard_count_def[symmetric]
    by (rule slot_document_written[OF bytes _ p(1)]) (use width(1) in \<open>auto simp: shard_count_def\<close>)
  have at: "objects u base = Some kept" using off here(1) by (simp add: same_off_def)
  show "wp (swap_slot A S base namespace owner slot (stored limit) (pr_revision_sha256 prepared) v)
      (\<lambda>v t. ?R (objects t) base = Some state \<and> version_current S (objects t) base v)
      (\<lambda>e t. e = ApiFailed \<and> ?R (objects t) base \<in> {Some old, Some state}) u"
    by (rule wp_swap[OF api codec at here(2,3) slot width(1) p(3) document stays[OF off]])
qed

lemma wp_store:
  assumes api: "documented_api A objects" and codec: "documented_codec S"
    and limit: "shard_limit_new configured = Inr limit"
    and prep: "prepare_admitted_state P S state limit = Inr prepared" and wf: "bm_wf (du_assignments state)"
    and current: "version_current S (objects s) base version"
    and old: "recorded_state P S (objects s) base = Some old"
  shows "wp (store_admitted_state A S base namespace prepared version owner)
           (\<lambda>v t. recorded_state P S (objects t) base = Some state \<and> version_current S (objects t) base v)
           (\<lambda>e t. e = ApiFailed \<and> recorded_state P S (objects t) base \<in> {Some old, Some state}) s"
proof -
  define index where "index = (case version of None \<Rightarrow> index_default | Some v \<Rightarrow> av_index v)"
  define slot where "slot = store_target index"
  let ?R = "recorded_state P S" and ?new = "set_shards slot (stored limit) index"
  let ?Q = "\<lambda>v t. ?R (objects t) base = Some state \<and> version_current S (objects t) base v"
  let ?E = "\<lambda>e t. e = ApiFailed \<and> ?R (objects t) base \<in> {Some old, Some state}"
  have ok: "index_ok index" and indexed: "indexed_state P S (objects s) base index = Some old"
    using current_indexed[OF current old] by (simp_all add: index_def)
  have width: "1 \<le> unat (stored limit)" "unat (stored limit) \<le> MAX_ADMITTED_STATE_SHARDS"
    using limit by (auto simp: shard_limit_new_def split: if_splits)
  note limit_is = prepared_document(4)[OF codec prep wf]
  note inactive = store_target_inactive[of index, folded slot_def]
  have rest: "wp (write_admitted_state_index A S base namespace ?new rv owner)
      (\<lambda>v. wp (bind_io (write_shards A base namespace owner slot (shard_count limit) (pr_revision_sha256 prepared)
                        (pr_encoded prepared) [0..<shard_count limit])
               (\<lambda>_. swap_slot A S base namespace owner slot (stored limit) (pr_revision_sha256 prepared) v)) ?Q ?E) ?E t
    \<and> ?E ApiFailed t"
    if off: "same_off (slot_names base slot) (objects s) (objects t)" for t rv
  proof -
    have same: "indexed_state P S (objects t) base index = Some old"
      using indexed_same[OF off inactive, of index] indexed by simp
    have rec: "?R (objects t) base = Some old"
      using recorded_off[OF current old off] inactive by (simp add: index_def)
    show ?thesis
      by (intro conjI wp_allocate[OF api codec ok inactive width(2) rec same])
        (use wp_fill[OF api codec prep wf width] inactive rec recorded_index in auto)
  qed
  have "wp (if unat (index_shards index slot) > shard_count limit
            then delete_admitted_state_shards A base slot (shard_count limit) (unat (index_shards index slot))
            else done_io ())
      (\<lambda>_. wp (write_admitted_state_index A S base namespace ?new (map_option av_resource_version version) owner)
         (\<lambda>v. wp (bind_io (write_shards A base namespace owner slot (shard_count limit) (pr_revision_sha256 prepared)
                        (pr_encoded prepared) [0..<shard_count limit])
               (\<lambda>_. swap_slot A S base namespace owner slot (stored limit) (pr_revision_sha256 prepared) v)) ?Q ?E) ?E) ?E s"
  proof (cases "unat (index_shards index slot) > shard_count limit")
    case True
    show ?thesis unfolding if_P[OF True] by (rule wp_delete[OF api]) (rule rest)
  next
    case False
    show ?thesis unfolding if_not_P[OF False] wp_simps
      by (rule conjunct1[OF rest[unfolded wp_simps]]) (simp add: same_off_def)
  qed
  then show ?thesis
    by (simp only: store_admitted_state_def Let_def wp_simps limit_is index_def[symmetric]
        store_target_def[symmetric] slot_def[symmetric])
qed

subsection \<open>Loading\<close>

lemma wp_read_shards:
  assumes api: "documented_api A objects"
    and parts: "those (map (shard_bytes (objects s) base slot revision n) is) = Some parts"
    and Q: "\<And>t. objects t = objects s \<Longrightarrow> Q (encoded @ concat parts) t"
    and E: "\<And>t. objects t = objects s \<Longrightarrow> E ShardUnreadable t"
  shows "wp (read_shards A base slot revision n is encoded) Q E s"
  using parts Q E
proof (induction "is" arbitrary: s encoded parts)
  case Nil
  then show ?case by (simp add: wp_simps)
next
  case (Cons i rest)
  obtain here others where h: "shard_bytes (objects s) base slot revision n i = Some here"
      "those (map (shard_bytes (objects s) base slot revision n) rest) = Some others" "parts = here # others"
    using Cons.prems(1) by (auto split: option.splits)
  show ?case
    unfolding read_shards.simps wp_simps
  proof (rule wp_get[OF api])
    fix t x
    assume t: "objects t = objects s" "objects s (admitted_state_shard_name base slot i) = Some x"
    have x: "validate_admitted_state_shard x revision slot i n = Inr ()"
      "the (bm_get (the (cm_binary_data x)) ''state.bin'') = here"
      using h(1) t(2) by (auto simp: shard_bytes_def bind_eq_Some_conv split: if_splits)
    have "wp (read_shards A base slot revision n rest (encoded @ here)) Q E t"
      using Cons.prems(2,3) h(2,3) t(1) by (intro Cons.IH[of t others]) auto
    then show "wp (pure_io (map_err ShardInvalid (validate_admitted_state_shard x revision slot i n)))
        (\<lambda>_. wp (read_shards A base slot revision n rest (encoded @ the (bm_get (the (cm_binary_data x)) ''state.bin''))) Q E) E t"
      by (simp add: x wp_simps map_err_def)
  qed (use Cons.prems(3) in simp)
qed

lemma wp_clean_slots:
  assumes api: "documented_api A objects"
    and here: "objects s base = Some configmap" "read_index S configmap = Inr v" "cm_namespace configmap = Some namespace"
    and slots: "\<And>slot. slot \<in> set slots \<Longrightarrow> ix_active (av_index v) \<noteq> Some slot"
    and index: "index_ok index" "ix_active index = ix_active (av_index v)"
    and state: "indexed_state P S (objects s) base index = Some state" "recorded_state P S (objects s) base = Some state"
  shows "wp (clean_slots A base slots index cleaned)
           (\<lambda>(index', cleaned') t. objects t base = Some configmap \<and> index_ok index'
              \<and> indexed_state P S (objects t) base index' = Some state \<and> recorded_state P S (objects t) base = Some state
              \<and> (\<not> cleaned' \<longrightarrow> index' = index \<and> \<not> cleaned))
           (\<lambda>e t. e = ApiFailed \<and> recorded_state P S (objects t) base = Some state) s"
  using here(1) slots index state
proof (induction slots arbitrary: s index cleaned)
  case Nil
  then show ?case by (simp add: wp_simps)
next
  case (Cons slot rest)
  let ?index = "set_shards slot 0 index"
  let ?Q = "\<lambda>(index', cleaned') t. objects t base = Some configmap \<and> index_ok index'
              \<and> indexed_state P S (objects t) base index' = Some state \<and> recorded_state P S (objects t) base = Some state
              \<and> (\<not> cleaned' \<longrightarrow> index' = index \<and> \<not> cleaned)"
  let ?E = "\<lambda>e t. e = ApiFailed \<and> recorded_state P S (objects t) base = Some state"
  have active: "ix_active (av_index v) \<noteq> Some slot" "ix_active index \<noteq> Some slot" using Cons.prems(2,4) by auto
  have "wp (clean_slots A base rest ?index True) ?Q ?E t \<and> ?E ApiFailed t"
    if off: "same_off (slot_names base slot) (objects s) (objects t)" for t
  proof -
    have t: "objects t base = Some configmap" "recorded_state P S (objects t) base = Some state"
      "indexed_state P S (objects t) base ?index = Some state"
      using off recorded_same[OF off Cons.prems(1) here(2,3) active(1)] indexed_same[OF off active(2), of ?index] Cons.prems
      by (simp_all add: same_off_def)
    have "wp (clean_slots A base rest ?index True)
           (\<lambda>(index', cleaned') t. objects t base = Some configmap \<and> index_ok index'
              \<and> indexed_state P S (objects t) base index' = Some state \<and> recorded_state P S (objects t) base = Some state
              \<and> (\<not> cleaned' \<longrightarrow> index' = ?index \<and> \<not> True)) ?E t"
      using Cons.prems t index_ok_set_shards[OF Cons.prems(3) active(2), of 0] by (intro Cons.IH) auto
    then have "wp (clean_slots A base rest ?index True) ?Q ?E t" by (rule wp_mono) auto
    then show ?thesis using t(2) by blast
  qed
  then have "wp (delete_admitted_state_shards A base slot 0 count) (\<lambda>_. wp (clean_slots A base rest ?index True) ?Q ?E) ?E s" for count
    by (rule wp_delete[OF api])
  moreover have "wp (clean_slots A base rest index cleaned) ?Q ?E s"
    using Cons.prems by (intro Cons.IH) auto
  ultimately show ?case
    by (simp only: clean_slots.simps Let_def wp_simps split: if_split) blast
qed

lemma wp_clean_index:
  assumes api: "documented_api A objects" and codec: "documented_codec S"
    and here: "objects s base = Some configmap" "read_index S configmap = Inr v" "cm_namespace configmap = Some namespace"
    and state: "recorded_state P S (objects s) base = Some state"
  shows "wp (clean_index A S base configmap v)
           (\<lambda>v t. version_current S (objects t) base (Some v) \<and> recorded_state P S (objects t) base = Some state)
           (\<lambda>e t. e = ApiFailed \<and> recorded_state P S (objects t) base = Some state) s"
proof -
  let ?slots = "case ix_active (av_index v) of Some active \<Rightarrow> [slot_other active] | None \<Rightarrow> [SlotA, SlotB]"
  let ?Q = "\<lambda>v t. version_current S (objects t) base (Some v) \<and> recorded_state P S (objects t) base = Some state"
  let ?E = "\<lambda>e t. e = ApiFailed \<and> recorded_state P S (objects t) base = Some state"
  have indexed: "indexed_state P S (objects s) base (av_index v) = Some state"
    using recorded_index[where objs = "objects s", OF here] state by simp
  have inactive: "slot \<in> set ?slots \<Longrightarrow> ix_active (av_index v) \<noteq> Some slot" for slot
    by (auto split: option.splits)
  have rewritten: "wp (write_admitted_state_index A S base namespace index rv owner) ?Q ?E t"
    if "index_ok index" "indexed_state P S (objects t) base index = Some state" "recorded_state P S (objects t) base = Some state"
    for index rv owner t
    by (rule wp_write_index[OF api codec])
      (use that recorded_written in \<open>auto simp: index_ok_def\<close>)
  have unchanged: "?Q (v\<lparr>av_index := av_index v\<rparr>) t"
    if "objects t base = Some configmap" "recorded_state P S (objects t) base = Some state" for t
    using that here by (simp add: version_current_def)
  show ?thesis
    unfolding clean_index_def wp_simps
    by (rule wp_mono[OF wp_clean_slots[OF api here inactive read_index_ok[OF here(2)] refl indexed state]])
      (use rewritten unchanged here(3) in \<open>auto simp: wp_simps some_or_def\<close>)
qed

lemma slot_document_parts:
  assumes "slot_document P S objs base slot revision n = Some state"
  obtains parts where "those (map (shard_bytes objs base slot revision n) [0..<n]) = Some parts"
    and "parse_document P S revision (concat parts) = Inr state"
proof -
  obtain parts where parts: "those (map (shard_bytes objs base slot revision n) [0..<n]) = Some parts"
    and doc: "(case parse_document P S revision (concat parts) of Inl _ \<Rightarrow> None | Inr x \<Rightarrow> Some x) = Some state"
    using assms unfolding slot_document_def bind_eq_Some_conv by blast
  have "parse_document P S revision (concat parts) = Inr state"
    using doc by (cases "parse_document P S revision (concat parts)") auto
  then show thesis using that parts by blast
qed

lemma wp_read_document:
  assumes api: "documented_api A objects"
    and current: "version_current S (objects s) base (Some v)" and state: "recorded_state P S (objects s) base = Some state"
    and Q: "\<And>t. objects t = objects s \<Longrightarrow> Q (state, Some v) t" and E: "\<And>t. objects t = objects s \<Longrightarrow> E ShardUnreadable t"
  shows "wp (read_document A P S base v) Q E s"
proof (cases "ix_active (av_index v)")
  case None
  then show ?thesis
    using current_indexed(2)[OF current state] Q[of s] by (simp add: read_document_def wp_simps indexed_state_def)
next
  case (Some active)
  then obtain parts where parts: "those (map (shard_bytes (objects s) base active (the (ix_revision_sha256 (av_index v)))
        (unat (index_shards (av_index v) active))) [0..<unat (index_shards (av_index v) active)]) = Some parts"
      "parse_document P S (the (ix_revision_sha256 (av_index v))) (concat parts) = Inr state"
    using current_indexed(2)[OF current state] slot_document_parts by (simp add: indexed_state_def) blast
  show ?thesis
    using Some parts(2) Q E
    by (simp add: read_document_def Let_def wp_simps) (rule wp_read_shards[OF api parts(1)]; simp add: wp_simps)
qed

lemma wp_load:
  assumes api: "documented_api A objects" and codec: "documented_codec S"
    and state: "recorded_state P S (objects s) base = Some state"
  shows "wp (load_admitted_state A P S base)
           (\<lambda>(found, v) t. found = state \<and> recorded_state P S (objects t) base = Some state \<and> version_current S (objects t) base v)
           (\<lambda>e t. e \<in> {ApiFailed, ShardUnreadable} \<and> recorded_state P S (objects t) base = Some state) s"
    (is "wp _ ?Q ?E s")
  unfolding load_admitted_state_def wp_simps
proof (rule wp_get_opt[OF api])
  fix t
  assume t: "objects t = objects s"
  show "?E ApiFailed t" using t state by simp
  show "wp (case objects s base of
          None \<Rightarrow> done_io (durable_default, None)
        | Some configmap \<Rightarrow> bind_io (pure_io (read_index S configmap)) (\<lambda>version.
            bind_io (clean_index A S base configmap version) (read_document A P S base))) ?Q ?E t"
  proof (cases "objects s base")
    case None
    then show ?thesis using t state by (simp add: wp_simps recorded_state_def version_current_def)
  next
    case (Some configmap)
    then obtain v namespace where c: "read_index S configmap = Inr v" "cm_namespace configmap = Some namespace"
      using state by (auto simp: recorded_state_def split: sum.splits if_splits)
    have read: "wp (read_document A P S base w) ?Q ?E u"
      if "version_current S (objects u) base (Some w)" "recorded_state P S (objects u) base = Some state" for w u
      by (rule wp_read_document[OF api that]) (use that in auto)
    have "wp (clean_index A S base configmap v) (\<lambda>w. wp (read_document A P S base w) ?Q ?E) ?E t"
      by (rule wp_mono[OF wp_clean_index[OF api codec _ c]]) (use Some t state read in auto)
    then show ?thesis using Some c by (simp add: wp_simps)
  qed
qed

subsection \<open>An atomic register\<close>

text \<open>
  The contract of the component: one register that survives failures.  A successful load returns its
  value, a successful store replaces it, and a store that fails has either replaced it or not.  Only
  calls to the server fail.
\<close>

datatype register_event =
    Loaded DurableRolloutState | LoadFailed state_error
  | Stored DurableRolloutState | StoreFailed DurableRolloutState state_error

inductive register_run :: "DurableRolloutState \<Rightarrow> register_event list \<Rightarrow> DurableRolloutState \<Rightarrow> bool" where
  run_idle: "register_run x [] x"
| run_loaded: "register_run x events y \<Longrightarrow> register_run x (Loaded x # events) y"
| run_load_failed: "e \<in> {ApiFailed, ShardUnreadable} \<Longrightarrow> register_run x events y \<Longrightarrow> register_run x (LoadFailed e # events) y"
| run_stored: "register_run z events y \<Longrightarrow> register_run x (Stored z # events) y"
| run_store_failed: "x' \<in> {x, z} \<Longrightarrow> register_run x' events y \<Longrightarrow> register_run x (StoreFailed z ApiFailed # events) y"

inductive_cases register_run_loadedE: "register_run x (Loaded z # events) y"
inductive_cases register_run_storedE: "register_run x (Stored z # events) y"

lemma register_run_append: "register_run x es y \<Longrightarrow> register_run y fs z \<Longrightarrow> register_run x (es @ fs) z"
  by (induction rule: register_run.induct) (auto intro: register_run.intros)

text \<open>
  A pass of the controller loads the state, plans from it, and stores the plan's state if there is a
  new one that can be prepared.  The planner is an argument.
\<close>

definition controller_pass ::
    "'s configmap_api \<Rightarrow> publisher \<Rightarrow> state_lib \<Rightarrow> string \<Rightarrow> string \<Rightarrow> AdmittedShardLimit \<Rightarrow> OwnerReference option
     \<Rightarrow> (DurableRolloutState \<Rightarrow> DurableRolloutState option) \<Rightarrow> 's \<Rightarrow> register_event list \<times> 's" where
  "controller_pass A P S name namespace limit owner plan s =
     (case load_admitted_state A P S name s of
        (Inl e, t) \<Rightarrow> ([LoadFailed e], t)
      | (Inr (old, version), t) \<Rightarrow>
          (case plan old of
             None \<Rightarrow> ([Loaded old], t)
           | Some state \<Rightarrow>
               (case prepare_admitted_state P S state limit of
                  Inl _ \<Rightarrow> ([Loaded old], t)
                | Inr prepared \<Rightarrow>
                    (case store_admitted_state A S name namespace prepared version owner t of
                       (Inl e, u) \<Rightarrow> ([Loaded old, StoreFailed state e], u)
                     | (Inr _, u) \<Rightarrow> ([Loaded old, Stored state], u)))))"

fun controller_passes ::
    "'s configmap_api \<Rightarrow> publisher \<Rightarrow> state_lib \<Rightarrow> string \<Rightarrow> string \<Rightarrow> AdmittedShardLimit \<Rightarrow> OwnerReference option
     \<Rightarrow> (DurableRolloutState \<Rightarrow> DurableRolloutState option) list \<Rightarrow> 's \<Rightarrow> register_event list \<times> 's" where
  "controller_passes A P S name namespace limit owner [] s = ([], s)"
| "controller_passes A P S name namespace limit owner (plan # plans) s =
     (case controller_pass A P S name namespace limit owner plan s of
        (events, t) \<Rightarrow> (case controller_passes A P S name namespace limit owner plans t of
           (events', u) \<Rightarrow> (events @ events', u)))"

lemma load_outcome:
  assumes "documented_api A objects" "documented_codec S" "recorded_state P S (objects s) base = Some x"
  shows "load_admitted_state A P S base s = (Inr (found, v), t) \<Longrightarrow>
      found = x \<and> recorded_state P S (objects t) base = Some x \<and> version_current S (objects t) base v"
    and "load_admitted_state A P S base s = (Inl e, t) \<Longrightarrow>
      e \<in> {ApiFailed, ShardUnreadable} \<and> recorded_state P S (objects t) base = Some x"
  using wp_load[OF assms] by (simp_all add: wp_def)

lemma store_outcome:
  assumes "documented_api A objects" "documented_codec S" "shard_limit_new configured = Inr limit"
    "prepare_admitted_state P S state limit = Inr prepared" "bm_wf (du_assignments state)"
    "version_current S (objects s) base version" "recorded_state P S (objects s) base = Some old"
  shows "store_admitted_state A S base namespace prepared version owner s = (Inr v, t) \<Longrightarrow>
      recorded_state P S (objects t) base = Some state \<and> version_current S (objects t) base v"
    and "store_admitted_state A S base namespace prepared version owner s = (Inl e, t) \<Longrightarrow>
      e = ApiFailed \<and> recorded_state P S (objects t) base \<in> {Some old, Some state}"
  using wp_store[OF assms, of namespace owner] by (simp_all add: wp_def)

lemma controller_pass_run:
  assumes ctx: "documented_api A objects" "documented_codec S" and limit: "shard_limit_new configured = Inr limit"
    and plan: "\<And>x y. plan x = Some y \<Longrightarrow> bm_wf (du_assignments y)"
    and x: "recorded_state P S (objects s) base = Some x"
    and pass: "controller_pass A P S base namespace limit owner plan s = (events, t)"
  shows "\<exists>y. recorded_state P S (objects t) base = Some y \<and> register_run x events y"
proof -
  obtain r u where load: "load_admitted_state A P S base s = (r, u)" by fastforce
  show ?thesis
  proof (cases r)
    case (Inl e)
    then show ?thesis
      using load_outcome(2)[OF ctx x, of e u] load pass by (auto simp: controller_pass_def intro: register_run.intros)
  next
    case (Inr found)
    then obtain old version where l: "load_admitted_state A P S base s = (Inr (old, version), u)"
      using load by (cases found) auto
    note at = load_outcome(1)[OF ctx x l]
    show ?thesis
    proof (cases "\<exists>state prepared. plan old = Some state \<and> prepare_admitted_state P S state limit = Inr prepared")
      case False
      then have "events = [Loaded old] \<and> t = u"
        using pass l by (auto simp: controller_pass_def split: option.splits sum.splits)
      then show ?thesis using at by (auto intro: register_run.intros)
    next
      case True
      then obtain state prepared where p: "plan old = Some state" "prepare_admitted_state P S state limit = Inr prepared"
        by blast
      obtain r' t' where store: "store_admitted_state A S base namespace prepared version owner u = (r', t')" by fastforce
      note out = store_outcome[OF ctx limit p(2) plan[OF p(1)], of u base version x, where namespace = namespace and owner = owner]
      show ?thesis
      proof (cases r')
        case (Inl e)
        then have "events = [Loaded old, StoreFailed state e]" "t = t'" using pass l p store by (auto simp: controller_pass_def)
        then show ?thesis using out(2)[of e t'] at store Inl by (auto intro!: register_run.intros)
      next
        case (Inr v)
        then have "events = [Loaded old, Stored state]" "t = t'" using pass l p store by (auto simp: controller_pass_def)
        then show ?thesis using out(1)[of v t'] at store Inr by (auto intro!: register_run.intros)
      qed
    qed
  qed
qed

text \<open>
  C35. The durable state refines an atomic register.  Take any sequence of controller passes, any
  planner, and any calls that fail before or after taking effect at any point, a process that dies
  included.  Starting from objects that record a state, the objects always record a state, and the
  loads and stores of the history are a run of one register: each successful load returns the
  current value, each successful store replaces it, and a failed store leaves either the old value
  or the new one, never a mixture and never nothing.  The only failures are those of the server: no
  index or shard that was written is ever refused when it is read.
\<close>

theorem admitted_state_refines_register:
  assumes "documented_api A objects" and "documented_codec S" and "shard_limit_new configured = Inr limit"
    and "\<And>plan x y. plan \<in> set plans \<Longrightarrow> plan x = Some y \<Longrightarrow> bm_wf (du_assignments y)"
    and "recorded_state P S (objects s) base = Some x"
    and "controller_passes A P S base namespace limit owner plans s = (events, t)"
  shows "\<exists>y. recorded_state P S (objects t) base = Some y \<and> register_run x events y"
  using assms(4-6)
proof (induction plans arbitrary: s x events)
  case Nil
  then show ?case by (auto intro: register_run.intros)
next
  case (Cons plan plans)
  obtain es u where pass: "controller_pass A P S base namespace limit owner plan s = (es, u)" by fastforce
  obtain fs where rest: "controller_passes A P S base namespace limit owner plans u = (fs, t)" and events: "events = es @ fs"
    using Cons.prems(3) pass by (auto split: prod.splits)
  have plan: "bm_wf (du_assignments y)" if "plan x = Some y" for x y
    using Cons.prems(1)[of plan] that by simp
  have "\<exists>y. recorded_state P S (objects u) base = Some y \<and> register_run x es y"
    by (rule controller_pass_run[OF assms(1-3) _ Cons.prems(2) pass]) (rule plan)
  then obtain y where y: "recorded_state P S (objects u) base = Some y" "register_run x es y" by blast
  obtain z where "recorded_state P S (objects t) base = Some z" "register_run y fs z"
    using Cons.IH[OF _ y(1) rest] Cons.prems(1) by auto
  then show ?case using register_run_append[OF y(2)] events by blast
qed

text \<open>
  A concrete server: its objects, a clock that gives the resource versions, and a list of faults, of
  which 1 refuses a call and 2 loses the reply of one.
\<close>

record sample_server =
  srv_objects :: "string \<Rightarrow> ConfigMap option"
  srv_clock :: nat
  srv_faults :: "nat list"

definition srv_fault :: "sample_server \<Rightarrow> nat" where
  "srv_fault s = (case srv_faults s of [] \<Rightarrow> 0 | f # _ \<Rightarrow> f)"

definition srv_next :: "sample_server \<Rightarrow> sample_server" where
  "srv_next s = s\<lparr>srv_faults := tl (srv_faults s), srv_clock := Suc (srv_clock s)\<rparr>"

definition srv_put :: "bool \<Rightarrow> string \<Rightarrow> ConfigMap \<Rightarrow> sample_server \<Rightarrow> ConfigMap reply \<times> sample_server" where
  "srv_put allowed n c s =
     (let kept = c\<lparr>cm_resource_version := Some (show_nat (srv_clock s))\<rparr>
      in if srv_fault s = 1 \<or> \<not> allowed then (Refused, srv_next s)
         else (if srv_fault s = 2 then Refused else Answered kept,
               (srv_next s)\<lparr>srv_objects := (srv_objects s)(n \<mapsto> kept)\<rparr>))"

definition sample_api :: "sample_server configmap_api" where
  "sample_api =
     \<lparr>api_get_opt = (\<lambda>n s. (if srv_fault s = 0 then Answered (srv_objects s n) else Refused, srv_next s)),
      api_get = (\<lambda>n s. (case srv_objects s n of
           Some x \<Rightarrow> if srv_fault s = 0 then Answered x else Refused | None \<Rightarrow> Missing, srv_next s)),
      api_create = (\<lambda>c s. srv_put (srv_objects s (cm_name c) = None) (cm_name c) c s),
      api_replace = (\<lambda>n c s. srv_put (case srv_objects s n of None \<Rightarrow> False
           | Some old \<Rightarrow> cm_resource_version c \<in> {None, cm_resource_version old}) n c s),
      api_delete = (\<lambda>n s. if srv_fault s = 1 then (Refused, srv_next s)
           else if srv_objects s n = None then (Missing, srv_next s)
           else (if srv_fault s = 2 then Refused else Answered (), (srv_next s)\<lparr>srv_objects := (srv_objects s)(n := None)\<rparr>))\<rparr>"

lemma srv_next_objects [simp]: "srv_objects (srv_next s) = srv_objects s"
  by (simp add: srv_next_def)

lemma srv_put_outcome:
  "srv_put allowed n c s = (r, t) \<Longrightarrow>
     (srv_objects t = srv_objects s \<and> (\<forall>x. r \<noteq> Answered x))
   \<or> (\<exists>kept. stored_as kept c \<and> allowed \<and> srv_objects t = (srv_objects s)(n \<mapsto> kept) \<and> (\<forall>x. r = Answered x \<longrightarrow> x = kept))"
  by (auto simp: srv_put_def Let_def stored_as_def split: if_splits)

lemma sample_api_documented: "documented_api sample_api srv_objects"
proof -
  have "documented_create sample_api srv_objects"
    unfolding documented_create_def using srv_put_outcome by (fastforce simp: sample_api_def)
  moreover have "documented_replace sample_api srv_objects"
    unfolding documented_replace_def using srv_put_outcome by (fastforce simp: sample_api_def split: option.splits)
  ultimately show ?thesis
    by (auto simp: documented_api_def documented_reads_def documented_delete_def sample_api_def split: option.splits if_splits)
qed

definition sample_digest :: string where
  "sample_digest = replicate 64 (CHR ''a'')"

definition sample_durable :: DurableRolloutState where
  "sample_durable =
     \<lparr>du_admitted = [], du_vetoed = [], du_routing = [(''n1'', ''edge'')], du_assignments = [(''n1'', sample_digest)]\<rparr>"

definition sample_index_text :: "AdmittedStateIndex \<Rightarrow> string" where
  "sample_index_text index =
     map (\<lambda>w. char_of (unat w)) [ix_format index, ix_max_shards index, ix_a_shards index, ix_b_shards index]
     @ (case ix_active index of None \<Rightarrow> ''-'' | Some slot \<Rightarrow> slot_name slot)
     @ (case ix_revision_sha256 index of None \<Rightarrow> [] | Some r \<Rightarrow> ''+'' @ r)"

definition sample_index_read :: "string \<Rightarrow> AdmittedStateIndex option" where
  "sample_index_read text = (case text of
       f # m # a # b # slot # r \<Rightarrow> Some
         \<lparr>ix_format = of_nat (of_char f),
          ix_active = (if slot = CHR ''-'' then None else if slot = CHR ''a'' then Some SlotA else Some SlotB),
          ix_revision_sha256 = (case r of [] \<Rightarrow> None | _ # r' \<Rightarrow> Some r'),
          ix_max_shards = of_nat (of_char m), ix_a_shards = of_nat (of_char a), ix_b_shards = of_nat (of_char b)\<rparr>
     | _ \<Rightarrow> None)"

definition sample_codec :: state_lib where
  "sample_codec =
     \<lparr>sl_index_to_string = (\<lambda>index. Some (sample_index_text index)),
      sl_index_from_str = sample_index_read,
      sl_state_to_vec = (\<lambda>st. if st = stored_from sample_durable then Some ''state'' else None),
      sl_state_from_slice = (\<lambda>_. Some (stored_from sample_durable)),
      sl_sha256 = (\<lambda>_. sample_digest)\<rparr>"

lemma sample_index_roundtrip: "sample_index_read (sample_index_text index) = Some index"
proof -
  have w: "of_nat (unat (w :: u8) mod 256) = w" for w
  proof -
    have "unat w < 2 ^ LENGTH(8)" by (rule unsigned_less)
    then show ?thesis by simp
  qed
  have "sample_index_read (sample_index_text index) =
      Some \<lparr>ix_format = ix_format index, ix_active = ix_active index, ix_revision_sha256 = ix_revision_sha256 index,
            ix_max_shards = ix_max_shards index, ix_a_shards = ix_a_shards index, ix_b_shards = ix_b_shards index\<rparr>"
    unfolding sample_index_read_def sample_index_text_def
    by (cases "ix_active index"; cases "the (ix_active index)"; cases "ix_revision_sha256 index") (simp_all add: w)
  then show ?thesis by simp
qed

lemma sample_codec_documented: "documented_codec sample_codec"
  by (auto simp: documented_codec_def sample_codec_def sample_index_roundtrip sample_digest_def is_canonical_sha256_def list_all_iff ascii_defs)

definition sample_empty_server :: "nat list \<Rightarrow> sample_server" where
  "sample_empty_server faults = \<lparr>srv_objects = (\<lambda>_. None), srv_clock = 0, srv_faults = faults\<rparr>"

theorem admitted_state_refines_register_witness:
  "\<exists>y. recorded_state sample_publisher sample_codec
         (srv_objects (snd (controller_passes sample_api sample_publisher sample_codec ''base'' ''prod'' (AdmittedShardLimit 2) None
           [\<lambda>_. Some sample_durable, \<lambda>_. None] (sample_empty_server [0, 0, 0, 2])))) ''base'' = Some y
     \<and> register_run durable_default
         (fst (controller_passes sample_api sample_publisher sample_codec ''base'' ''prod'' (AdmittedShardLimit 2) None
           [\<lambda>_. Some sample_durable, \<lambda>_. None] (sample_empty_server [0, 0, 0, 2]))) y"
proof (rule admitted_state_refines_register[OF sample_api_documented sample_codec_documented])
  show "shard_limit_new 2 = Inr (AdmittedShardLimit 2)"
    by (simp add: shard_limit_new_def MAX_ADMITTED_STATE_SHARDS_def)
  show "bm_wf (du_assignments y)"
    if "plan \<in> set [\<lambda>_. Some sample_durable, \<lambda>_. None]" "plan x = Some y" for plan x y
    using that by (auto simp: sample_durable_def bm_wf_Cons)
  show "recorded_state sample_publisher sample_codec (srv_objects (sample_empty_server [0, 0, 0, 2])) ''base'' = Some durable_default"
    by (simp add: recorded_state_def sample_empty_server_def)
qed simp

end
