(* ===== verification/Repository_Mirror.thy ===== *)
theory Repository_Mirror
  imports Publication Remote_Calls
begin

text \<open>
  Mirroring one signed repository generation to the object store, \<^verbatim>\<open>publish_repository\<close> of
  \<^verbatim>\<open>crates/updatec/src/runtime/publish.rs\<close>: targets are content-addressed, versioned metadata is
  created once, and \<^verbatim>\<open>root.json\<close> and \<^verbatim>\<open>timestamp.json\<close> are replaced by compare-and-swap, the
  timestamp last.

  The object store is the parameter \<open>B\<close>, a record of calls on an abstract state of the world; other
  publishers may act on the same bucket between and during the calls.  The parameter \<open>X\<close> holds
  SHA-256, the version a signed role document declares and the \<^verbatim>\<open>object_store\<close> path type.  The
  local repository is a function from paths to file contents, a path being its components.
\<close>

subsection \<open>Keys and digests\<close>

record mirror_lib =
  ml_sha256 :: "string \<Rightarrow> string"
  ml_signed_version :: "string \<Rightarrow> nat option"
  ml_path :: "string \<Rightarrow> string"

datatype mirror_error =
    NotBelowRepository | KeyNotNormal | KeyEmpty | NoTimestampCommit | FinalNotTimestamp
  | TwoRoots | NoRoot | NoContentAddress | AddressNotCanonical | TargetDigestMismatch | OutsideRepository
  | LocalUnreadable | RemoteAbsent | RemoteLength | RemoteDigest | RemoteUnreadable
  | LocalNoVersion | RemoteNoVersion | GenerationOlder | GenerationConflict
  | FenceLost | CommitFailed | OnlineMetadataConflict | MetadataConflict | UploadFailed

fun join_slash :: "string list \<Rightarrow> string" where
  "join_slash [] = []"
| "join_slash [part] = part"
| "join_slash (part # rest) = part @ ''/'' @ join_slash rest"

definition object_key :: "mirror_lib \<Rightarrow> string \<Rightarrow> string \<Rightarrow> string" where
  "object_key X prefix relative =
     ml_path X (join_slash (filter (\<lambda>part. part \<noteq> []) [trim_slashes prefix, relative]))"

fun component_text :: "component \<Rightarrow> string" where
  "component_text (Normal part) = part"
| "component_text RootDir = ''/''"
| "component_text CurDir = ''.''"
| "component_text ParentDir = ''..''"

definition repository_object_key :: "mirror_lib \<Rightarrow> string \<Rightarrow> component list \<Rightarrow> mirror_error + string" where
  "repository_object_key X prefix relative =
     (if \<not> list_all is_normal relative then Inl KeyNotNormal
      else if relative = [] then Inl KeyEmpty
      else Inr (object_key X prefix (join_slash (map component_text relative))))"

fun strip_path :: "component list \<Rightarrow> component list \<Rightarrow> component list option" where
  "strip_path [] path = Some path"
| "strip_path (d # dir) [] = None"
| "strip_path (d # dir) (c # path) = (if c = d then strip_path dir path else None)"

definition ROOT_PATH :: "component list" where
  "ROOT_PATH = [Normal ''metadata'', Normal ''root.json'']"

definition TIMESTAMP_PATH :: "component list" where
  "TIMESTAMP_PATH = [Normal ''metadata'', Normal ''timestamp.json'']"

definition content_addressed_target_digest :: "component list \<Rightarrow> mirror_error + string option" where
  "content_addressed_target_digest relative =
     (case strip_path [Normal ''targets''] relative of
        None \<Rightarrow> Inr None
      | Some target \<Rightarrow> (case split_once (CHR ''.'') (join_slash (map component_text target)) of
            None \<Rightarrow> Inl NoContentAddress
          | Some (digest, _) \<Rightarrow>
              if \<not> is_canonical_sha256 digest then Inl AddressNotCanonical else Inr (Some digest)))"

subsection \<open>The object store\<close>

datatype put_reply = PutDone | PutConflict | PutFailed

record 's object_store =
  os_get :: "string \<Rightarrow> 's \<Rightarrow> string reply \<times> 's"
  os_head :: "string \<Rightarrow> 's \<Rightarrow> unit reply \<times> 's"
  os_create :: "string \<Rightarrow> string \<Rightarrow> 's \<Rightarrow> put_reply \<times> 's"
  os_update :: "string \<Rightarrow> string \<Rightarrow> string \<Rightarrow> 's \<Rightarrow> put_reply \<times> 's"
  os_multipart :: "string \<Rightarrow> string list \<Rightarrow> 's \<Rightarrow> unit reply \<times> 's"
  os_e_tag :: "string \<Rightarrow> string"

definition LOCAL_TUF_METADATA_MAX_BYTES :: nat where
  "LOCAL_TUF_METADATA_MAX_BYTES = 16 * 1024 * 1024"

definition PART_BYTES :: nat where
  "PART_BYTES = 5 * 1024 * 1024"

definition read_local_bounded :: "(component list \<Rightarrow> string option) \<Rightarrow> component list \<Rightarrow> nat \<Rightarrow> mirror_error + string" where
  "read_local_bounded files file limit =
     bind_e (some_or LocalUnreadable (files file)) (\<lambda>bytes.
       if length bytes > limit then Inl LocalUnreadable else Inr bytes)"

definition read_object_bounded :: "'s object_store \<Rightarrow> string \<Rightarrow> nat \<Rightarrow> 's \<Rightarrow> string reply \<times> 's" where
  "read_object_bounded B key limit s =
     (case os_get B key s of
        (Answered bytes, t) \<Rightarrow> (if length bytes > limit then Refused else Answered bytes, t)
      | (r, t) \<Rightarrow> (r, t))"

datatype put_mode = PutCreate | PutUpdate string

record ConditionalPublicationFile =
  cp_bytes :: string
  cp_previous :: "string option"
  cp_mode :: put_mode

definition prepare_conditional_publication_file ::
    "'s object_store \<Rightarrow> (component list \<Rightarrow> string option) \<Rightarrow> string \<Rightarrow> component list
     \<Rightarrow> (mirror_error, 's, ConditionalPublicationFile) io" where
  "prepare_conditional_publication_file B files key file =
     bind_io (pure_io (read_local_bounded files file LOCAL_TUF_METADATA_MAX_BYTES)) (\<lambda>bytes s.
       case read_object_bounded B key LOCAL_TUF_METADATA_MAX_BYTES s of
         (Answered previous, t) \<Rightarrow>
           (Inr \<lparr>cp_bytes = bytes, cp_previous = Some previous, cp_mode = PutUpdate (os_e_tag B previous)\<rparr>, t)
       | (Missing, t) \<Rightarrow> (Inr \<lparr>cp_bytes = bytes, cp_previous = None, cp_mode = PutCreate\<rparr>, t)
       | (Refused, t) \<Rightarrow> (Inl RemoteUnreadable, t))"

definition validate_timestamp_transition :: "mirror_lib \<Rightarrow> ConditionalPublicationFile \<Rightarrow> mirror_error + unit" where
  "validate_timestamp_transition X write =
     bind_e (some_or LocalNoVersion (ml_signed_version X (cp_bytes write))) (\<lambda>local_version.
       case cp_previous write of
         None \<Rightarrow> Inr ()
       | Some previous \<Rightarrow>
           bind_e (some_or RemoteNoVersion (ml_signed_version X previous)) (\<lambda>remote_version.
             if remote_version > local_version then Inl GenerationOlder
             else if remote_version = local_version \<and> previous \<noteq> cp_bytes write then Inl GenerationConflict
             else Inr ()))"

definition commit_conditional_publication_file ::
    "'s object_store \<Rightarrow> string \<Rightarrow> ConditionalPublicationFile \<Rightarrow> (mirror_error, 's, unit) io" where
  "commit_conditional_publication_file B key write s =
     (if cp_previous write = Some (cp_bytes write) then (Inr (), s)
      else (case (case cp_mode write of
                    PutCreate \<Rightarrow> os_create B key (cp_bytes write) s
                  | PutUpdate tag \<Rightarrow> os_update B key tag (cp_bytes write) s) of
          (PutDone, t) \<Rightarrow> (Inr (), t)
        | (PutConflict, t) \<Rightarrow> (Inl FenceLost, t)
        | (PutFailed, t) \<Rightarrow> (Inl CommitFailed, t)))"

definition parses_u64 :: "string \<Rightarrow> bool" where
  "parses_u64 text =
     (let digits = (case text of [] \<Rightarrow> [] | c # rest \<Rightarrow> if c = CHR ''+'' then rest else text)
      in digits \<noteq> [] \<and> list_all is_ascii_digit digits
         \<and> foldl (\<lambda>v c. v * 10 + (of_char c - 48)) (0 :: nat) digits < 2 ^ 64)"

definition online_metadata :: "component list \<Rightarrow> bool" where
  "online_metadata relative =
     (case rev relative of
        Normal name # _ \<Rightarrow> (case split_once (CHR ''.'') name of
            None \<Rightarrow> False
          | Some (version, role) \<Rightarrow> parses_u64 version \<and> role \<in> {''targets.json'', ''snapshot.json''})
      | _ \<Rightarrow> False)"

definition publish_immutable_metadata ::
    "'s object_store \<Rightarrow> (component list \<Rightarrow> string option) \<Rightarrow> string \<Rightarrow> component list \<Rightarrow> component list
     \<Rightarrow> (mirror_error, 's, unit) io" where
  "publish_immutable_metadata B files key relative file =
     bind_io (pure_io (read_local_bounded files file LOCAL_TUF_METADATA_MAX_BYTES)) (\<lambda>bytes s.
       case os_create B key bytes s of
         (PutDone, t) \<Rightarrow> (Inr (), t)
       | (PutConflict, t) \<Rightarrow>
           bind_io (call_io RemoteUnreadable (read_object_bounded B key LOCAL_TUF_METADATA_MAX_BYTES)) (\<lambda>existing.
             pure_io (if existing = bytes then Inr ()
                      else Inl (if online_metadata relative then OnlineMetadataConflict else MetadataConflict))) t
       | (PutFailed, t) \<Rightarrow> (Inl UploadFailed, t))"

definition sha256_local_regular ::
    "mirror_lib \<Rightarrow> (component list \<Rightarrow> string option) \<Rightarrow> component list \<Rightarrow> mirror_error + string \<times> nat" where
  "sha256_local_regular X files file =
     bind_e (some_or LocalUnreadable (files file)) (\<lambda>bytes. Inr (ml_sha256 X bytes, length bytes))"

definition verify_remote_target ::
    "mirror_lib \<Rightarrow> 's object_store \<Rightarrow> string \<Rightarrow> string \<Rightarrow> nat \<Rightarrow> (mirror_error, 's, unit) io" where
  "verify_remote_target X B key expected_digest expected_length =
     bind_io (call_io RemoteAbsent (os_get B key)) (\<lambda>bytes.
       pure_io (if length bytes \<noteq> expected_length then Inl RemoteLength
                else if ml_sha256 X bytes \<noteq> expected_digest then Inl RemoteDigest
                else Inr ()))"

text \<open>
  The parts of a multipart upload: full parts, then a shorter last one, which is left out when it is
  empty and another part was sent.
\<close>

function upload_parts :: "string \<Rightarrow> bool \<Rightarrow> string list" where
  "upload_parts bytes uploaded_part =
     (let part = take PART_BYTES bytes
      in if part = [] \<and> uploaded_part then []
         else part # (if length part < PART_BYTES then [] else upload_parts (drop PART_BYTES bytes) True))"
  by pat_completeness auto
termination
  by (relation "measure (\<lambda>(bytes, _). length bytes)") (auto simp: PART_BYTES_def)

declare upload_parts.simps [simp del]

definition upload_repository_file ::
    "'s object_store \<Rightarrow> (component list \<Rightarrow> string option) \<Rightarrow> string \<Rightarrow> component list \<Rightarrow> (mirror_error, 's, unit) io" where
  "upload_repository_file B files key file =
     bind_io (pure_io (some_or LocalUnreadable (files file))) (\<lambda>bytes.
       call_io UploadFailed (os_multipart B key (upload_parts bytes False)))"

definition publish_content_addressed_target ::
    "mirror_lib \<Rightarrow> 's object_store \<Rightarrow> (component list \<Rightarrow> string option) \<Rightarrow> string \<Rightarrow> component list \<Rightarrow> string \<Rightarrow> nat
     \<Rightarrow> (mirror_error, 's, unit) io" where
  "publish_content_addressed_target X B files key file expected_digest expected_length s =
     (case os_head B key s of
        (Answered _, t) \<Rightarrow> verify_remote_target X B key expected_digest expected_length t
      | (Missing, t) \<Rightarrow>
          bind_io (upload_repository_file B files key file) (\<lambda>_.
            verify_remote_target X B key expected_digest expected_length) t
      | (Refused, t) \<Rightarrow> (Inl RemoteUnreadable, t))"

subsection \<open>One publication\<close>

record RetainedTarget =
  rt_path :: "component list"
  rt_length :: nat

record RepositoryPlan =
  rp_uploads :: "component list list"
  rp_retained_targets :: "RetainedTarget list"

definition relative_to :: "component list \<Rightarrow> component list \<Rightarrow> mirror_error + component list" where
  "relative_to repository_dir file = some_or NotBelowRepository (strip_path repository_dir file)"

definition verify_retained ::
    "mirror_lib \<Rightarrow> 's object_store \<Rightarrow> string \<Rightarrow> component list \<Rightarrow> RetainedTarget \<Rightarrow> (mirror_error, 's, unit) io" where
  "verify_retained X B prefix repository_dir target =
     bind_io (pure_io (relative_to repository_dir (rt_path target))) (\<lambda>relative.
     bind_io (pure_io (repository_object_key X prefix relative)) (\<lambda>key.
     bind_io (pure_io (content_addressed_target_digest relative)) (\<lambda>digest.
     bind_io (pure_io (some_or OutsideRepository digest)) (\<lambda>digest.
     verify_remote_target X B key digest (rt_length target)))))"

fun check_uploads ::
    "mirror_lib \<Rightarrow> (component list \<Rightarrow> string option) \<Rightarrow> component list \<Rightarrow> component list list
     \<Rightarrow> component list option \<times> (component list \<times> nat) list
     \<Rightarrow> mirror_error + component list option \<times> (component list \<times> nat) list" where
  "check_uploads X files repository_dir [] acc = Inr acc"
| "check_uploads X files repository_dir (file # rest) (root_file, validated) =
     bind_e (relative_to repository_dir file) (\<lambda>relative.
       if relative = ROOT_PATH
       then (if root_file \<noteq> None then Inl TwoRoots
             else check_uploads X files repository_dir rest (Some file, validated))
       else bind_e (content_addressed_target_digest relative) (\<lambda>digest. case digest of
           Some expected \<Rightarrow>
             bind_e (sha256_local_regular X files file) (\<lambda>(actual, len).
               if actual \<noteq> expected then Inl TargetDigestMismatch
               else check_uploads X files repository_dir rest (root_file, (relative, len) # validated))
         | None \<Rightarrow>
             if strip_path [Normal ''metadata''] relative = None then Inl OutsideRepository
             else check_uploads X files repository_dir rest (root_file, validated)))"

definition upload_one ::
    "mirror_lib \<Rightarrow> 's object_store \<Rightarrow> (component list \<Rightarrow> string option) \<Rightarrow> string \<Rightarrow> component list
     \<Rightarrow> (component list \<times> nat) list \<Rightarrow> component list \<Rightarrow> (mirror_error, 's, unit) io" where
  "upload_one X B files prefix repository_dir validated file =
     bind_io (pure_io (relative_to repository_dir file)) (\<lambda>relative.
       if relative = ROOT_PATH then done_io ()
       else bind_io (pure_io (repository_object_key X prefix relative)) (\<lambda>key.
         case map_of validated relative of
           Some len \<Rightarrow>
             bind_io (pure_io (bind_e (content_addressed_target_digest relative) (some_or NoContentAddress))) (\<lambda>expected.
             publish_content_addressed_target X B files key file expected len)
         | None \<Rightarrow> publish_immutable_metadata B files key relative file))"

definition write_generation ::
    "mirror_lib \<Rightarrow> 's object_store \<Rightarrow> (component list \<Rightarrow> string option) \<Rightarrow> string \<Rightarrow> component list \<Rightarrow> string
     \<Rightarrow> component list \<Rightarrow> component list \<Rightarrow> (component list \<times> nat) list \<Rightarrow> component list list \<Rightarrow> (mirror_error, 's, unit) io" where
  "write_generation X B files prefix repository_dir timestamp_key timestamp root_file validated uploads =
     (let root_key = object_key X prefix ''metadata/root.json''
      in bind_io (prepare_conditional_publication_file B files timestamp_key timestamp) (\<lambda>timestamp_write.
         bind_io (pure_io (validate_timestamp_transition X timestamp_write)) (\<lambda>_.
         bind_io (prepare_conditional_publication_file B files root_key root_file) (\<lambda>root_write.
         bind_io (each_io (upload_one X B files prefix repository_dir validated) uploads) (\<lambda>_.
         bind_io (commit_conditional_publication_file B root_key root_write) (\<lambda>_.
         commit_conditional_publication_file B timestamp_key timestamp_write))))))"

definition publish_repository ::
    "mirror_lib \<Rightarrow> 's object_store \<Rightarrow> (component list \<Rightarrow> string option) \<Rightarrow> string \<Rightarrow> component list \<Rightarrow> RepositoryPlan
     \<Rightarrow> (mirror_error, 's, unit) io" where
  "publish_repository X B files prefix repository_dir plan =
     bind_io (each_io (verify_retained X B prefix repository_dir) (rp_retained_targets plan)) (\<lambda>_.
     if rp_uploads plan = [] then pure_io (Inl NoTimestampCommit)
     else let timestamp = last (rp_uploads plan); uploads = butlast (rp_uploads plan)
     in bind_io (pure_io (relative_to repository_dir timestamp)) (\<lambda>timestamp_relative.
        bind_io (pure_io (check_e (timestamp_relative = TIMESTAMP_PATH) FinalNotTimestamp)) (\<lambda>_.
        bind_io (pure_io (repository_object_key X prefix timestamp_relative)) (\<lambda>timestamp_key.
        bind_io (pure_io (check_uploads X files repository_dir uploads (None, []))) (\<lambda>(root_file, validated).
        bind_io (pure_io (some_or NoRoot root_file)) (\<lambda>root_file.
        write_generation X B files prefix repository_dir timestamp_key timestamp root_file validated uploads))))))"

subsection \<open>Plain paths\<close>

text \<open>
  The names a repository uses: segments of letters, digits and \<open>-_.\<close>, also for the destination's
  prefix.
\<close>

definition plain_segment :: "string \<Rightarrow> bool" where
  "plain_segment segment \<longleftrightarrow>
     segment \<noteq> [] \<and> segment \<noteq> ''.'' \<and> segment \<noteq> ''..''
   \<and> list_all (\<lambda>c. is_ascii_alphanumeric c \<or> c \<in> set ''-_.'') segment"

definition plain_prefix :: "string \<Rightarrow> bool" where
  "plain_prefix prefix \<longleftrightarrow> list_all plain_segment (split_on (CHR ''/'') (trim_slashes prefix))"

definition plain_path :: "component list \<Rightarrow> bool" where
  "plain_path relative \<longleftrightarrow> relative \<noteq> [] \<and> (\<forall>c \<in> set relative. \<exists>part. c = Normal part \<and> plain_segment part)"

subsection \<open>What publishers do to the bucket\<close>

text \<open>
  The steps any publisher may take, as a relation between two contents of the bucket.  Immutable
  objects stay, a content-addressed one possibly rewritten with bytes of the digest in its name; a
  new content-addressed object has that digest; the timestamp is kept or replaced by one of a higher
  generation; and if every object the served timestamp commits to is there, that remains so.

  \<open>closure\<close> gives the objects a timestamp commits to through the metadata chain, with their digests.
\<close>

type_synonym bucket = "string \<Rightarrow> string option"

definition root_key :: "mirror_lib \<Rightarrow> string \<Rightarrow> string" where
  "root_key X prefix = object_key X prefix ''metadata/root.json''"

definition timestamp_key :: "mirror_lib \<Rightarrow> string \<Rightarrow> string" where
  "timestamp_key X prefix = object_key X prefix ''metadata/timestamp.json''"

definition addressed :: "mirror_lib \<Rightarrow> string \<Rightarrow> string \<Rightarrow> string \<Rightarrow> bool" where
  "addressed X prefix key digest \<longleftrightarrow>
     (\<exists>relative. plain_path relative \<and> content_addressed_target_digest relative = Inr (Some digest)
               \<and> repository_object_key X prefix relative = Inr key)"

definition holds :: "mirror_lib \<Rightarrow> bucket \<Rightarrow> string \<Rightarrow> string \<Rightarrow> bool" where
  "holds X objs key digest \<longleftrightarrow> (\<exists>bytes. objs key = Some bytes \<and> ml_sha256 X bytes = digest)"

definition keeps_objects :: "mirror_lib \<Rightarrow> string \<Rightarrow> bucket \<Rightarrow> bucket \<Rightarrow> bool" where
  "keeps_objects X prefix o1 o2 \<longleftrightarrow>
     (\<forall>key bytes. key \<notin> {root_key X prefix, timestamp_key X prefix} \<longrightarrow> o1 key = Some bytes \<longrightarrow>
        o2 key = Some bytes \<or> (addressed X prefix key (ml_sha256 X bytes) \<and> holds X o2 key (ml_sha256 X bytes)))"

definition new_addressed :: "mirror_lib \<Rightarrow> string \<Rightarrow> bucket \<Rightarrow> bucket \<Rightarrow> bool" where
  "new_addressed X prefix o1 o2 \<longleftrightarrow>
     (\<forall>key digest bytes. key \<notin> {root_key X prefix, timestamp_key X prefix} \<longrightarrow>
        addressed X prefix key digest \<longrightarrow> o1 key = None \<longrightarrow> o2 key = Some bytes \<longrightarrow>
        ml_sha256 X bytes = digest)"

definition supersedes :: "mirror_lib \<Rightarrow> string \<Rightarrow> string \<Rightarrow> bool" where
  "supersedes X old new \<longleftrightarrow>
     new = old \<or> (\<exists>v w. ml_signed_version X old = Some v \<and> ml_signed_version X new = Some w \<and> v < w)"

definition advances :: "mirror_lib \<Rightarrow> string \<Rightarrow> bucket \<Rightarrow> bucket \<Rightarrow> bool" where
  "advances X prefix o1 o2 \<longleftrightarrow>
     (\<forall>old. o1 (timestamp_key X prefix) = Some old \<longrightarrow>
        (\<exists>new. o2 (timestamp_key X prefix) = Some new \<and> supersedes X old new))"

definition complete_generation ::
    "mirror_lib \<Rightarrow> string \<Rightarrow> (string \<Rightarrow> (string \<times> string) set) \<Rightarrow> bucket \<Rightarrow> bool" where
  "complete_generation X prefix closure objs \<longleftrightarrow>
     (\<forall>timestamp. objs (timestamp_key X prefix) = Some timestamp \<longrightarrow>
        (\<forall>(key, digest) \<in> closure timestamp. holds X objs key digest))"

definition publishing ::
    "mirror_lib \<Rightarrow> string \<Rightarrow> (string \<Rightarrow> (string \<times> string) set) \<Rightarrow> bucket \<Rightarrow> bucket \<Rightarrow> bool" where
  "publishing X prefix closure o1 o2 \<longleftrightarrow>
     keeps_objects X prefix o1 o2 \<and> new_addressed X prefix o1 o2 \<and> advances X prefix o1 o2
   \<and> (complete_generation X prefix closure o1 \<longrightarrow> complete_generation X prefix closure o2)"

subsection \<open>What the store documents\<close>

text \<open>
  A call acts at one moment.  Before and after it, other publishers may have acted, by the relation
  \<open>R\<close>.  A creation succeeds only where nothing is, a conditional update only where the object has the
  given tag, and a tag identifies the bytes.  A call that is not answered may have taken effect.  The
  parts of an upload become visible together or not at all.
\<close>

definition documented_get :: "'s object_store \<Rightarrow> ('s \<Rightarrow> bucket) \<Rightarrow> (bucket \<Rightarrow> bucket \<Rightarrow> bool) \<Rightarrow> bool" where
  "documented_get B objects R \<longleftrightarrow>
     (\<forall>k s r t. os_get B k s = (r, t) \<longrightarrow>
        (\<exists>u. R (objects s) u \<and> R u (objects t)
             \<and> (\<forall>x. r = Answered x \<longrightarrow> u k = Some x) \<and> (r = Missing \<longrightarrow> u k = None)))"

definition documented_head :: "'s object_store \<Rightarrow> ('s \<Rightarrow> bucket) \<Rightarrow> (bucket \<Rightarrow> bucket \<Rightarrow> bool) \<Rightarrow> bool" where
  "documented_head B objects R \<longleftrightarrow>
     (\<forall>k s r t. os_head B k s = (r, t) \<longrightarrow>
        (\<exists>u. R (objects s) u \<and> R u (objects t)
             \<and> (r = Answered () \<longrightarrow> u k \<noteq> None) \<and> (r = Missing \<longrightarrow> u k = None)))"

definition documented_put_create :: "'s object_store \<Rightarrow> ('s \<Rightarrow> bucket) \<Rightarrow> (bucket \<Rightarrow> bucket \<Rightarrow> bool) \<Rightarrow> bool" where
  "documented_put_create B objects R \<longleftrightarrow>
     (\<forall>k bytes s r t. os_create B k bytes s = (r, t) \<longrightarrow>
        (\<exists>u v. R (objects s) u \<and> R v (objects t)
           \<and> ((v = u \<and> r \<noteq> PutDone) \<or> (u k = None \<and> v = u(k \<mapsto> bytes) \<and> r \<noteq> PutConflict))))"

definition documented_put_update :: "'s object_store \<Rightarrow> ('s \<Rightarrow> bucket) \<Rightarrow> (bucket \<Rightarrow> bucket \<Rightarrow> bool) \<Rightarrow> bool" where
  "documented_put_update B objects R \<longleftrightarrow>
     (\<forall>k tag bytes s r t. os_update B k tag bytes s = (r, t) \<longrightarrow>
        (\<exists>u v. R (objects s) u \<and> R v (objects t)
           \<and> ((v = u \<and> r \<noteq> PutDone)
              \<or> (\<exists>old. u k = Some old \<and> os_e_tag B old = tag \<and> v = u(k \<mapsto> bytes) \<and> r \<noteq> PutConflict))))"

definition documented_multipart :: "'s object_store \<Rightarrow> ('s \<Rightarrow> bucket) \<Rightarrow> (bucket \<Rightarrow> bucket \<Rightarrow> bool) \<Rightarrow> bool" where
  "documented_multipart B objects R \<longleftrightarrow>
     (\<forall>k parts s r t. os_multipart B k parts s = (r, t) \<longrightarrow>
        (\<exists>u v. R (objects s) u \<and> R v (objects t)
           \<and> ((v = u \<and> r \<noteq> Answered ()) \<or> v = u(k \<mapsto> concat parts))))"

definition documented_store :: "'s object_store \<Rightarrow> ('s \<Rightarrow> bucket) \<Rightarrow> (bucket \<Rightarrow> bucket \<Rightarrow> bool) \<Rightarrow> bool" where
  "documented_store B objects R \<longleftrightarrow>
     documented_get B objects R \<and> documented_head B objects R \<and> documented_put_create B objects R
   \<and> documented_put_update B objects R \<and> documented_multipart B objects R \<and> inj (os_e_tag B)"

text \<open>The path type of the store keeps a path of plain segments as it is.\<close>

definition documented_path :: "mirror_lib \<Rightarrow> bool" where
  "documented_path X \<longleftrightarrow>
     (\<forall>segments. segments \<noteq> [] \<longrightarrow> list_all plain_segment segments \<longrightarrow>
        ml_path X (join_slash segments) = join_slash segments)"

subsection \<open>Keys\<close>

lemma plain_no_slash: "plain_segment segment \<Longrightarrow> CHR ''/'' \<notin> set segment"
  by (auto simp: plain_segment_def list_all_iff is_ascii_alphanumeric_def is_ascii_digit_def is_ascii_lowercase_def
      is_ascii_uppercase_def byte_in_def)

lemma split_join_slash: "segments \<noteq> [] \<Longrightarrow> list_all plain_segment segments \<Longrightarrow> split_on (CHR ''/'') (join_slash segments) = segments"
  by (induction segments rule: join_slash.induct) (auto simp: split_on_no_sep split_on_append_sep plain_no_slash)

lemma join_slash_append:
  "xs \<noteq> [] \<Longrightarrow> ys \<noteq> [] \<Longrightarrow> join_slash (xs @ ys) = join_slash [join_slash xs, join_slash ys]"
proof (induction xs rule: join_slash.induct)
  case (2 part)
  then show ?case by (cases ys) auto
qed auto

lemma join_slash_not_Nil: "segments \<noteq> [] \<Longrightarrow> list_all plain_segment segments \<Longrightarrow> join_slash segments \<noteq> []"
  by (cases segments rule: join_slash.cases) (auto simp: plain_segment_def)

lemma join_split_slash: "join_slash (split_on (CHR ''/'') xs) = xs"
proof (induction xs)
  case (Cons x xs)
  then show ?case
    by (cases "split_on (CHR ''/'') xs" rule: join_slash.cases) auto
qed simp

lemma object_key_plain:
  assumes path: "documented_path X" and prefix: "plain_prefix prefix"
    and parts: "parts \<noteq> []" "list_all plain_segment parts"
  shows "object_key X prefix (join_slash parts) = trim_slashes prefix @ ''/'' @ join_slash parts"
proof -
  let ?ps = "split_on (CHR ''/'') (trim_slashes prefix)"
  have ps: "list_all plain_segment ?ps" "?ps \<noteq> []" using prefix by (simp_all add: plain_prefix_def)
  have join: "join_slash ?ps = trim_slashes prefix" by (rule join_split_slash)
  have nonempty: "trim_slashes prefix \<noteq> []" "join_slash parts \<noteq> []"
    using join_slash_not_Nil[OF ps(2,1)] join_slash_not_Nil[OF parts] join by simp_all
  have "ml_path X (join_slash (?ps @ parts)) = join_slash (?ps @ parts)"
    using path ps parts unfolding documented_path_def by simp
  then show ?thesis
    using nonempty join_slash_append[OF ps(2) parts(1)] by (simp add: object_key_def join)
qed

lemma plain_path_parts:
  assumes "plain_path relative"
  shows "map component_text relative \<noteq> []" and "list_all plain_segment (map component_text relative)"
    and "list_all is_normal relative"
  using assms by (auto simp: plain_path_def list_all_iff)

lemma component_text_inj:
  "plain_path xs \<Longrightarrow> plain_path ys \<Longrightarrow> map component_text xs = map component_text ys \<Longrightarrow> xs = ys"
proof (induction xs ys rule: list_induct2')
  case (4 x xs y ys)
  then show ?case by (cases "xs = []"; cases "ys = []") (auto simp: plain_path_def)
qed (auto simp: plain_path_def)

lemma object_keys_distinct:
  assumes path: "documented_path X" and prefix: "plain_prefix prefix" and plain: "plain_path xs" "plain_path ys"
    and eq: "repository_object_key X prefix xs = repository_object_key X prefix ys"
  shows "xs = ys"
proof -
  note px = plain_path_parts[OF plain(1)] and py = plain_path_parts[OF plain(2)]
  have "join_slash (map component_text xs) = join_slash (map component_text ys)"
    using eq px py object_key_plain[OF path prefix px(1,2)] object_key_plain[OF path prefix py(1,2)]
    by (simp add: repository_object_key_def)
  then have "map component_text xs = map component_text ys"
    using split_join_slash[OF px(1,2)] split_join_slash[OF py(1,2)] by metis
  then show ?thesis by (rule component_text_inj[OF plain])
qed

lemma plain_mutable: "plain_path ROOT_PATH" "plain_path TIMESTAMP_PATH"
  by (auto simp: plain_path_def ROOT_PATH_def TIMESTAMP_PATH_def plain_segment_def is_ascii_alphanumeric_def
      is_ascii_lowercase_def byte_in_def)

lemma mutable_keys:
  "repository_object_key X prefix ROOT_PATH = Inr (root_key X prefix)"
  "repository_object_key X prefix TIMESTAMP_PATH = Inr (timestamp_key X prefix)"
  by (simp_all add: repository_object_key_def root_key_def timestamp_key_def ROOT_PATH_def TIMESTAMP_PATH_def)

lemma immutable_key:
  assumes "documented_path X" "plain_prefix prefix" "plain_path relative" "repository_object_key X prefix relative = Inr key"
    and "relative \<noteq> ROOT_PATH" "relative \<noteq> TIMESTAMP_PATH"
  shows "key \<notin> {root_key X prefix, timestamp_key X prefix}"
  using object_keys_distinct[OF assms(1-3) plain_mutable(1)] object_keys_distinct[OF assms(1-3) plain_mutable(2)] assms(4-6)
  by (auto simp: mutable_keys)

lemma root_not_timestamp:
  assumes "documented_path X" "plain_prefix prefix"
  shows "root_key X prefix \<noteq> timestamp_key X prefix"
proof
  assume "root_key X prefix = timestamp_key X prefix"
  then have "ROOT_PATH = TIMESTAMP_PATH"
    using object_keys_distinct[OF assms plain_mutable] by (simp add: mutable_keys)
  then show False by (simp add: ROOT_PATH_def TIMESTAMP_PATH_def)
qed

subsection \<open>Parts\<close>

lemma upload_parts_concat: "concat (upload_parts bytes uploaded_part) = bytes"
proof (induction bytes uploaded_part rule: upload_parts.induct)
  case (1 bytes uploaded_part)
  let ?part = "take PART_BYTES bytes"
  show ?case
  proof (cases "?part = [] \<and> uploaded_part")
    case True
    then have "bytes = []" by (simp add: PART_BYTES_def)
    then show ?thesis using True by (subst upload_parts.simps) simp
  next
    case False
    then show ?thesis
      using 1[OF refl False] by (auto simp: upload_parts.simps[of bytes] Let_def)
  qed
qed

lemma upload_parts_sizes:
  "upload_parts bytes uploaded_part = xs @ part # ys \<Longrightarrow> length part \<le> PART_BYTES \<and> (ys \<noteq> [] \<longrightarrow> length part = PART_BYTES)"
proof (induction bytes uploaded_part arbitrary: xs rule: upload_parts.induct)
  case (1 bytes uploaded_part)
  show ?case
  proof (cases "take PART_BYTES bytes = [] \<and> uploaded_part")
    case True
    then show ?thesis using "1.prems" by (simp add: upload_parts.simps[of bytes] Let_def)
  next
    case False
    note unfolded = "1.prems"[unfolded upload_parts.simps[of bytes] Let_def if_not_P[OF False]]
    show ?thesis
    proof (cases xs)
      case Nil
      then show ?thesis using unfolded by (auto split: if_splits)
    next
      case (Cons x rest)
      then show ?thesis using unfolded "1.IH"[OF refl False, of rest] by (auto split: if_splits)
    qed
  qed
qed

subsection \<open>The steps of a publisher\<close>

lemma addressed_unique:
  assumes "documented_path X" "plain_prefix prefix" "addressed X prefix key d" "addressed X prefix key d'"
  shows "d = d'"
proof -
  obtain xs ys where x: "plain_path xs" "content_addressed_target_digest xs = Inr (Some d)" "repository_object_key X prefix xs = Inr key"
    and y: "plain_path ys" "content_addressed_target_digest ys = Inr (Some d')" "repository_object_key X prefix ys = Inr key"
    using assms(3,4) unfolding addressed_def by blast
  have "xs = ys" using object_keys_distinct[OF assms(1,2) x(1) y(1)] x(3) y(3) by simp
  then show ?thesis using x(2) y(2) by simp
qed

lemma not_addressed:
  assumes "documented_path X" "plain_prefix prefix" "plain_path relative" "repository_object_key X prefix relative = Inr key"
    and "content_addressed_target_digest relative = Inr None"
  shows "\<not> addressed X prefix key digest"
proof
  assume "addressed X prefix key digest"
  then obtain xs where x: "plain_path xs" "content_addressed_target_digest xs = Inr (Some digest)"
      "repository_object_key X prefix xs = Inr key"
    unfolding addressed_def by blast
  have "xs = relative" using object_keys_distinct[OF assms(1,2) x(1) assms(3)] x(3) assms(4) by simp
  then show False using x(2) assms(5) by simp
qed

lemma supersedes_refl [simp]: "supersedes X b b"
  by (simp add: supersedes_def)

lemma supersedes_trans: "supersedes X a b \<Longrightarrow> supersedes X b c \<Longrightarrow> supersedes X a c"
  by (auto simp: supersedes_def)

lemma publishing_refl [simp]: "publishing X prefix closure objs objs"
  by (auto simp: publishing_def keeps_objects_def new_addressed_def advances_def)

lemma keeps_objects_trans: "keeps_objects X prefix o1 o2 \<Longrightarrow> keeps_objects X prefix o2 o3 \<Longrightarrow> keeps_objects X prefix o1 o3"
  unfolding keeps_objects_def holds_def by metis

lemma holds_stable:
  assumes "publishing X prefix closure o1 o2" "holds X o1 key digest" "key \<notin> {root_key X prefix, timestamp_key X prefix}"
  shows "holds X o2 key digest"
  using assms unfolding publishing_def keeps_objects_def holds_def by metis

lemma publishing_trans:
  assumes "publishing X prefix closure o1 o2" "publishing X prefix closure o2 o3"
  shows "publishing X prefix closure o1 o3"
  unfolding publishing_def
proof (intro conjI)
  show "keeps_objects X prefix o1 o3" using assms keeps_objects_trans unfolding publishing_def by blast
  show "advances X prefix o1 o3" using assms supersedes_trans unfolding publishing_def advances_def by metis
  show "complete_generation X prefix closure o1 \<longrightarrow> complete_generation X prefix closure o3"
    using assms unfolding publishing_def by blast
  show "new_addressed X prefix o1 o3"
    unfolding new_addressed_def
  proof (intro allI impI)
    fix key digest bytes
    assume a: "key \<notin> {root_key X prefix, timestamp_key X prefix}" "addressed X prefix key digest" "o1 key = None" "o3 key = Some bytes"
    show "ml_sha256 X bytes = digest"
    proof (cases "o2 key")
      case None
      then show ?thesis using assms(2) a unfolding publishing_def new_addressed_def by blast
    next
      case (Some b)
      then have "ml_sha256 X b = digest" using assms(1) a unfolding publishing_def new_addressed_def by blast
      moreover have "o3 key = Some b \<or> holds X o3 key (ml_sha256 X b)"
        using assms(2) Some a(1) unfolding publishing_def keeps_objects_def by blast
      ultimately show ?thesis using a(4) by (auto simp: holds_def)
    qed
  qed
qed

definition closure_immutable :: "mirror_lib \<Rightarrow> string \<Rightarrow> (string \<Rightarrow> (string \<times> string) set) \<Rightarrow> bool" where
  "closure_immutable X prefix closure \<longleftrightarrow>
     (\<forall>timestamp. \<forall>(key, digest) \<in> closure timestamp. key \<notin> {root_key X prefix, timestamp_key X prefix})"

lemma holds_update_other: "holds X objs key digest \<Longrightarrow> k \<noteq> key \<Longrightarrow> holds X (objs(k \<mapsto> bytes)) key digest"
  by (auto simp: holds_def)

lemma complete_update:
  assumes "complete_generation X prefix closure objs" "k \<noteq> timestamp_key X prefix"
    and "\<And>digest. holds X objs k digest \<Longrightarrow> k \<noteq> root_key X prefix \<Longrightarrow> ml_sha256 X bytes = digest"
    and "closure_immutable X prefix closure"
  shows "complete_generation X prefix closure (objs(k \<mapsto> bytes))"
  unfolding complete_generation_def
proof (intro allI impI ballI, clarify)
  fix timestamp key digest
  assume a: "(objs(k \<mapsto> bytes)) (timestamp_key X prefix) = Some timestamp" "(key, digest) \<in> closure timestamp"
  have held: "holds X objs key digest" using a assms(1,2) unfolding complete_generation_def by auto
  have other: "key \<noteq> root_key X prefix" using a(2) assms(4) unfolding closure_immutable_def by auto
  show "holds X (objs(k \<mapsto> bytes)) key digest"
    using held other assms(3)[of digest] holds_update_other[OF held, of k bytes] by (cases "k = key") (auto simp: holds_def)
qed

lemma step_new:
  assumes "u k = None" "k \<notin> {root_key X prefix, timestamp_key X prefix}" "\<And>d. addressed X prefix k d \<Longrightarrow> ml_sha256 X bytes = d"
    and "closure_immutable X prefix closure"
  shows "publishing X prefix closure u (u(k \<mapsto> bytes))"
  unfolding publishing_def
proof (intro conjI impI)
  show "complete_generation X prefix closure (u(k \<mapsto> bytes))" if "complete_generation X prefix closure u"
    by (rule complete_update[OF that]) (use assms in \<open>auto simp: holds_def\<close>)
qed (use assms in \<open>auto simp: keeps_objects_def new_addressed_def advances_def\<close>)

lemma step_content:
  assumes "documented_path X" "plain_prefix prefix" "addressed X prefix k (ml_sha256 X bytes)"
    and "k \<notin> {root_key X prefix, timestamp_key X prefix}" "\<And>b. u k = Some b \<Longrightarrow> ml_sha256 X b = ml_sha256 X bytes"
    and "closure_immutable X prefix closure"
  shows "publishing X prefix closure u (u(k \<mapsto> bytes))"
  unfolding publishing_def
proof (intro conjI impI)
  show "keeps_objects X prefix u (u(k \<mapsto> bytes))"
    unfolding keeps_objects_def using assms(3,5) by (auto simp: holds_def)
  show "new_addressed X prefix u (u(k \<mapsto> bytes))"
    unfolding new_addressed_def using addressed_unique[OF assms(1-3)] by auto
  show "advances X prefix u (u(k \<mapsto> bytes))" using assms(4) by (auto simp: advances_def)
  show "complete_generation X prefix closure (u(k \<mapsto> bytes))" if "complete_generation X prefix closure u"
    by (rule complete_update[OF that]) (use assms in \<open>auto simp: holds_def\<close>)
qed

lemma step_root:
  assumes "documented_path X" "plain_prefix prefix" "closure_immutable X prefix closure"
  shows "publishing X prefix closure u (u(root_key X prefix \<mapsto> bytes))"
  unfolding publishing_def
proof (intro conjI impI)
  show "complete_generation X prefix closure (u(root_key X prefix \<mapsto> bytes))" if "complete_generation X prefix closure u"
    by (rule complete_update[OF that]) (use assms root_not_timestamp[OF assms(1,2)] in auto)
qed (use root_not_timestamp[OF assms(1,2)] in \<open>auto simp: keeps_objects_def new_addressed_def advances_def\<close>)

lemma step_timestamp:
  assumes "\<And>old. u (timestamp_key X prefix) = Some old \<Longrightarrow> supersedes X old bytes"
    and "\<And>key digest. (key, digest) \<in> closure bytes \<Longrightarrow> holds X u key digest" "closure_immutable X prefix closure"
  shows "publishing X prefix closure u (u(timestamp_key X prefix \<mapsto> bytes))"
  unfolding publishing_def
proof (intro conjI impI)
  show "complete_generation X prefix closure (u(timestamp_key X prefix \<mapsto> bytes))"
    unfolding complete_generation_def
    using assms(2,3) by (force simp: closure_immutable_def intro!: holds_update_other)
qed (use assms in \<open>auto simp: keeps_objects_def new_addressed_def advances_def\<close>)

subsection \<open>The calls of a publication\<close>

text \<open>What the theorems assume of the surroundings: the library and the store as documented.\<close>

definition mirror_context ::
    "mirror_lib \<Rightarrow> 's object_store \<Rightarrow> ('s \<Rightarrow> bucket) \<Rightarrow> string \<Rightarrow> (string \<Rightarrow> (string \<times> string) set) \<Rightarrow> bool" where
  "mirror_context X B objects prefix closure \<longleftrightarrow>
     documented_store B objects (publishing X prefix closure) \<and> documented_path X \<and> plain_prefix prefix
   \<and> closure_immutable X prefix closure"

lemma mirror_contextD:
  assumes "mirror_context X B objects prefix closure"
  shows "documented_store B objects (publishing X prefix closure)" "documented_path X" "plain_prefix prefix"
    "closure_immutable X prefix closure"
  using assms by (simp_all add: mirror_context_def)

lemma os_get_outcome:
  assumes "mirror_context X B objects prefix closure" "os_get B k s = (r, t)"
  obtains u where "publishing X prefix closure (objects s) u" "publishing X prefix closure u (objects t)"
    "\<And>x. r = Answered x \<Longrightarrow> u k = Some x" "r = Missing \<Longrightarrow> u k = None"
  using assms unfolding mirror_context_def documented_store_def documented_get_def by blast

lemma os_head_outcome:
  assumes "mirror_context X B objects prefix closure" "os_head B k s = (r, t)"
  obtains u where "publishing X prefix closure (objects s) u" "publishing X prefix closure u (objects t)"
    "r = Missing \<Longrightarrow> u k = None"
  using assms unfolding mirror_context_def documented_store_def documented_head_def by blast

lemma os_create_outcome:
  assumes "mirror_context X B objects prefix closure" "os_create B k bytes s = (r, t)"
  obtains u where "publishing X prefix closure (objects s) u" "publishing X prefix closure u (objects t)" "r \<noteq> PutDone"
  | u where "publishing X prefix closure (objects s) u" "publishing X prefix closure (u(k \<mapsto> bytes)) (objects t)"
    "u k = None" "r \<noteq> PutConflict"
  using assms unfolding mirror_context_def documented_store_def documented_put_create_def by blast

lemma os_update_outcome:
  assumes "mirror_context X B objects prefix closure" "os_update B k (os_e_tag B old) bytes s = (r, t)"
  obtains u where "publishing X prefix closure (objects s) u" "publishing X prefix closure u (objects t)" "r \<noteq> PutDone"
  | u where "publishing X prefix closure (objects s) u" "publishing X prefix closure (u(k \<mapsto> bytes)) (objects t)"
    "u k = Some old" "r \<noteq> PutConflict"
proof -
  have inj: "inj (os_e_tag B)" and upd: "documented_put_update B objects (publishing X prefix closure)"
    using assms(1) unfolding mirror_context_def documented_store_def by blast+
  obtain u v where uv: "publishing X prefix closure (objects s) u" "publishing X prefix closure v (objects t)"
      "(v = u \<and> r \<noteq> PutDone) \<or> (\<exists>b. u k = Some b \<and> os_e_tag B b = os_e_tag B old \<and> v = u(k \<mapsto> bytes) \<and> r \<noteq> PutConflict)"
    using documented_put_update_def[THEN iffD1, OF upd, rule_format, OF assms(2)] by blast
  from uv(3) show thesis
  proof
    assume "v = u \<and> r \<noteq> PutDone"
    then show thesis using that(1) uv(1,2) by blast
  next
    assume "\<exists>b. u k = Some b \<and> os_e_tag B b = os_e_tag B old \<and> v = u(k \<mapsto> bytes) \<and> r \<noteq> PutConflict"
    then show thesis using that(2) uv(1,2) injD[OF inj] by blast
  qed
qed

lemma os_multipart_outcome:
  assumes "mirror_context X B objects prefix closure" "os_multipart B k parts s = (r, t)"
  obtains u where "publishing X prefix closure (objects s) u" "publishing X prefix closure u (objects t)" "r \<noteq> Answered ()"
  | u where "publishing X prefix closure (objects s) u" "publishing X prefix closure (u(k \<mapsto> concat parts)) (objects t)"
  using assms unfolding mirror_context_def documented_store_def documented_multipart_def by blast

lemma wp_verify_remote:
  assumes ctx: "mirror_context X B objects prefix closure" and k: "key \<notin> {root_key X prefix, timestamp_key X prefix}"
  shows "wp (verify_remote_target X B key digest len)
           (\<lambda>_ t. publishing X prefix closure (objects s) (objects t) \<and> holds X (objects t) key digest)
           (\<lambda>_ t. publishing X prefix closure (objects s) (objects t)) s"
proof -
  obtain r t where call: "os_get B key s = (r, t)" by fastforce
  from os_get_outcome[OF ctx call] obtain u where
    u: "publishing X prefix closure (objects s) u" "publishing X prefix closure u (objects t)" "\<And>x. r = Answered x \<Longrightarrow> u key = Some x"
    by blast
  have st: "publishing X prefix closure (objects s) (objects t)" using publishing_trans[OF u(1,2)] .
  have "holds X (objects t) key digest" if "r = Answered b" "ml_sha256 X b = digest" for b
    by (rule holds_stable[OF u(2) _ k]) (use u(3)[OF that(1)] that(2) in \<open>simp add: holds_def\<close>)
  then show ?thesis
    using st by (cases r) (auto simp: verify_remote_target_def wp_def bind_io_def call_io_def pure_io_def call)
qed

lemma wp_publish_content:
  assumes ctx: "mirror_context X B objects prefix closure" and k: "key \<notin> {root_key X prefix, timestamp_key X prefix}"
    and local_file: "files file = Some bytes" "addressed X prefix key (ml_sha256 X bytes)"
  shows "wp (publish_content_addressed_target X B files key file (ml_sha256 X bytes) len)
           (\<lambda>_ t. publishing X prefix closure (objects s) (objects t) \<and> holds X (objects t) key (ml_sha256 X bytes))
           (\<lambda>_ t. publishing X prefix closure (objects s) (objects t)) s"
proof -
  let ?R = "publishing X prefix closure"
  note c = mirror_contextD[OF ctx]
  have verify: "wp (verify_remote_target X B key (ml_sha256 X bytes) len)
      (\<lambda>_ t. ?R (objects s) (objects t) \<and> holds X (objects t) key (ml_sha256 X bytes)) (\<lambda>_ t. ?R (objects s) (objects t)) u"
    if "?R (objects s) (objects u)" for u
    by (rule wp_mono[OF wp_verify_remote[OF ctx k]]) (use that publishing_trans in blast)+
  obtain r u where head: "os_head B key s = (r, u)" by fastforce
  from os_head_outcome[OF ctx head] obtain o1 where
    o1: "?R (objects s) o1" "?R o1 (objects u)" "r = Missing \<Longrightarrow> o1 key = None" by blast
  have su: "?R (objects s) (objects u)" using publishing_trans[OF o1(1,2)] .
  have up: "?R (objects s) (objects v)" if call: "os_multipart B key (upload_parts bytes False) u = (q, v)" and "r = Missing" for q v
    using os_multipart_outcome[OF ctx call]
  proof cases
    case (1 w)
    show ?thesis by (rule publishing_trans[OF su publishing_trans[OF 1(1,2)]])
  next
    case (2 w)
    have ow: "?R o1 w" using publishing_trans[OF o1(2) 2(1)] .
    have "?R w (w(key \<mapsto> bytes))"
    proof (rule step_content[OF c(2,3) local_file(2) k _ c(4)])
      show "ml_sha256 X b = ml_sha256 X bytes" if "w key = Some b" for b
        using ow that o1(3)[OF \<open>r = Missing\<close>] local_file(2) k unfolding publishing_def new_addressed_def by blast
    qed
    then have "?R (objects s) (w(key \<mapsto> bytes))" by (rule publishing_trans[OF publishing_trans[OF su 2(1)]])
    moreover have "?R (w(key \<mapsto> bytes)) (objects v)" using 2(2) by (simp only: upload_parts_concat)
    ultimately show ?thesis by (rule publishing_trans)
  qed
  have upload: "wp (upload_repository_file B files key file) (\<lambda>_ t. ?R (objects s) (objects t)) (\<lambda>_ t. ?R (objects s) (objects t)) u"
    if "r = Missing"
    using up that local_file(1)
    by (auto simp: upload_repository_file_def wp_simps some_or_def wp_def call_io_def split: prod.splits reply.splits)
  have missing: "wp (bind_io (upload_repository_file B files key file) (\<lambda>_. verify_remote_target X B key (ml_sha256 X bytes) len))
      (\<lambda>_ t. ?R (objects s) (objects t) \<and> holds X (objects t) key (ml_sha256 X bytes)) (\<lambda>_ t. ?R (objects s) (objects t)) u"
    if "r = Missing"
    unfolding wp_simps by (rule wp_mono[OF upload[OF that]]) (use verify in auto)
  show ?thesis
    using verify[OF su] missing su by (cases r) (auto simp: publish_content_addressed_target_def wp_def head)
qed

lemma read_object_outcome:
  assumes "mirror_context X B objects prefix closure" "read_object_bounded B k limit s = (r, t)"
  obtains u where "publishing X prefix closure (objects s) u" "publishing X prefix closure u (objects t)"
    "\<And>x. r = Answered x \<Longrightarrow> u k = Some x"
proof -
  obtain q t' where call: "os_get B k s = (q, t')" by fastforce
  obtain u where u: "publishing X prefix closure (objects s) u" "publishing X prefix closure u (objects t')"
      "\<And>x. q = Answered x \<Longrightarrow> u k = Some x"
    using os_get_outcome[OF assms(1) call] by blast
  have "t = t'" and "\<And>x. r = Answered x \<Longrightarrow> q = Answered x"
    using assms(2) by (auto simp: read_object_bounded_def call split: reply.splits if_splits)
  then show thesis using that u by blast
qed

lemma wp_publish_metadata:
  assumes ctx: "mirror_context X B objects prefix closure" and k: "key \<notin> {root_key X prefix, timestamp_key X prefix}"
    and metadata: "\<And>d. \<not> addressed X prefix key d"
  shows "wp (publish_immutable_metadata B files key relative file)
           (\<lambda>_ t. publishing X prefix closure (objects s) (objects t)
              \<and> (\<exists>bytes. files file = Some bytes \<and> holds X (objects t) key (ml_sha256 X bytes)))
           (\<lambda>_ t. publishing X prefix closure (objects s) (objects t)) s"
proof (cases "read_local_bounded files file LOCAL_TUF_METADATA_MAX_BYTES")
  case (Inl e)
  then show ?thesis by (simp add: publish_immutable_metadata_def wp_simps)
next
  case (Inr bytes)
  let ?R = "publishing X prefix closure"
  have local_file: "files file = Some bytes"
    using Inr by (auto simp: read_local_bounded_def bind_e_Inr_iff split: if_splits)
  obtain r t where call: "os_create B key bytes s = (r, t)" by fastforce
  have put: "?R (objects s) (objects t) \<and> (r = PutDone \<longrightarrow> holds X (objects t) key (ml_sha256 X bytes))"
    using os_create_outcome[OF ctx call]
  proof cases
    case (1 u)
    then show ?thesis using publishing_trans[OF 1(1,2)] by simp
  next
    case (2 u)
    have "?R u (u(key \<mapsto> bytes))" by (rule step_new[OF _ k]) (use 2(3) metadata mirror_contextD(4)[OF ctx] in auto)
    then have "?R (objects s) (objects t)" using publishing_trans[OF publishing_trans[OF 2(1)] 2(2)] by blast
    moreover have "holds X (objects t) key (ml_sha256 X bytes)"
      by (rule holds_stable[OF 2(2) _ k]) (simp add: holds_def)
    ultimately show ?thesis by simp
  qed
  obtain q v where read: "read_object_bounded B key LOCAL_TUF_METADATA_MAX_BYTES t = (q, v)" by fastforce
  obtain u where u: "?R (objects t) u" "?R u (objects v)" "\<And>x. q = Answered x \<Longrightarrow> u key = Some x"
    using read_object_outcome[OF ctx read] by blast
  have sv: "?R (objects s) (objects v)" using publishing_trans[OF conjunct1[OF put] publishing_trans[OF u(1,2)]] .
  have same: "holds X (objects v) key (ml_sha256 X bytes)" if "q = Answered bytes"
    by (rule holds_stable[OF u(2) _ k]) (use u(3)[OF that] in \<open>simp add: holds_def\<close>)
  show ?thesis
    using put sv same local_file Inr
    by (auto simp: publish_immutable_metadata_def wp_def bind_io_def pure_io_def call_io_def call read
        split: put_reply.splits reply.splits)
qed

text \<open>What a captured conditional write knows of the object it will replace.\<close>

definition captured :: "mirror_lib \<Rightarrow> 's object_store \<Rightarrow> string \<Rightarrow> ConditionalPublicationFile \<Rightarrow> bool" where
  "captured X B key write \<longleftrightarrow>
     (case cp_previous write of None \<Rightarrow> cp_mode write = PutCreate
      | Some previous \<Rightarrow> cp_mode write = PutUpdate (os_e_tag B previous))"

lemma wp_prepare:
  assumes ctx: "mirror_context X B objects prefix closure"
  shows "wp (prepare_conditional_publication_file B files key file)
           (\<lambda>w t. publishing X prefix closure (objects s) (objects t) \<and> captured X B key w \<and> files file = Some (cp_bytes w)
              \<and> (\<forall>previous. cp_previous w = Some previous \<longrightarrow>
                  (\<exists>u. publishing X prefix closure u (objects t) \<and> u key = Some previous)))
           (\<lambda>_ t. publishing X prefix closure (objects s) (objects t)) s"
proof (cases "read_local_bounded files file LOCAL_TUF_METADATA_MAX_BYTES")
  case (Inl e)
  then show ?thesis by (simp add: prepare_conditional_publication_file_def wp_simps)
next
  case (Inr bytes)
  have local_file: "files file = Some bytes"
    using Inr by (auto simp: read_local_bounded_def bind_e_Inr_iff split: if_splits)
  obtain r t where read: "read_object_bounded B key LOCAL_TUF_METADATA_MAX_BYTES s = (r, t)" by fastforce
  obtain u where u: "publishing X prefix closure (objects s) u" "publishing X prefix closure u (objects t)"
      "\<And>x. r = Answered x \<Longrightarrow> u key = Some x"
    using read_object_outcome[OF ctx read] by blast
  show ?thesis
    using publishing_trans[OF u(1,2)] u(2,3) local_file Inr
    by (cases r) (auto simp: prepare_conditional_publication_file_def wp_simps wp_def read captured_def)
qed

lemma wp_commit:
  assumes ctx: "mirror_context X B objects prefix closure" and w: "captured X B key w"
    and step: "\<And>u. publishing X prefix closure (objects s) u \<Longrightarrow> u key = cp_previous w \<Longrightarrow> cp_previous w \<noteq> Some (cp_bytes w) \<Longrightarrow>
      publishing X prefix closure u (u(key \<mapsto> cp_bytes w))"
  shows "wp (commit_conditional_publication_file B key w)
           (\<lambda>_ t. publishing X prefix closure (objects s) (objects t)
              \<and> (cp_previous w \<noteq> Some (cp_bytes w) \<longrightarrow> (\<exists>u. publishing X prefix closure u (objects t) \<and> u key = Some (cp_bytes w))))
           (\<lambda>_ t. publishing X prefix closure (objects s) (objects t)) s"
proof (cases "cp_previous w = Some (cp_bytes w)")
  case True
  then show ?thesis by (simp add: commit_conditional_publication_file_def wp_def)
next
  case False
  let ?R = "publishing X prefix closure"
  let ?put = "case cp_mode w of PutCreate \<Rightarrow> os_create B key (cp_bytes w) s | PutUpdate tag \<Rightarrow> os_update B key tag (cp_bytes w) s"
  obtain r t where call: "?put = (r, t)" by fastforce
  have done': "?R (objects s) (objects t) \<and> (\<exists>u. ?R u (objects t) \<and> u key = Some (cp_bytes w))"
    if "?R (objects s) u" "?R (u(key \<mapsto> cp_bytes w)) (objects t)" "u key = cp_previous w" for u
  proof
    show "?R (objects s) (objects t)"
      using publishing_trans[OF publishing_trans[OF that(1) step[OF that(1,3) False]] that(2)] .
    show "\<exists>u. ?R u (objects t) \<and> u key = Some (cp_bytes w)" using that(2) by (intro exI[of _ "u(key \<mapsto> cp_bytes w)"]) simp
  qed
  have "?R (objects s) (objects t) \<and> (r = PutDone \<longrightarrow> (\<exists>u. ?R u (objects t) \<and> u key = Some (cp_bytes w)))"
  proof (cases "cp_previous w")
    case None
    then have "os_create B key (cp_bytes w) s = (r, t)" using call w by (simp add: captured_def)
    from os_create_outcome[OF ctx this] show ?thesis
      by cases (use publishing_trans done' None in metis)+
  next
    case (Some previous)
    then have "os_update B key (os_e_tag B previous) (cp_bytes w) s = (r, t)" using call w by (simp add: captured_def)
    from os_update_outcome[OF ctx this] show ?thesis
      by cases (use publishing_trans done' Some in metis)+
  qed
  then show ?thesis
    using False call by (cases r) (auto simp: commit_conditional_publication_file_def wp_def)
qed

subsection \<open>The publication\<close>

text \<open>
  The objects a plan puts or verifies, with their digests, and what is assumed of a plan: its paths
  are plain and below the repository, the timestamp comes last and only there, and it covers what
  its timestamp commits to.
\<close>

definition upload_objects ::
    "mirror_lib \<Rightarrow> (component list \<Rightarrow> string option) \<Rightarrow> string \<Rightarrow> component list \<Rightarrow> component list list \<Rightarrow> (string \<times> string) set" where
  "upload_objects X files prefix repository_dir uploads =
     {(key, ml_sha256 X bytes) | file relative key bytes.
        file \<in> set uploads \<and> strip_path repository_dir file = Some relative \<and> relative \<noteq> ROOT_PATH
      \<and> repository_object_key X prefix relative = Inr key \<and> files file = Some bytes}"

definition retained_objects ::
    "mirror_lib \<Rightarrow> string \<Rightarrow> component list \<Rightarrow> RetainedTarget list \<Rightarrow> (string \<times> string) set" where
  "retained_objects X prefix repository_dir targets =
     {(key, digest) | target relative key digest.
        target \<in> set targets \<and> strip_path repository_dir (rt_path target) = Some relative
      \<and> repository_object_key X prefix relative = Inr key
      \<and> content_addressed_target_digest relative = Inr (Some digest)}"

definition sound_plan ::
    "mirror_lib \<Rightarrow> (component list \<Rightarrow> string option) \<Rightarrow> string \<Rightarrow> component list \<Rightarrow> (string \<Rightarrow> (string \<times> string) set)
     \<Rightarrow> RepositoryPlan \<Rightarrow> bool" where
  "sound_plan X files prefix repository_dir closure plan \<longleftrightarrow>
     (\<forall>file \<in> set (rp_uploads plan) \<union> rt_path ` set (rp_retained_targets plan). \<forall>relative.
        strip_path repository_dir file = Some relative \<longrightarrow> plain_path relative)
   \<and> (\<forall>file \<in> set (butlast (rp_uploads plan)). strip_path repository_dir file \<noteq> Some TIMESTAMP_PATH)
   \<and> (\<forall>timestamp. rp_uploads plan \<noteq> [] \<longrightarrow> files (last (rp_uploads plan)) = Some timestamp \<longrightarrow>
        closure timestamp \<subseteq> upload_objects X files prefix repository_dir (butlast (rp_uploads plan))
                            \<union> retained_objects X prefix repository_dir (rp_retained_targets plan))"

lemma addressed_not_mutable:
  assumes "content_addressed_target_digest relative = Inr (Some digest)"
  shows "relative \<noteq> ROOT_PATH" "relative \<noteq> TIMESTAMP_PATH"
  using assms by (auto simp: content_addressed_target_digest_def ROOT_PATH_def TIMESTAMP_PATH_def)

lemma wp_verify_retained:
  assumes ctx: "mirror_context X B objects prefix closure"
    and plain: "\<And>relative. strip_path repository_dir (rt_path target) = Some relative \<Longrightarrow> plain_path relative"
  shows "wp (verify_retained X B prefix repository_dir target)
           (\<lambda>_ t. publishing X prefix closure (objects s) (objects t)
              \<and> (\<forall>(key, digest) \<in> retained_objects X prefix repository_dir [target]. holds X (objects t) key digest))
           (\<lambda>_ t. publishing X prefix closure (objects s) (objects t)) s"
proof (cases "\<exists>relative key digest. strip_path repository_dir (rt_path target) = Some relative
    \<and> repository_object_key X prefix relative = Inr key \<and> content_addressed_target_digest relative = Inr (Some digest)")
  case False
  then show ?thesis
    by (auto simp: verify_retained_def relative_to_def wp_simps some_or_def split: option.splits sum.splits)
      (auto simp: wp_def bind_io_def pure_io_def some_or_def split: sum.splits option.splits)
next
  case True
  then obtain relative key digest where t: "strip_path repository_dir (rt_path target) = Some relative"
      "repository_object_key X prefix relative = Inr key" "content_addressed_target_digest relative = Inr (Some digest)"
    by blast
  have k: "key \<notin> {root_key X prefix, timestamp_key X prefix}"
    using immutable_key[OF mirror_contextD(2,3)[OF ctx] plain[OF t(1)] t(2) addressed_not_mutable[OF t(3)]] .
  have only: "retained_objects X prefix repository_dir [target] = {(key, digest)}"
    using t by (auto simp: retained_objects_def)
  show ?thesis
    unfolding only using wp_verify_remote[OF ctx k] t
    by (simp add: verify_retained_def relative_to_def wp_simps some_or_def)
qed

lemma strip_path_append: "strip_path dir f = Some r \<Longrightarrow> f = dir @ r"
  by (induction dir f rule: strip_path.induct) (auto split: if_splits)

text \<open>What the checks before the first write establish of the uploads.\<close>

lemma check_uploads_step:
  assumes "check_uploads X files dir (g # rest) (root, validated) = Inr out"
  obtains relative root1 validated1 where "strip_path dir g = Some relative"
    and "check_uploads X files dir rest (root1, validated1) = Inr out"
    and "(relative = ROOT_PATH \<and> root1 = Some g \<and> validated1 = validated)
       \<or> (\<exists>bytes. files g = Some bytes \<and> content_addressed_target_digest relative = Inr (Some (ml_sha256 X bytes))
             \<and> root1 = root \<and> validated1 = (relative, length bytes) # validated)
       \<or> (content_addressed_target_digest relative = Inr None \<and> root1 = root \<and> validated1 = validated)"
proof -
  obtain relative where rel: "strip_path dir g = Some relative"
    using assms by (auto simp: relative_to_def bind_e_Inr_iff)
  show thesis
  proof (cases "relative = ROOT_PATH")
    case True
    then show thesis
      using that[OF rel, of "Some g" validated] assms rel by (auto simp: relative_to_def some_or_def split: if_splits)
  next
    case False
    then obtain digest where digest: "content_addressed_target_digest relative = Inr digest"
      using assms rel by (auto simp: relative_to_def some_or_def bind_e_Inr_iff)
    show thesis
    proof (cases digest)
      case None
      then show thesis
        using that[OF rel, of root validated] assms rel digest False by (auto simp: relative_to_def some_or_def split: if_splits)
    next
      case (Some expected)
      then obtain bytes where bytes: "files g = Some bytes" "ml_sha256 X bytes = expected"
          "check_uploads X files dir rest (root, (relative, length bytes) # validated) = Inr out"
        using assms rel digest False
        by (cases "files g") (auto simp: relative_to_def some_or_def sha256_local_regular_def split: if_splits)
      then show thesis using that[OF rel bytes(3)] digest Some by simp
    qed
  qed
qed

lemma check_uploads_mono:
  "check_uploads X files dir uploads (root, validated) = Inr (root', validated') \<Longrightarrow>
     map_of validated relative \<noteq> None \<Longrightarrow> map_of validated' relative \<noteq> None"
proof (induction uploads arbitrary: root validated)
  case (Cons g rest)
  from Cons.prems(1) show ?case
    by (rule check_uploads_step) (use Cons.IH Cons.prems(2) in \<open>fastforce split: if_splits\<close>)
qed simp

lemma check_uploads_each:
  "check_uploads X files dir uploads (root, validated) = Inr (root', validated') \<Longrightarrow> f \<in> set uploads \<Longrightarrow>
     \<exists>relative. strip_path dir f = Some relative
       \<and> (relative = ROOT_PATH \<or> content_addressed_target_digest relative = Inr None \<or> map_of validated' relative \<noteq> None)"
proof (induction uploads arbitrary: root validated)
  case (Cons g rest)
  from Cons.prems(1) obtain relative root1 validated1 where step: "strip_path dir g = Some relative"
      "check_uploads X files dir rest (root1, validated1) = Inr (root', validated')"
      "relative = ROOT_PATH \<or> content_addressed_target_digest relative = Inr None \<or> map_of validated1 relative \<noteq> None"
    by (rule check_uploads_step) auto
  show ?case
  proof (cases "f = g")
    case True
    then show ?thesis using step check_uploads_mono[OF step(2), of relative] by auto
  next
    case False
    then show ?thesis using Cons.IH[OF step(2)] Cons.prems(2) by simp
  qed
qed simp

lemma check_uploads_validated:
  "check_uploads X files dir uploads (root, validated) = Inr (root', validated') \<Longrightarrow>
     (\<And>relative n. map_of validated relative = Some n \<Longrightarrow> \<exists>bytes. files (dir @ relative) = Some bytes
        \<and> content_addressed_target_digest relative = Inr (Some (ml_sha256 X bytes)) \<and> n = length bytes) \<Longrightarrow>
     map_of validated' relative = Some n \<Longrightarrow>
     \<exists>bytes. files (dir @ relative) = Some bytes
        \<and> content_addressed_target_digest relative = Inr (Some (ml_sha256 X bytes)) \<and> n = length bytes"
proof (induction uploads arbitrary: root validated)
  case (Cons g rest)
  from Cons.prems(1) obtain rel root1 validated1 where step: "strip_path dir g = Some rel"
      "check_uploads X files dir rest (root1, validated1) = Inr (root', validated')"
      "validated1 = validated \<or> (\<exists>bytes. files g = Some bytes
         \<and> content_addressed_target_digest rel = Inr (Some (ml_sha256 X bytes)) \<and> validated1 = (rel, length bytes) # validated)"
    by (rule check_uploads_step) auto
  have "\<exists>bytes. files (dir @ relative) = Some bytes
        \<and> content_addressed_target_digest relative = Inr (Some (ml_sha256 X bytes)) \<and> n = length bytes"
    if "map_of validated1 relative = Some n" for relative n
    using that step(3) Cons.prems(2)[of relative n] strip_path_append[OF step(1)] by (auto split: if_splits)
  then show ?case using Cons.IH[OF step(2)] Cons.prems(3) by blast
qed auto

lemma check_uploads_root:
  "check_uploads X files dir uploads (root, validated) = Inr (root', validated') \<Longrightarrow>
     (\<And>f. root = Some f \<Longrightarrow> strip_path dir f = Some ROOT_PATH) \<Longrightarrow> root' = Some f \<Longrightarrow> strip_path dir f = Some ROOT_PATH"
proof (induction uploads arbitrary: root validated)
  case (Cons g rest)
  from Cons.prems(1) show ?case
    by (rule check_uploads_step) (use Cons.IH Cons.prems(2,3) in auto)
qed auto

lemma plain_key: "plain_path relative \<Longrightarrow> \<exists>key. repository_object_key X prefix relative = Inr key"
  using plain_path_parts by (auto simp: repository_object_key_def)

lemma wp_upload_one:
  assumes ctx: "mirror_context X B objects prefix closure"
    and check: "check_uploads X files dir uploads (None, []) = Inr (root, validated)"
    and f: "f \<in> set uploads" "strip_path dir f \<noteq> Some TIMESTAMP_PATH"
    and plain: "\<And>relative. strip_path dir f = Some relative \<Longrightarrow> plain_path relative"
  shows "wp (upload_one X B files prefix dir validated f)
           (\<lambda>_ t. publishing X prefix closure (objects s) (objects t)
              \<and> (\<forall>(key, digest) \<in> upload_objects X files prefix dir [f]. holds X (objects t) key digest))
           (\<lambda>_ t. publishing X prefix closure (objects s) (objects t)) s"
proof -
  note c = mirror_contextD[OF ctx]
  obtain relative where rel: "strip_path dir f = Some relative"
      "relative = ROOT_PATH \<or> content_addressed_target_digest relative = Inr None \<or> map_of validated relative \<noteq> None"
    using check_uploads_each[OF check f(1)] by blast
  obtain key where key: "repository_object_key X prefix relative = Inr key" using plain_key[OF plain[OF rel(1)]] by blast
  show ?thesis
  proof (cases "relative = ROOT_PATH")
    case True
    then show ?thesis using rel(1) by (auto simp: upload_one_def relative_to_def some_or_def wp_simps upload_objects_def)
  next
    case False
    have k: "key \<notin> {root_key X prefix, timestamp_key X prefix}"
      using immutable_key[OF c(2,3) plain[OF rel(1)] key False] f(2) rel(1) by auto
    have only: "(\<forall>(key', digest) \<in> upload_objects X files prefix dir [f]. holds X objs key' digest)
        \<longleftrightarrow> (\<forall>bytes. files f = Some bytes \<longrightarrow> holds X objs key (ml_sha256 X bytes))" for objs
      using rel(1) key False by (auto simp: upload_objects_def)
    show ?thesis
    proof (cases "map_of validated relative")
      case None
      then have none: "content_addressed_target_digest relative = Inr None" using rel(2) False by auto
      note na = not_addressed[OF c(2,3) plain[OF rel(1)] key none]
      have "wp (publish_immutable_metadata B files key relative f)
          (\<lambda>_ t. publishing X prefix closure (objects s) (objects t)
             \<and> (\<forall>(key, digest) \<in> upload_objects X files prefix dir [f]. holds X (objects t) key digest))
          (\<lambda>_ t. publishing X prefix closure (objects s) (objects t)) s"
        unfolding only by (rule wp_mono[OF wp_publish_metadata[OF ctx k na]]) auto
      then show ?thesis
        using rel(1) False key None by (simp add: upload_one_def relative_to_def some_or_def wp_simps)
    next
      case (Some len)
      obtain bytes where b: "files f = Some bytes" "content_addressed_target_digest relative = Inr (Some (ml_sha256 X bytes))"
        using check_uploads_validated[OF check _ Some] strip_path_append[OF rel(1)] by auto
      have addr: "addressed X prefix key (ml_sha256 X bytes)"
        using plain[OF rel(1)] b(2) key unfolding addressed_def by blast
      have "wp (publish_content_addressed_target X B files key f (ml_sha256 X bytes) len)
          (\<lambda>_ t. publishing X prefix closure (objects s) (objects t)
             \<and> (\<forall>(key, digest) \<in> upload_objects X files prefix dir [f]. holds X (objects t) key digest))
          (\<lambda>_ t. publishing X prefix closure (objects s) (objects t)) s"
        unfolding only by (rule wp_mono[OF wp_publish_content[where files = files, OF ctx k b(1) addr]]) (use b(1) in auto)
      then show ?thesis
        using rel(1) False key Some b(2) by (simp add: upload_one_def relative_to_def some_or_def wp_simps)
    qed
  qed
qed

lemma wp_each_holding:
  assumes one: "\<And>x s. x \<in> set xs \<Longrightarrow> wp (f x)
       (\<lambda>_ t. publishing X prefix closure (objects s) (objects t) \<and> (\<forall>(key, digest) \<in> objs_of x. holds X (objects t) key digest))
       (\<lambda>_ t. publishing X prefix closure (objects s) (objects t)) s"
    and immutable: "\<And>x key digest. x \<in> set xs \<Longrightarrow> (key, digest) \<in> objs_of x \<Longrightarrow> key \<notin> {root_key X prefix, timestamp_key X prefix}"
  shows "wp (each_io f xs)
       (\<lambda>_ t. publishing X prefix closure (objects s) (objects t)
          \<and> (\<forall>x \<in> set xs. \<forall>(key, digest) \<in> objs_of x. holds X (objects t) key digest))
       (\<lambda>_ t. publishing X prefix closure (objects s) (objects t)) s"
proof (rule wp_each[where I = "\<lambda>zs t. publishing X prefix closure (objects s) (objects t) \<and> set zs \<subseteq> set xs
    \<and> (\<forall>x \<in> set zs. \<forall>(key, digest) \<in> objs_of x. holds X (objects t) key digest)"])
  fix x zs t
  assume x: "x \<in> set xs" and I: "publishing X prefix closure (objects s) (objects t) \<and> set zs \<subseteq> set xs
    \<and> (\<forall>x \<in> set zs. \<forall>(key, digest) \<in> objs_of x. holds X (objects t) key digest)"
  have keep: "holds X (objects u) key digest"
    if "publishing X prefix closure (objects t) (objects u)" "y \<in> set zs" "(key, digest) \<in> objs_of y" for u y key digest
  proof (rule holds_stable[OF that(1)])
    show "holds X (objects t) key digest" using I that(2,3) by blast
    show "key \<notin> {root_key X prefix, timestamp_key X prefix}" using I that(2,3) by (intro immutable[of y]) auto
  qed
  show "wp (f x) (\<lambda>_ u. publishing X prefix closure (objects s) (objects u) \<and> set (zs @ [x]) \<subseteq> set xs
      \<and> (\<forall>x \<in> set (zs @ [x]). \<forall>(key, digest) \<in> objs_of x. holds X (objects u) key digest))
      (\<lambda>_ u. publishing X prefix closure (objects s) (objects u)) t"
    by (rule wp_mono[OF one[OF x]]) (use I x keep publishing_trans in \<open>auto 0 3\<close>)
qed auto

lemma upload_objects_set: "upload_objects X files prefix dir fs = (\<Union>f\<in>set fs. upload_objects X files prefix dir [f])"
  by (auto simp: upload_objects_def)

lemma retained_objects_set: "retained_objects X prefix dir ts = (\<Union>t\<in>set ts. retained_objects X prefix dir [t])"
  by (auto simp: retained_objects_def)

lemma plan_objects_immutable:
  assumes "mirror_context X B objects prefix closure" "sound_plan X files prefix dir closure plan"
    and "(key, digest) \<in> upload_objects X files prefix dir (butlast (rp_uploads plan))
                        \<union> retained_objects X prefix dir (rp_retained_targets plan)"
  shows "key \<notin> {root_key X prefix, timestamp_key X prefix}"
proof -
  note c = mirror_contextD[OF assms(1)]
  obtain f relative where r: "repository_object_key X prefix relative = Inr key" "strip_path dir f = Some relative"
      "f \<in> set (rp_uploads plan) \<union> rt_path ` set (rp_retained_targets plan)"
      "relative \<noteq> ROOT_PATH" "relative \<noteq> TIMESTAMP_PATH"
  proof (cases "(key, digest) \<in> upload_objects X files prefix dir (butlast (rp_uploads plan))")
    case True
    then obtain f relative where u: "f \<in> set (butlast (rp_uploads plan))" "strip_path dir f = Some relative"
        "relative \<noteq> ROOT_PATH" "repository_object_key X prefix relative = Inr key"
      unfolding upload_objects_def by blast
    moreover have "relative \<noteq> TIMESTAMP_PATH" using u(1,2) assms(2) unfolding sound_plan_def by blast
    ultimately show thesis using that[of relative f] in_set_butlastD by fast
  next
    case False
    then obtain target relative where u: "target \<in> set (rp_retained_targets plan)" "strip_path dir (rt_path target) = Some relative"
        "repository_object_key X prefix relative = Inr key" "content_addressed_target_digest relative = Inr (Some digest)"
      using assms(3) unfolding retained_objects_def by blast
    then show thesis using that[of relative "rt_path target"] addressed_not_mutable[OF u(4)] by blast
  qed
  then have "plain_path relative" using assms(2) unfolding sound_plan_def by blast
  then show ?thesis using immutable_key[OF c(2,3) _ r(1) r(4,5)] by simp
qed

text \<open>A publication is served when every object of its plan is there and its timestamp was not passed over.\<close>

definition served ::
    "mirror_lib \<Rightarrow> (component list \<Rightarrow> string option) \<Rightarrow> string \<Rightarrow> component list \<Rightarrow> RepositoryPlan \<Rightarrow> bucket \<Rightarrow> bool" where
  "served X files prefix repository_dir plan objs \<longleftrightarrow>
     (\<forall>(key, digest) \<in> upload_objects X files prefix repository_dir (butlast (rp_uploads plan))
                       \<union> retained_objects X prefix repository_dir (rp_retained_targets plan). holds X objs key digest)
   \<and> (\<exists>timestamp current. files (last (rp_uploads plan)) = Some timestamp
        \<and> objs (timestamp_key X prefix) = Some current \<and> supersedes X timestamp current)"

lemma advanced_from:
  assumes "publishing X prefix closure u objs" "u (timestamp_key X prefix) = Some bytes"
  shows "\<exists>current. objs (timestamp_key X prefix) = Some current \<and> supersedes X bytes current"
  using assms unfolding publishing_def advances_def by blast

lemma transition_supersedes:
  assumes "validate_timestamp_transition X w = Inr ()" "cp_previous w = Some previous" "previous \<noteq> cp_bytes w"
  shows "supersedes X previous (cp_bytes w)"
proof -
  obtain v p where v: "ml_signed_version X (cp_bytes w) = Some v" "ml_signed_version X previous = Some p"
      "\<not> p > v" "\<not> (p = v \<and> previous \<noteq> cp_bytes w)"
    using assms(1,2) by (auto simp: validate_timestamp_transition_def bind_e_Inr_iff split: if_splits)
  then show ?thesis using assms(3) by (auto simp: supersedes_def)
qed

lemma wp_commit_timestamp:
  assumes ctx: "mirror_context X B objects prefix closure" and w: "captured X B (timestamp_key X prefix) w"
    and valid: "validate_timestamp_transition X w = Inr ()"
    and seen: "\<And>previous. cp_previous w = Some previous \<Longrightarrow>
      \<exists>u. publishing X prefix closure u (objects s) \<and> u (timestamp_key X prefix) = Some previous"
    and objs: "\<And>key digest. (key, digest) \<in> ks \<Longrightarrow> holds X (objects s) key digest \<and> key \<notin> {root_key X prefix, timestamp_key X prefix}"
    and covers: "closure (cp_bytes w) \<subseteq> ks"
  shows "wp (commit_conditional_publication_file B (timestamp_key X prefix) w)
           (\<lambda>_ t. publishing X prefix closure (objects s) (objects t) \<and> (\<forall>(key, digest) \<in> ks. holds X (objects t) key digest)
              \<and> (\<exists>current. objects t (timestamp_key X prefix) = Some current \<and> supersedes X (cp_bytes w) current))
           (\<lambda>_ t. publishing X prefix closure (objects s) (objects t)) s"
proof (rule wp_mono[OF wp_commit[OF ctx w]])
  let ?R = "publishing X prefix closure" and ?k = "timestamp_key X prefix"
  have held: "holds X u key digest" if "?R (objects s) u" "(key, digest) \<in> ks" for u key digest
    using holds_stable[OF that(1)] objs[OF that(2)] by blast
  show "?R u (u(?k \<mapsto> cp_bytes w))"
    if u: "?R (objects s) u" "u ?k = cp_previous w" "cp_previous w \<noteq> Some (cp_bytes w)" for u
  proof (rule step_timestamp[OF _ _ mirror_contextD(4)[OF ctx]])
    show "supersedes X old (cp_bytes w)" if "u ?k = Some old" for old
      using transition_supersedes[OF valid, of old] u(2,3) that by (cases "old = cp_bytes w") auto
    show "holds X u key digest" if "(key, digest) \<in> closure (cp_bytes w)" for key digest
      using held[OF u(1)] covers that by blast
  qed
  fix x t
  assume t: "?R (objects s) (objects t)
    \<and> (cp_previous w \<noteq> Some (cp_bytes w) \<longrightarrow> (\<exists>u. ?R u (objects t) \<and> u ?k = Some (cp_bytes w)))"
  have "\<exists>u. ?R u (objects t) \<and> u ?k = Some (cp_bytes w)"
    using t seen[of "cp_bytes w"] publishing_trans by blast
  then have "\<exists>current. objects t ?k = Some current \<and> supersedes X (cp_bytes w) current" using advanced_from by blast
  then show "?R (objects s) (objects t) \<and> (\<forall>(key, digest) \<in> ks. holds X (objects t) key digest)
      \<and> (\<exists>current. objects t ?k = Some current \<and> supersedes X (cp_bytes w) current)"
    using t held by blast
qed auto

lemma wp_commit_root:
  assumes ctx: "mirror_context X B objects prefix closure" and w: "captured X B (root_key X prefix) w"
  shows "wp (commit_conditional_publication_file B (root_key X prefix) w)
           (\<lambda>_ t. publishing X prefix closure (objects s) (objects t)) (\<lambda>_ t. publishing X prefix closure (objects s) (objects t)) s"
  by (rule wp_mono[OF wp_commit[OF ctx w]]) (use step_root[OF mirror_contextD(2-4)[OF ctx]] in auto)

text \<open>A timestamp write captured and validated earlier in the publication that started in \<open>s\<close>.\<close>

definition ready_timestamp ::
    "mirror_lib \<Rightarrow> 's object_store \<Rightarrow> string \<Rightarrow> (string \<Rightarrow> (string \<times> string) set) \<Rightarrow> bucket \<Rightarrow> ConditionalPublicationFile \<Rightarrow> bucket \<Rightarrow> bool" where
  "ready_timestamp X B prefix closure start w objs \<longleftrightarrow>
     publishing X prefix closure start objs \<and> captured X B (timestamp_key X prefix) w
   \<and> validate_timestamp_transition X w = Inr ()
   \<and> (\<forall>previous. cp_previous w = Some previous \<longrightarrow>
        (\<exists>v. publishing X prefix closure v objs \<and> v (timestamp_key X prefix) = Some previous))"

lemma ready_stable:
  assumes "ready_timestamp X B prefix closure start w o1" "publishing X prefix closure o1 o2"
  shows "ready_timestamp X B prefix closure start w o2"
  using assms publishing_trans[OF _ assms(2)] unfolding ready_timestamp_def by blast

text \<open>The two compare-and-swap commits, once everything the plan names is there.\<close>

lemma wp_commits:
  assumes ctx: "mirror_context X B objects prefix closure" and plan: "sound_plan X files prefix dir closure plan" "rp_uploads plan \<noteq> []"
    and ready: "ready_timestamp X B prefix closure start w (objects u)" "files (last (rp_uploads plan)) = Some (cp_bytes w)"
    and root: "captured X B (root_key X prefix) rw"
    and held: "\<And>key digest. (key, digest) \<in> upload_objects X files prefix dir (butlast (rp_uploads plan))
        \<union> retained_objects X prefix dir (rp_retained_targets plan) \<Longrightarrow> holds X (objects u) key digest"
  shows "wp (bind_io (commit_conditional_publication_file B (root_key X prefix) rw) (\<lambda>_.
             commit_conditional_publication_file B (timestamp_key X prefix) w))
           (\<lambda>_ t. publishing X prefix closure start (objects t) \<and> served X files prefix dir plan (objects t))
           (\<lambda>_ t. publishing X prefix closure start (objects t)) u"
  unfolding wp_simps
proof (rule wp_mono[OF wp_commit_root[OF ctx root]])
  let ?R = "publishing X prefix closure"
  let ?ks = "upload_objects X files prefix dir (butlast (rp_uploads plan)) \<union> retained_objects X prefix dir (rp_retained_targets plan)"
  have start: "?R start (objects u)" using ready(1) unfolding ready_timestamp_def by simp
  show "?R start (objects t)" if "?R (objects u) (objects t)" for t by (rule publishing_trans[OF start that])
  fix t
  assume ut: "?R (objects u) (objects t)"
  note r = ready_stable[OF ready(1) ut, unfolded ready_timestamp_def]
  show "wp (commit_conditional_publication_file B (timestamp_key X prefix) w)
      (\<lambda>_ t. ?R start (objects t) \<and> served X files prefix dir plan (objects t)) (\<lambda>_ t. ?R start (objects t)) t"
  proof (rule wp_mono[OF wp_commit_timestamp[OF ctx, where ks = ?ks]])
    show "captured X B (timestamp_key X prefix) w" "validate_timestamp_transition X w = Inr ()" using r by blast+
    show "\<exists>v. ?R v (objects t) \<and> v (timestamp_key X prefix) = Some previous" if "cp_previous w = Some previous" for previous
      using r that by blast
    show "holds X (objects t) key digest \<and> key \<notin> {root_key X prefix, timestamp_key X prefix}" if "(key, digest) \<in> ?ks" for key digest
      using holds_stable[OF ut held[OF that]] plan_objects_immutable[OF ctx plan(1) that] by blast
    show "closure (cp_bytes w) \<subseteq> ?ks" using plan ready(2) unfolding sound_plan_def by blast
    show "?R start (objects v)" if "?R (objects t) (objects v)" for v using publishing_trans[OF conjunct1[OF r] that] .
    then show "?R start (objects v) \<and> served X files prefix dir plan (objects v)"
      if "?R (objects t) (objects v) \<and> (\<forall>(key, digest) \<in> ?ks. holds X (objects v) key digest)
        \<and> (\<exists>current. objects v (timestamp_key X prefix) = Some current \<and> supersedes X (cp_bytes w) current)" for v
      using that ready(2) unfolding served_def by blast
  qed
qed

lemma wp_uploads:
  assumes ctx: "mirror_context X B objects prefix closure" and plan: "sound_plan X files prefix dir closure plan"
    and check: "check_uploads X files dir (butlast (rp_uploads plan)) (None, []) = Inr (root, validated)"
    and Q: "\<And>t. publishing X prefix closure (objects u) (objects t) \<Longrightarrow>
       (\<And>key digest. (key, digest) \<in> upload_objects X files prefix dir (butlast (rp_uploads plan)) \<Longrightarrow> holds X (objects t) key digest) \<Longrightarrow> Q () t"
    and E: "\<And>e t. publishing X prefix closure (objects u) (objects t) \<Longrightarrow> E e t"
  shows "wp (each_io (upload_one X B files prefix dir validated) (butlast (rp_uploads plan))) Q E u"
proof (rule wp_mono[OF wp_each_holding])
  let ?R = "publishing X prefix closure" and ?ups = "butlast (rp_uploads plan)"
  show "wp (upload_one X B files prefix dir validated f)
      (\<lambda>_ t. ?R (objects v) (objects t) \<and> (\<forall>(key, digest) \<in> upload_objects X files prefix dir [f]. holds X (objects t) key digest))
      (\<lambda>_ t. ?R (objects v) (objects t)) v" if "f \<in> set ?ups" for f v
    by (rule wp_upload_one[OF ctx check that])
      (use plan that in \<open>auto simp: sound_plan_def dest: in_set_butlastD\<close>)
  show "key \<notin> {root_key X prefix, timestamp_key X prefix}"
    if "f \<in> set ?ups" "(key, digest) \<in> upload_objects X files prefix dir [f]" for f key digest
    by (rule plan_objects_immutable[OF ctx plan]) (use that upload_objects_set[of X files prefix dir ?ups] in blast)
  show "Q x t" if t: "?R (objects u) (objects t)
      \<and> (\<forall>f \<in> set ?ups. \<forall>(key, digest) \<in> upload_objects X files prefix dir [f]. holds X (objects t) key digest)" for x t
  proof -
    have "Q () t" by (rule Q) (use t upload_objects_set[of X files prefix dir ?ups] in blast)+
    then show ?thesis by simp
  qed
  show "E e t" if "?R (objects u) (objects t)" for e t using E[OF that] .
qed

lemma wp_write_generation:
  assumes ctx: "mirror_context X B objects prefix closure" and plan: "sound_plan X files prefix dir closure plan" "rp_uploads plan \<noteq> []"
    and check: "check_uploads X files dir (butlast (rp_uploads plan)) (None, []) = Inr (root, validated)"
    and retained: "\<And>key digest. (key, digest) \<in> retained_objects X prefix dir (rp_retained_targets plan) \<Longrightarrow> holds X (objects s) key digest"
  shows "wp (write_generation X B files prefix dir (timestamp_key X prefix) (last (rp_uploads plan)) root_file validated (butlast (rp_uploads plan)))
           (\<lambda>_ t. publishing X prefix closure (objects s) (objects t) \<and> served X files prefix dir plan (objects t))
           (\<lambda>_ t. publishing X prefix closure (objects s) (objects t)) s" (is "wp _ ?Q ?E s")
proof -
  let ?R = "publishing X prefix closure" and ?ts = "last (rp_uploads plan)" and ?ups = "butlast (rp_uploads plan)"
  let ?ready = "\<lambda>w u. ready_timestamp X B prefix closure (objects s) w (objects u) \<and> files ?ts = Some (cp_bytes w)"
  let ?rest = "\<lambda>w rw. bind_io (each_io (upload_one X B files prefix dir validated) ?ups) (\<lambda>_.
      bind_io (commit_conditional_publication_file B (root_key X prefix) rw) (\<lambda>_.
      commit_conditional_publication_file B (timestamp_key X prefix) w))"
  have rest: "wp (?rest w rw) ?Q ?E u" if u: "?ready w u" "captured X B (root_key X prefix) rw" for w rw u
  proof -
    have su: "?R (objects s) (objects u)" using u(1) unfolding ready_timestamp_def by simp
    show ?thesis
      unfolding wp_bind[of "each_io _ _"]
    proof (rule wp_uploads[OF ctx plan(1) check])
      fix t
      assume ut: "?R (objects u) (objects t)"
      show "?E e t" for e using publishing_trans[OF su ut] .
      assume up: "\<And>key digest. (key, digest) \<in> upload_objects X files prefix dir ?ups \<Longrightarrow> holds X (objects t) key digest"
      have ret: "holds X (objects t) key digest" if "(key, digest) \<in> retained_objects X prefix dir (rp_retained_targets plan)" for key digest
        using holds_stable[OF publishing_trans[OF su ut] retained[OF that]] plan_objects_immutable[OF ctx plan(1)] that by blast
      show "wp (bind_io (commit_conditional_publication_file B (root_key X prefix) rw) (\<lambda>_.
          commit_conditional_publication_file B (timestamp_key X prefix) w)) ?Q ?E t"
        by (rule wp_commits[OF ctx plan ready_stable[OF conjunct1[OF u(1)] ut] conjunct2[OF u(1)] u(2)]) (use up ret in blast)
    qed
  qed
  have prepared_root: "wp (bind_io (prepare_conditional_publication_file B files (root_key X prefix) root_file) (?rest w)) ?Q ?E u"
    if u: "?ready w u" for w u
    unfolding wp_bind[of "prepare_conditional_publication_file _ _ _ _"]
  proof (rule wp_mono[OF wp_prepare[OF ctx]])
    have su: "?R (objects s) (objects u)" using u unfolding ready_timestamp_def by simp
    show "?R (objects s) (objects t)" if "?R (objects u) (objects t)" for t using publishing_trans[OF su that] .
    fix rw t
    assume "?R (objects u) (objects t) \<and> captured X B (root_key X prefix) rw \<and> files root_file = Some (cp_bytes rw)
      \<and> (\<forall>previous. cp_previous rw = Some previous \<longrightarrow> (\<exists>v. ?R v (objects t) \<and> v (root_key X prefix) = Some previous))"
    then show "wp (?rest w rw) ?Q ?E t" using rest[of w t rw] ready_stable[OF conjunct1[OF u]] u by blast
  qed
  show ?thesis
    unfolding write_generation_def Let_def root_key_def[symmetric] wp_bind[of "prepare_conditional_publication_file _ _ _ ?ts"]
  proof (rule wp_mono[OF wp_prepare[OF ctx]])
    fix w t
    assume t: "?R (objects s) (objects t) \<and> captured X B (timestamp_key X prefix) w \<and> files ?ts = Some (cp_bytes w)
      \<and> (\<forall>previous. cp_previous w = Some previous \<longrightarrow> (\<exists>v. ?R v (objects t) \<and> v (timestamp_key X prefix) = Some previous))"
    show "wp (bind_io (pure_io (validate_timestamp_transition X w)) (\<lambda>_.
        bind_io (prepare_conditional_publication_file B files (root_key X prefix) root_file) (?rest w))) ?Q ?E t"
    proof (cases "validate_timestamp_transition X w")
      case (Inl e)
      then show ?thesis using t by (simp add: wp_simps)
    next
      case (Inr x)
      then have "?ready w t" using t unfolding ready_timestamp_def by simp
      from prepared_root[OF this] show ?thesis
        unfolding Inr wp_bind[of "pure_io _"] wp_pure .
    qed
  qed
qed

lemma wp_publish:
  assumes ctx: "mirror_context X B objects prefix closure" and plan: "sound_plan X files prefix dir closure plan"
  shows "wp (publish_repository X B files prefix dir plan)
           (\<lambda>_ t. publishing X prefix closure (objects s) (objects t) \<and> served X files prefix dir plan (objects t))
           (\<lambda>_ t. publishing X prefix closure (objects s) (objects t)) s" (is "wp _ ?Q ?E s")
  unfolding publish_repository_def wp_bind[of "each_io _ _"]
proof (rule wp_mono[OF wp_each_holding])
  let ?R = "publishing X prefix closure"
  show "wp (verify_retained X B prefix dir target)
      (\<lambda>_ t. ?R (objects u) (objects t) \<and> (\<forall>(key, digest) \<in> retained_objects X prefix dir [target]. holds X (objects t) key digest))
      (\<lambda>_ t. ?R (objects u) (objects t)) u" if "target \<in> set (rp_retained_targets plan)" for target u
    by (rule wp_verify_retained[OF ctx]) (use plan that in \<open>auto simp: sound_plan_def\<close>)
  show "key \<notin> {root_key X prefix, timestamp_key X prefix}"
    if "target \<in> set (rp_retained_targets plan)" "(key, digest) \<in> retained_objects X prefix dir [target]" for target key digest
    by (rule plan_objects_immutable[OF ctx plan]) (use that retained_objects_set[of X prefix dir "rp_retained_targets plan"] in blast)
  fix x t
  assume t: "?R (objects s) (objects t)
    \<and> (\<forall>target \<in> set (rp_retained_targets plan). \<forall>(key, digest) \<in> retained_objects X prefix dir [target]. holds X (objects t) key digest)"
  have held: "holds X (objects t) key digest" if "(key, digest) \<in> retained_objects X prefix dir (rp_retained_targets plan)" for key digest
    using t that retained_objects_set[of X prefix dir "rp_retained_targets plan"] by blast
  have generation: "wp (write_generation X B files prefix dir (timestamp_key X prefix) (last (rp_uploads plan)) root_file validated (butlast (rp_uploads plan)))
      ?Q ?E t"
    if "rp_uploads plan \<noteq> []" "check_uploads X files dir (butlast (rp_uploads plan)) (None, []) = Inr (root, validated)" for root root_file validated
    by (rule wp_mono[OF wp_write_generation[OF ctx plan that held]]) (use t publishing_trans in \<open>blast+\<close>)
  show "wp (if rp_uploads plan = [] then pure_io (Inl NoTimestampCommit)
     else let timestamp = last (rp_uploads plan); uploads = butlast (rp_uploads plan)
     in bind_io (pure_io (relative_to dir timestamp)) (\<lambda>timestamp_relative.
        bind_io (pure_io (check_e (timestamp_relative = TIMESTAMP_PATH) FinalNotTimestamp)) (\<lambda>_.
        bind_io (pure_io (repository_object_key X prefix timestamp_relative)) (\<lambda>timestamp_key.
        bind_io (pure_io (check_uploads X files dir uploads (None, []))) (\<lambda>(root_file, validated).
        bind_io (pure_io (some_or NoRoot root_file)) (\<lambda>root_file.
        write_generation X B files prefix dir timestamp_key timestamp root_file validated uploads)))))) ?Q ?E t"
    using generation t
    by (cases "relative_to dir (last (rp_uploads plan))";
        cases "check_uploads X files dir (butlast (rp_uploads plan)) (None, [])")
      (auto simp: wp_simps Let_def check_e_def mutable_keys some_or_def split: option.splits)
qed


text \<open>A concrete bucket, whose calls fail by a list of faults: 1 refuses a call, 2 loses its reply.\<close>

record sample_bucket =
  sb_objects :: bucket
  sb_faults :: "nat list"

definition sb_fault :: "sample_bucket \<Rightarrow> nat" where
  "sb_fault s = (case sb_faults s of [] \<Rightarrow> 0 | f # _ \<Rightarrow> f)"

definition sb_next :: "sample_bucket \<Rightarrow> sample_bucket" where
  "sb_next s = s\<lparr>sb_faults := tl (sb_faults s)\<rparr>"

definition sb_put :: "bool \<Rightarrow> string \<Rightarrow> string \<Rightarrow> sample_bucket \<Rightarrow> put_reply \<times> sample_bucket" where
  "sb_put allowed k bytes s =
     (if sb_fault s = 1 then (PutFailed, sb_next s)
      else if \<not> allowed then (PutConflict, sb_next s)
      else (if sb_fault s = 2 then PutFailed else PutDone, (sb_next s)\<lparr>sb_objects := (sb_objects s)(k \<mapsto> bytes)\<rparr>))"

definition sample_store :: "sample_bucket object_store" where
  "sample_store =
     \<lparr>os_get = (\<lambda>k s. (if sb_fault s \<noteq> 0 then Refused else case sb_objects s k of None \<Rightarrow> Missing | Some b \<Rightarrow> Answered b, sb_next s)),
      os_head = (\<lambda>k s. (if sb_fault s \<noteq> 0 then Refused else case sb_objects s k of None \<Rightarrow> Missing | Some _ \<Rightarrow> Answered (), sb_next s)),
      os_create = (\<lambda>k bytes s. sb_put (sb_objects s k = None) k bytes s),
      os_update = (\<lambda>k tag bytes s. sb_put (sb_objects s k = Some tag) k bytes s),
      os_multipart = (\<lambda>k parts s. (if sb_fault s = 0 then Answered () else Refused,
         if sb_fault s = 1 then sb_next s else (sb_next s)\<lparr>sb_objects := (sb_objects s)(k \<mapsto> concat parts)\<rparr>)),
      os_e_tag = (\<lambda>bytes. bytes)\<rparr>"

lemma sb_next_objects [simp]: "sb_objects (sb_next s) = sb_objects s"
  by (simp add: sb_next_def)

lemma sample_store_documented:
  assumes "\<And>objs. R objs objs"
  shows "documented_store sample_store sb_objects R"
proof -
  have "documented_get sample_store sb_objects R" "documented_head sample_store sb_objects R"
    using assms by (auto simp: documented_get_def documented_head_def sample_store_def split: if_splits option.splits intro!: exI)
  moreover have "documented_put_create sample_store sb_objects R"
    unfolding documented_put_create_def
  proof (intro allI impI)
    fix k bytes s r t
    assume "os_create sample_store k bytes s = (r, t)"
    then show "\<exists>u v. R (sb_objects s) u \<and> R v (sb_objects t)
        \<and> (v = u \<and> r \<noteq> PutDone \<or> u k = None \<and> v = u(k \<mapsto> bytes) \<and> r \<noteq> PutConflict)"
      using assms by (intro exI[of _ "sb_objects s"] exI[of _ "sb_objects t"])
        (auto simp: sample_store_def sb_put_def split: if_splits)
  qed
  moreover have "documented_put_update sample_store sb_objects R"
    unfolding documented_put_update_def
  proof (intro allI impI)
    fix k tag bytes s r t
    assume "os_update sample_store k tag bytes s = (r, t)"
    then show "\<exists>u v. R (sb_objects s) u \<and> R v (sb_objects t) \<and> (v = u \<and> r \<noteq> PutDone
        \<or> (\<exists>old. u k = Some old \<and> os_e_tag sample_store old = tag \<and> v = u(k \<mapsto> bytes) \<and> r \<noteq> PutConflict))"
      using assms by (intro exI[of _ "sb_objects s"] exI[of _ "sb_objects t"])
        (auto simp: sample_store_def sb_put_def split: if_splits)
  qed
  moreover have "documented_multipart sample_store sb_objects R"
    unfolding documented_multipart_def
  proof (intro allI impI)
    fix k parts s r t
    assume "os_multipart sample_store k parts s = (r, t)"
    then show "\<exists>u v. R (sb_objects s) u \<and> R v (sb_objects t) \<and> (v = u \<and> r \<noteq> Answered () \<or> v = u(k \<mapsto> concat parts))"
      using assms by (intro exI[of _ "sb_objects s"] exI[of _ "sb_objects t"])
        (auto simp: sample_store_def split: if_splits)
  qed
  moreover have "inj (os_e_tag sample_store)" by (simp add: sample_store_def)
  ultimately show ?thesis by (simp add: documented_store_def)
qed

definition sample_address :: string where
  "sample_address = replicate 64 (CHR ''a'')"

definition sample_mirror :: mirror_lib where
  "sample_mirror = \<lparr>ml_sha256 = (\<lambda>_. sample_address), ml_signed_version = (\<lambda>bytes. Some (length bytes)), ml_path = (\<lambda>path. path)\<rparr>"

definition sample_target :: "component list" where
  "sample_target = [Normal ''targets'', Normal (sample_address @ ''.app'')]"

definition sample_repository :: "component list \<Rightarrow> string option" where
  "sample_repository file =
     (if file = Normal ''repo'' # sample_target then Some ''program''
      else if file = Normal ''repo'' # ROOT_PATH then Some ''root''
      else if file = Normal ''repo'' # TIMESTAMP_PATH then Some ''timestamp''
      else None)"

definition sample_repository_plan :: RepositoryPlan where
  "sample_repository_plan =
     \<lparr>rp_uploads = map (\<lambda>path. Normal ''repo'' # path) [sample_target, ROOT_PATH, TIMESTAMP_PATH], rp_retained_targets = []\<rparr>"

definition sample_closure :: "string \<Rightarrow> (string \<times> string) set" where
  "sample_closure timestamp =
     (if timestamp = ''timestamp'' then {(''routing/targets/'' @ sample_address @ ''.app'', sample_address)} else {})"

lemma sample_plain_target: "plain_path sample_target"
  by (auto simp: plain_path_def sample_target_def plain_segment_def sample_address_def list_all_iff is_ascii_alphanumeric_def
      is_ascii_lowercase_def byte_in_def)

lemma sample_target_digest: "content_addressed_target_digest sample_target = Inr (Some sample_address)"
proof -
  have "split_once (CHR ''.'') (sample_address @ CHR ''.'' # ''app'') = Some (sample_address, ''app'')"
    by (rule split_once_append) (simp add: sample_address_def)
  moreover have "is_canonical_sha256 sample_address"
    by (simp add: is_canonical_sha256_def sample_address_def list_all_iff is_ascii_digit_def byte_in_def)
  ultimately show ?thesis by (simp add: content_addressed_target_digest_def sample_target_def)
qed

lemma sample_destination: "plain_prefix ''routing''" "trim_slashes ''routing'' = ''routing''"
  by (simp_all add: plain_prefix_def trim_slashes_def plain_segment_def is_ascii_alphanumeric_def is_ascii_lowercase_def byte_in_def)

lemma sample_mirror_context: "mirror_context sample_mirror sample_store sb_objects ''routing'' sample_closure"
proof -
  have path: "documented_path sample_mirror" by (simp add: documented_path_def sample_mirror_def)
  have "root_key sample_mirror ''routing'' = ''routing/metadata/root.json''"
    "timestamp_key sample_mirror ''routing'' = ''routing/metadata/timestamp.json''"
    by (simp_all add: root_key_def timestamp_key_def object_key_def sample_mirror_def sample_destination)
  then have "closure_immutable sample_mirror ''routing'' sample_closure"
    by (auto simp: closure_immutable_def sample_closure_def)
  then show ?thesis
    using path sample_destination sample_store_documented[of "publishing sample_mirror ''routing'' sample_closure"]
    by (simp add: mirror_context_def)
qed

lemma sample_sound_plan: "sound_plan sample_mirror sample_repository ''routing'' [Normal ''repo''] sample_closure sample_repository_plan"
proof -
  have key: "repository_object_key sample_mirror ''routing'' sample_target = Inr (''routing/targets/'' @ sample_address @ ''.app'')"
    by (simp add: repository_object_key_def sample_target_def object_key_def sample_mirror_def sample_destination)
  have differ: "sample_target \<noteq> ROOT_PATH" "sample_target \<noteq> TIMESTAMP_PATH"
    using addressed_not_mutable[OF sample_target_digest] .
  have "(''routing/targets/'' @ sample_address @ ''.app'', ml_sha256 sample_mirror ''program'')
      \<in> upload_objects sample_mirror sample_repository ''routing'' [Normal ''repo''] (butlast (rp_uploads sample_repository_plan))"
    unfolding upload_objects_def using key differ
    by (intro CollectI exI[of _ "Normal ''repo'' # sample_target"] exI[of _ sample_target] exI[of _ "''program''"] exI conjI)
      (auto simp: sample_repository_plan_def sample_repository_def)
  then have "sample_closure ''timestamp''
      \<subseteq> upload_objects sample_mirror sample_repository ''routing'' [Normal ''repo''] (butlast (rp_uploads sample_repository_plan))"
    by (simp add: sample_closure_def sample_mirror_def)
  then show ?thesis
    using sample_plain_target plain_mutable differ
    by (auto simp: sound_plan_def sample_repository_plan_def sample_repository_def ROOT_PATH_def TIMESTAMP_PATH_def sample_closure_def)
qed

lemma upload_parts_short: "length bytes < PART_BYTES \<Longrightarrow> upload_parts bytes False = [bytes]"
  by (subst upload_parts.simps) simp

lemma sample_keys:
  "root_key sample_mirror ''routing'' = ''routing/metadata/root.json''"
  "timestamp_key sample_mirror ''routing'' = ''routing/metadata/timestamp.json''"
  "repository_object_key sample_mirror ''routing'' sample_target = Inr (''routing/targets/'' @ sample_address @ ''.app'')"
  by (simp_all add: root_key_def timestamp_key_def repository_object_key_def sample_target_def object_key_def sample_mirror_def
      sample_destination)

lemma sample_differ:
  "sample_target \<noteq> ROOT_PATH" "sample_target \<noteq> TIMESTAMP_PATH" "ROOT_PATH \<noteq> sample_target" "TIMESTAMP_PATH \<noteq> sample_target"
  "ROOT_PATH \<noteq> TIMESTAMP_PATH" "TIMESTAMP_PATH \<noteq> ROOT_PATH"
  using addressed_not_mutable[OF sample_target_digest] by (auto simp: ROOT_PATH_def TIMESTAMP_PATH_def)

lemma sample_files:
  "sample_repository (Normal ''repo'' # sample_target) = Some ''program''"
  "sample_repository (Normal ''repo'' # ROOT_PATH) = Some ''root''"
  "sample_repository (Normal ''repo'' # TIMESTAMP_PATH) = Some ''timestamp''"
  using sample_differ by (simp_all add: sample_repository_def)

lemma sample_checked:
  "check_uploads sample_mirror sample_repository [Normal ''repo''] [Normal ''repo'' # sample_target, Normal ''repo'' # ROOT_PATH] (None, [])
     = Inr (Some (Normal ''repo'' # ROOT_PATH), [(sample_target, 7)])"
  using sample_differ sample_files
  by (simp add: relative_to_def some_or_def sample_target_digest sha256_local_regular_def sample_mirror_def)

abbreviation calm_bucket :: "bucket \<Rightarrow> sample_bucket" where
  "calm_bucket objs \<equiv> \<lparr>sb_objects = objs, sb_faults = []\<rparr>"

lemma calm_calls:
  "os_get sample_store k (calm_bucket objs) = (case objs k of None \<Rightarrow> Missing | Some b \<Rightarrow> Answered b, calm_bucket objs)"
  "os_head sample_store k (calm_bucket objs) = (case objs k of None \<Rightarrow> Missing | Some _ \<Rightarrow> Answered (), calm_bucket objs)"
  "objs k = None \<Longrightarrow> os_create sample_store k b (calm_bucket objs) = (PutDone, calm_bucket (objs(k \<mapsto> b)))"
  "os_multipart sample_store k parts (calm_bucket objs) = (Answered (), calm_bucket (objs(k \<mapsto> concat parts)))"
  by (simp_all add: sample_store_def sb_fault_def sb_next_def sb_put_def)

lemma sample_upload:
  assumes "objs (''routing/targets/'' @ sample_address @ ''.app'') = None"
  shows "each_io (upload_one sample_mirror sample_store sample_repository ''routing'' [Normal ''repo''] [(sample_target, 7)])
           [Normal ''repo'' # sample_target, Normal ''repo'' # ROOT_PATH] (calm_bucket objs)
         = (Inr (), calm_bucket (objs(''routing/targets/'' @ sample_address @ ''.app'' \<mapsto> ''program'')))"
proof -
  have parts: "upload_parts ''program'' False = [''program'']" by (rule upload_parts_short) (simp add: PART_BYTES_def)
  have sha: "ml_sha256 sample_mirror b = sample_address" for b by (simp add: sample_mirror_def)
  show ?thesis
    using assms sample_differ
    by (simp add: upload_one_def bind_io_def pure_io_def done_io_def relative_to_def some_or_def sample_keys sample_target_digest
        publish_content_addressed_target_def upload_repository_file_def verify_remote_target_def call_io_def calm_calls
        sample_files parts sha)
qed

lemma sample_prepare:
  assumes "objs key = None" "sample_repository path = Some bytes" "length bytes \<le> LOCAL_TUF_METADATA_MAX_BYTES"
  shows "prepare_conditional_publication_file sample_store sample_repository key path (calm_bucket objs)
    = (Inr \<lparr>cp_bytes = bytes, cp_previous = None, cp_mode = PutCreate\<rparr>, calm_bucket objs)"
  using assms
  by (simp add: prepare_conditional_publication_file_def bind_io_def pure_io_def read_local_bounded_def some_or_def
      read_object_bounded_def calm_calls)

lemma sample_commit:
  assumes "objs key = None"
  shows "commit_conditional_publication_file sample_store key \<lparr>cp_bytes = bytes, cp_previous = None, cp_mode = PutCreate\<rparr> (calm_bucket objs)
    = (Inr (), calm_bucket (objs(key \<mapsto> bytes)))"
  using assms by (simp add: commit_conditional_publication_file_def calm_calls)

lemma sample_run:
  "fst (publish_repository sample_mirror sample_store sample_repository ''routing'' [Normal ''repo''] sample_repository_plan
     (calm_bucket (\<lambda>_. None))) = Inr ()"
proof -
  have key: "object_key sample_mirror ''routing'' ''metadata/root.json'' = ''routing/metadata/root.json''"
    using sample_keys(1) by (simp add: root_key_def)
  have version: "ml_signed_version sample_mirror b = Some (length b)" for b by (simp add: sample_mirror_def)
  have "write_generation sample_mirror sample_store sample_repository ''routing'' [Normal ''repo''] ''routing/metadata/timestamp.json''
      (Normal ''repo'' # TIMESTAMP_PATH) (Normal ''repo'' # ROOT_PATH) [(sample_target, 7)]
      [Normal ''repo'' # sample_target, Normal ''repo'' # ROOT_PATH] (calm_bucket (\<lambda>_. None))
    = (Inr (), calm_bucket ((\<lambda>_. None)(''routing/targets/'' @ sample_address @ ''.app'' \<mapsto> ''program'',
        ''routing/metadata/root.json'' \<mapsto> ''root'', ''routing/metadata/timestamp.json'' \<mapsto> ''timestamp'')))"
    by (simp add: write_generation_def Let_def bind_io_def pure_io_def key sample_prepare sample_files LOCAL_TUF_METADATA_MAX_BYTES_def
        validate_timestamp_transition_def version some_or_def sample_upload sample_commit del: each_io.simps)
  then show ?thesis
    by (simp add: publish_repository_def Let_def sample_repository_plan_def bind_io_def pure_io_def done_io_def relative_to_def some_or_def
        check_e_def mutable_keys sample_keys sample_checked del: check_uploads.simps)
qed


end
