(* ===== verification/Spec2Isabelle.thy ===== *)
theory Spec2Isabelle
  imports Store_Safety Recovery Rollout_Verdict Release_Route Reconcile_Types Admitted_State Repository_Mirror
begin

text \<open>
  A verification of \<^bold>\<open>updatedc\<close>, a fleet update system.  Paths below are relative to \<^verbatim>\<open>src/\<close>.

  \<^bold>\<open>The system.\<close>  A control plane (\<^verbatim>\<open>crates/updatec\<close>) reads the desired groups, sets and nodes, the
  reports the nodes signed and its own durable rollout state, and plans which deployment every node
  is handed next.  It signs the result as one repository generation and mirrors it to an object
  store.  An agent on each node (\<^verbatim>\<open>crates/agent\<close>, on the durable records of \<^verbatim>\<open>crates/updated\<close>) fetches
  its assignment, moves the node from one release to another under a journal that survives a crash
  at any point, and reports.  \<^verbatim>\<open>crates/updated-contracts\<close> holds the documents the two exchange and
  \<^verbatim>\<open>crates/foundation\<close> the durable writes.  So the parts meet in two places: the assignment the control
  plane publishes is what an agent installs, and the report an agent signs is the evidence the
  planner judges.

  \<^bold>\<open>Shared theories.\<close>
    \<^item> \<open>Prelude\<close>: error sums (\<open>check_e\<close>, \<open>bind_e\<close>), effectful actions with faults and crashes, the durable
      write of \<^verbatim>\<open>foundation/src/durable.rs\<close>, machine integers, string splitting.
    \<^item> \<open>Ordered_Map\<close>: \<^verbatim>\<open>BTreeMap<String, _>\<close> as sorted association lists.  Its laws are the locale
      \<open>ordered_table\<close>, interpreted on the map operations.
    \<^item> \<open>Identity\<close>: digests, name segments, DNS names and confined paths (\<^verbatim>\<open>digest.rs\<close>, \<^verbatim>\<open>identity.rs\<close>,
      \<^verbatim>\<open>path.rs\<close>).  A confined path resolves below its base.
    \<^item> \<open>Remote_Calls\<close>: sequences of calls to outside services and their weakest preconditions.

  \<^bold>\<open>The agent.\<close>
    \<^item> \<open>Transaction\<close>, \<open>Install\<close>, \<open>State\<close>, \<open>Rejections\<close> and \<open>Journal\<close> model \<^verbatim>\<open>transaction.rs\<close>, \<^verbatim>\<open>install.rs\<close>,
      \<^verbatim>\<open>state.rs\<close>, \<^verbatim>\<open>reject.rs\<close> and \<^verbatim>\<open>journal.rs\<close> of \<^verbatim>\<open>crates/updated/src\<close>: one record per struct, one
      definition per method.  Both transactions are interpretations of the locale \<open>journal_machine\<close>.
      Shown: every accepted history is valid, names one transaction, is bounded and gets stuck only at
      its terminal phases; a rejected candidate never commits; the rejection file round-trips and
      never loses an entry (locale \<open>evidence_ledger\<close>).
    \<^item> \<open>Store\<close> models \<^verbatim>\<open>agent/src/store.rs\<close>: the record files, the live rejections and the faults of the
      coming writes are its state, each method an action.  \<open>Store_Safety\<close> runs arbitrary sequences of
      them (locale \<open>guarded_write\<close>, once per authorised write; the ledger again through
      \<open>evidence_ledger\<close>): records stay readable, an owed journal is never buried, the installed unit
      changes only under matching intent.
    \<^item> \<open>Gate\<close> and \<open>Update\<close> model \<^verbatim>\<open>agent/src/update.rs\<close> from the journaled intent to the commit and
      \<^verbatim>\<open>transient.rs\<close>; \<open>Boot_Plan\<close> and \<open>Boot\<close> model \<^verbatim>\<open>boot.rs\<close>, \<^verbatim>\<open>domain.rs\<close>, \<^verbatim>\<open>recovery.rs\<close> and the boot
      sequence of \<^verbatim>\<open>main.rs\<close>.  The reconciler is a subprocess whose answers are read from the world.
    \<^item> \<open>Coherence\<close> states which installed record and active pointer may stand beside a journal in each
      phase.  \<open>Update_Safety\<close>, \<open>Boot_Safety\<close> and \<open>Life_Cycle\<close> show that updates and boots in any order,
      under any fault, crash or answer, keep it.  \<open>Recovery\<close> adds progress: a boot without faults
      finishes whatever was interrupted, on the candidate or on its exact predecessor.

  \<^bold>\<open>The documents.\<close>
    \<^item> \<open>Release_Graph\<close> models \<^verbatim>\<open>releases.rs\<close>; \<open>Release_Route\<close> shows that a route is a shortest supported
      path and that the route closure is exact.
    \<^item> \<open>Assignment\<close> (\<^verbatim>\<open>assignment.rs\<close>), \<open>Dataflow\<close> (\<^verbatim>\<open>dataflow.rs\<close>, \<^verbatim>\<open>bounded.rs\<close>) and \<open>Evidence\<close>
      (\<^verbatim>\<open>telemetry.rs\<close>, \<^verbatim>\<open>updatec/src/evidence.rs\<close>) model what is signed, uploaded and believed: identities,
      bounds, round trips, and which reports count.

  \<^bold>\<open>The control plane.\<close>
    \<^item> \<open>Schedule\<close> (\<^verbatim>\<open>window.rs\<close>): windows and calendars.
    \<^item> \<open>Dependencies\<close> (\<^verbatim>\<open>lib.rs\<close>) and \<open>Inputs\<close> (\<^verbatim>\<open>domain.rs\<close>): validation accepts exactly the well-wired
      acyclic graphs, and resolved inputs are values every judged producer proved.
    \<^item> \<open>Rollout\<close> models \<^verbatim>\<open>rollout.rs\<close> in the order of the file, composed by \<open>plan_rollouts\<close>.
      \<open>Rollout_Assign\<close>: what one generation may move, its budget and its progress.
      \<open>Rollout_Admission\<close>: gates, schedules and concurrency of an admission.  \<open>Rollout_Retention\<close>: no
      body a node is placed on is forgotten.  \<open>Rollout_Verdict\<close>: the meaning of halts, verdicts and the
      automatic rollback.
    \<^item> \<open>Publication\<close> (\<^verbatim>\<open>lib.rs\<close>): the targets a generation is compiled to are closed under reference.
    \<^item> \<open>Reconcile\<close> models the whole pass \<^verbatim>\<open>plan_reconcile\<close> of \<^verbatim>\<open>domain.rs\<close>, which calls all of the above;
      \<open>Reconcile_Safety\<close> shows what it guarantees to nodes already published, \<open>Reconcile_Types\<close> that
      what it returns is well typed.  \<open>Fleet_Sample\<close> is a concrete fleet on which these theorems are
      instantiated.
    \<^item> \<open>Admitted_State\<close> models \<^verbatim>\<open>runtime/admitted.rs\<close>: the sharded, double-buffered ConfigMaps refine one
      atomic register, whatever call fails.
    \<^item> \<open>Repository_Mirror\<close> models \<^verbatim>\<open>publish_repository\<close> of \<^verbatim>\<open>runtime/publish.rs\<close>: with any number of concurrent
      publishers a served timestamp is never replaced by an equal or lower generation and never
      precedes what it names.

  \<^bold>\<open>Parameters.\<close>  Code outside the repository is an argument of the definitions that use it: SHA-256
  and semver (\<open>ext\<close>, \<open>versions\<close>), the assignment encoder (\<open>publisher\<close>), the date parser
  (\<open>calendar_lib\<close>), base64, signatures and the report parser (\<open>report_lib\<close>), the dataflow and routing
  document codecs (\<open>dataflow_lib\<close>, \<open>document_lib\<close>), the Kubernetes client (\<open>configmap_api\<close>), the durable
  state codecs (\<open>state_lib\<close>), the object store (\<open>object_store\<close>) and its readers (\<open>mirror_lib\<close>).  What a
  theorem needs of them is a named hypothesis, such as \<open>documented_api\<close>, and its witness instantiates
  them with concrete functions.

  \<^bold>\<open>Bounds.\<close>  The depth-first validation of dependencies takes as fuel one more than the number of
  groups; every descent marks a group, so it is enough, and the theorem says that the call returns.
  The dependency order runs as many rounds as there are groups, and each round before the last places
  one.  Loops that may not end (\<open>cycle_violations\<close>, \<open>trace_back\<close>, \<open>spread\<close>) are partial functions with
  not returning as a value, and their theorems say that they return.  How often the recovery retries
  a transient fault depends on a clock, so the number of attempts is an argument and the theorems hold
  for all of them.

  \<^bold>\<open>Not modelled.\<close>  The steady-state loop of the agent and the acquisition of a candidate, the HTTP
  gateway, the admission webhook, alerts, enrolment, the reconcile driver, lease and status code of
  \<^verbatim>\<open>runtime/\<close>, the health proxy, the command-line tools and the metadata client of \<^verbatim>\<open>updated-tuf\<close>: they
  are sequences of network, process and file-system calls around the parts above, whose meaning lies
  in the services they call.  Of \<^verbatim>\<open>admitted.rs\<close> the recovery of a pending publication, and of \<^verbatim>\<open>publish.rs\<close>
  the reading of local metadata and the publication marker, are left out; of \<^verbatim>\<open>bundle.rs\<close> the unpacking
  of archives; of \<^verbatim>\<open>durable.rs\<close> temporary files and directory syncing.  Log lines and the text of error
  messages are not modelled anywhere.
\<close>

end
